(* ===== verification/Wire_Prelude.thy ===== *)
theory Wire_Prelude
  imports
    Main
    "HOL-Library.Word"
    "HOL-Library.Product_Lexorder"
    "HOL-Library.Multiset"
begin

text \<open>
  Shared vocabulary of the development: names for the machine types of the Rust sources, the
  few operations of the Rust standard library the components call (ASCII string functions,
  saturating and checked arithmetic, \<^verbatim>\<open>Iterator::find\<close>, \<^verbatim>\<open>Vec::retain\<close>), and the generic
  lemmas on lists and options the component theories rely on.

  A Rust \<^verbatim>\<open>str\<close> is a sequence of bytes, so it is a \<^typ>\<open>string\<close> (a list of 8-bit characters)
  here.  \<^verbatim>\<open>usize\<close> is the 64-bit one.  A \<^verbatim>\<open>Duration\<close> and an \<^verbatim>\<open>Instant\<close> are natural numbers of
  nanoseconds; every operation that reads the clock takes the current instant as an argument.
\<close>

section \<open>Machine types\<close>

type_synonym usize = nat
type_synonym u64 = nat
type_synonym u32 = nat
type_synonym u16 = "16 word"
type_synonym byte = "8 word"
type_synonym bytes = "8 word list"
type_synonym instant = nat
type_synonym duration = nat
type_synonym ('e, 'a) result = "'e + 'a"

definition USIZE_MAX :: usize where
  "USIZE_MAX = 18446744073709551615"

definition U64_MAX :: u64 where
  "U64_MAX = 18446744073709551615"

definition U32_MAX :: u32 where
  "U32_MAX = 4294967295"

definition millis :: "nat \<Rightarrow> duration" where
  "millis n = n * 1000000"

definition secs :: "nat \<Rightarrow> duration" where
  "secs n = n * 1000000000"

text \<open>\<^verbatim>\<open>Instant::elapsed\<close>: zero when the clock reads an earlier instant.\<close>

definition elapsed :: "instant \<Rightarrow> instant \<Rightarrow> duration" where
  "elapsed now since = now - since"

text \<open>\<^verbatim>\<open>saturating_add\<close> at a given maximum; \<^verbatim>\<open>saturating_sub\<close> is subtraction on \<^typ>\<open>nat\<close>.\<close>

definition saturating_add :: "nat \<Rightarrow> nat \<Rightarrow> nat \<Rightarrow> nat" where
  "saturating_add mx a b = min mx (a + b)"

definition checked_add :: "nat \<Rightarrow> nat \<Rightarrow> nat \<Rightarrow> nat option" where
  "checked_add mx a b = (if a + b \<le> mx then Some (a + b) else None)"

section \<open>ASCII string functions\<close>

definition ascii_lower :: "char \<Rightarrow> char" where
  "ascii_lower c =
     (let n = (of_char c :: nat) in if 65 \<le> n \<and> n \<le> 90 then char_of (n + 32) else c)"

definition to_ascii_lowercase :: "string \<Rightarrow> string" where
  "to_ascii_lowercase s = map ascii_lower s"

definition eq_ignore_ascii_case :: "string \<Rightarrow> string \<Rightarrow> bool" where
  "eq_ignore_ascii_case s t \<longleftrightarrow> to_ascii_lowercase s = to_ascii_lowercase t"

definition strip_prefix :: "'a list \<Rightarrow> 'a list \<Rightarrow> 'a list option" where
  "strip_prefix p s = (if take (length p) s = p then Some (drop (length p) s) else None)"

definition strip_suffix :: "'a list \<Rightarrow> 'a list \<Rightarrow> 'a list option" where
  "strip_suffix q s =
     (if length q \<le> length s \<and> drop (length s - length q) s = q
      then Some (take (length s - length q) s) else None)"

text \<open>
  \<^verbatim>\<open>str::trim\<close> and its one-sided variants on ASCII text: the bytes 9 to 13 and 32 are the ASCII
  white space of \<^verbatim>\<open>char::is_whitespace\<close>.  Every use in the sources is on text that has passed
  \<^verbatim>\<open>HeaderValue::to_str\<close>, or on an environment variable, which is taken to be ASCII.
\<close>

definition is_whitespace :: "char \<Rightarrow> bool" where
  "is_whitespace c \<longleftrightarrow> (let n = (of_char c :: nat) in 9 \<le> n \<and> n \<le> 13 \<or> n = 32)"

definition trim_start :: "string \<Rightarrow> string" where
  "trim_start s = dropWhile is_whitespace s"

definition trim_end_matches :: "(char \<Rightarrow> bool) \<Rightarrow> string \<Rightarrow> string" where
  "trim_end_matches P s = rev (dropWhile P (rev s))"

definition trim :: "string \<Rightarrow> string" where
  "trim s = trim_end_matches is_whitespace (trim_start s)"

text \<open>\<^verbatim>\<open>join(", ")\<close>.\<close>

fun join_comma :: "string list \<Rightarrow> string" where
  "join_comma [] = []"
| "join_comma [x] = x"
| "join_comma (x # y # xs) = x @ '', '' @ join_comma (y # xs)"

text \<open>\<^verbatim>\<open>str::split\<close> on one character: always at least one piece.\<close>

fun split_on :: "char \<Rightarrow> string \<Rightarrow> string list" where
  "split_on c [] = [[]]"
| "split_on c (x # xs) =
     (if x = c then [] # split_on c xs
      else case split_on c xs of [] \<Rightarrow> [[x]] | p # ps \<Rightarrow> (x # p) # ps)"

text \<open>\<^verbatim>\<open>split_once\<close> and \<^verbatim>\<open>rsplit_once\<close> on one character.\<close>

definition split_once :: "char \<Rightarrow> string \<Rightarrow> (string \<times> string) option" where
  "split_once c s =
     (if c \<in> set s
      then Some (takeWhile (\<lambda>x. x \<noteq> c) s, tl (dropWhile (\<lambda>x. x \<noteq> c) s)) else None)"

definition rsplit_once :: "char \<Rightarrow> string \<Rightarrow> (string \<times> string) option" where
  "rsplit_once c s = map_option (\<lambda>(a, b). (rev b, rev a)) (split_once c (rev s))"

text \<open>
  \<^verbatim>\<open>str::parse\<close> for an unsigned integer type with maximum \<open>mx\<close>: an optional plus sign, then
  decimal digits; the error is the display text of \<^verbatim>\<open>ParseIntError\<close>.
\<close>

definition is_digit :: "char \<Rightarrow> bool" where
  "is_digit c \<longleftrightarrow> (let n = (of_char c :: nat) in 48 \<le> n \<and> n \<le> 57)"

definition digit_value :: "char \<Rightarrow> nat" where
  "digit_value c = of_char c - 48"

definition digits_value :: "string \<Rightarrow> nat" where
  "digits_value s = foldl (\<lambda>acc c. acc * 10 + digit_value c) 0 s"

definition parse_uint :: "nat \<Rightarrow> string \<Rightarrow> (string, nat) result" where
  "parse_uint mx s =
     (if s = [] then Inl ''cannot parse integer from empty string''
      else let ds = (if length s \<ge> 2 \<and> hd s = CHR ''+'' then tl s else s) in
        if \<not> list_all is_digit ds then Inl ''invalid digit found in string''
        else if digits_value ds > mx then Inl ''number too large to fit in target type''
        else Inr (digits_value ds))"

text \<open>Decimal printing of an unsigned integer, \<^verbatim>\<open>to_string\<close>.\<close>

fun show_nat :: "nat \<Rightarrow> string" where
  "show_nat n = (if n < 10 then [char_of (48 + n)] else show_nat (n div 10) @ [char_of (48 + n mod 10)])"

declare show_nat.simps [simp del]

section \<open>Iterators and vectors\<close>

text \<open>\<^verbatim>\<open>Iterator::position\<close>.\<close>

fun position :: "('a \<Rightarrow> bool) \<Rightarrow> 'a list \<Rightarrow> nat option" where
  "position P [] = None"
| "position P (x # xs) = (if P x then Some 0 else map_option Suc (position P xs))"

text \<open>\<^verbatim>\<open>Vec::remove\<close> at an index in range.\<close>

definition remove_nth :: "nat \<Rightarrow> 'a list \<Rightarrow> 'a list" where
  "remove_nth i xs = take i xs @ drop (Suc i) xs"

text \<open>Pushing only the elements not seen yet, in order: the \<^verbatim>\<open>if !v.contains(x) { v.push(x) }\<close> loop.\<close>

fun push_unique :: "'a list \<Rightarrow> 'a list \<Rightarrow> 'a list" where
  "push_unique acc [] = acc"
| "push_unique acc (x # xs) = push_unique (if x \<in> set acc then acc else acc @ [x]) xs"

section \<open>Lemmas\<close>

named_theorems wire_defs \<open>definitions the component proofs unfold by default\<close>

lemma saturating_add_le [simp]: "saturating_add mx a b \<le> mx"
  by (simp add: saturating_add_def)

lemma checked_add_Some_iff [simp]: "checked_add mx a b = Some c \<longleftrightarrow> c = a + b \<and> a + b \<le> mx"
  by (auto simp: checked_add_def)

lemma checked_add_None_iff [simp]: "checked_add mx a b = None \<longleftrightarrow> mx < a + b"
  by (auto simp: checked_add_def)

lemma ascii_lower_idem [simp]: "ascii_lower (ascii_lower c) = ascii_lower c"
  by (auto simp: ascii_lower_def Let_def)

lemma to_ascii_lowercase_idem [simp]:
  "to_ascii_lowercase (to_ascii_lowercase s) = to_ascii_lowercase s"
  by (simp add: to_ascii_lowercase_def)

lemma length_to_ascii_lowercase [simp]: "length (to_ascii_lowercase s) = length s"
  by (simp add: to_ascii_lowercase_def)

lemma strip_prefix_Some_iff: "strip_prefix p s = Some r \<longleftrightarrow> s = p @ r"
  by (auto simp: strip_prefix_def) (metis append_take_drop_id)

lemma strip_suffix_Some_iff: "strip_suffix q s = Some r \<longleftrightarrow> s = r @ q"
proof
  assume "strip_suffix q s = Some r"
  then have "drop (length s - length q) s = q" "take (length s - length q) s = r"
    by (auto simp: strip_suffix_def split: if_splits)
  then show "s = r @ q" by (metis append_take_drop_id)
qed (simp add: strip_suffix_def)

lemma split_on_not_Nil [simp]: "split_on c a \<noteq> []"
  by (induction a) (auto split: list.split)

lemma split_on_plain: "c \<notin> set a \<Longrightarrow> split_on c a = [a]"
  by (induction a) auto

lemma split_on_append: "c \<notin> set a \<Longrightarrow> split_on c (a @ c # r) = a # split_on c r"
  by (induction a) auto

lemma trim_plain:
  assumes "\<forall>c \<in> set a. \<not> is_whitespace c"
  shows "trim a = a"
proof -
  have d: "dropWhile is_whitespace b = b" if "\<forall>c \<in> set b. \<not> is_whitespace c" for b
    using that by (cases b) auto
  show ?thesis using assms d [of a] d [of "rev a"] by (simp add: trim_def trim_start_def trim_end_matches_def)
qed

lemma trim_space: "trim (CHR '' '' # a) = trim a"
  by (simp add: trim_def trim_start_def is_whitespace_def)

lemma split_join_comma:
  assumes "ps \<noteq> []" and "\<forall>p \<in> set ps. \<forall>c \<in> set p. c \<noteq> CHR '','' \<and> \<not> is_whitespace c"
  shows "map trim (split_on (CHR '','') (join_comma ps)) = ps"
  using assms
proof (induction ps rule: join_comma.induct)
  case (2 p)
  then have "CHR '','' \<notin> set p" "trim p = p" by (auto intro!: trim_plain)
  then show ?case by (simp add: split_on_plain)
next
  case (3 p q ps)
  then have p: "CHR '','' \<notin> set p" "trim p = p" by (auto intro!: trim_plain)
  have "map trim (split_on (CHR '','') (CHR '' '' # r)) = map trim (split_on (CHR '','') r)" for r
    by (cases "split_on (CHR '','') r") (auto simp: trim_space split: list.split)
  then show ?case using 3 p by (simp add: split_on_append)
qed simp

lemma position_Some_iff:
  "position P xs = Some i \<longleftrightarrow> i < length xs \<and> P (xs ! i) \<and> (\<forall>j < i. \<not> P (xs ! j))"
proof (induction xs arbitrary: i)
  case Nil
  then show ?case by simp
next
  case (Cons x xs)
  show ?case
    by (cases i) (auto simp: Cons.IH less_Suc_eq_0_disj)
qed

lemma position_None_iff: "position P xs = None \<longleftrightarrow> (\<forall>x \<in> set xs. \<not> P x)"
  by (induction xs) auto

lemma find_SomeD: "List.find P xs = Some x \<Longrightarrow> x \<in> set xs \<and> P x"
  by (auto simp: find_Some_iff)

lemma find_sorted_wrt:
  assumes "List.find P xs = Some x" "sorted_wrt R xs" "y \<in> set xs" "P y"
  shows "y = x \<or> R x y"
proof -
  obtain k where k: "k < length xs" "xs ! k = x" "\<forall>j < k. \<not> P (xs ! j)"
    using assms(1) unfolding find_Some_iff by blast
  obtain l where l: "l < length xs" "xs ! l = y" using assms(3) by (auto simp: in_set_conv_nth)
  have "\<not> l < k" using k(3) l(2) assms(4) by blast
  then have "l = k \<or> k < l" by linarith
  then show ?thesis using assms(2) k l by (auto simp: sorted_wrt_iff_nth_less)
qed

lemma mset_push_front:
  "i < length xs \<Longrightarrow> mset (xs ! i # remove_nth i xs) = mset xs"
proof -
  assume "i < length xs"
  then have "xs = take i xs @ xs ! i # drop (Suc i) xs"
    by (rule id_take_nth_drop)
  then have "mset xs = mset (take i xs @ xs ! i # drop (Suc i) xs)"
    by (rule arg_cong)
  then show ?thesis by (simp add: remove_nth_def)
qed

lemma filter_neq_middle:
  assumes "distinct (ys @ x # zs)" shows "filter (\<lambda>y. y \<noteq> x) (ys @ x # zs) = ys @ zs"
proof -
  have "filter (\<lambda>y. y \<noteq> x) ys = ys" "filter (\<lambda>y. y \<noteq> x) zs = zs"
    using assms by (intro filter_True; force)+
  then show ?thesis by simp
qed

lemma remove_nth_filter:
  assumes "distinct xs" "i < length xs"
  shows "remove_nth i xs = filter (\<lambda>x. x \<noteq> xs ! i) xs"
  using filter_neq_middle [of "take i xs" "xs ! i" "drop (Suc i) xs"] id_take_nth_drop [OF assms(2)] assms(1)
  by (simp add: remove_nth_def)

lemma set_push_unique [simp]: "set (push_unique acc xs) = set acc \<union> set xs"
  by (induction acc xs rule: push_unique.induct) auto

lemma distinct_push_unique: "distinct acc \<Longrightarrow> distinct (push_unique acc xs)"
  by (induction acc xs rule: push_unique.induct) auto

end
