(* ===== verification/Wire_Error.thy ===== *)
theory Wire_Error
  imports Wire_Prelude
begin

text \<open>
  The error taxonomy of \<^verbatim>\<open>openwire-core/src/error.rs\<close>: an error carries its kind, the phase it
  was raised in, diagnostics, and, when it was raised while a connection was being established,
  the establishment stage with a retryable flag.  Every constructor of the source is a definition
  here.  A boxed source error is represented by its display string, an \<^verbatim>\<open>Authority\<close> by its text.
\<close>

section \<open>Data\<close>

datatype WireErrorKind =
    KInvalidRequest | KTimeout | KCanceled | KDns | KConnect | KTls | KProtocol | KRedirect
  | KBody | KInterceptor | KCapacity | KInternal

datatype FailurePhase =
    PRequestValidation | PAdmission | PDns | PTcp | PProxyTunnel | PTls | PProtocolBinding
  | PRequestExchange | PResponseHeaders | PResponseBody | PPolicy | PInterceptor | PInternal

datatype EstablishmentStage =
  EDns | ETcp | ETls | EProtocolBinding | EProxyTunnel | ERouteExhausted

text \<open>\<^verbatim>\<open>std::net::SocketAddr\<close>: an IPv6 socket address carries flow information and a scope.\<close>

datatype ip_addr = IpV4 "32 word" | IpV6 "128 word"

datatype socket_addr = SockV4 "32 word" u16 | SockV6 "128 word" u16 "32 word" "32 word"

record EstablishmentContext =
  ec_stage :: EstablishmentStage
  ec_retryable :: bool
  ec_connect_timeout :: bool

record WireErrorDiagnostics =
  wd_authority :: "string option"
  wd_proxy_addr :: "socket_addr option"
  wd_response_status :: "nat option"
  wd_request_committed :: bool

record WireError =
  we_kind :: WireErrorKind
  we_phase :: FailurePhase
  we_message :: string
  we_diagnostics :: WireErrorDiagnostics
  we_establishment :: "EstablishmentContext option"
  we_source :: "string option"

section \<open>Operations\<close>

fun default_phase :: "WireErrorKind \<Rightarrow> FailurePhase" where
  "default_phase KInvalidRequest = PRequestValidation"
| "default_phase KTimeout = PRequestExchange"
| "default_phase KCanceled = PRequestExchange"
| "default_phase KDns = PDns"
| "default_phase KConnect = PTcp"
| "default_phase KTls = PTls"
| "default_phase KProtocol = PRequestExchange"
| "default_phase KRedirect = PPolicy"
| "default_phase KBody = PResponseBody"
| "default_phase KInterceptor = PInterceptor"
| "default_phase KCapacity = PAdmission"
| "default_phase KInternal = PInternal"

fun phase_for_establishment :: "EstablishmentStage \<Rightarrow> FailurePhase" where
  "phase_for_establishment EDns = PDns"
| "phase_for_establishment ETcp = PTcp"
| "phase_for_establishment ERouteExhausted = PTcp"
| "phase_for_establishment ETls = PTls"
| "phase_for_establishment EProtocolBinding = PProtocolBinding"
| "phase_for_establishment EProxyTunnel = PProxyTunnel"

definition diagnostics_default :: WireErrorDiagnostics where
  "diagnostics_default =
     \<lparr>wd_authority = None, wd_proxy_addr = None, wd_response_status = None,
      wd_request_committed = False\<rparr>"

definition wire_error_new :: "WireErrorKind \<Rightarrow> string \<Rightarrow> WireError" where
  "wire_error_new kind message =
     \<lparr>we_kind = kind, we_phase = default_phase kind, we_message = message,
      we_diagnostics = diagnostics_default, we_establishment = None, we_source = None\<rparr>"

definition with_source :: "WireErrorKind \<Rightarrow> string \<Rightarrow> string \<Rightarrow> WireError" where
  "with_source kind message source =
     \<lparr>we_kind = kind, we_phase = default_phase kind, we_message = message,
      we_diagnostics = diagnostics_default, we_establishment = None, we_source = Some source\<rparr>"

definition request_committed :: "WireError \<Rightarrow> bool" where
  "request_committed e = wd_request_committed (we_diagnostics e)"

definition establishment_stage :: "WireError \<Rightarrow> EstablishmentStage option" where
  "establishment_stage e = map_option ec_stage (we_establishment e)"

definition is_retryable_establishment :: "WireError \<Rightarrow> bool" where
  "is_retryable_establishment e =
     (case we_establishment e of None \<Rightarrow> False | Some c \<Rightarrow> ec_retryable c)"

definition is_connect_timeout :: "WireError \<Rightarrow> bool" where
  "is_connect_timeout e =
     (case we_establishment e of None \<Rightarrow> False | Some c \<Rightarrow> ec_connect_timeout c)"

definition is_non_retryable_connect :: "WireError \<Rightarrow> bool" where
  "is_non_retryable_connect e =
     (case we_establishment e of None \<Rightarrow> False
      | Some c \<Rightarrow> ec_stage c = ETcp \<and> \<not> ec_retryable c)"

definition with_phase :: "FailurePhase \<Rightarrow> WireError \<Rightarrow> WireError" where
  "with_phase phase e = e\<lparr>we_phase := phase\<rparr>"

definition with_authority :: "string \<Rightarrow> WireError \<Rightarrow> WireError" where
  "with_authority authority e =
     e\<lparr>we_diagnostics := (we_diagnostics e)\<lparr>wd_authority := Some authority\<rparr>\<rparr>"

definition with_proxy_addr :: "socket_addr \<Rightarrow> WireError \<Rightarrow> WireError" where
  "with_proxy_addr proxy_addr e =
     e\<lparr>we_diagnostics := (we_diagnostics e)\<lparr>wd_proxy_addr := Some proxy_addr\<rparr>\<rparr>"

definition with_response_status :: "nat \<Rightarrow> WireError \<Rightarrow> WireError" where
  "with_response_status response_status e =
     e\<lparr>we_diagnostics := (we_diagnostics e)\<lparr>wd_response_status := Some response_status\<rparr>\<rparr>"

definition with_request_committed :: "WireError \<Rightarrow> WireError" where
  "with_request_committed e =
     e\<lparr>we_diagnostics := (we_diagnostics e)\<lparr>wd_request_committed := True\<rparr>\<rparr>"

definition with_establishment :: "EstablishmentStage \<Rightarrow> bool \<Rightarrow> WireError \<Rightarrow> WireError" where
  "with_establishment stage retryable e =
     e\<lparr>we_phase := phase_for_establishment stage,
       we_establishment :=
         Some \<lparr>ec_stage = stage, ec_retryable = retryable, ec_connect_timeout = False\<rparr>\<rparr>"

definition with_connect_timeout :: "WireError \<Rightarrow> WireError" where
  "with_connect_timeout e =
     e\<lparr>we_establishment := map_option (\<lambda>c. c\<lparr>ec_connect_timeout := True\<rparr>) (we_establishment e)\<rparr>"

definition err_invalid_request :: "string \<Rightarrow> WireError" where
  "err_invalid_request m = wire_error_new KInvalidRequest m"

definition err_timeout :: "string \<Rightarrow> WireError" where
  "err_timeout m = wire_error_new KTimeout m"

definition err_body_timeout :: "string \<Rightarrow> WireError" where
  "err_body_timeout m =
     with_request_committed (with_phase PResponseBody (wire_error_new KTimeout m))"

definition err_connect_timeout :: "string \<Rightarrow> WireError" where
  "err_connect_timeout m =
     with_connect_timeout (with_establishment ETcp True (wire_error_new KTimeout m))"

definition err_canceled :: "string \<Rightarrow> WireError" where
  "err_canceled m = wire_error_new KCanceled m"

definition err_dns :: "string \<Rightarrow> string \<Rightarrow> WireError" where
  "err_dns m source = with_establishment EDns True (with_source KDns m source)"

definition err_connect :: "string \<Rightarrow> string \<Rightarrow> WireError" where
  "err_connect m source = with_source KConnect m source"

definition err_tcp_connect :: "string \<Rightarrow> string \<Rightarrow> WireError" where
  "err_tcp_connect m source = with_establishment ETcp True (with_source KConnect m source)"

definition err_connect_non_retryable :: "string \<Rightarrow> WireError" where
  "err_connect_non_retryable m = with_establishment ETcp False (wire_error_new KConnect m)"

definition err_tls :: "string \<Rightarrow> string \<Rightarrow> WireError" where
  "err_tls m source = with_establishment ETls True (with_source KTls m source)"

definition err_tls_non_retryable :: "string \<Rightarrow> string \<Rightarrow> WireError" where
  "err_tls_non_retryable m source = with_establishment ETls False (with_source KTls m source)"

definition err_protocol :: "string \<Rightarrow> string \<Rightarrow> WireError" where
  "err_protocol m source = with_source KProtocol m source"

definition err_protocol_binding :: "string \<Rightarrow> string \<Rightarrow> WireError" where
  "err_protocol_binding m source =
     with_establishment EProtocolBinding True (with_source KProtocol m source)"

definition err_proxy_tunnel :: "string \<Rightarrow> string \<Rightarrow> WireError" where
  "err_proxy_tunnel m source =
     with_establishment EProxyTunnel True (with_source KConnect m source)"

definition err_proxy_tunnel_non_retryable :: "string \<Rightarrow> WireError" where
  "err_proxy_tunnel_non_retryable m =
     with_establishment EProxyTunnel False (wire_error_new KConnect m)"

definition err_route_exhausted :: "string \<Rightarrow> WireError" where
  "err_route_exhausted m = with_establishment ERouteExhausted True (wire_error_new KConnect m)"

definition err_redirect :: "string \<Rightarrow> WireError" where
  "err_redirect m = wire_error_new KRedirect m"

definition err_body :: "string \<Rightarrow> string \<Rightarrow> WireError" where
  "err_body m source = with_request_committed (with_source KBody m source)"

definition err_interceptor :: "string \<Rightarrow> string \<Rightarrow> WireError" where
  "err_interceptor m source = with_source KInterceptor m source"

definition err_capacity :: "string \<Rightarrow> WireError" where
  "err_capacity m = wire_error_new KCapacity m"

definition err_internal :: "string \<Rightarrow> string \<Rightarrow> WireError" where
  "err_internal m source = with_source KInternal m source"

text \<open>
  An error is \<^emph>\<open>coherent\<close> when a connect timeout is only recorded together with an establishment
  stage that is retryable, and when the phase of an error with an establishment stage is the
  phase of that stage.
\<close>

definition coherent_error :: "WireError \<Rightarrow> bool" where
  "coherent_error e =
     (case we_establishment e of
        None \<Rightarrow> True
      | Some c \<Rightarrow> we_phase e = phase_for_establishment (ec_stage c)
                 \<and> (ec_connect_timeout c \<longrightarrow> ec_retryable c))"

section \<open>Lemmas\<close>

lemmas wire_error_base_defs =
  diagnostics_default_def wire_error_new_def with_source_def with_phase_def with_authority_def
  with_proxy_addr_def with_response_status_def with_request_committed_def
  with_establishment_def with_connect_timeout_def

lemmas wire_error_ctor_defs =
  err_invalid_request_def err_timeout_def err_body_timeout_def err_connect_timeout_def
  err_canceled_def err_dns_def err_connect_def err_tcp_connect_def err_connect_non_retryable_def
  err_tls_def err_tls_non_retryable_def err_protocol_def err_protocol_binding_def
  err_proxy_tunnel_def err_proxy_tunnel_non_retryable_def err_route_exhausted_def
  err_redirect_def err_body_def err_interceptor_def err_capacity_def err_internal_def

lemmas wire_error_query_defs =
  request_committed_def establishment_stage_def is_retryable_establishment_def
  is_connect_timeout_def is_non_retryable_connect_def

lemma coherent_new [simp]: "coherent_error (wire_error_new k m)"
  by (simp add: coherent_error_def wire_error_base_defs)

lemma coherent_with_source [simp]: "coherent_error (with_source k m s)"
  by (simp add: coherent_error_def wire_error_base_defs)

lemma coherent_with_establishment [simp]: "coherent_error (with_establishment st r e)"
  by (simp add: coherent_error_def wire_error_base_defs)

lemma coherent_with_diagnostics [simp]:
  "coherent_error (with_request_committed e) = coherent_error e"
  "coherent_error (with_response_status n e) = coherent_error e"
  "coherent_error (with_proxy_addr a e) = coherent_error e"
  "coherent_error (with_authority s e) = coherent_error e"
  by (simp_all add: coherent_error_def wire_error_base_defs split: option.splits)

lemma coherent_with_connect_timeout:
  "coherent_error e \<Longrightarrow> is_retryable_establishment e \<or> we_establishment e = None
   \<Longrightarrow> coherent_error (with_connect_timeout e)"
  by (auto simp: coherent_error_def wire_error_base_defs is_retryable_establishment_def
      split: option.splits)

end
