(* ===== verification/Http_Types.thy ===== *)
theory Http_Types
  imports Wire_Prelude
begin

text \<open>
  What the client code observes of the types of the \<^verbatim>\<open>http\<close> and \<^verbatim>\<open>url\<close> crates.  A \<^verbatim>\<open>Uri\<close> and a
  \<^verbatim>\<open>Url\<close> are records of the results of the accessors the code calls on them; all theorems hold
  for every such record.  A status code is its number.  A header map is an abstract type with an
  explicit record of operations: what the code relies on is the predicate \<open>header_map_laws\<close>, the
  documented behaviour of \<^verbatim>\<open>http::HeaderMap\<close>.
\<close>

section \<open>Uri and Url\<close>

record uri =
  uri_scheme_str :: "string option"
  uri_host :: "string option"
  uri_port_u16 :: "u16 option"
  uri_authority :: "string option"
  uri_text :: string

record url =
  url_scheme :: string
  url_host_str :: "string option"
  url_port_or_known_default :: "u16 option"
  url_username :: string
  url_password :: "string option"
  url_text :: string

section \<open>Methods, versions, status codes\<close>

datatype http_method =
    GET | HEAD | POST | PUT | DELETE | OPTIONS | TRACE | CONNECT | PATCH | ExtensionMethod string

datatype http_version = HTTP_09 | HTTP_10 | HTTP_11 | HTTP_2 | HTTP_3

text \<open>
  The idempotent methods of RFC 9110.  \<^verbatim>\<open>Method::is_idempotent\<close> of the \<^verbatim>\<open>http\<close> crate is a parameter
  of the policies that ask for it; this function is the instance the witnesses use.
\<close>

fun rfc9110_idempotent :: "http_method \<Rightarrow> bool" where
  "rfc9110_idempotent GET = True"
| "rfc9110_idempotent HEAD = True"
| "rfc9110_idempotent OPTIONS = True"
| "rfc9110_idempotent TRACE = True"
| "rfc9110_idempotent PUT = True"
| "rfc9110_idempotent DELETE = True"
| "rfc9110_idempotent _ = False"

section \<open>Header maps\<close>

text \<open>
  Header names are normalised to lower case by the \<^verbatim>\<open>http\<close> crate, so a name is a string and
  equality of names is equality of strings; a header value is a byte string.
\<close>

type_synonym header_name = string
type_synonym header_value = bytes

record 'h header_ops =
  hm_get_all :: "'h \<Rightarrow> header_name \<Rightarrow> header_value list"
  hm_insert :: "header_name \<Rightarrow> header_value \<Rightarrow> 'h \<Rightarrow> 'h"
  hm_append :: "header_name \<Rightarrow> header_value \<Rightarrow> 'h \<Rightarrow> 'h"
  hm_remove :: "header_name \<Rightarrow> 'h \<Rightarrow> 'h"

definition header_map_laws :: "'h header_ops \<Rightarrow> bool" where
  "header_map_laws ops \<longleftrightarrow>
     (\<forall>h n v m. hm_get_all ops (hm_insert ops n v h) m
                 = (if m = n then [v] else hm_get_all ops h m)) \<and>
     (\<forall>h n v m. hm_get_all ops (hm_append ops n v h) m
                 = (if m = n then hm_get_all ops h n @ [v] else hm_get_all ops h m)) \<and>
     (\<forall>h n m. hm_get_all ops (hm_remove ops n h) m
                 = (if m = n then [] else hm_get_all ops h m))"

definition contains_key :: "'h header_ops \<Rightarrow> 'h \<Rightarrow> header_name \<Rightarrow> bool" where
  "contains_key ops h n \<longleftrightarrow> hm_get_all ops h n \<noteq> []"

definition header_get :: "'h header_ops \<Rightarrow> 'h \<Rightarrow> header_name \<Rightarrow> header_value option" where
  "header_get ops h n = (case hm_get_all ops h n of [] \<Rightarrow> None | v # _ \<Rightarrow> Some v)"

text \<open>\<^verbatim>\<open>HeaderValue::to_str\<close>: defined when every byte is visible ASCII, a space or a tab.\<close>

definition byte_char :: "byte \<Rightarrow> char" where
  "byte_char b = char_of (unat b)"

definition char_byte :: "char \<Rightarrow> byte" where
  "char_byte c = of_nat (of_char c)"

definition to_str :: "header_value \<Rightarrow> string option" where
  "to_str v =
     (if list_all (\<lambda>b. 32 \<le> unat b \<and> unat b < 127 \<or> unat b = 9) v
      then Some (map byte_char v) else None)"

definition str_bytes :: "string \<Rightarrow> bytes" where
  "str_bytes s = map char_byte s"

text \<open>\<^verbatim>\<open>HeaderValue::from_str\<close>.\<close>

definition header_value_from_str :: "bytes \<Rightarrow> header_value option" where
  "header_value_from_str s = (if list_all (\<lambda>b. 32 \<le> unat b \<and> unat b < 127 \<or> unat b = 9) s then Some s else None)"

text \<open>A header map that satisfies the laws: an association list of names and values in order.\<close>

definition assoc_headers :: "(header_name \<times> header_value) list header_ops" where
  "assoc_headers =
     \<lparr>hm_get_all = (\<lambda>h n. map snd (filter (\<lambda>p. fst p = n) h)),
      hm_insert = (\<lambda>n v h. filter (\<lambda>p. fst p \<noteq> n) h @ [(n, v)]),
      hm_append = (\<lambda>n v h. h @ [(n, v)]),
      hm_remove = (\<lambda>n h. filter (\<lambda>p. fst p \<noteq> n) h)\<rparr>"

section \<open>Lemmas\<close>

lemma assoc_headers_laws: "header_map_laws assoc_headers"
  by (auto simp: header_map_laws_def assoc_headers_def intro!: arg_cong [where f = "map snd"] filter_cong)

lemma header_map_lawsD:
  assumes "header_map_laws ops"
  shows hm_get_all_insert: "hm_get_all ops (hm_insert ops n v h) m
          = (if m = n then [v] else hm_get_all ops h m)"
    and hm_get_all_append: "hm_get_all ops (hm_append ops n v h) m
          = (if m = n then hm_get_all ops h n @ [v] else hm_get_all ops h m)"
    and hm_get_all_remove: "hm_get_all ops (hm_remove ops n h) m
          = (if m = n then [] else hm_get_all ops h m)"
  using assms by (simp_all add: header_map_laws_def)

lemma byte_char_inverse [simp]: "byte_char (char_byte c) = c"
  by (simp add: byte_char_def char_byte_def unat_of_nat take_bit_nat_def of_char_mod_256)

lemma char_byte_inverse [simp]: "char_byte (byte_char b) = b"
proof -
  have "unat b < 256" using unsigned_less [of b] by simp
  then show ?thesis by (simp add: byte_char_def char_byte_def)
qed

end
