(* ===== verification/Proxy_Rules.thy ===== *)
theory Proxy_Rules
  imports Wire_Error Http_Types
begin

unbundle bit_operations_syntax

text \<open>
  Proxy selection (\<^verbatim>\<open>openwire/src/proxy.rs\<close>): proxy rules with their no-proxy exclusions, the
  environment-variable rules, CIDR blocks, and the ordered list of proxy candidates for a call
  with the sticky proxy moved to the front.  The parser of \<^verbatim>\<open>Url\<close> and the operation that clears a
  URL's user information are parameters, as are the parser of \<^verbatim>\<open>IpAddr\<close> and the environment.
\<close>

section \<open>Data\<close>

datatype ProxyIntercept = InterceptHttp | InterceptHttps | InterceptAll

record CidrBlock =
  cidr_network :: ip_addr
  cidr_prefix :: nat

record ProxyCredentials =
  cred_username :: string
  cred_password :: string

record NoProxy =
  np_matches_all :: bool
  np_exact_hosts :: "string list"
  np_domain_suffixes :: "string list"
  np_cidr_blocks :: "CidrBlock list"
  np_bypass_loopback :: bool

record Proxy =
  px_target :: url
  px_intercept :: ProxyIntercept
  px_no_proxy :: "NoProxy option"
  px_credentials :: "ProxyCredentials option"

record SelectedProxy =
  sp_target :: url
  sp_intercept :: ProxyIntercept
  sp_credentials :: "ProxyCredentials option"

datatype ProxyChoice = Direct | ViaProxy Proxy

record ProxyRules =
  pr_proxies :: "Proxy list"
  pr_use_system_proxy :: bool

section \<open>CIDR blocks\<close>

definition canonicalize_ipv4_network :: "32 word \<Rightarrow> nat \<Rightarrow> 32 word" where
  "canonicalize_ipv4_network address prefix =
     (let mask = (if prefix = 0 then 0 else push_bit (32 - prefix) (- 1)) in address AND mask)"

definition canonicalize_ipv6_network :: "128 word \<Rightarrow> nat \<Rightarrow> 128 word" where
  "canonicalize_ipv6_network address prefix =
     (let mask = (if prefix = 0 then 0 else push_bit (128 - prefix) (- 1)) in address AND mask)"

fun cidr_matches :: "CidrBlock \<Rightarrow> ip_addr \<Rightarrow> bool" where
  "cidr_matches b candidate =
     (case (cidr_network b, candidate) of
        (IpV4 network, IpV4 c) \<Rightarrow> canonicalize_ipv4_network c (cidr_prefix b) = network
      | (IpV6 network, IpV6 c) \<Rightarrow> canonicalize_ipv6_network c (cidr_prefix b) = network
      | _ \<Rightarrow> False)"

definition parse_cidr_block ::
  "(string \<Rightarrow> ip_addr option) \<Rightarrow> string \<Rightarrow> (WireError, CidrBlock) result" where
  "parse_cidr_block parse_ip token =
     (case rsplit_once CHR ''/'' token of
        None \<Rightarrow> Inl (err_invalid_request (''invalid no_proxy CIDR entry: '' @ token))
      | Some (address, prefix) \<Rightarrow>
         (case parse_ip address of
            None \<Rightarrow> Inl (err_invalid_request
                     (''invalid no_proxy CIDR address '' @ token @ '': invalid IP address syntax''))
          | Some ip \<Rightarrow>
             (case parse_uint 255 prefix of
                Inl e \<Rightarrow> Inl (err_invalid_request
                           (''invalid no_proxy CIDR prefix '' @ token @ '': '' @ e))
              | Inr p \<Rightarrow>
                 (case ip of
                    IpV4 a \<Rightarrow>
                      if p \<le> 32
                      then Inr \<lparr>cidr_network = IpV4 (canonicalize_ipv4_network a p), cidr_prefix = p\<rparr>
                      else Inl (err_invalid_request (''invalid no_proxy CIDR prefix '' @ token
                                  @ '': IPv4 prefixes must be <= 32''))
                  | IpV6 a \<Rightarrow>
                      if p \<le> 128
                      then Inr \<lparr>cidr_network = IpV6 (canonicalize_ipv6_network a p), cidr_prefix = p\<rparr>
                      else Inl (err_invalid_request (''invalid no_proxy CIDR prefix '' @ token
                                  @ '': IPv6 prefixes must be <= 128''))))))"

section \<open>No-proxy rules\<close>

definition normalize_host :: "string \<Rightarrow> string" where
  "normalize_host host = to_ascii_lowercase (trim_end_matches (\<lambda>c. c = CHR ''.'') host)"

definition normalize_domain_suffix :: "string \<Rightarrow> string" where
  "normalize_domain_suffix suffix = normalize_host (dropWhile (\<lambda>c. c = CHR ''.'') suffix)"

definition no_proxy_new :: NoProxy where
  "no_proxy_new =
     \<lparr>np_matches_all = False, np_exact_hosts = [], np_domain_suffixes = [], np_cidr_blocks = [],
      np_bypass_loopback = False\<rparr>"

definition np_host :: "string \<Rightarrow> NoProxy \<Rightarrow> NoProxy" where
  "np_host host np = np\<lparr>np_exact_hosts := np_exact_hosts np @ [normalize_host host]\<rparr>"

definition np_domain :: "string \<Rightarrow> NoProxy \<Rightarrow> NoProxy" where
  "np_domain suffix np =
     np\<lparr>np_domain_suffixes := np_domain_suffixes np @ [normalize_domain_suffix suffix]\<rparr>"

definition np_localhost :: "NoProxy \<Rightarrow> NoProxy" where
  "np_localhost np = np\<lparr>np_bypass_loopback := True\<rparr>"

definition np_all :: "NoProxy \<Rightarrow> NoProxy" where
  "np_all np = np\<lparr>np_matches_all := True\<rparr>"

text \<open>\<^verbatim>\<open>IpAddr::is_loopback\<close>: 127.0.0.0/8 and ::1.\<close>

fun is_loopback :: "ip_addr \<Rightarrow> bool" where
  "is_loopback (IpV4 a) = (drop_bit 24 a = 127)"
| "is_loopback (IpV6 a) = (a = 1)"

definition ends_with :: "string \<Rightarrow> string \<Rightarrow> bool" where
  "ends_with s q \<longleftrightarrow> strip_suffix q s \<noteq> None"

definition no_proxy_matches :: "(string \<Rightarrow> ip_addr option) \<Rightarrow> NoProxy \<Rightarrow> string \<Rightarrow> bool" where
  "no_proxy_matches parse_ip np h =
     (if np_matches_all np then True
      else
        let host = normalize_host h; ip = parse_ip host in
        if list_ex (\<lambda>candidate. candidate = host) (np_exact_hosts np) then True
        else if list_ex (\<lambda>suffix. host = suffix \<or> ends_with host (CHR ''.'' # suffix))
                  (np_domain_suffixes np) then True
        else if np_bypass_loopback np
                \<and> (host = ''localhost'' \<or> (case ip of None \<Rightarrow> False | Some a \<Rightarrow> is_loopback a)) then True
        else (case ip of None \<Rightarrow> False
              | Some a \<Rightarrow> list_ex (\<lambda>cidr. cidr_matches cidr a) (np_cidr_blocks np)))"

definition parse_no_proxy_token ::
  "(string \<Rightarrow> ip_addr option) \<Rightarrow> string \<Rightarrow> NoProxy \<Rightarrow> (WireError, NoProxy) result" where
  "parse_no_proxy_token parse_ip token np =
     (if token = ''*'' then Inr (np_all np)
      else if eq_ignore_ascii_case token ''localhost''
        then Inr (np_host ''localhost'' (np_localhost np))
      else if CHR ''/'' \<in> set token then
        (case parse_cidr_block parse_ip token of
           Inl e \<Rightarrow> Inl e
         | Inr b \<Rightarrow> Inr (np\<lparr>np_cidr_blocks := np_cidr_blocks np @ [b]\<rparr>))
      else if parse_ip token \<noteq> None then Inr (np_host token np)
      else Inr (np_domain token np))"

fun parse_no_proxy_tokens ::
  "(string \<Rightarrow> ip_addr option) \<Rightarrow> string list \<Rightarrow> NoProxy \<Rightarrow> (WireError, NoProxy) result" where
  "parse_no_proxy_tokens parse_ip [] np = Inr np"
| "parse_no_proxy_tokens parse_ip (t # ts) np =
     (case parse_no_proxy_token parse_ip t np of
        Inl e \<Rightarrow> Inl e
      | Inr np' \<Rightarrow> parse_no_proxy_tokens parse_ip ts np')"

definition parse_no_proxy ::
  "(string \<Rightarrow> ip_addr option) \<Rightarrow> string \<Rightarrow> (WireError, NoProxy) result" where
  "parse_no_proxy parse_ip value =
     parse_no_proxy_tokens parse_ip
       (filter (\<lambda>t. t \<noteq> []) (map trim (split_on CHR '','' value))) no_proxy_new"

section \<open>Proxy rules\<close>

definition credentials_from_url :: "url \<Rightarrow> (WireError, ProxyCredentials option) result" where
  "credentials_from_url target =
     (if url_username target = [] \<and> url_password target = None then Inr None
      else if url_username target = []
        then Inl (err_invalid_request ''proxy URL credentials must include a username'')
      else Inr (Some \<lparr>cred_username = url_username target,
                      cred_password = (case url_password target of None \<Rightarrow> [] | Some p \<Rightarrow> p)\<rparr>))"

definition proxy_from_target ::
  "(url \<Rightarrow> url) \<Rightarrow> url \<Rightarrow> ProxyIntercept \<Rightarrow> (WireError, Proxy) result" where
  "proxy_from_target clear_userinfo target intercept =
     (case credentials_from_url target of
        Inl e \<Rightarrow> Inl e
      | Inr credentials \<Rightarrow>
          Inr \<lparr>px_target = (if credentials \<noteq> None then clear_userinfo target else target),
               px_intercept = intercept, px_no_proxy = None, px_credentials = credentials\<rparr>)"

text \<open>
  The constructors; \<open>parse_url\<close> is \<^verbatim>\<open>Url::parse\<close> of the url crate, with its error rendered.
\<close>

definition parse_proxy_target ::
  "(string \<Rightarrow> (string, url) result) \<Rightarrow> string \<Rightarrow> string list \<Rightarrow> string
   \<Rightarrow> (WireError, url) result" where
  "parse_proxy_target parse_url target allowed_schemes unsupported_message =
     (case parse_url target of
        Inl e \<Rightarrow> Inl (err_invalid_request (''invalid proxy URL: '' @ e))
      | Inr parsed \<Rightarrow>
          if \<not> list_ex (\<lambda>scheme. eq_ignore_ascii_case (url_scheme parsed) scheme) allowed_schemes
            then Inl (err_invalid_request unsupported_message)
          else if url_host_str parsed = None
            then Inl (err_invalid_request ''proxy URL is missing a host'')
          else Inr parsed)"

definition parse_http_proxy_target ::
  "(string \<Rightarrow> (string, url) result) \<Rightarrow> string \<Rightarrow> (WireError, url) result" where
  "parse_http_proxy_target parse_url target =
     parse_proxy_target parse_url target [''http''] ''only http proxy endpoints are supported''"

definition parse_socks5_proxy_target ::
  "(string \<Rightarrow> (string, url) result) \<Rightarrow> string \<Rightarrow> (WireError, url) result" where
  "parse_socks5_proxy_target parse_url target =
     parse_proxy_target parse_url target [''socks5''] ''only socks5 proxy endpoints are supported''"

definition proxy_http ::
  "(string \<Rightarrow> (string, url) result) \<Rightarrow> (url \<Rightarrow> url) \<Rightarrow> string \<Rightarrow> (WireError, Proxy) result" where
  "proxy_http parse_url clear_userinfo target =
     (case parse_http_proxy_target parse_url target of
        Inl e \<Rightarrow> Inl e | Inr t \<Rightarrow> proxy_from_target clear_userinfo t InterceptHttp)"

definition proxy_https ::
  "(string \<Rightarrow> (string, url) result) \<Rightarrow> (url \<Rightarrow> url) \<Rightarrow> string \<Rightarrow> (WireError, Proxy) result" where
  "proxy_https parse_url clear_userinfo target =
     (case parse_http_proxy_target parse_url target of
        Inl e \<Rightarrow> Inl e | Inr t \<Rightarrow> proxy_from_target clear_userinfo t InterceptHttps)"

definition proxy_all ::
  "(string \<Rightarrow> (string, url) result) \<Rightarrow> (url \<Rightarrow> url) \<Rightarrow> string \<Rightarrow> (WireError, Proxy) result" where
  "proxy_all parse_url clear_userinfo target =
     (case parse_http_proxy_target parse_url target of
        Inl e \<Rightarrow> Inl e | Inr t \<Rightarrow> proxy_from_target clear_userinfo t InterceptAll)"

definition proxy_socks5 ::
  "(string \<Rightarrow> (string, url) result) \<Rightarrow> (url \<Rightarrow> url) \<Rightarrow> string \<Rightarrow> (WireError, Proxy) result" where
  "proxy_socks5 parse_url clear_userinfo target =
     (case parse_socks5_proxy_target parse_url target of
        Inl e \<Rightarrow> Inl e | Inr t \<Rightarrow> proxy_from_target clear_userinfo t InterceptAll)"

definition proxy_matches :: "(string \<Rightarrow> ip_addr option) \<Rightarrow> Proxy \<Rightarrow> uri \<Rightarrow> bool" where
  "proxy_matches parse_ip px u =
     (let excluded =
        (case px_no_proxy px of
           None \<Rightarrow> False
         | Some np \<Rightarrow> (case uri_host u of None \<Rightarrow> True | Some h \<Rightarrow> no_proxy_matches parse_ip np h))
      in if excluded then False
         else (case (px_intercept px, uri_scheme_str u) of
                 (InterceptHttp, Some s) \<Rightarrow> s = ''http''
               | (InterceptHttps, Some s) \<Rightarrow> s = ''https''
               | (InterceptAll, Some s) \<Rightarrow> s = ''http'' \<or> s = ''https''
               | (_, None) \<Rightarrow> False))"

definition selected_proxy :: "Proxy \<Rightarrow> SelectedProxy" where
  "selected_proxy px =
     \<lparr>sp_target = px_target px, sp_intercept = px_intercept px, sp_credentials = px_credentials px\<rparr>"

definition intercepts_http :: "SelectedProxy \<Rightarrow> bool" where
  "intercepts_http sp \<longleftrightarrow> sp_intercept sp = InterceptHttp \<or> sp_intercept sp = InterceptAll"

definition intercepts_https :: "SelectedProxy \<Rightarrow> bool" where
  "intercepts_https sp \<longleftrightarrow> sp_intercept sp = InterceptHttps \<or> sp_intercept sp = InterceptAll"

definition same_endpoint :: "SelectedProxy \<Rightarrow> SelectedProxy \<Rightarrow> bool" where
  "same_endpoint a b \<longleftrightarrow> sp_target a = sp_target b \<and> sp_credentials a = sp_credentials b"

definition matching_proxies ::
  "(string \<Rightarrow> ip_addr option) \<Rightarrow> Proxy list \<Rightarrow> uri \<Rightarrow> Proxy list" where
  "matching_proxies parse_ip proxies u = filter (\<lambda>px. proxy_matches parse_ip px u) proxies"

definition apply_no_proxy :: "Proxy \<Rightarrow> NoProxy option \<Rightarrow> Proxy" where
  "apply_no_proxy px np = (case np of Some n \<Rightarrow> px\<lparr>px_no_proxy := Some n\<rparr> | None \<Rightarrow> px)"

definition proxy_from_env ::
  "(string \<Rightarrow> (string, url) result) \<Rightarrow> (url \<Rightarrow> url) \<Rightarrow> string \<Rightarrow> ProxyIntercept
   \<Rightarrow> (WireError, Proxy) result" where
  "proxy_from_env parse_url clear_userinfo target intercept =
     (case parse_url target of
        Inl e \<Rightarrow> Inl (err_invalid_request (''invalid proxy URL: '' @ e))
      | Inr parsed \<Rightarrow>
          if url_host_str parsed = None then Inl (err_invalid_request ''proxy URL is missing a host'')
          else if url_scheme parsed = ''http'' \<or> url_scheme parsed = ''socks5''
            then proxy_from_target clear_userinfo parsed intercept
          else if url_scheme parsed = ''https''
            then Inl (err_invalid_request ''https proxy endpoints are not supported'')
          else Inl (err_invalid_request ''only http and socks5 proxy endpoints are supported''))"

fun lookup_proxy_var :: "(string \<rightharpoonup> string) \<Rightarrow> string list \<Rightarrow> string option" where
  "lookup_proxy_var vars [] = None"
| "lookup_proxy_var vars (n # ns) =
     (case vars n of Some v \<Rightarrow> Some v | None \<Rightarrow> lookup_proxy_var vars ns)"

text \<open>One environment rule: absent variables add nothing, a parse error stops the whole lookup.\<close>

definition push_env_proxy ::
  "(string \<Rightarrow> (string, url) result) \<Rightarrow> (url \<Rightarrow> url) \<Rightarrow> NoProxy option \<Rightarrow> string option
   \<Rightarrow> ProxyIntercept \<Rightarrow> Proxy list \<Rightarrow> (WireError, Proxy list) result" where
  "push_env_proxy parse_url clear_userinfo np var intercept acc =
     (case var of
        None \<Rightarrow> Inr acc
      | Some t \<Rightarrow>
         (case proxy_from_env parse_url clear_userinfo t intercept of
            Inl e \<Rightarrow> Inl e
          | Inr px \<Rightarrow> Inr (acc @ [apply_no_proxy px np])))"

definition system_proxies_from_iter ::
  "(string \<Rightarrow> ip_addr option) \<Rightarrow> (string \<Rightarrow> (string, url) result) \<Rightarrow> (url \<Rightarrow> url)
   \<Rightarrow> (string \<times> string) list \<Rightarrow> (WireError, Proxy list) result" where
  "system_proxies_from_iter parse_ip parse_url clear_userinfo env =
     (let vars = map_of (rev (filter (\<lambda>(k, v). v \<noteq> []) env));
          http_proxy = lookup_proxy_var vars [''http_proxy'', ''HTTP_PROXY''];
          https_proxy = lookup_proxy_var vars [''https_proxy'', ''HTTPS_PROXY''];
          all_proxy = lookup_proxy_var vars [''all_proxy'', ''ALL_PROXY''];
          no_proxy = lookup_proxy_var vars [''NO_PROXY'', ''no_proxy''];
          parsed_no_proxy = (case no_proxy of
             None \<Rightarrow> Inr None
           | Some v \<Rightarrow> (case parse_no_proxy parse_ip v of Inl e \<Rightarrow> Inl e | Inr np \<Rightarrow> Inr (Some np)))
      in case parsed_no_proxy of
           Inl e \<Rightarrow> Inl e
         | Inr np \<Rightarrow>
            (case push_env_proxy parse_url clear_userinfo np http_proxy InterceptHttp [] of
               Inl e \<Rightarrow> Inl e
             | Inr ps1 \<Rightarrow>
                (case push_env_proxy parse_url clear_userinfo np https_proxy InterceptHttps ps1 of
                   Inl e \<Rightarrow> Inl e
                 | Inr ps2 \<Rightarrow> push_env_proxy parse_url clear_userinfo np all_proxy InterceptAll ps2)))"

definition proxy_rules_select ::
  "(string \<Rightarrow> ip_addr option) \<Rightarrow> (WireError, Proxy list) result \<Rightarrow> ProxyRules \<Rightarrow> uri
   \<Rightarrow> (WireError, ProxyChoice list) result" where
  "proxy_rules_select parse_ip system_proxies rules u =
     (let explicit = matching_proxies parse_ip (pr_proxies rules) u in
      if explicit \<noteq> [] then Inr (map ViaProxy explicit)
      else if pr_use_system_proxy rules then
        (case system_proxies of
           Inl e \<Rightarrow> Inl e
         | Inr proxies \<Rightarrow>
             let system_matches = matching_proxies parse_ip proxies u in
             if system_matches \<noteq> [] then Inr (map ViaProxy system_matches) else Inr [Direct])
      else Inr [Direct])"

section \<open>Candidates\<close>

fun choice_candidate :: "ProxyChoice \<Rightarrow> SelectedProxy option" where
  "choice_candidate Direct = None"
| "choice_candidate (ViaProxy px) = Some (selected_proxy px)"

definition resolved_proxy_candidates_with_sticky ::
  "ProxyChoice list \<Rightarrow> SelectedProxy option \<Rightarrow> SelectedProxy option list" where
  "resolved_proxy_candidates_with_sticky selection sticky =
     (let deduped = push_unique [] (map choice_candidate selection);
          candidates = (if deduped = [] then [None] else deduped);
          sticky_index =
            (case sticky of
               None \<Rightarrow> None
             | Some s \<Rightarrow>
                 position (\<lambda>c. case c of None \<Rightarrow> False | Some sp \<Rightarrow> same_endpoint sp s) candidates)
      in case sticky_index of
           None \<Rightarrow> candidates
         | Some i \<Rightarrow> if i > 0 then candidates ! i # remove_nth i candidates else candidates)"

section \<open>Specification\<close>

text \<open>Two addresses agree on a network prefix when they have the same family and the same top bits.\<close>

fun same_network :: "nat \<Rightarrow> ip_addr \<Rightarrow> ip_addr \<Rightarrow> bool" where
  "same_network n (IpV4 a) (IpV4 b) \<longleftrightarrow> (\<forall>i < 32. 32 \<le> i + n \<longrightarrow> bit a i = bit b i)"
| "same_network n (IpV6 a) (IpV6 b) \<longleftrightarrow> (\<forall>i < 128. 128 \<le> i + n \<longrightarrow> bit a i = bit b i)"
| "same_network n _ _ \<longleftrightarrow> False"

section \<open>Lemmas\<close>

lemma bit_prefix_mask:
  fixes a :: "'a::len word"
  assumes "n \<le> LENGTH('a)" and "i < LENGTH('a)"
  shows "bit (a AND (if n = 0 then 0 else push_bit (LENGTH('a) - n) (- 1))) i
         \<longleftrightarrow> bit a i \<and> LENGTH('a) \<le> i + n"
  using assms by (auto simp: bit_simps)

lemma prefix_mask_eq_iff:
  fixes a c :: "'a::len word"
  assumes "n \<le> LENGTH('a)"
  defines "m \<equiv> (if n = 0 then 0 else push_bit (LENGTH('a) - n) (- 1))"
  shows "c AND m = a AND m \<longleftrightarrow> (\<forall>i < LENGTH('a). LENGTH('a) \<le> i + n \<longrightarrow> bit a i = bit c i)"
proof -
  have "c AND m = a AND m \<longleftrightarrow> (\<forall>i < LENGTH('a). bit (c AND m) i = bit (a AND m) i)"
    by (rule bit_eq_iff [THEN trans]) (auto dest: bit_imp_le_length)
  also have "\<dots> \<longleftrightarrow> (\<forall>i < LENGTH('a). LENGTH('a) \<le> i + n \<longrightarrow> bit a i = bit c i)"
    unfolding m_def using bit_prefix_mask [OF assms(1)] by auto
  finally show ?thesis .
qed

lemma canonicalize_ipv4_eq_iff:
  "n \<le> 32 \<Longrightarrow> canonicalize_ipv4_network c n = canonicalize_ipv4_network a n
   \<longleftrightarrow> same_network n (IpV4 a) (IpV4 c)"
  using prefix_mask_eq_iff [where 'a = 32, of n c a]
  by (auto simp: canonicalize_ipv4_network_def Let_def simp del: push_bit_minus_one_eq_not_mask
      split: if_splits)

lemma canonicalize_ipv6_eq_iff:
  "n \<le> 128 \<Longrightarrow> canonicalize_ipv6_network c n = canonicalize_ipv6_network a n
   \<longleftrightarrow> same_network n (IpV6 a) (IpV6 c)"
  using prefix_mask_eq_iff [where 'a = 128, of n c a]
  by (auto simp: canonicalize_ipv6_network_def Let_def simp del: push_bit_minus_one_eq_not_mask
      split: if_splits)

lemma ends_with_iff: "ends_with s q \<longleftrightarrow> (\<exists>r. s = r @ q)"
  by (auto simp: ends_with_def strip_suffix_Some_iff)

lemma set_remove_nth: "i < length xs \<Longrightarrow> set (xs ! i # remove_nth i xs) = set xs"
  by (metis mset_push_front set_mset_mset)

lemma distinct_push_front: "i < length xs \<Longrightarrow> distinct xs \<Longrightarrow> distinct (xs ! i # remove_nth i xs)"
  by (metis mset_push_front mset_eq_imp_distinct_iff)

lemma push_unique_Nil_iff [simp]: "push_unique acc xs = [] \<longleftrightarrow> acc = [] \<and> xs = []"
  by (induction acc xs rule: push_unique.induct) auto

lemma ex_dot_suffix_iff:
  "(\<exists>r. s = r @ c # t) \<longleftrightarrow> (\<exists>sub. s = sub @ t \<and> sub \<noteq> [] \<and> last sub = c)"
proof
  assume "\<exists>r. s = r @ c # t"
  then obtain r where r: "s = r @ c # t" ..
  then have "s = (r @ [c]) @ t \<and> r @ [c] \<noteq> [] \<and> last (r @ [c]) = c" by simp
  then show "\<exists>sub. s = sub @ t \<and> sub \<noteq> [] \<and> last sub = c" ..
next
  assume "\<exists>sub. s = sub @ t \<and> sub \<noteq> [] \<and> last sub = c"
  then obtain sub where sub: "s = sub @ t" "sub \<noteq> []" "last sub = c" by blast
  have "butlast sub @ c # t = (butlast sub @ [last sub]) @ t" by (simp add: sub(3))
  also have "\<dots> = s" by (simp add: sub(1,2) del: append_assoc)
  finally show "\<exists>r. s = r @ c # t" by metis
qed

section \<open>Properties\<close>

text \<open>
  A CIDR entry of a no-proxy list matches exactly the addresses of its family that agree with
  the written address on the first \<open>prefix\<close> bits, for both address families and every prefix
  length up to the family's width (a prefix of zero matches the whole family).
\<close>

theorem parse_cidr_block_matches:
  assumes "parse_cidr_block parse_ip token = Inr b"
    and "rsplit_once CHR ''/'' token = Some (address, prefix)"
    and "parse_ip address = Some ip"
  shows "parse_uint 255 prefix = Inr (cidr_prefix b)
         \<and> (\<forall>c. cidr_matches b c \<longleftrightarrow> same_network (cidr_prefix b) ip c)"
proof -
  from assms obtain n where n: "parse_uint 255 prefix = Inr n"
    by (auto simp: parse_cidr_block_def split: sum.splits)
  show ?thesis
  proof (cases ip)
    case (IpV4 a)
    with assms n have "n \<le> 32" and b: "b = \<lparr>cidr_network = IpV4 (canonicalize_ipv4_network a n), cidr_prefix = n\<rparr>"
      by (auto simp: parse_cidr_block_def split: if_splits)
    then show ?thesis using n IpV4
      by (auto simp: canonicalize_ipv4_eq_iff simp del: same_network.simps(1) split: ip_addr.splits)
  next
    case (IpV6 a)
    with assms n have "n \<le> 128" and b: "b = \<lparr>cidr_network = IpV6 (canonicalize_ipv6_network a n), cidr_prefix = n\<rparr>"
      by (auto simp: parse_cidr_block_def split: if_splits)
    then show ?thesis using n IpV6
      by (auto simp: canonicalize_ipv6_eq_iff simp del: same_network.simps(2) split: ip_addr.splits)
  qed
qed

theorem parse_cidr_block_matches_witness:
  "let parse_ip = (\<lambda>s. if s = ''10.0.0.0'' then Some (IpV4 0x0A000000) else None) in
   \<exists>b. parse_cidr_block parse_ip ''10.0.0.0/8'' = Inr b \<and> cidr_matches b (IpV4 0x0A010203)
       \<and> \<not> cidr_matches b (IpV4 0x0B000000)"
proof -
  define parse_ip where "parse_ip = (\<lambda>s. if s = ''10.0.0.0'' then Some (IpV4 0x0A000000) else None)"
  have split: "rsplit_once CHR ''/'' ''10.0.0.0/8'' = Some (''10.0.0.0'', ''8'')" by code_simp
  have num: "parse_uint 255 ''8'' = Inr 8" by code_simp
  have ip: "parse_ip ''10.0.0.0'' = Some (IpV4 0x0A000000)" by (simp add: parse_ip_def)
  let ?b = "\<lparr>cidr_network = IpV4 (canonicalize_ipv4_network 0x0A000000 8), cidr_prefix = 8\<rparr>"
  have b: "parse_cidr_block parse_ip ''10.0.0.0/8'' = Inr ?b"
    using split num ip by (simp add: parse_cidr_block_def)
  from parse_cidr_block_matches [OF b split ip]
  have m: "cidr_matches ?b c \<longleftrightarrow> same_network 8 (IpV4 0x0A000000) c" for c by simp
  have "bit (0x0A000000 :: 32 word) i = bit (0x0A010203 :: 32 word) i" if "24 \<le> i" "i < 32" for i
  proof -
    have "i \<in> {24, 25, 26, 27, 28, 29, 30, 31}" using that by simp presburger
    then show ?thesis by (elim insertE emptyE) (simp_all add: bit_numeral_rec)
  qed
  then have "cidr_matches ?b (IpV4 0x0A010203)" unfolding m by simp
  moreover have "\<not> cidr_matches ?b (IpV4 0x0B000000)"
    unfolding m by (auto intro!: exI [of _ 24])
  ultimately show ?thesis using b unfolding parse_ip_def [symmetric] Let_def by blast
qed

text \<open>
  A plain domain entry of a no-proxy list excludes the domain itself and its subdomains, and
  nothing else: the match is on whole labels, so a host that merely ends with the same letters is
  not excluded.
\<close>

theorem no_proxy_domain_boundary:
  assumes "parse_no_proxy_token parse_ip token no_proxy_new = Inr np"
    and "token \<noteq> ''*''" and "\<not> eq_ignore_ascii_case token ''localhost''"
    and "CHR ''/'' \<notin> set token" and "parse_ip token = None"
  shows "no_proxy_matches parse_ip np h \<longleftrightarrow>
         (\<exists>sub. normalize_host h = sub @ normalize_domain_suffix token
                \<and> (sub = [] \<or> last sub = CHR ''.''))"
proof -
  from assms have np: "np = np_domain token no_proxy_new"
    by (simp add: parse_no_proxy_token_def)
  have "no_proxy_matches parse_ip np h \<longleftrightarrow>
          normalize_host h = normalize_domain_suffix token
          \<or> (\<exists>r. normalize_host h = r @ CHR ''.'' # normalize_domain_suffix token)"
    by (simp add: np np_domain_def no_proxy_new_def no_proxy_matches_def ends_with_iff Let_def
        split: option.splits)
  also have "\<dots> \<longleftrightarrow> (\<exists>sub. normalize_host h = sub @ normalize_domain_suffix token
                \<and> (sub = [] \<or> last sub = CHR ''.''))"
    unfolding ex_dot_suffix_iff by auto
  finally show ?thesis .
qed

theorem no_proxy_domain_boundary_witness:
  "\<exists>np. parse_no_proxy_token (\<lambda>_. None) ''ex.org'' no_proxy_new = Inr np
     \<and> no_proxy_matches (\<lambda>_. None) np ''a.ex.org'' \<and> \<not> no_proxy_matches (\<lambda>_. None) np ''notex.org''"
proof -
  have tok: "parse_no_proxy_token (\<lambda>_. None) ''ex.org'' no_proxy_new = Inr (np_domain ''ex.org'' no_proxy_new)"
    by code_simp
  have "\<not> eq_ignore_ascii_case ''ex.org'' ''localhost''" by code_simp
  from no_proxy_domain_boundary [OF tok _ this]
  have m: "no_proxy_matches (\<lambda>_. None) (np_domain ''ex.org'' no_proxy_new) h \<longleftrightarrow>
    (\<exists>sub. normalize_host h = sub @ normalize_domain_suffix ''ex.org'' \<and> (sub = [] \<or> last sub = CHR ''.''))" for h
    by simp
  have n: "normalize_domain_suffix ''ex.org'' = ''ex.org''" "normalize_host ''a.ex.org'' = ''a.'' @ ''ex.org''"
    "normalize_host ''notex.org'' = ''not'' @ ''ex.org''" by code_simp+
  have "no_proxy_matches (\<lambda>_. None) (np_domain ''ex.org'' no_proxy_new) ''a.ex.org''"
    unfolding m n by (intro exI [of _ "''a.''"]) simp
  moreover have "\<not> no_proxy_matches (\<lambda>_. None) (np_domain ''ex.org'' no_proxy_new) ''notex.org''"
    unfolding m n append_same_eq by auto
  ultimately show ?thesis using tok by blast
qed

text \<open>
  The proxy candidates of a call are never empty, never contain a candidate twice, and are
  exactly the candidates of the selection (a direct connection when the selection is empty).  When
  a sticky proxy is given and one of the candidates is its endpoint, that candidate comes first.
\<close>

lemma resolved_candidates_sticky_first:
  "(let cs = resolved_proxy_candidates_with_sticky selection sticky in
    cs \<noteq> [] \<and> distinct cs
    \<and> set cs = (if selection = [] then {None} else choice_candidate ` set selection)
    \<and> (\<forall>s. sticky = Some s \<and> (\<exists>sp. Some sp \<in> set cs \<and> same_endpoint sp s)
         \<longrightarrow> (\<exists>sp. hd cs = Some sp \<and> same_endpoint sp s)))"
proof -
  define cands where
    "cands = (if push_unique [] (map choice_candidate selection) = [] then [None]
              else push_unique [] (map choice_candidate selection))"
  have c: "cands \<noteq> []" "distinct cands"
    "set cands = (if selection = [] then {None} else choice_candidate ` set selection)"
    by (auto simp: cands_def distinct_push_unique)
  define m where "m s = (\<lambda>c. case c of None \<Rightarrow> False | Some sp \<Rightarrow> same_endpoint sp s)" for s
  have m_iff: "m s c \<longleftrightarrow> (\<exists>sp. c = Some sp \<and> same_endpoint sp s)" for s c
    by (cases c) (auto simp: m_def)
  have r: "resolved_proxy_candidates_with_sticky selection sticky =
      (case (case sticky of None \<Rightarrow> None | Some s \<Rightarrow> position (m s) cands) of
         None \<Rightarrow> cands | Some i \<Rightarrow> if i > 0 then cands ! i # remove_nth i cands else cands)"
    unfolding resolved_proxy_candidates_with_sticky_def cands_def m_def Let_def by (rule refl)
  show ?thesis
  proof (cases "case sticky of None \<Rightarrow> None | Some s \<Rightarrow> position (m s) cands")
    case None
    then have "\<And>s. sticky = Some s \<Longrightarrow> \<forall>x\<in>set cands. \<not> m s x"
      by (simp add: position_None_iff)
    with c None r show ?thesis by (fastforce simp: m_iff)
  next
    case (Some i)
    then obtain s where s: "sticky = Some s" and p: "position (m s) cands = Some i"
      by (auto split: option.splits)
    then have i: "i < length cands" "m s (cands ! i)" by (auto simp: position_Some_iff)
    have "cs \<noteq> [] \<and> distinct cs \<and> set cs = set cands \<and> m s (hd cs)"
      if "cs = (if i > 0 then cands ! i # remove_nth i cands else cands)" for cs
      using that c i set_remove_nth [OF i(1)] distinct_push_front [OF i(1)]
      by (auto simp: hd_conv_nth)
    with c s p r show ?thesis by (auto simp: m_iff Let_def)
  qed
qed

text \<open>
  Whatever constructor or environment variable a proxy comes from, its stored URL carries no
  user info once credentials were extracted from it: \<open>clear_userinfo\<close> stands for the two setters of
  the url crate, which remove user name and password.
\<close>

theorem proxy_target_has_no_userinfo:
  assumes "proxy_from_target clear_userinfo target intercept = Inr px"
    and "\<And>t. url_username (clear_userinfo t) = [] \<and> url_password (clear_userinfo t) = None"
  shows "url_username (px_target px) = [] \<and> url_password (px_target px) = None \<and>
         px_credentials px =
           (if url_username target = [] \<and> url_password target = None then None
            else Some \<lparr>cred_username = url_username target,
                       cred_password = (case url_password target of None \<Rightarrow> [] | Some p \<Rightarrow> p)\<rparr>)"
  using assms
  by (auto simp: proxy_from_target_def credentials_from_url_def split: if_splits sum.splits)

theorem proxy_target_has_no_userinfo_witness:
  "\<exists>px. proxy_from_target (\<lambda>t. t\<lparr>url_username := [], url_password := None\<rparr>)
     \<lparr>url_scheme = ''http'', url_host_str = Some ''p'', url_port_or_known_default = Some 80,
      url_username = ''u'', url_password = None, url_text = ''http://u@p''\<rparr> InterceptAll = Inr px
     \<and> url_username (px_target px) = []"
proof -
  let ?t = "\<lparr>url_scheme = ''http'', url_host_str = Some ''p'', url_port_or_known_default = Some 80,
      url_username = ''u'', url_password = None, url_text = ''http://u@p''\<rparr>"
  obtain px where "proxy_from_target (\<lambda>t. t\<lparr>url_username := [], url_password := None\<rparr>) ?t InterceptAll
      = Inr px"
    by (simp add: proxy_from_target_def credentials_from_url_def)
  with proxy_target_has_no_userinfo [OF this] show ?thesis by auto
qed

end
