(* ===== verification/Planning.thy ===== *)
theory Planning
  imports Proxy_Rules
begin

text \<open>
  Addresses, routes and connect plans (\<^verbatim>\<open>openwire/src/connection/planning.rs\<close> and the host-name
  match of \<^verbatim>\<open>connection/mod.rs\<close>).  An \<^verbatim>\<open>Address\<close> is the pool key of a call; a \<^verbatim>\<open>RoutePlan\<close> orders the
  resolved socket addresses for staggered dual-stack dialling; a \<^verbatim>\<open>ConnectPlan\<close> tracks the state
  of each attempt of a dial race.  A shared \<^verbatim>\<open>Arc<Address>\<close> is its address: it is never mutated.
\<close>

section \<open>Addresses\<close>

datatype UriScheme = SchemeHttp | SchemeHttps

record AuthorityKey =
  ak_host :: string
  ak_port :: u16

record TlsIdentity =
  tls_server_name :: string

datatype ProtocolPolicy = Http1Only | Http2Only | Http1OrHttp2

datatype RoutePreference = PreferAny | PreferHttp1Only

datatype DnsPolicy = DnsSystem | DnsCustom string | DnsDeferred

datatype ProxyScheme = ProxyHttp | ProxySocks5

datatype ProxyMode = Forward | Connect | SocksTunnel

record ProxyEndpoint =
  pe_scheme :: ProxyScheme
  pe_authority :: AuthorityKey
  pe_credentials :: "ProxyCredentials option"

record ProxyConfig =
  pc_mode :: ProxyMode
  pc_endpoint :: ProxyEndpoint

record Address =
  ad_scheme :: UriScheme
  ad_authority :: AuthorityKey
  ad_proxy :: "ProxyConfig option"
  ad_tls_identity :: "TlsIdentity option"
  ad_protocol_policy :: ProtocolPolicy
  ad_dns_policy :: DnsPolicy

definition planning_normalize_host :: "string \<Rightarrow> string" where
  "planning_normalize_host host = to_ascii_lowercase host"

definition authority_key_new :: "string \<Rightarrow> u16 \<Rightarrow> AuthorityKey" where
  "authority_key_new host port = \<lparr>ak_host = planning_normalize_host host, ak_port = port\<rparr>"

definition tls_identity_new :: "string \<Rightarrow> TlsIdentity" where
  "tls_identity_new server_name = \<lparr>tls_server_name = planning_normalize_host server_name\<rparr>"

definition proxy_endpoint_new :: "ProxyScheme \<Rightarrow> string \<Rightarrow> u16 \<Rightarrow> ProxyEndpoint" where
  "proxy_endpoint_new scheme host port =
     \<lparr>pe_scheme = scheme, pe_authority = authority_key_new host port, pe_credentials = None\<rparr>"

definition with_credentials :: "ProxyCredentials \<Rightarrow> ProxyEndpoint \<Rightarrow> ProxyEndpoint" where
  "with_credentials credentials ep = ep\<lparr>pe_credentials := Some credentials\<rparr>"

definition default_port :: "uri \<Rightarrow> UriScheme \<Rightarrow> u16" where
  "default_port u scheme =
     (case uri_port_u16 u of
        Some p \<Rightarrow> p
      | None \<Rightarrow> (case scheme of SchemeHttp \<Rightarrow> 80 | SchemeHttps \<Rightarrow> 443))"

definition proxy_config_from_runtime_proxy ::
  "UriScheme \<Rightarrow> SelectedProxy \<Rightarrow> (WireError, ProxyConfig) result" where
  "proxy_config_from_runtime_proxy scheme sp =
     (let target = sp_target sp;
          endpoint_scheme =
            (if url_scheme target = ''http'' then Inr ProxyHttp
             else if url_scheme target = ''socks5'' then Inr ProxySocks5
             else Inl (err_invalid_request (''unsupported proxy URL scheme: '' @ url_scheme target)))
      in case endpoint_scheme of
           Inl e \<Rightarrow> Inl e
         | Inr es \<Rightarrow>
            (case url_host_str target of
               None \<Rightarrow> Inl (err_invalid_request ''proxy URL is missing a host'')
             | Some host \<Rightarrow>
                (case url_port_or_known_default target of
                   None \<Rightarrow> Inl (err_invalid_request
                             ''proxy URL is missing a port and has no known default'')
                 | Some port \<Rightarrow>
                    (let ep0 = proxy_endpoint_new es host port;
                         ep = (case sp_credentials sp of
                                 Some c \<Rightarrow> with_credentials c ep0 | None \<Rightarrow> ep0)
                     in if es = ProxyHttp \<and> scheme = SchemeHttp \<and> intercepts_http sp
                          then Inr \<lparr>pc_mode = Forward, pc_endpoint = ep\<rparr>
                        else if es = ProxyHttp \<and> scheme = SchemeHttps \<and> intercepts_https sp
                          then Inr \<lparr>pc_mode = Connect, pc_endpoint = ep\<rparr>
                        else if es = ProxySocks5 \<and> scheme = SchemeHttp \<and> intercepts_http sp
                          then Inr \<lparr>pc_mode = SocksTunnel, pc_endpoint = ep\<rparr>
                        else if es = ProxySocks5 \<and> scheme = SchemeHttps \<and> intercepts_https sp
                          then Inr \<lparr>pc_mode = SocksTunnel, pc_endpoint = ep\<rparr>
                        else Inl (err_invalid_request ''proxy does not apply to the request scheme'')))))"

definition address_from_uri :: "uri \<Rightarrow> SelectedProxy option \<Rightarrow> (WireError, Address) result" where
  "address_from_uri u sp =
     (let scheme =
        (case uri_scheme_str u of
           Some s \<Rightarrow>
             if eq_ignore_ascii_case s ''https'' then Inr SchemeHttps
             else if eq_ignore_ascii_case s ''http'' then Inr SchemeHttp
             else Inl (err_invalid_request (''unsupported URI scheme for address derivation: '' @ s))
         | None \<Rightarrow> Inl (err_invalid_request ''request URI is missing a scheme''))
      in case scheme of
           Inl e \<Rightarrow> Inl e
         | Inr sc \<Rightarrow>
            (case uri_host u of
               None \<Rightarrow> Inl (err_invalid_request ''request URI is missing a host'')
             | Some host \<Rightarrow>
                (let proxy = (case sp of
                      None \<Rightarrow> Inr None
                    | Some p \<Rightarrow> (case proxy_config_from_runtime_proxy sc p of
                                   Inl e \<Rightarrow> Inl e | Inr c \<Rightarrow> Inr (Some c)))
                 in case proxy of
                      Inl e \<Rightarrow> Inl e
                    | Inr px \<Rightarrow>
                        Inr \<lparr>ad_scheme = sc,
                             ad_authority = authority_key_new host (default_port u sc),
                             ad_proxy = px,
                             ad_tls_identity =
                               (if sc = SchemeHttps then Some (tls_identity_new host) else None),
                             ad_protocol_policy = Http1OrHttp2,
                             ad_dns_policy = DnsSystem\<rparr>)))"

section \<open>Routes\<close>

datatype RouteFamily = Ipv4 | Ipv6

fun family_from_socket_addr :: "socket_addr \<Rightarrow> RouteFamily" where
  "family_from_socket_addr (SockV4 _ _) = Ipv4"
| "family_from_socket_addr (SockV6 _ _ _ _) = Ipv6"

datatype DnsResolution = LocalDns socket_addr | DeferredDns string u16

datatype RouteKind =
    DirectRoute socket_addr
  | HttpForwardProxy socket_addr "ProxyCredentials option"
  | ConnectProxy socket_addr "ProxyCredentials option"
  | SocksProxy socket_addr "ProxyCredentials option"

record Route =
  rt_address :: Address
  rt_family :: RouteFamily
  rt_kind :: RouteKind
  rt_target_dns :: DnsResolution
  rt_proxy_dns :: "DnsResolution option"

definition route_direct :: "Address \<Rightarrow> socket_addr \<Rightarrow> Route" where
  "route_direct address target =
     \<lparr>rt_address = address, rt_family = family_from_socket_addr target,
      rt_kind = DirectRoute target, rt_target_dns = LocalDns target, rt_proxy_dns = None\<rparr>"

definition proxy_route_shared :: "Address \<Rightarrow> socket_addr \<Rightarrow> RouteKind \<Rightarrow> Route" where
  "proxy_route_shared address proxy kind =
     \<lparr>rt_address = address, rt_family = family_from_socket_addr proxy, rt_kind = kind,
      rt_target_dns = DeferredDns (ak_host (ad_authority address)) (ak_port (ad_authority address)),
      rt_proxy_dns = Some (LocalDns proxy)\<rparr>"

definition address_credentials :: "Address \<Rightarrow> ProxyCredentials option" where
  "address_credentials address =
     Option.bind (ad_proxy address) (\<lambda>p. pe_credentials (pc_endpoint p))"

definition route_http_forward :: "Address \<Rightarrow> socket_addr \<Rightarrow> Route" where
  "route_http_forward address proxy =
     proxy_route_shared address proxy (HttpForwardProxy proxy (address_credentials address))"

definition route_connect_proxy :: "Address \<Rightarrow> socket_addr \<Rightarrow> Route" where
  "route_connect_proxy address proxy =
     proxy_route_shared address proxy (ConnectProxy proxy (address_credentials address))"

definition route_socks_proxy :: "Address \<Rightarrow> socket_addr \<Rightarrow> Route" where
  "route_socks_proxy address proxy =
     proxy_route_shared address proxy (SocksProxy proxy (address_credentials address))"

definition route_from_observed :: "Address \<Rightarrow> socket_addr option \<Rightarrow> Route" where
  "route_from_observed address remote_addr =
     (let proxy = ad_proxy address;
          fallback_addr =
            (case remote_addr of
               Some a \<Rightarrow> a
             | None \<Rightarrow> SockV4 0 (case proxy of
                                    Some p \<Rightarrow> ak_port (pe_authority (pc_endpoint p))
                                  | None \<Rightarrow> ak_port (ad_authority address)))
      in case map_option pc_mode proxy of
           Some Forward \<Rightarrow> route_http_forward address fallback_addr
         | Some Connect \<Rightarrow> route_connect_proxy address fallback_addr
         | Some SocksTunnel \<Rightarrow> route_socks_proxy address fallback_addr
         | None \<Rightarrow> route_direct address fallback_addr)"

record RoutePlan =
  rp_routes :: "Route list"
  rp_fast_fallback_stagger :: duration

section \<open>Route planning\<close>

text \<open>
  The two queues of \<^verbatim>\<open>by_family\<close>; \<open>fallback_loop\<close> is the \<^verbatim>\<open>loop\<close> of \<^verbatim>\<open>order_for_fast_fallback\<close>: take
  from the preferred family, else from the other one, and swap the preference every time.
\<close>

function fallback_loop ::
  "RouteFamily \<Rightarrow> socket_addr list \<Rightarrow> socket_addr list \<Rightarrow> socket_addr list" where
  "fallback_loop Ipv4 q4 q6 =
     (case q4 of
        a # q4' \<Rightarrow> a # fallback_loop Ipv6 q4' q6
      | [] \<Rightarrow> (case q6 of a # q6' \<Rightarrow> a # fallback_loop Ipv6 q4 q6' | [] \<Rightarrow> []))"
| "fallback_loop Ipv6 q4 q6 =
     (case q6 of
        a # q6' \<Rightarrow> a # fallback_loop Ipv4 q4 q6'
      | [] \<Rightarrow> (case q4 of a # q4' \<Rightarrow> a # fallback_loop Ipv4 q4' q6 | [] \<Rightarrow> []))"
  by pat_completeness auto
termination
  by (relation "measure (\<lambda>(f, q4, q6). length q4 + length q6)") auto

definition order_for_fast_fallback :: "socket_addr list \<Rightarrow> socket_addr list" where
  "order_for_fast_fallback addrs =
     (if addrs = [] then []
      else
        let q4 = filter (\<lambda>a. family_from_socket_addr a = Ipv4) addrs;
            q6 = filter (\<lambda>a. family_from_socket_addr a = Ipv6) addrs
        in fallback_loop (if q6 \<noteq> [] then Ipv6 else Ipv4) q4 q6)"

definition plan_routes ::
  "(Address \<Rightarrow> socket_addr \<Rightarrow> Route) \<Rightarrow> duration \<Rightarrow> Address \<Rightarrow> socket_addr list \<Rightarrow> RoutePlan" where
  "plan_routes mk stagger address addrs =
     \<lparr>rp_routes = map (mk address) (order_for_fast_fallback addrs),
      rp_fast_fallback_stagger = stagger\<rparr>"

definition plan_direct :: "duration \<Rightarrow> Address \<Rightarrow> socket_addr list \<Rightarrow> RoutePlan" where
  "plan_direct = plan_routes route_direct"

definition plan_http_forward :: "duration \<Rightarrow> Address \<Rightarrow> socket_addr list \<Rightarrow> RoutePlan" where
  "plan_http_forward = plan_routes route_http_forward"

definition plan_connect_proxy :: "duration \<Rightarrow> Address \<Rightarrow> socket_addr list \<Rightarrow> RoutePlan" where
  "plan_connect_proxy = plan_routes route_connect_proxy"

definition plan_socks_proxy :: "duration \<Rightarrow> Address \<Rightarrow> socket_addr list \<Rightarrow> RoutePlan" where
  "plan_socks_proxy = plan_routes route_socks_proxy"

definition default_fast_fallback_stagger :: duration where
  "default_fast_fallback_stagger = millis 250"

definition dns_target :: "Address \<Rightarrow> string \<times> u16" where
  "dns_target address =
     (case ad_proxy address of
        Some p \<Rightarrow> (ak_host (pe_authority (pc_endpoint p)), ak_port (pe_authority (pc_endpoint p)))
      | None \<Rightarrow> (ak_host (ad_authority address), ak_port (ad_authority address)))"

definition default_plan :: "duration \<Rightarrow> Address \<Rightarrow> socket_addr list \<Rightarrow> (WireError, RoutePlan) result" where
  "default_plan stagger address resolved_addrs =
     Inr (case map_option pc_mode (ad_proxy address) of
            Some Forward \<Rightarrow> plan_http_forward stagger address resolved_addrs
          | Some Connect \<Rightarrow> plan_connect_proxy stagger address resolved_addrs
          | Some SocksTunnel \<Rightarrow> plan_socks_proxy stagger address resolved_addrs
          | None \<Rightarrow> plan_direct stagger address resolved_addrs)"

section \<open>Connect plans\<close>

datatype ConnectFailureStage = FailTcp | FailTls | FailProtocolBinding | FailProxyTunnel

record ConnectFailure =
  cf_stage :: ConnectFailureStage
  cf_message :: string

datatype ConnectAttemptState = Pending | Running | Won | Lost usize | Failed ConnectFailure

record ConnectAttempt =
  ca_route :: Route
  ca_scheduled_after :: duration
  ca_state :: ConnectAttemptState

record ConnectPlan =
  cp_attempts :: "ConnectAttempt list"
  cp_fast_fallback_stagger :: duration

definition connect_plan_from_route_plan :: "RoutePlan \<Rightarrow> ConnectPlan" where
  "connect_plan_from_route_plan rp =
     \<lparr>cp_attempts =
        map (\<lambda>(index, route).
               \<lparr>ca_route = route,
                ca_scheduled_after = rp_fast_fallback_stagger rp * (index mod (U32_MAX + 1)),
                ca_state = Pending\<rparr>)
          (List.enumerate 0 (rp_routes rp)),
      cp_fast_fallback_stagger = rp_fast_fallback_stagger rp\<rparr>"

definition cp_transition :: "usize \<Rightarrow> ConnectAttemptState \<Rightarrow> ConnectPlan \<Rightarrow> bool \<times> ConnectPlan" where
  "cp_transition index st cp =
     (if index < length (cp_attempts cp)
      then (True, cp\<lparr>cp_attempts :=
              (cp_attempts cp)[index := (cp_attempts cp ! index)\<lparr>ca_state := st\<rparr>]\<rparr>)
      else (False, cp))"

definition mark_running :: "usize \<Rightarrow> ConnectPlan \<Rightarrow> bool \<times> ConnectPlan" where
  "mark_running index = cp_transition index Running"

definition mark_failed :: "usize \<Rightarrow> ConnectFailure \<Rightarrow> ConnectPlan \<Rightarrow> bool \<times> ConnectPlan" where
  "mark_failed index failure = cp_transition index (Failed failure)"

definition mark_lost :: "usize \<Rightarrow> usize \<Rightarrow> ConnectPlan \<Rightarrow> bool \<times> ConnectPlan" where
  "mark_lost index winner_index = cp_transition index (Lost winner_index)"

definition lose_if_unfinished :: "usize \<Rightarrow> usize \<times> ConnectAttempt \<Rightarrow> ConnectAttempt" where
  "lose_if_unfinished winner ia =
     (case ia of (index, attempt) \<Rightarrow>
        if index = winner then attempt
        else if ca_state attempt = Pending \<or> ca_state attempt = Running
          then attempt\<lparr>ca_state := Lost winner\<rparr>
        else attempt)"

definition promote_winner :: "usize \<Rightarrow> ConnectPlan \<Rightarrow> bool \<times> ConnectPlan" where
  "promote_winner winner cp =
     (case cp_transition winner Won cp of
        (False, cp') \<Rightarrow> (False, cp')
      | (True, cp') \<Rightarrow>
          (True, cp'\<lparr>cp_attempts :=
             map (lose_if_unfinished winner) (List.enumerate 0 (cp_attempts cp'))\<rparr>))"

section \<open>Verified server names\<close>

definition verified_server_name_matches :: "string \<Rightarrow> string \<Rightarrow> bool" where
  "verified_server_name_matches pattern host =
     (if pattern = host then True
      else case strip_prefix ''*.'' pattern of
             None \<Rightarrow> False
           | Some suffix \<Rightarrow>
              (case strip_suffix suffix host of
                 None \<Rightarrow> False
               | Some prefix \<Rightarrow>
                   prefix \<noteq> [] \<and> last prefix = CHR ''.'' \<and> CHR ''.'' \<notin> set (butlast prefix)))"

section \<open>Lemmas\<close>

lemma family_cases: "family_from_socket_addr a = Ipv4 \<or> family_from_socket_addr a = Ipv6"
  by (cases a) simp_all

declare fallback_loop.simps [simp del]

lemma fallback_loop_Nil_Nil [simp]: "fallback_loop f [] [] = []"
  by (cases f) (simp_all add: fallback_loop.simps)

lemma fallback_loop_pick4 [simp]: "fallback_loop Ipv4 (a # q4) q6 = a # fallback_loop Ipv6 q4 q6"
  by (simp add: fallback_loop.simps)

lemma fallback_loop_pick6 [simp]: "fallback_loop Ipv6 q4 (b # q6) = b # fallback_loop Ipv4 q4 q6"
  by (simp add: fallback_loop.simps)

lemma fallback_loop_only4 [simp]: "fallback_loop f q4 [] = q4"
proof (induction q4 arbitrary: f)
  case (Cons a q4)
  then show ?case by (cases f) (simp_all add: fallback_loop.simps(2))
qed simp

lemma fallback_loop_only6 [simp]: "fallback_loop f [] q6 = q6"
proof (induction q6 arbitrary: f)
  case (Cons a q6)
  then show ?case by (cases f) (simp_all add: fallback_loop.simps(1))
qed simp

lemma fallback_loop_Cons_Cons:
  "fallback_loop f (a # q4) (b # q6) =
     (if f = Ipv4 then a # b # fallback_loop f q4 q6 else b # a # fallback_loop f q4 q6)"
  by (cases f) simp_all

lemma fallback_loop_filter:
  assumes "\<forall>a \<in> set q4. family_from_socket_addr a = Ipv4"
    and "\<forall>a \<in> set q6. family_from_socket_addr a = Ipv6"
  shows "filter (\<lambda>a. family_from_socket_addr a = Ipv4) (fallback_loop f q4 q6) = q4
         \<and> filter (\<lambda>a. family_from_socket_addr a = Ipv6) (fallback_loop f q4 q6) = q6"
  using assms
proof (induction q4 arbitrary: q6)
  case (Cons a q4)
  then show ?case by (cases q6) (auto simp: fallback_loop_Cons_Cons filter_id_conv filter_empty_conv)
qed (auto simp: filter_id_conv filter_empty_conv)

lemma fallback_loop_alternates:
  assumes "\<forall>a \<in> set q4. family_from_socket_addr a = Ipv4"
    and "\<forall>a \<in> set q6. family_from_socket_addr a = Ipv6"
    and "i < 2 * min (length q4) (length q6)"
  shows "family_from_socket_addr (fallback_loop f q4 q6 ! i)
         = (if even i then f else (if f = Ipv4 then Ipv6 else Ipv4))"
  using assms
proof (induction q4 arbitrary: q6 i)
  case Nil
  then show ?case by simp
next
  case (Cons a q4)
  then obtain b q6' where q6: "q6 = b # q6'" by (cases q6) auto
  have fam: "family_from_socket_addr a = Ipv4" "family_from_socket_addr b = Ipv6"
    using Cons.prems q6 by simp_all
  consider "i = 0" | "i = Suc 0" | j where "i = Suc (Suc j)" by (metis nat.exhaust)
  then show ?case
  proof cases
    case (3 j)
    then have "j < 2 * min (length q4) (length q6')" using Cons.prems q6 by simp
    then have "family_from_socket_addr (fallback_loop f q4 q6' ! j)
               = (if even j then f else (if f = Ipv4 then Ipv6 else Ipv4))"
      using Cons.prems q6 by (intro Cons.IH) simp_all
    moreover have "fallback_loop f (a # q4) q6 ! i = fallback_loop f q4 q6' ! j"
      by (simp add: q6 3 fallback_loop_Cons_Cons)
    ultimately show ?thesis by (simp only: 3 even_Suc_Suc_iff)
  qed (cases f; simp add: q6 fam)+
qed

lemma order_for_fast_fallback_filter:
  "filter (\<lambda>a. family_from_socket_addr a = f) (order_for_fast_fallback addrs)
   = filter (\<lambda>a. family_from_socket_addr a = f) addrs"
  by (cases f) (simp_all add: order_for_fast_fallback_def Let_def fallback_loop_filter)

lemma mset_order_for_fast_fallback: "mset (order_for_fast_fallback addrs) = mset addrs"
proof (rule multiset_eqI)
  fix a
  let ?n = "\<lambda>xs. count (mset (filter (\<lambda>x. family_from_socket_addr x = family_from_socket_addr a) xs)) a"
  have "count (mset (order_for_fast_fallback addrs)) a = ?n (order_for_fast_fallback addrs)" by simp
  also have "\<dots> = ?n addrs" by (simp only: order_for_fast_fallback_filter)
  also have "\<dots> = count (mset addrs) a" by simp
  finally show "count (mset (order_for_fast_fallback addrs)) a = count (mset addrs) a" .
qed

lemma set_order_for_fast_fallback [simp]: "set (order_for_fast_fallback addrs) = set addrs"
  by (metis mset_order_for_fast_fallback set_mset_mset)

lemma length_promote_winner:
  "length (cp_attempts (snd (promote_winner w cp))) = length (cp_attempts cp)"
  by (simp add: promote_winner_def cp_transition_def)

lemma promote_winner_state:
  assumes "w < length (cp_attempts cp)" and "i < length (cp_attempts cp)"
  shows "ca_state (cp_attempts (snd (promote_winner w cp)) ! i) =
         (if i = w then Won
          else case ca_state (cp_attempts cp ! i) of
                 Pending \<Rightarrow> Lost w | Running \<Rightarrow> Lost w | s \<Rightarrow> s)"
  using assms
  by (auto simp: promote_winner_def cp_transition_def lose_if_unfinished_def nth_enumerate_eq
      split: ConnectAttemptState.splits)

lemma eq_ignore_ascii_case_lower:
  "eq_ignore_ascii_case s t \<longleftrightarrow> to_ascii_lowercase s = to_ascii_lowercase t"
  by (simp add: eq_ignore_ascii_case_def)

text \<open>The socket address a route dials.\<close>

fun kind_socket :: "RouteKind \<Rightarrow> socket_addr" where
  "kind_socket (DirectRoute a) = a"
| "kind_socket (HttpForwardProxy a _) = a"
| "kind_socket (ConnectProxy a _) = a"
| "kind_socket (SocksProxy a _) = a"

lemmas route_defs = route_direct_def route_http_forward_def route_connect_proxy_def
  route_socks_proxy_def proxy_route_shared_def

text \<open>An https address for the concrete instances of the properties.\<close>

definition ex_address :: "string \<Rightarrow> Address" where
  "ex_address host =
     \<lparr>ad_scheme = SchemeHttps, ad_authority = \<lparr>ak_host = host, ak_port = 443\<rparr>, ad_proxy = None,
      ad_tls_identity = Some \<lparr>tls_server_name = host\<rparr>, ad_protocol_policy = Http1OrHttp2,
      ad_dns_policy = DnsSystem\<rparr>"

section \<open>Properties\<close>

text \<open>
  Ordering resolved addresses for the dial race loses none, duplicates none and keeps the
  resolver's order within each family; while both families have addresses left the result
  alternates between them, IPv6 first.
\<close>

theorem order_for_fast_fallback_correct:
  "filter (\<lambda>a. family_from_socket_addr a = f) (order_for_fast_fallback addrs)
     = filter (\<lambda>a. family_from_socket_addr a = f) addrs \<and>
   mset (order_for_fast_fallback addrs) = mset addrs \<and>
   (\<forall>i < 2 * min (length (filter (\<lambda>a. family_from_socket_addr a = Ipv4) addrs))
                (length (filter (\<lambda>a. family_from_socket_addr a = Ipv6) addrs)).
      family_from_socket_addr (order_for_fast_fallback addrs ! i) = (if even i then Ipv6 else Ipv4))"
proof (intro conjI allI impI)
  let ?q4 = "filter (\<lambda>a. family_from_socket_addr a = Ipv4) addrs"
  let ?q6 = "filter (\<lambda>a. family_from_socket_addr a = Ipv6) addrs"
  fix i assume i: "i < 2 * min (length ?q4) (length ?q6)"
  then have ne: "addrs \<noteq> []" "?q6 \<noteq> []" by (cases addrs; force)+
  have order: "order_for_fast_fallback addrs = fallback_loop Ipv6 ?q4 ?q6"
    unfolding order_for_fast_fallback_def Let_def if_not_P [OF ne(1)] if_P [OF ne(2)] by (rule refl)
  have "family_from_socket_addr (fallback_loop Ipv6 ?q4 ?q6 ! i)
      = (if even i then Ipv6 else if Ipv6 = Ipv4 then Ipv6 else Ipv4)"
    by (rule fallback_loop_alternates [OF _ _ i]) simp_all
  then show "family_from_socket_addr (order_for_fast_fallback addrs ! i)
      = (if even i then Ipv6 else Ipv4)"
    unfolding order by simp
qed (simp_all add: order_for_fast_fallback_filter mset_order_for_fast_fallback)

theorem order_for_fast_fallback_correct_witness:
  "order_for_fast_fallback [SockV4 1 80, SockV4 2 80, SockV6 3 80 0 0]
     = [SockV6 3 80 0 0, SockV4 1 80, SockV4 2 80] \<and>
   family_from_socket_addr (order_for_fast_fallback [SockV4 1 80, SockV4 2 80, SockV6 3 80 0 0] ! 1) = Ipv4"
  using order_for_fast_fallback_correct [of Ipv4 "[SockV4 1 80, SockV4 2 80, SockV6 3 80 0 0]"]
  by (simp add: order_for_fast_fallback_def)

text \<open>
  A verified certificate name covers a host exactly when they are equal or the name is a
  wildcard \<^verbatim>\<open>*.suffix\<close> and the host is one label, a dot and that suffix: a wildcard never spans two
  labels and never covers the bare suffix.
\<close>

theorem verified_server_name_matches_iff:
  "verified_server_name_matches pattern host \<longleftrightarrow>
     pattern = host \<or>
     (\<exists>suffix label. pattern = ''*.'' @ suffix \<and> host = label @ ''.'' @ suffix \<and> CHR ''.'' \<notin> set label)"
proof -
  have "(prefix \<noteq> [] \<and> last prefix = CHR ''.'' \<and> CHR ''.'' \<notin> set (butlast prefix)) \<longleftrightarrow>
        (\<exists>label. prefix = label @ ''.'' \<and> CHR ''.'' \<notin> set label)" for prefix
    by (cases prefix rule: rev_cases) auto
  note label = this
  show ?thesis
  proof (cases "strip_prefix ''*.'' pattern")
    case None
    then have "pattern \<noteq> ''*.'' @ suffix" for suffix
      using strip_prefix_Some_iff [of "''*.''" pattern suffix] by simp
    then show ?thesis using None by (simp add: verified_server_name_matches_def)
  next
    case (Some suffix)
    then have pat: "pattern = ''*.'' @ suffix" by (simp only: strip_prefix_Some_iff)
    show ?thesis
    proof (cases "strip_suffix suffix host")
      case None
      then have "host \<noteq> x @ suffix" for x using strip_suffix_Some_iff [of suffix host x] by simp
      then have "host \<noteq> x @ ''.'' @ suffix" for x using append.assoc [of x "''.''" suffix] by metis
      then show ?thesis using Some None pat by (simp add: verified_server_name_matches_def)
    next
      case (Some prefix)
      then have host: "host = prefix @ suffix" by (simp only: strip_suffix_Some_iff)
      then have "verified_server_name_matches pattern host \<longleftrightarrow>
          pattern = host \<or> (\<exists>label. prefix = label @ ''.'' \<and> CHR ''.'' \<notin> set label)"
        using Some \<open>strip_prefix ''*.'' pattern = Some suffix\<close> label [of prefix]
        by (simp add: verified_server_name_matches_def)
      then show ?thesis using pat host by simp
    qed
  qed
qed

text \<open>
  The pool key of a call does not depend on how the URI spells its scheme and host: two URIs
  that agree up to ASCII case, with the same explicit port, give the same address, whose host is
  lower case, whose port is the explicit or the scheme's default one, and which has a TLS identity,
  for the same host, exactly when the scheme is https.
\<close>

theorem address_from_uri_canonical:
  assumes "address_from_uri u sp = Inr a"
    and "uri_scheme_str u = Some s" "uri_scheme_str v = Some s'" "eq_ignore_ascii_case s s'"
    and "uri_host u = Some h" "uri_host v = Some h'" "eq_ignore_ascii_case h h'"
    and "uri_port_u16 u = uri_port_u16 v"
  shows "address_from_uri v sp = Inr a \<and>
         ak_host (ad_authority a) = to_ascii_lowercase h \<and>
         (ad_scheme a = SchemeHttps \<longleftrightarrow> eq_ignore_ascii_case s ''https'') \<and>
         ad_tls_identity a = (if ad_scheme a = SchemeHttps
                              then Some \<lparr>tls_server_name = to_ascii_lowercase h\<rparr> else None) \<and>
         ak_port (ad_authority a) = (case uri_port_u16 u of Some p \<Rightarrow> p
            | None \<Rightarrow> if ad_scheme a = SchemeHttps then 443 else 80)"
  using assms
  by (auto simp: address_from_uri_def Let_def eq_ignore_ascii_case_lower authority_key_new_def
      tls_identity_new_def planning_normalize_host_def default_port_def
      split: if_splits sum.splits option.splits)

theorem address_from_uri_canonical_witness:
  "address_from_uri \<lparr>uri_scheme_str = Some ''HTTPS'', uri_host = Some ''Ex.Org'', uri_port_u16 = None,
                     uri_authority = None, uri_text = []\<rparr> None
   = address_from_uri \<lparr>uri_scheme_str = Some ''https'', uri_host = Some ''ex.org'', uri_port_u16 = None,
                     uri_authority = None, uri_text = []\<rparr> None"
proof -
  let ?u = "\<lparr>uri_scheme_str = Some ''https'', uri_host = Some ''ex.org'', uri_port_u16 = None,
             uri_authority = None, uri_text = []\<rparr>"
  have "eq_ignore_ascii_case ''https'' ''https''" by (simp add: eq_ignore_ascii_case_lower)
  then have "\<exists>a. address_from_uri ?u None = Inr a"
    by (simp add: address_from_uri_def Let_def)
  then obtain a where a: "address_from_uri ?u None = Inr a" ..
  from address_from_uri_canonical [OF a, of "''https''"
      "\<lparr>uri_scheme_str = Some ''HTTPS'', uri_host = Some ''Ex.Org'', uri_port_u16 = None,
       uri_authority = None, uri_text = []\<rparr>" "''HTTPS''" "''ex.org''" "''Ex.Org''"]
  moreover have "eq_ignore_ascii_case ''https'' ''HTTPS''" "eq_ignore_ascii_case ''ex.org'' ''Ex.Org''"
    by code_simp+
  ultimately show ?thesis using a by simp
qed

text \<open>
  A default plan dials exactly the resolved addresses in fast-fallback order; every route
  belongs to the planned address, its kind is the one of the address's proxy mode and carries the
  proxy's credentials, and the target name is resolved locally only when there is no proxy.
\<close>

theorem default_plan_correct:
  "\<exists>plan. default_plan stagger address addrs = Inr plan \<and>
     rp_fast_fallback_stagger plan = stagger \<and>
     map (\<lambda>r. kind_socket (rt_kind r)) (rp_routes plan) = order_for_fast_fallback addrs \<and>
     list_all (\<lambda>r. rt_address r = address \<and>
        rt_family r = family_from_socket_addr (kind_socket (rt_kind r)) \<and>
        rt_kind r = (let s = kind_socket (rt_kind r); cr = address_credentials address in
           case map_option pc_mode (ad_proxy address) of
             None \<Rightarrow> DirectRoute s | Some Forward \<Rightarrow> HttpForwardProxy s cr
           | Some Connect \<Rightarrow> ConnectProxy s cr | Some SocksTunnel \<Rightarrow> SocksProxy s cr) \<and>
        rt_target_dns r = (if ad_proxy address = None then LocalDns (kind_socket (rt_kind r))
           else DeferredDns (ak_host (ad_authority address)) (ak_port (ad_authority address))))
       (rp_routes plan)"
  by (cases "ad_proxy address"; cases "map_option pc_mode (ad_proxy address)";
      simp add: default_plan_def plan_direct_def plan_http_forward_def plan_connect_proxy_def
        plan_socks_proxy_def plan_routes_def route_defs comp_def list_all_iff split: ProxyMode.split)

end
