(* ===== verification/Real_Connection.thy ===== *)
theory Real_Connection
  imports Planning
begin

text \<open>
  Pooled connections (\<^verbatim>\<open>openwire/src/connection/real_connection.rs\<close>): the allocation state machine
  that both the pool and the transport drive.  A \<^verbatim>\<open>RealConnection\<close> is an \<^verbatim>\<open>Arc\<close>; here a record is the
  pointee, and the pool keeps a heap from references to records.  \<open>now\<close> is the value \<^verbatim>\<open>Instant::now\<close>
  returns inside the operation.

  The locale \<open>bounded_lease\<close> states the contract of a resource handed out up to a capacity; its
  lemmas hold of every trace of acquisitions and releases and are used through the interpretation
  on the connection.
\<close>

section \<open>Data\<close>

datatype ConnectionProtocol = ConnHttp1 | ConnHttp2

datatype ConnectionHealth = Healthy | Unhealthy | HealthClosed

datatype ConnectionAllocationState = AllocIdle | AllocInUse usize | AllocClosed

record RealConnectionState =
  cs_health :: ConnectionHealth
  cs_allocations :: usize
  cs_idle_since :: "instant option"
  cs_completed_exchanges :: usize

record RealConnection =
  rc_id :: u64
  rc_address :: Address
  rc_route :: Route
  rc_protocol :: ConnectionProtocol
  rc_verified_server_names :: "string list"
  rc_max_http2_streams :: usize
  rc_created_at :: instant
  rc_permit :: "u64 option"
  rc_state :: RealConnectionState

record RealConnectionSnapshot =
  sn_id :: u64
  sn_protocol :: ConnectionProtocol
  sn_health :: ConnectionHealth
  sn_allocation :: ConnectionAllocationState
  sn_idle_since :: "instant option"
  sn_completed_exchanges :: usize

section \<open>Operations\<close>

definition DEFAULT_HTTP2_MAX_LOCAL_STREAMS :: usize where
  "DEFAULT_HTTP2_MAX_LOCAL_STREAMS = 100"

definition real_connection_with_stream_cap ::
  "instant \<Rightarrow> u64 \<Rightarrow> Route \<Rightarrow> ConnectionProtocol \<Rightarrow> u64 option \<Rightarrow> string list \<Rightarrow> usize
   \<Rightarrow> RealConnection" where
  "real_connection_with_stream_cap now cid route protocol permit names max_http2_streams =
     \<lparr>rc_id = cid, rc_address = rt_address route, rc_route = route, rc_protocol = protocol,
      rc_verified_server_names = names, rc_max_http2_streams = max max_http2_streams 1,
      rc_created_at = now, rc_permit = permit,
      rc_state = \<lparr>cs_health = Healthy, cs_allocations = 0, cs_idle_since = Some now,
                  cs_completed_exchanges = 0\<rparr>\<rparr>"

definition real_connection_with_id ::
  "instant \<Rightarrow> u64 \<Rightarrow> Route \<Rightarrow> ConnectionProtocol \<Rightarrow> RealConnection" where
  "real_connection_with_id now cid route protocol =
     real_connection_with_stream_cap now cid route protocol None []
       DEFAULT_HTTP2_MAX_LOCAL_STREAMS"

definition allocation_state :: "RealConnectionState \<Rightarrow> ConnectionAllocationState" where
  "allocation_state st =
     (if cs_health st = HealthClosed then AllocClosed
      else if cs_allocations st = 0 then AllocIdle
      else AllocInUse (cs_allocations st))"

definition rc_snapshot :: "RealConnection \<Rightarrow> RealConnectionSnapshot" where
  "rc_snapshot c =
     \<lparr>sn_id = rc_id c, sn_protocol = rc_protocol c, sn_health = cs_health (rc_state c),
      sn_allocation = allocation_state (rc_state c), sn_idle_since = cs_idle_since (rc_state c),
      sn_completed_exchanges = cs_completed_exchanges (rc_state c)\<rparr>"

definition can_acquire_with :: "RealConnection \<Rightarrow> RealConnectionState \<Rightarrow> bool" where
  "can_acquire_with c st =
     (if cs_health st \<noteq> Healthy then False
      else case rc_protocol c of
             ConnHttp1 \<Rightarrow> \<not> cs_allocations st > 0
           | ConnHttp2 \<Rightarrow> \<not> cs_allocations st \<ge> rc_max_http2_streams c)"

definition rc_can_acquire :: "RealConnection \<Rightarrow> bool" where
  "rc_can_acquire c = can_acquire_with c (rc_state c)"

definition rc_try_acquire :: "RealConnection \<Rightarrow> bool \<times> RealConnection" where
  "rc_try_acquire c =
     (if \<not> can_acquire_with c (rc_state c) then (False, c)
      else (True, c\<lparr>rc_state := (rc_state c)\<lparr>cs_allocations := cs_allocations (rc_state c) + 1,
                                            cs_idle_since := None\<rparr>\<rparr>))"

definition rc_release :: "instant \<Rightarrow> RealConnection \<Rightarrow> bool \<times> RealConnection" where
  "rc_release now c =
     (let st = rc_state c in
      if cs_health st = HealthClosed \<or> cs_allocations st = 0 then (False, c)
      else
        let st1 = st\<lparr>cs_allocations := cs_allocations st - 1,
                      cs_completed_exchanges := cs_completed_exchanges st + 1\<rparr>;
            st2 = (if cs_allocations st1 = 0 then st1\<lparr>cs_idle_since := Some now\<rparr> else st1)
        in (True, c\<lparr>rc_state := st2\<rparr>))"

definition rc_mark_unhealthy :: "RealConnection \<Rightarrow> RealConnection" where
  "rc_mark_unhealthy c =
     (if cs_health (rc_state c) \<noteq> HealthClosed
      then c\<lparr>rc_state := (rc_state c)\<lparr>cs_health := Unhealthy\<rparr>\<rparr> else c)"

definition rc_is_healthy :: "RealConnection \<Rightarrow> bool" where
  "rc_is_healthy c \<longleftrightarrow> cs_health (rc_state c) = Healthy"

definition rc_close :: "RealConnection \<Rightarrow> RealConnection" where
  "rc_close c =
     c\<lparr>rc_state := (rc_state c)\<lparr>cs_health := HealthClosed, cs_allocations := 0,
                                cs_idle_since := None\<rparr>\<rparr>"

definition rc_is_closed :: "RealConnection \<Rightarrow> bool" where
  "rc_is_closed c \<longleftrightarrow> cs_health (rc_state c) = HealthClosed"

section \<open>Specification\<close>

text \<open>The stream capacity of a protocol, and the invariant of a connection.\<close>

definition rc_capacity :: "RealConnection \<Rightarrow> nat" where
  "rc_capacity c = (case rc_protocol c of ConnHttp1 \<Rightarrow> 1 | ConnHttp2 \<Rightarrow> rc_max_http2_streams c)"

definition rc_inv :: "RealConnection \<Rightarrow> bool" where
  "rc_inv c \<longleftrightarrow>
     cs_allocations (rc_state c) \<le> rc_capacity c \<and> 1 \<le> rc_max_http2_streams c \<and>
     rc_address c = rt_address (rc_route c) \<and>
     (cs_idle_since (rc_state c) \<noteq> None \<longleftrightarrow>
        cs_health (rc_state c) \<noteq> HealthClosed \<and> cs_allocations (rc_state c) = 0)"

text \<open>The fields that no operation changes.\<close>

definition rc_fixed :: "RealConnection \<Rightarrow> RealConnection" where
  "rc_fixed c = c\<lparr>rc_state := \<lparr>cs_health = Healthy, cs_allocations = 0, cs_idle_since = None,
                               cs_completed_exchanges = 0\<rparr>\<rparr>"

datatype conn_event = EvAcquire | EvRelease instant | EvMarkUnhealthy | EvClose

fun conn_apply :: "conn_event \<Rightarrow> RealConnection \<Rightarrow> RealConnection" where
  "conn_apply EvAcquire c = snd (rc_try_acquire c)"
| "conn_apply (EvRelease now) c = snd (rc_release now c)"
| "conn_apply EvMarkUnhealthy c = rc_mark_unhealthy c"
| "conn_apply EvClose c = rc_close c"

definition conn_run :: "conn_event list \<Rightarrow> RealConnection \<Rightarrow> RealConnection" where
  "conn_run es c = fold conn_apply es c"

section \<open>The lease contract\<close>

text \<open>
  A resource with a number of leases held at a time: an operation that succeeds takes or gives back
  exactly one lease, one that fails changes nothing, and leases never exceed the capacity.
\<close>

locale bounded_lease =
  fixes acquire :: "'s \<Rightarrow> bool \<times> 's"
    and release :: "'t \<Rightarrow> 's \<Rightarrow> bool \<times> 's"
    and held :: "'s \<Rightarrow> nat"
    and cap :: "'s \<Rightarrow> nat"
    and inv :: "'s \<Rightarrow> bool"
  assumes acquire_ok: "inv s \<Longrightarrow> acquire s = (True, s') \<Longrightarrow>
      inv s' \<and> held s' = held s + 1 \<and> cap s' = cap s"
    and acquire_no: "acquire s = (False, s') \<Longrightarrow> s' = s"
    and release_ok: "inv s \<Longrightarrow> release t s = (True, s') \<Longrightarrow>
      inv s' \<and> held s = held s' + 1 \<and> cap s' = cap s"
    and release_no: "release t s = (False, s') \<Longrightarrow> s' = s"
    and held_le_cap: "inv s \<Longrightarrow> held s \<le> cap s"
begin

primrec acquire_n :: "nat \<Rightarrow> 's \<Rightarrow> nat \<times> 's" where
  "acquire_n 0 s = (0, s)"
| "acquire_n (Suc n) s =
     (case acquire s of
        (True, s') \<Rightarrow> (let (k, s'') = acquire_n n s' in (Suc k, s''))
      | (False, s') \<Rightarrow> acquire_n n s')"

lemma acquire_n_held:
  "inv s \<Longrightarrow> inv (snd (acquire_n n s))
     \<and> held (snd (acquire_n n s)) = held s + fst (acquire_n n s)
     \<and> cap (snd (acquire_n n s)) = cap s"
proof (induction n arbitrary: s)
  case (Suc n)
  obtain b s' where a: "acquire s = (b, s')" by fastforce
  show ?case
  proof (cases b)
    case True
    then have "inv s'" "held s' = held s + 1" "cap s' = cap s"
      using acquire_ok [OF Suc.prems] a by auto
    then show ?thesis using Suc.IH [of s'] True a by (auto split: prod.splits)
  next
    case False
    then show ?thesis using acquire_no [of s s'] a Suc by auto
  qed
qed simp

lemma acquire_n_le_free:
  assumes "inv s" shows "fst (acquire_n n s) \<le> cap s - held s"
  using acquire_n_held [OF assms, of n] held_le_cap [of "snd (acquire_n n s)"] by auto

end

section \<open>Lemmas\<close>

lemmas rc_defs = rc_try_acquire_def rc_release_def rc_mark_unhealthy_def rc_close_def Let_def

lemma rc_fixed_ops [simp]:
  "rc_fixed (snd (rc_try_acquire c)) = rc_fixed c"
  "rc_fixed (snd (rc_release now c)) = rc_fixed c"
  "rc_fixed (rc_mark_unhealthy c) = rc_fixed c"
  "rc_fixed (rc_close c) = rc_fixed c"
  by (simp_all add: rc_defs rc_fixed_def)

lemma rc_fixed_eqD:
  assumes "rc_fixed c = rc_fixed d"
  shows "rc_id c = rc_id d" "rc_address c = rc_address d" "rc_route c = rc_route d"
    "rc_protocol c = rc_protocol d" "rc_verified_server_names c = rc_verified_server_names d"
    "rc_max_http2_streams c = rc_max_http2_streams d" "rc_created_at c = rc_created_at d"
  using assms by (cases c; cases d; simp add: rc_fixed_def)+

lemma rc_is_closed_close [simp]: "rc_is_closed (rc_close c)"
  by (simp add: rc_is_closed_def rc_close_def)

lemma rc_inv_try_acquire [simp]: "rc_inv c \<Longrightarrow> rc_inv (snd (rc_try_acquire c))"
  by (auto simp: rc_inv_def rc_try_acquire_def can_acquire_with_def rc_capacity_def
      split: ConnectionProtocol.splits if_splits)

lemma rc_inv_release [simp]: "rc_inv c \<Longrightarrow> rc_inv (snd (rc_release now c))"
  by (auto simp: rc_inv_def rc_release_def rc_capacity_def Let_def
      split: ConnectionProtocol.splits if_splits)

lemma rc_inv_mark_unhealthy [simp]: "rc_inv c \<Longrightarrow> rc_inv (rc_mark_unhealthy c)"
  by (auto simp: rc_inv_def rc_mark_unhealthy_def rc_capacity_def
      split: ConnectionProtocol.splits)

lemma rc_inv_close [simp]: "rc_inv c \<Longrightarrow> rc_inv (rc_close c)"
  by (auto simp: rc_inv_def rc_close_def rc_capacity_def split: ConnectionProtocol.splits)

lemma rc_inv_new [simp]:
  "rc_inv (real_connection_with_stream_cap now cid route protocol permit names n)"
  by (simp add: rc_inv_def real_connection_with_stream_cap_def rc_capacity_def
      split: ConnectionProtocol.splits)

lemma rc_inv_apply: "rc_inv c \<Longrightarrow> rc_inv (conn_apply e c)"
  by (cases e) simp_all

lemma rc_inv_run: "rc_inv c \<Longrightarrow> rc_inv (conn_run es c)"
  unfolding conn_run_def by (induction es arbitrary: c) (simp_all add: rc_inv_apply)

lemma rc_fixed_run: "rc_fixed (conn_run es c) = rc_fixed c"
proof (induction es arbitrary: c)
  case (Cons e es)
  then show ?case by (cases e) (simp_all add: conn_run_def)
qed (simp add: conn_run_def)

lemma rc_capacity_fixed: "rc_fixed c = rc_fixed d \<Longrightarrow> rc_capacity c = rc_capacity d"
  using rc_fixed_eqD(4,6) [of c d] by (simp add: rc_capacity_def split: ConnectionProtocol.split)

lemma rc_closed_apply: "rc_is_closed c \<Longrightarrow> rc_is_closed (conn_apply e c)"
  by (cases e) (auto simp: rc_is_closed_def rc_defs can_acquire_with_def)

lemma rc_closed_run: "rc_is_closed c \<Longrightarrow> rc_is_closed (conn_run es c)"
  unfolding conn_run_def by (induction es arbitrary: c) (simp_all add: rc_closed_apply)

lemma rc_closed_run_allocations: "cs_allocations (rc_state (conn_run es (rc_close c))) = 0"
proof (induction es rule: rev_induct)
  case (snoc e es)
  have "rc_is_closed (conn_run es (rc_close c))" by (rule rc_closed_run) simp
  with snoc show ?case
    by (cases e) (simp_all add: conn_run_def rc_is_closed_def rc_defs can_acquire_with_def)
qed (simp add: conn_run_def rc_close_def)

lemma rc_try_acquire_iff: "fst (rc_try_acquire c) \<longleftrightarrow> rc_can_acquire c"
  by (simp add: rc_try_acquire_def rc_can_acquire_def)

lemma rc_can_acquire_iff:
  "rc_can_acquire c \<longleftrightarrow> rc_is_healthy c \<and> cs_allocations (rc_state c) < rc_capacity c"
  by (auto simp: rc_can_acquire_def can_acquire_with_def rc_is_healthy_def rc_capacity_def
      split: ConnectionProtocol.splits)

lemma rc_try_acquire_allocations:
  "cs_allocations (rc_state (snd (rc_try_acquire c)))
   = cs_allocations (rc_state c) + (if rc_can_acquire c then 1 else 0)"
  by (simp add: rc_try_acquire_def rc_can_acquire_def)

interpretation conn_lease: bounded_lease rc_try_acquire rc_release
    "\<lambda>c. cs_allocations (rc_state c)" rc_capacity rc_inv
proof (unfold_locales, goal_cases)
  case (1 s s')
  then have "rc_can_acquire s" using rc_try_acquire_iff [of s] by simp
  with 1 show ?case
    using rc_try_acquire_allocations [of s] rc_capacity_fixed [OF rc_fixed_ops(1) [of s]]
      rc_inv_try_acquire [of s] by simp
next
  case (2 s s')
  then show ?case by (auto simp: rc_try_acquire_def split: if_splits)
next
  case (3 s t s')
  then have "cs_allocations (rc_state s) = cs_allocations (rc_state s') + 1"
    by (auto simp: rc_release_def Let_def split: if_splits)
  with 3 show ?case
    using rc_capacity_fixed [OF rc_fixed_ops(2) [of t s]] rc_inv_release [of s t] by simp
next
  case (4 t s s')
  then show ?case by (auto simp: rc_release_def Let_def split: if_splits)
next
  case (5 s)
  then show ?case by (simp add: rc_inv_def)
qed

section \<open>Properties\<close>

text \<open>
  Under any sequence of acquisitions, releases, health changes and closes, a connection never
  carries more exchanges than its protocol allows: one on HTTP/1, the configured stream budget (at
  least one) on HTTP/2; and however many more acquisitions are tried at once, no more succeed than
  the capacity leaves free.
\<close>

theorem connection_capacity:
  "let c = conn_run es (real_connection_with_stream_cap now cid route protocol permit names streams)
   in cs_allocations (rc_state c) + fst (conn_lease.acquire_n n c)
      \<le> (case protocol of ConnHttp1 \<Rightarrow> 1 | ConnHttp2 \<Rightarrow> max streams 1)"
proof -
  let ?new = "real_connection_with_stream_cap now cid route protocol permit names streams"
  let ?c = "conn_run es ?new"
  have inv: "rc_inv ?c" by (rule rc_inv_run) simp
  have "rc_capacity ?c = rc_capacity ?new" by (rule rc_capacity_fixed [OF rc_fixed_run])
  also have "\<dots> = (case protocol of ConnHttp1 \<Rightarrow> 1 | ConnHttp2 \<Rightarrow> max streams 1)"
    by (simp add: rc_capacity_def real_connection_with_stream_cap_def split: ConnectionProtocol.split)
  finally show ?thesis
    using conn_lease.acquire_n_le_free [OF inv, of n] conn_lease.held_le_cap [OF inv] by (simp add: Let_def)
qed

text \<open>
  Closing is final: once a connection is closed, whatever its owners do afterwards, it stays
  closed, holds no allocation and is not idle, and both acquiring and releasing fail without effect.
\<close>

theorem connection_closed_final:
  assumes "rc_inv c"
  shows "rc_is_closed (conn_run es (rc_close c)) \<and>
         cs_allocations (rc_state (conn_run es (rc_close c))) = 0 \<and>
         cs_idle_since (rc_state (conn_run es (rc_close c))) = None \<and>
         rc_try_acquire (conn_run es (rc_close c)) = (False, conn_run es (rc_close c)) \<and>
         rc_release now (conn_run es (rc_close c)) = (False, conn_run es (rc_close c))"
proof -
  let ?d = "conn_run es (rc_close c)"
  have closed: "rc_is_closed ?d" by (rule rc_closed_run) simp
  have "cs_allocations (rc_state ?d) = 0" by (rule rc_closed_run_allocations)
  moreover have "rc_inv ?d" using assms by (intro rc_inv_run) simp
  ultimately show ?thesis using closed
    by (simp add: rc_is_closed_def rc_inv_def rc_try_acquire_def can_acquire_with_def rc_release_def Let_def)
qed

theorem connection_closed_final_witness:
  "rc_is_closed (conn_run [EvAcquire, EvRelease 5, EvMarkUnhealthy, EvAcquire]
     (rc_close (real_connection_with_stream_cap 0 1
        (route_direct (ex_address ''a.t'') (SockV4 1 443)) ConnHttp2 None [] 4)))"
  using connection_closed_final [OF rc_inv_new] by blast

end
