(* ===== verification/Pool.thy ===== *)
theory Pool
  imports Real_Connection
begin

text \<open>
  The connection pool (\<^verbatim>\<open>openwire/src/connection/pool.rs\<close>).  Connections are shared \<^verbatim>\<open>Arc\<close>s: a
  reference (\<open>cref\<close>) is the pointer, \<open>cpl_heap\<close> the pointees, and the address buckets, the coalescing
  index and callers hold references.  The 32 mutex-guarded shards are a list of maps; \<open>fx\<close> is the
  value the \<^verbatim>\<open>FxHasher\<close> of \<^verbatim>\<open>rustc_hash\<close> finishes with for an address (with the process seed).
  \<open>hs\<close> is the order in which a \<^verbatim>\<open>HashSet\<close> filled from a list is iterated and \<open>ko\<close> the order of the
  keys of a shard's map.  Every operation takes one clock reading \<open>now\<close>.  The eviction hook is the
  transport's; \<open>cpl_hook_calls\<close> is the sequence of its invocations.

  The operations are proved against an invariant that ties the three indexes together; the
  intermediate states, in which buckets are pruned and the indexes are not, are described by
  \<open>index_inv\<close> with an explicit set of indexed references.
\<close>

section \<open>Data\<close>

type_synonym cref = nat

record PoolSettings =
  ps_idle_timeout :: "duration option"
  ps_max_idle_per_address :: usize
  ps_max_lifetime :: "duration option"

record PoolStats =
  pst_total :: usize
  pst_idle :: usize
  pst_in_use :: usize

type_synonym PoolState = "Address \<rightharpoonup> cref list"

type_synonym conn_heap = "cref \<Rightarrow> RealConnection"

record ConnectionPool =
  cpl_settings :: PoolSettings
  cpl_shards :: "PoolState list"
  cpl_coalesced_by_target :: "socket_addr \<rightharpoonup> cref list"
  cpl_by_id :: "u64 \<rightharpoonup> Address"
  cpl_eviction_hook :: bool
  cpl_hook_calls :: "u64 list"
  cpl_heap :: conn_heap

definition pool_settings_default :: PoolSettings where
  "pool_settings_default =
     \<lparr>ps_idle_timeout = Some (secs 300), ps_max_idle_per_address = 5,
      ps_max_lifetime = Some (secs 600)\<rparr>"

definition needs_reaper :: "PoolSettings \<Rightarrow> bool" where
  "needs_reaper s \<longleftrightarrow> ps_idle_timeout s \<noteq> None \<or> ps_max_lifetime s \<noteq> None"

definition reaper_interval_hint :: "PoolSettings \<Rightarrow> duration" where
  "reaper_interval_hint s =
     (case (ps_idle_timeout s, ps_max_lifetime s) of
        (Some idle, Some lifetime) \<Rightarrow> min idle lifetime
      | (Some idle, None) \<Rightarrow> idle
      | (None, Some lifetime) \<Rightarrow> lifetime
      | (None, None) \<Rightarrow> secs 60)"

section \<open>Shards\<close>

definition ADDRESS_SHARDS :: usize where
  "ADDRESS_SHARDS = 32"

definition address_shard :: "(Address \<Rightarrow> nat) \<Rightarrow> Address \<Rightarrow> usize" where
  "address_shard fx address = fx address mod ADDRESS_SHARDS"

definition pool_new :: "PoolSettings \<Rightarrow> conn_heap \<Rightarrow> ConnectionPool" where
  "pool_new settings heap =
     \<lparr>cpl_settings = settings, cpl_shards = replicate ADDRESS_SHARDS Map.empty,
      cpl_coalesced_by_target = Map.empty, cpl_by_id = Map.empty, cpl_eviction_hook = False,
      cpl_hook_calls = [], cpl_heap = heap\<rparr>"

definition set_eviction_hook :: "ConnectionPool \<Rightarrow> ConnectionPool" where
  "set_eviction_hook p = p\<lparr>cpl_eviction_hook := True\<rparr>"

definition pool_shard :: "(Address \<Rightarrow> nat) \<Rightarrow> ConnectionPool \<Rightarrow> Address \<Rightarrow> PoolState" where
  "pool_shard fx p address = cpl_shards p ! address_shard fx address"

definition put_shard ::
  "(Address \<Rightarrow> nat) \<Rightarrow> Address \<Rightarrow> PoolState \<Rightarrow> ConnectionPool \<Rightarrow> ConnectionPool" where
  "put_shard fx address st p = p\<lparr>cpl_shards := (cpl_shards p)[address_shard fx address := st]\<rparr>"

section \<open>Pruning\<close>

definition is_in_use :: "RealConnection \<Rightarrow> bool" where
  "is_in_use c = (case sn_allocation (rc_snapshot c) of AllocInUse _ \<Rightarrow> True | _ \<Rightarrow> False)"

definition idle_connection_expired :: "instant \<Rightarrow> RealConnection \<Rightarrow> duration \<Rightarrow> bool" where
  "idle_connection_expired now c timeout \<longleftrightarrow>
     sn_allocation (rc_snapshot c) = AllocIdle \<and>
     (case sn_idle_since (rc_snapshot c) of
        Some idle_since \<Rightarrow> elapsed now idle_since \<ge> timeout
      | None \<Rightarrow> False)"

definition connection_lifetime_expired :: "instant \<Rightarrow> RealConnection \<Rightarrow> duration \<Rightarrow> bool" where
  "connection_lifetime_expired now c max_lifetime \<longleftrightarrow>
     sn_allocation (rc_snapshot c) = AllocIdle \<and> elapsed now (rc_created_at c) \<ge> max_lifetime"

text \<open>The closure of the first \<^verbatim>\<open>retain\<close>: true when the connection stays.\<close>

definition prune_keeps :: "PoolSettings \<Rightarrow> instant \<Rightarrow> RealConnection \<Rightarrow> bool" where
  "prune_keeps settings now c =
     (if \<not> rc_is_healthy c then is_in_use c
      else if (case ps_max_lifetime settings of
                 Some lifetime \<Rightarrow> connection_lifetime_expired now c lifetime | None \<Rightarrow> False)
        then False
      else if (case ps_idle_timeout settings of
                 Some timeout \<Rightarrow> idle_connection_expired now c timeout | None \<Rightarrow> False)
        then False
      else True)"

text \<open>
  \<^verbatim>\<open>Vec::retain\<close> with a closure that closes and records what it drops: the result is the heap, the
  kept references and the dropped ones.
\<close>

fun retain_closing ::
  "(RealConnection \<Rightarrow> bool) \<Rightarrow> conn_heap \<Rightarrow> cref list \<Rightarrow> conn_heap \<times> cref list \<times> cref list" where
  "retain_closing keep heap [] = (heap, [], [])"
| "retain_closing keep heap (c # cs) =
     (if keep (heap c)
      then (case retain_closing keep heap cs of
              (h, kept, removed) \<Rightarrow> (h, c # kept, removed))
      else (case retain_closing keep (heap(c := rc_close (heap c))) cs of
              (h, kept, removed) \<Rightarrow> (h, kept, c # removed)))"

definition idle_entries :: "conn_heap \<Rightarrow> cref list \<Rightarrow> (u64 \<times> instant) list" where
  "idle_entries heap cs =
     List.map_filter
       (\<lambda>c. if sn_allocation (rc_snapshot (heap c)) \<noteq> AllocIdle then None
            else map_option (\<lambda>idle_since. (rc_id (heap c), idle_since))
                   (sn_idle_since (rc_snapshot (heap c)))) cs"

definition enforce_max_idle_connections ::
  "usize \<Rightarrow> conn_heap \<Rightarrow> cref list \<Rightarrow> conn_heap \<times> cref list \<times> cref list" where
  "enforce_max_idle_connections max_idle heap cs =
     (if max_idle = USIZE_MAX then (heap, cs, [])
      else
        let idle = idle_entries heap cs in
        if length idle \<le> max_idle then (heap, cs, [])
        else
          let evict_count = length idle - max_idle;
              evicted_ids = map fst (take evict_count (sort_key snd idle))
          in retain_closing (\<lambda>c. rc_id c \<notin> set evicted_ids) heap cs)"

definition prune_connections ::
  "PoolSettings \<Rightarrow> instant \<Rightarrow> conn_heap \<Rightarrow> cref list \<Rightarrow> conn_heap \<times> cref list \<times> cref list" where
  "prune_connections settings now heap cs =
     (case retain_closing (prune_keeps settings now) heap cs of
        (h, kept, removed) \<Rightarrow>
          (case enforce_max_idle_connections (ps_max_idle_per_address settings) h kept of
             (h', kept', removed') \<Rightarrow> (h', kept', removed @ removed')))"

definition prune_address ::
  "PoolSettings \<Rightarrow> instant \<Rightarrow> Address \<Rightarrow> conn_heap \<Rightarrow> PoolState
   \<Rightarrow> conn_heap \<times> PoolState \<times> cref list" where
  "prune_address settings now address heap st =
     (case st address of
        None \<Rightarrow> (heap, st, [])
      | Some cs \<Rightarrow>
          (case prune_connections settings now heap cs of
             (h, kept, removed) \<Rightarrow>
               (h, if kept = [] then st(address := None) else st(address \<mapsto> kept), removed)))"

text \<open>Lock a shard, prune one address in it, and leave the result in the pool.\<close>

definition prune_nth_shard ::
  "instant \<Rightarrow> nat \<Rightarrow> Address \<Rightarrow> ConnectionPool \<Rightarrow> ConnectionPool \<times> cref list" where
  "prune_nth_shard now i address p =
     (case prune_address (cpl_settings p) now address (cpl_heap p) (cpl_shards p ! i) of
        (h, st, removed) \<Rightarrow>
          (p\<lparr>cpl_shards := (cpl_shards p)[i := st], cpl_heap := h\<rparr>, removed))"

definition prune_in_shard ::
  "(Address \<Rightarrow> nat) \<Rightarrow> instant \<Rightarrow> Address \<Rightarrow> ConnectionPool \<Rightarrow> ConnectionPool \<times> cref list" where
  "prune_in_shard fx now address p = prune_nth_shard now (address_shard fx address) address p"

section \<open>The coalescing index\<close>

definition request_allows_h2_coalescing :: "Address \<Rightarrow> bool" where
  "request_allows_h2_coalescing address \<longleftrightarrow>
     ad_scheme address = SchemeHttps \<and> ad_proxy address = None
     \<and> ad_protocol_policy address \<noteq> Http1Only"

definition connection_allows_h2_coalescing :: "RealConnection \<Rightarrow> bool" where
  "connection_allows_h2_coalescing c \<longleftrightarrow>
     ad_scheme (rc_address c) = SchemeHttps \<and> ad_proxy (rc_address c) = None"

definition route_overlap :: "Route \<Rightarrow> RoutePlan \<Rightarrow> bool" where
  "route_overlap connection_route plan =
     (case rt_kind connection_route of
        DirectRoute existing \<Rightarrow> (\<exists>route \<in> set (rp_routes plan). rt_kind route = DirectRoute existing)
      | _ \<Rightarrow> False)"

definition can_coalesce :: "RealConnection \<Rightarrow> Address \<Rightarrow> RoutePlan \<Rightarrow> bool" where
  "can_coalesce c request plan =
     (if rc_protocol c \<noteq> ConnHttp2 \<or> \<not> request_allows_h2_coalescing request
         \<or> \<not> connection_allows_h2_coalescing c then False
      else if ak_port (ad_authority (rc_address c)) \<noteq> ak_port (ad_authority request) then False
      else if ad_authority (rc_address c) = ad_authority request then False
      else if \<not> (\<exists>name \<in> set (rc_verified_server_names c).
                    verified_server_name_matches name (ak_host (ad_authority request))) then False
      else route_overlap (rc_route c) plan)"

definition coalescing_index_target :: "RealConnection \<Rightarrow> socket_addr option" where
  "coalescing_index_target c =
     (if rc_protocol c \<noteq> ConnHttp2 \<or> \<not> connection_allows_h2_coalescing c then None
      else case rt_kind (rc_route c) of DirectRoute target \<Rightarrow> Some target | _ \<Rightarrow> None)"

definition direct_route_targets :: "RoutePlan \<Rightarrow> socket_addr list" where
  "direct_route_targets plan =
     fold (\<lambda>route targets. case rt_kind route of
             DirectRoute target \<Rightarrow> push_unique targets [target]
           | _ \<Rightarrow> targets) (rp_routes plan) []"

definition put_bucket :: "'k \<Rightarrow> cref list \<Rightarrow> ('k \<rightharpoonup> cref list) \<Rightarrow> ('k \<rightharpoonup> cref list)" where
  "put_bucket k bucket index = (if bucket = [] then index(k := None) else index(k \<mapsto> bucket))"

definition remove_index_connection ::
  "conn_heap \<Rightarrow> cref \<Rightarrow> (socket_addr \<rightharpoonup> cref list) \<Rightarrow> (socket_addr \<rightharpoonup> cref list)" where
  "remove_index_connection heap c index =
     (case coalescing_index_target (heap c) of
        None \<Rightarrow> index
      | Some target \<Rightarrow>
          (case index target of
             None \<Rightarrow> index
           | Some bucket \<Rightarrow>
               put_bucket target (filter (\<lambda>d. rc_id (heap d) \<noteq> rc_id (heap c)) bucket) index))"

definition prune_coalescing_bucket ::
  "conn_heap \<Rightarrow> socket_addr \<Rightarrow> (socket_addr \<rightharpoonup> cref list) \<Rightarrow> (socket_addr \<rightharpoonup> cref list)" where
  "prune_coalescing_bucket heap target index =
     (case index target of
        None \<Rightarrow> index
      | Some bucket \<Rightarrow>
          put_bucket target
            (filter (\<lambda>d. coalescing_index_target (heap d) = Some target
                         \<and> \<not> rc_is_closed (heap d)) bucket) index)"

definition index_coalescing :: "cref \<Rightarrow> ConnectionPool \<Rightarrow> ConnectionPool" where
  "index_coalescing c p =
     (case coalescing_index_target (cpl_heap p c) of
        None \<Rightarrow> p
      | Some target \<Rightarrow>
          p\<lparr>cpl_coalesced_by_target :=
              (cpl_coalesced_by_target p)(target \<mapsto>
                 (case cpl_coalesced_by_target p target of Some b \<Rightarrow> b | None \<Rightarrow> []) @ [c])\<rparr>)"

section \<open>Removals and the eviction hook\<close>

definition notify_evictions :: "u64 list \<Rightarrow> ConnectionPool \<Rightarrow> ConnectionPool" where
  "notify_evictions ids p =
     (if ids = [] then p
      else if \<not> cpl_eviction_hook p then p
      else p\<lparr>cpl_hook_calls := cpl_hook_calls p @ ids\<rparr>)"

definition finish_removals :: "cref list \<Rightarrow> ConnectionPool \<Rightarrow> ConnectionPool" where
  "finish_removals removed p =
     (if removed = [] then p
      else
        let ids = map (\<lambda>c. rc_id (cpl_heap p c)) removed;
            by_id = fold (\<lambda>c m. m(rc_id (cpl_heap p c) := None)) removed (cpl_by_id p);
            coalesced = fold (remove_index_connection (cpl_heap p)) removed
                          (cpl_coalesced_by_target p)
        in notify_evictions ids
             (p\<lparr>cpl_by_id := by_id, cpl_coalesced_by_target := coalesced\<rparr>))"

section \<open>Operations\<close>

definition pool_insert ::
  "(Address \<Rightarrow> nat) \<Rightarrow> instant \<Rightarrow> cref \<Rightarrow> ConnectionPool \<Rightarrow> ConnectionPool" where
  "pool_insert fx now c p =
     (let address = rc_address (cpl_heap p c);
          st = pool_shard fx p address;
          st1 = (case st address of
                   Some connections \<Rightarrow> st(address \<mapsto> connections @ [c])
                 | None \<Rightarrow> st(address \<mapsto> [c]))
      in case prune_in_shard fx now address (put_shard fx address st1 p) of
           (p1, evicted) \<Rightarrow>
             finish_removals evicted
               (index_coalescing c
                  (p1\<lparr>cpl_by_id := (cpl_by_id p1)(rc_id (cpl_heap p1 c) \<mapsto> address)\<rparr>)))"

text \<open>\<^verbatim>\<open>iter().find(|conn| conn.try_acquire())\<close>: the first reference whose acquisition succeeds.\<close>

fun find_try_acquire :: "conn_heap \<Rightarrow> cref list \<Rightarrow> conn_heap \<times> cref option" where
  "find_try_acquire heap [] = (heap, None)"
| "find_try_acquire heap (c # cs) =
     (case rc_try_acquire (heap c) of
        (True, r) \<Rightarrow> (heap(c := r), Some c)
      | (False, r) \<Rightarrow> find_try_acquire heap cs)"

definition pool_bucket :: "(Address \<Rightarrow> nat) \<Rightarrow> ConnectionPool \<Rightarrow> Address \<Rightarrow> cref list" where
  "pool_bucket fx p address =
     (case pool_shard fx p address address of Some cs \<Rightarrow> cs | None \<Rightarrow> [])"

definition pool_acquire ::
  "(Address \<Rightarrow> nat) \<Rightarrow> instant \<Rightarrow> Address \<Rightarrow> ConnectionPool \<Rightarrow> ConnectionPool \<times> cref option" where
  "pool_acquire fx now address p =
     (case prune_in_shard fx now address p of
        (p1, removed) \<Rightarrow>
          (case find_try_acquire (cpl_heap p1) (pool_bucket fx p1 address) of
             (h, result) \<Rightarrow> (finish_removals removed (p1\<lparr>cpl_heap := h\<rparr>), result)))"

definition has_in_use_connection_unpruned ::
  "conn_heap \<Rightarrow> cref list \<Rightarrow> u64 option \<Rightarrow> bool" where
  "has_in_use_connection_unpruned heap cs excluded_id \<longleftrightarrow>
     (\<exists>c \<in> set cs. excluded_id \<noteq> Some (rc_id (heap c)) \<and> is_in_use (heap c))"

definition acquire_with_in_use_hint ::
  "(Address \<Rightarrow> nat) \<Rightarrow> instant \<Rightarrow> Address \<Rightarrow> ConnectionPool
   \<Rightarrow> ConnectionPool \<times> cref option \<times> bool" where
  "acquire_with_in_use_hint fx now address p =
     (case prune_in_shard fx now address p of
        (p1, removed) \<Rightarrow>
          (let cs = pool_bucket fx p1 address in
           case find_try_acquire (cpl_heap p1) cs of
             (h, result) \<Rightarrow>
               (finish_removals removed (p1\<lparr>cpl_heap := h\<rparr>), result,
                has_in_use_connection_unpruned h cs (map_option (\<lambda>c. rc_id (h c)) result))))"

definition has_in_use_connection ::
  "(Address \<Rightarrow> nat) \<Rightarrow> instant \<Rightarrow> Address \<Rightarrow> ConnectionPool \<Rightarrow> ConnectionPool \<times> bool" where
  "has_in_use_connection fx now address p =
     (case prune_in_shard fx now address p of
        (p1, removed) \<Rightarrow>
          (finish_removals removed p1,
           has_in_use_connection_unpruned (cpl_heap p1) (pool_bucket fx p1 address) None))"

definition has_acquirable_connection ::
  "(Address \<Rightarrow> nat) \<Rightarrow> Address \<Rightarrow> ConnectionPool \<Rightarrow> bool" where
  "has_acquirable_connection fx address p \<longleftrightarrow>
     (\<exists>c \<in> set (pool_bucket fx p address). rc_can_acquire (cpl_heap p c))"

fun prune_each ::
  "instant \<Rightarrow> (nat \<times> Address) list \<Rightarrow> ConnectionPool \<Rightarrow> ConnectionPool \<times> cref list" where
  "prune_each now [] p = (p, [])"
| "prune_each now ((i, a) # as) p =
     (case prune_nth_shard now i a p of
        (p1, removed) \<Rightarrow>
          (case prune_each now as p1 of (p2, removed') \<Rightarrow> (p2, removed @ removed')))"

text \<open>
  The candidate loop of \<^verbatim>\<open>acquire_coalesced\<close>: per target, prune its index bucket and collect the
  coalescable connections whose id was not seen yet.
\<close>

fun collect_bucket ::
  "conn_heap \<Rightarrow> Address \<Rightarrow> RoutePlan \<Rightarrow> cref list \<Rightarrow> u64 set \<Rightarrow> cref list \<Rightarrow> u64 set \<times> cref list" where
  "collect_bucket heap address plan [] seen acc = (seen, acc)"
| "collect_bucket heap address plan (c # cs) seen acc =
     (let cid = rc_id (heap c) in
      collect_bucket heap address plan cs (insert cid seen)
        (if cid \<notin> seen \<and> can_coalesce (heap c) address plan then acc @ [c] else acc))"

fun collect_candidates ::
  "conn_heap \<Rightarrow> Address \<Rightarrow> RoutePlan \<Rightarrow> socket_addr list \<Rightarrow> (socket_addr \<rightharpoonup> cref list) \<Rightarrow> u64 set
   \<Rightarrow> cref list \<Rightarrow> (socket_addr \<rightharpoonup> cref list) \<times> cref list" where
  "collect_candidates heap address plan [] index seen acc = (index, acc)"
| "collect_candidates heap address plan (t # ts) index seen acc =
     (let index1 = prune_coalescing_bucket heap t index in
      case index1 t of
        None \<Rightarrow> collect_candidates heap address plan ts index1 seen acc
      | Some bucket \<Rightarrow>
          (case collect_bucket heap address plan bucket seen acc of
             (seen1, acc1) \<Rightarrow> collect_candidates heap address plan ts index1 seen1 acc1))"

definition acquire_coalesced ::
  "(Address \<Rightarrow> nat) \<Rightarrow> (Address list \<Rightarrow> Address list) \<Rightarrow> instant \<Rightarrow> Address \<Rightarrow> RoutePlan
   \<Rightarrow> ConnectionPool \<Rightarrow> ConnectionPool \<times> cref option" where
  "acquire_coalesced fx hs now address plan p =
     (if \<not> request_allows_h2_coalescing address then (p, None)
      else
        let targets = direct_route_targets plan in
        if targets = [] then (p, None)
        else
          let addresses_to_prune =
                hs (concat (map (\<lambda>t. case cpl_coalesced_by_target p t of
                                       Some bucket \<Rightarrow> map (\<lambda>c. rc_address (cpl_heap p c)) bucket
                                     | None \<Rightarrow> []) targets))
          in case prune_each now (map (\<lambda>a. (address_shard fx a, a)) addresses_to_prune) p of
               (p1, removed) \<Rightarrow>
                 (let p2 = finish_removals removed p1 in
                  case collect_candidates (cpl_heap p2) address plan targets
                         (cpl_coalesced_by_target p2) {} [] of
                    (index, candidates) \<Rightarrow>
                      (case find_try_acquire (cpl_heap p2) candidates of
                         (h, result) \<Rightarrow>
                           (p2\<lparr>cpl_coalesced_by_target := index, cpl_heap := h\<rparr>, result))))"

definition pool_release ::
  "(Address \<Rightarrow> nat) \<Rightarrow> instant \<Rightarrow> cref \<Rightarrow> ConnectionPool \<Rightarrow> ConnectionPool \<times> bool" where
  "pool_release fx now c p =
     (case rc_release now (cpl_heap p c) of
        (False, _) \<Rightarrow> (p, False)
      | (True, r) \<Rightarrow>
          (case prune_in_shard fx now (rc_address r) (p\<lparr>cpl_heap := (cpl_heap p)(c := r)\<rparr>) of
             (p1, removed) \<Rightarrow> (finish_removals removed p1, True)))"

definition get_by_id ::
  "(Address \<Rightarrow> nat) \<Rightarrow> instant \<Rightarrow> Address \<Rightarrow> u64 \<Rightarrow> ConnectionPool \<Rightarrow> ConnectionPool \<times> cref option" where
  "get_by_id fx now address cid p =
     (case prune_in_shard fx now address p of
        (p1, removed) \<Rightarrow>
          (finish_removals removed p1,
           if cpl_by_id p1 cid \<noteq> Some address then None
           else find (\<lambda>c. rc_id (cpl_heap p1 c) = cid) (pool_bucket fx p1 address)))"

fun find_try_acquire_id :: "u64 \<Rightarrow> conn_heap \<Rightarrow> cref list \<Rightarrow> conn_heap \<times> cref option" where
  "find_try_acquire_id cid heap [] = (heap, None)"
| "find_try_acquire_id cid heap (c # cs) =
     (if rc_id (heap c) = cid
      then (case rc_try_acquire (heap c) of
              (True, r) \<Rightarrow> (heap(c := r), Some c)
            | (False, r) \<Rightarrow> find_try_acquire_id cid heap cs)
      else find_try_acquire_id cid heap cs)"

definition acquire_by_id ::
  "(Address \<Rightarrow> nat) \<Rightarrow> instant \<Rightarrow> Address \<Rightarrow> u64 \<Rightarrow> ConnectionPool \<Rightarrow> ConnectionPool \<times> cref option" where
  "acquire_by_id fx now address cid p =
     (case prune_in_shard fx now address p of
        (p1, removed) \<Rightarrow>
          (case (if cpl_by_id p1 cid \<noteq> Some address then (cpl_heap p1, None)
                 else find_try_acquire_id cid (cpl_heap p1) (pool_bucket fx p1 address)) of
             (h, result) \<Rightarrow> (finish_removals removed (p1\<lparr>cpl_heap := h\<rparr>), result)))"

definition remove_without_hook ::
  "(Address \<Rightarrow> nat) \<Rightarrow> u64 \<Rightarrow> ConnectionPool \<Rightarrow> ConnectionPool \<times> cref option" where
  "remove_without_hook fx cid p =
     (case cpl_by_id p cid of
        None \<Rightarrow> (p, None)
      | Some address \<Rightarrow>
          (let p1 = p\<lparr>cpl_by_id := (cpl_by_id p)(cid := None)\<rparr>;
               st = pool_shard fx p1 address
           in case st address of
                None \<Rightarrow> (p1, None)
              | Some cs \<Rightarrow>
                 (case position (\<lambda>c. rc_id (cpl_heap p1 c) = cid) cs of
                    None \<Rightarrow> (if cs = [] then put_shard fx address (st(address := None)) p1 else p1, None)
                  | Some index \<Rightarrow>
                      (let c = cs ! index;
                           h = (cpl_heap p1)(c := rc_close (cpl_heap p1 c));
                           p2 = (put_shard fx address
                                   (put_bucket address (remove_nth index cs) st) p1)\<lparr>cpl_heap := h\<rparr>
                       in (p2\<lparr>cpl_coalesced_by_target :=
                               remove_index_connection h c (cpl_coalesced_by_target p2)\<rparr>, Some c)))))"

definition pool_remove ::
  "(Address \<Rightarrow> nat) \<Rightarrow> u64 \<Rightarrow> ConnectionPool \<Rightarrow> ConnectionPool \<times> cref option" where
  "pool_remove fx cid p =
     (case remove_without_hook fx cid p of
        (p1, removed) \<Rightarrow> (if removed \<noteq> None then notify_evictions [cid] p1 else p1, removed))"

definition count_stats :: "conn_heap \<Rightarrow> cref list \<Rightarrow> PoolStats" where
  "count_stats heap cs =
     fold (\<lambda>c s.
             let s1 = s\<lparr>pst_total := pst_total s + 1\<rparr> in
             case sn_allocation (rc_snapshot (heap c)) of
               AllocIdle \<Rightarrow> s1\<lparr>pst_idle := pst_idle s1 + 1\<rparr>
             | AllocInUse _ \<Rightarrow> s1\<lparr>pst_in_use := pst_in_use s1 + 1\<rparr>
             | AllocClosed \<Rightarrow> s1) cs
       \<lparr>pst_total = 0, pst_idle = 0, pst_in_use = 0\<rparr>"

definition pool_stats ::
  "(Address \<Rightarrow> nat) \<Rightarrow> instant \<Rightarrow> Address \<Rightarrow> ConnectionPool \<Rightarrow> ConnectionPool \<times> PoolStats" where
  "pool_stats fx now address p =
     (case prune_in_shard fx now address p of
        (p1, removed) \<Rightarrow>
          (finish_removals removed p1, count_stats (cpl_heap p1) (pool_bucket fx p1 address)))"

text \<open>\<^verbatim>\<open>prune_all\<close>: the keys of a shard are copied when the shard is locked.\<close>

fun prune_shards ::
  "(PoolState \<Rightarrow> Address list) \<Rightarrow> instant \<Rightarrow> nat list \<Rightarrow> ConnectionPool
   \<Rightarrow> ConnectionPool \<times> cref list" where
  "prune_shards ko now [] p = (p, [])"
| "prune_shards ko now (i # is) p =
     (case prune_each now (map (Pair i) (ko (cpl_shards p ! i))) p of
        (p1, removed) \<Rightarrow>
          (case prune_shards ko now is p1 of (p2, removed') \<Rightarrow> (p2, removed @ removed')))"

definition prune_all ::
  "(PoolState \<Rightarrow> Address list) \<Rightarrow> instant \<Rightarrow> ConnectionPool \<Rightarrow> ConnectionPool" where
  "prune_all ko now p =
     (case prune_shards ko now [0..<length (cpl_shards p)] p of
        (p1, removed) \<Rightarrow> finish_removals removed p1)"

end
