(* ===== verification/Pool_Inv.thy ===== *)
theory Pool_Inv
  imports Pool
begin

text \<open>
  Correctness of the connection pool: the effect of pruning, the invariant that ties the address
  buckets, the id map and the coalescing index together, its preservation by every operation, and
  the properties of acquisition, coalescing and eviction.
\<close>

section \<open>Specification\<close>

definition close_all :: "cref set \<Rightarrow> conn_heap \<Rightarrow> conn_heap" where
  "close_all R heap = (\<lambda>c. if c \<in> R then rc_close (heap c) else heap c)"

definition pooled :: "(Address \<Rightarrow> nat) \<Rightarrow> ConnectionPool \<Rightarrow> cref set" where
  "pooled fx p = (\<Union>a. set (pool_bucket fx p a))"

text \<open>The shards: 32 of them, each holding non-empty buckets of addresses that hash to it.\<close>

definition shards_ok :: "(Address \<Rightarrow> nat) \<Rightarrow> ConnectionPool \<Rightarrow> bool" where
  "shards_ok fx p \<longleftrightarrow>
     length (cpl_shards p) = ADDRESS_SHARDS \<and>
     (\<forall>i < ADDRESS_SHARDS. \<forall>a cs. (cpl_shards p ! i) a = Some cs \<longrightarrow>
        address_shard fx a = i \<and> cs \<noteq> [])"

text \<open>The buckets: no connection twice, each under its own address, each in a legal state.\<close>

definition buckets_ok :: "(Address \<Rightarrow> nat) \<Rightarrow> ConnectionPool \<Rightarrow> bool" where
  "buckets_ok fx p \<longleftrightarrow>
     (\<forall>a. distinct (pool_bucket fx p a) \<and>
          (\<forall>c \<in> set (pool_bucket fx p a). rc_address (cpl_heap p c) = a \<and> rc_inv (cpl_heap p c)))"

definition index_bucket :: "ConnectionPool \<Rightarrow> socket_addr \<Rightarrow> cref list" where
  "index_bucket p t = (case cpl_coalesced_by_target p t of Some b \<Rightarrow> b | None \<Rightarrow> [])"

text \<open>The id map and the coalescing index describe exactly the references in \<open>M\<close>.\<close>

definition index_inv :: "ConnectionPool \<Rightarrow> cref set \<Rightarrow> bool" where
  "index_inv p M \<longleftrightarrow>
     inj_on (\<lambda>c. rc_id (cpl_heap p c)) M \<and>
     (\<forall>i a. cpl_by_id p i = Some a \<longleftrightarrow>
        (\<exists>c \<in> M. rc_id (cpl_heap p c) = i \<and> rc_address (cpl_heap p c) = a)) \<and>
     (\<forall>t. distinct (index_bucket p t) \<and>
          set (index_bucket p t) = {c \<in> M. coalescing_index_target (cpl_heap p c) = Some t} \<and>
          cpl_coalesced_by_target p t \<noteq> Some [])"

definition pre_inv :: "(Address \<Rightarrow> nat) \<Rightarrow> ConnectionPool \<Rightarrow> cref set \<Rightarrow> bool" where
  "pre_inv fx p M \<longleftrightarrow> shards_ok fx p \<and> buckets_ok fx p \<and> index_inv p M \<and> pooled fx p \<subseteq> M"

definition pool_inv :: "(Address \<Rightarrow> nat) \<Rightarrow> ConnectionPool \<Rightarrow> bool" where
  "pool_inv fx p \<longleftrightarrow> pre_inv fx p (pooled fx p)"

text \<open>
  What pruning does: the references in \<open>R\<close> leave their buckets and are closed; the indexes are left
  for later.
\<close>

definition evicts ::
  "(Address \<Rightarrow> nat) \<Rightarrow> ConnectionPool \<Rightarrow> cref set \<Rightarrow> ConnectionPool \<Rightarrow> bool" where
  "evicts fx p R p' \<longleftrightarrow>
     shards_ok fx p' \<and> R \<subseteq> pooled fx p \<and>
     (\<forall>a. pool_bucket fx p' a = filter (\<lambda>c. c \<notin> R) (pool_bucket fx p a)) \<and>
     cpl_heap p' = close_all R (cpl_heap p) \<and> cpl_settings p' = cpl_settings p \<and>
     cpl_by_id p' = cpl_by_id p \<and> cpl_coalesced_by_target p' = cpl_coalesced_by_target p \<and>
     cpl_eviction_hook p' = cpl_eviction_hook p \<and> cpl_hook_calls p' = cpl_hook_calls p"

section \<open>Pruning\<close>

lemma retain_closing_eq:
  "distinct cs \<Longrightarrow> retain_closing keep heap cs =
     (close_all {c \<in> set cs. \<not> keep (heap c)} heap,
      filter (\<lambda>c. keep (heap c)) cs, filter (\<lambda>c. \<not> keep (heap c)) cs)"
proof (induction cs arbitrary: heap)
  case (Cons c cs)
  have same: "filter (\<lambda>d. keep ((heap(c := x)) d)) cs = filter (\<lambda>d. keep (heap d)) cs"
    "filter (\<lambda>d. \<not> keep ((heap(c := x)) d)) cs = filter (\<lambda>d. \<not> keep (heap d)) cs" for x
    using Cons.prems by (auto intro!: filter_cong)
  have "close_all {d \<in> set cs. \<not> keep ((heap(c := rc_close (heap c))) d)} (heap(c := rc_close (heap c)))
        = close_all {d \<in> set (c # cs). \<not> keep (heap d)} heap" if "\<not> keep (heap c)"
    using that Cons.prems by (auto simp: close_all_def fun_eq_iff)
  moreover have "{d \<in> set (c # cs). \<not> keep (heap d)} = {d \<in> set cs. \<not> keep (heap d)}" if "keep (heap c)"
    using that by auto
  ultimately show ?case using Cons.IH Cons.prems same by (simp del: fun_upd_apply)
qed (simp add: close_all_def)

lemma retain_closing_spec:
  assumes "distinct cs" and "retain_closing keep heap cs = (h', kept, removed)"
  shows "h' = close_all (set removed) heap" "kept = filter (\<lambda>c. c \<notin> set removed) cs"
    "set removed \<subseteq> set cs" "distinct removed" "\<forall>c \<in> set kept. keep (heap c)"
    "\<forall>c \<in> set removed. \<not> keep (heap c)"
  using assms by (auto simp: retain_closing_eq close_all_def intro!: filter_cong)

lemma enforce_max_idle_cases:
  assumes "enforce_max_idle_connections n heap cs = (h', kept, removed)"
  obtains "h' = heap" "kept = cs" "removed = []" "n = USIZE_MAX \<or> length (idle_entries heap cs) \<le> n"
  | "n < length (idle_entries heap cs)"
    "retain_closing (\<lambda>c. rc_id c \<notin>
        set (map fst (take (length (idle_entries heap cs) - n) (sort_key snd (idle_entries heap cs)))))
       heap cs = (h', kept, removed)"
  using assms unfolding enforce_max_idle_connections_def Let_def by (auto split: if_splits)

lemma enforce_max_idle_spec:
  assumes "distinct cs" and "enforce_max_idle_connections n heap cs = (h', kept, removed)"
  shows "h' = close_all (set removed) heap" "kept = filter (\<lambda>c. c \<notin> set removed) cs"
    "set removed \<subseteq> set cs" "distinct removed"
proof -
  have "h' = close_all (set removed) heap \<and> kept = filter (\<lambda>c. c \<notin> set removed) cs \<and>
    set removed \<subseteq> set cs \<and> distinct removed"
    using assms(2)
  proof (cases rule: enforce_max_idle_cases)
    case 1
    then show ?thesis by (simp add: close_all_def)
  next
    case 2
    from retain_closing_spec [OF assms(1) 2(2)] show ?thesis by simp
  qed
  then show "h' = close_all (set removed) heap" "kept = filter (\<lambda>c. c \<notin> set removed) cs"
    "set removed \<subseteq> set cs" "distinct removed" by auto
qed

lemma prune_connections_spec:
  assumes "distinct cs" and "prune_connections s now heap cs = (h', kept, removed)"
  shows "h' = close_all (set removed) heap" "kept = filter (\<lambda>c. c \<notin> set removed) cs"
    "set removed \<subseteq> set cs" "distinct removed"
proof -
  let ?keep = "\<lambda>c. prune_keeps s now (heap c)"
  obtain rem2 where e: "enforce_max_idle_connections (ps_max_idle_per_address s)
        (close_all {c \<in> set cs. \<not> ?keep c} heap) (filter ?keep cs) = (h', kept, rem2)"
    and r: "removed = filter (\<lambda>c. \<not> ?keep c) cs @ rem2"
    using assms by (auto simp: prune_connections_def retain_closing_eq split: prod.splits)
  note sp = enforce_max_idle_spec [OF distinct_filter [OF assms(1)] e]
  show "set removed \<subseteq> set cs" "distinct removed" using r sp assms(1) by auto
  show "kept = filter (\<lambda>c. c \<notin> set removed) cs" using r sp by (auto intro!: filter_cong)
  show "h' = close_all (set removed) heap"
    using r sp by (auto simp: close_all_def fun_eq_iff)
qed

lemma pool_bucket_put:
  assumes "shards_ok fx p"
  shows "pool_bucket fx (p\<lparr>cpl_shards := (cpl_shards p)[address_shard fx a := st], cpl_heap := h\<rparr>) b =
         (if address_shard fx b = address_shard fx a
          then case st b of Some cs \<Rightarrow> cs | None \<Rightarrow> [] else pool_bucket fx p b)"
  using assms
  by (auto simp: pool_bucket_def pool_shard_def shards_ok_def address_shard_def ADDRESS_SHARDS_def)

lemma address_shard_less [simp]: "address_shard fx a < ADDRESS_SHARDS"
  by (simp add: address_shard_def ADDRESS_SHARDS_def)

lemma shards_okD:
  assumes "shards_ok fx p"
  shows "length (cpl_shards p) = ADDRESS_SHARDS"
    "i < ADDRESS_SHARDS \<Longrightarrow> (cpl_shards p ! i) a = Some cs \<Longrightarrow> address_shard fx a = i"
    "i < ADDRESS_SHARDS \<Longrightarrow> (cpl_shards p ! i) a \<noteq> Some []"
  using assms unfolding shards_ok_def by blast+

lemma shards_ok_update:
  assumes "shards_ok fx p"
    and "\<And>b cs. st b = Some cs \<Longrightarrow> cs \<noteq> [] \<and> address_shard fx b = i"
  shows "shards_ok fx (p\<lparr>cpl_shards := (cpl_shards p)[i := st], cpl_heap := h\<rparr>)"
proof -
  have "address_shard fx b = j \<and> cs \<noteq> []"
    if "j < ADDRESS_SHARDS" "((cpl_shards p)[i := st] ! j) b = Some cs" for j b cs
    using that assms(2) [of b cs] shards_okD(1) [OF assms(1)] shards_okD(2,3) [OF assms(1) that(1)]
    by (cases "j = i") auto
  then show ?thesis using shards_okD(1) [OF assms(1)] by (simp add: shards_ok_def)
qed

lemma buckets_okD:
  assumes "buckets_ok fx p"
  shows "distinct (pool_bucket fx p a)"
    "c \<in> set (pool_bucket fx p a) \<Longrightarrow> rc_address (cpl_heap p c) = a"
    "c \<in> set (pool_bucket fx p a) \<Longrightarrow> rc_inv (cpl_heap p c)"
  using assms by (auto simp: buckets_ok_def)

lemma prune_nth_shard_evicts:
  assumes sh: "shards_ok fx p" and bk: "buckets_ok fx p"
    and pr: "prune_nth_shard now (address_shard fx a) a p = (p', removed)"
  shows "evicts fx p (set removed) p' \<and> distinct removed"
proof (cases "pool_shard fx p a a")
  case None
  then have "removed = []" "p' = p"
    using pr by (auto simp: prune_nth_shard_def prune_address_def pool_shard_def)
  then show ?thesis using sh by (simp add: evicts_def close_all_def)
next
  case (Some cs)
  let ?i = "address_shard fx a"
  obtain h kept where pc: "prune_connections (cpl_settings p) now (cpl_heap p) cs = (h, kept, removed)"
    and p': "p' = p\<lparr>cpl_shards := (cpl_shards p)[?i := put_bucket a kept (cpl_shards p ! ?i)],
                    cpl_heap := h\<rparr>"
    using pr Some by (auto simp: prune_nth_shard_def prune_address_def pool_shard_def put_bucket_def
        split: prod.splits)
  have cs: "pool_bucket fx p a = cs" using Some by (simp add: pool_bucket_def)
  note spec = prune_connections_spec [OF _ pc, unfolded cs [symmetric], OF buckets_okD(1) [OF bk]]
  have R: "set removed \<subseteq> pooled fx p" using spec(3) by (auto simp: pooled_def)
  have other: "filter (\<lambda>c. c \<notin> set removed) (pool_bucket fx p b) = pool_bucket fx p b"
    if "b \<noteq> a" for b
  proof (rule filter_True, rule ballI)
    fix c assume "c \<in> set (pool_bucket fx p b)"
    then show "c \<notin> set removed"
      using that spec(3) buckets_okD(2) [OF bk, of c a] buckets_okD(2) [OF bk, of c b] by auto
  qed
  have "pool_bucket fx p' b = filter (\<lambda>c. c \<notin> set removed) (pool_bucket fx p b)" for b
  proof (cases "b = a")
    case True
    then show ?thesis using spec(2) by (simp add: p' pool_bucket_put [OF sh] put_bucket_def)
  next
    case False
    then have "pool_bucket fx p' b = pool_bucket fx p b"
      by (simp add: p' pool_bucket_put [OF sh] put_bucket_def)
         (simp add: pool_bucket_def pool_shard_def)
    then show ?thesis using other [OF False] by simp
  qed
  moreover have "shards_ok fx p'"
    unfolding p' using shards_okD(2,3) [OF sh address_shard_less]
    by (intro shards_ok_update [OF sh]) (auto simp: put_bucket_def split: if_splits)
  ultimately show ?thesis
    using R spec(1,4) by (simp add: evicts_def p')
qed

lemma evicts_trans:
  assumes "evicts fx p R p1" "evicts fx p1 R' p2"
  shows "evicts fx p (R \<union> R') p2"
proof -
  have "pooled fx p1 \<subseteq> pooled fx p" using assms(1) by (auto simp: evicts_def pooled_def)
  moreover have "close_all R' (close_all R h) = close_all (R \<union> R') h" for h
    by (auto simp: close_all_def fun_eq_iff rc_close_def)
  ultimately show ?thesis using assms by (auto simp: evicts_def)
qed

lemma evicts_refl: "shards_ok fx p \<Longrightarrow> evicts fx p {} p"
  by (simp add: evicts_def close_all_def)

lemma evicts_pooled: "evicts fx p R p' \<Longrightarrow> pooled fx p' = pooled fx p - R"
  by (auto simp: evicts_def pooled_def)

lemma close_all_fixed [simp]: "rc_fixed (close_all R h c) = rc_fixed (h c)"
  by (simp add: close_all_def)

lemma evicts_buckets_ok:
  assumes "evicts fx p R p'" "buckets_ok fx p" shows "buckets_ok fx p'"
  using assms by (auto simp: evicts_def buckets_ok_def close_all_def)

lemma prune_each_evicts:
  assumes "shards_ok fx p" "buckets_ok fx p" "\<forall>(i, a) \<in> set ias. i = address_shard fx a"
    and "prune_each now ias p = (p', removed)"
  shows "evicts fx p (set removed) p' \<and> distinct removed"
  using assms
proof (induction ias arbitrary: p removed)
  case (Cons ia ias)
  obtain i a where ia: "ia = (i, a)" by (cases ia)
  obtain p1 r1 r2 where 1: "prune_nth_shard now i a p = (p1, r1)"
    and 2: "prune_each now ias p1 = (p', r2)" and r: "removed = r1 @ r2"
    using Cons.prems(4) ia by (auto split: prod.splits)
  have e1: "evicts fx p (set r1) p1" "distinct r1"
    using prune_nth_shard_evicts [OF Cons.prems(1,2)] 1 Cons.prems(3) ia by auto
  have e2: "evicts fx p1 (set r2) p'" "distinct r2"
    using Cons.IH [OF _ evicts_buckets_ok [OF e1(1) Cons.prems(2)] _ 2] e1 Cons.prems(3)
    by (auto simp: evicts_def)
  have "set r1 \<inter> set r2 = {}" using e2(1) evicts_pooled [OF e1(1)] by (auto simp: evicts_def)
  then show ?case using evicts_trans [OF e1(1) e2(1)] e1 e2 r by auto
qed (auto intro: evicts_refl)

section \<open>The indexes\<close>

lemma coalescing_index_target_fixed:
  assumes "rc_fixed c = rc_fixed d" shows "coalescing_index_target c = coalescing_index_target d"
  using rc_fixed_eqD(2-4) [OF assms]
  by (simp add: coalescing_index_target_def connection_allows_h2_coalescing_def)

lemma index_inv_cong:
  assumes "index_inv p M" and "\<And>c. rc_fixed (cpl_heap p' c) = rc_fixed (cpl_heap p c)"
    and "cpl_by_id p' = cpl_by_id p" "cpl_coalesced_by_target p' = cpl_coalesced_by_target p"
  shows "index_inv p' M"
  using assms(1) rc_fixed_eqD(1,2) [OF assms(2)] coalescing_index_target_fixed [OF assms(2)] assms(3,4)
  by (simp add: index_inv_def index_bucket_def)

lemma index_invD:
  assumes "index_inv p M"
  shows "inj_on (\<lambda>c. rc_id (cpl_heap p c)) M"
    "cpl_by_id p i = Some a \<longleftrightarrow>
       (\<exists>c \<in> M. rc_id (cpl_heap p c) = i \<and> rc_address (cpl_heap p c) = a)"
    "distinct (index_bucket p t)"
    "set (index_bucket p t) = {c \<in> M. coalescing_index_target (cpl_heap p c) = Some t}"
    "cpl_coalesced_by_target p t \<noteq> Some []"
  using assms unfolding index_inv_def by blast+

lemma index_inv_remove_one:
  assumes inv: "index_inv p M" and c: "c \<in> M"
  shows "index_inv (p\<lparr>cpl_by_id := (cpl_by_id p)(rc_id (cpl_heap p c) := None),
                     cpl_coalesced_by_target :=
                       remove_index_connection (cpl_heap p) c (cpl_coalesced_by_target p)\<rparr>) (M - {c})"
proof -
  let ?id = "\<lambda>c. rc_id (cpl_heap p c)"
  have inj: "d \<in> M \<Longrightarrow> ?id d = ?id c \<Longrightarrow> d = c" for d
    using inj_onD [OF index_invD(1) [OF inv]] c by blast
  let ?m = "remove_index_connection (cpl_heap p) c (cpl_coalesced_by_target p)"
  let ?b = "\<lambda>t. case ?m t of Some b \<Rightarrow> b | None \<Rightarrow> []"
  note set_b = index_invD(4,3,5) [OF inv]
  have "?b t = filter (\<lambda>d. d \<noteq> c) (index_bucket p t) \<and> ?m t \<noteq> Some []" for t
  proof (cases "coalescing_index_target (cpl_heap p c) = Some t")
    case True
    have "filter (\<lambda>d. ?id d \<noteq> ?id c) (index_bucket p t) = filter (\<lambda>d. d \<noteq> c) (index_bucket p t)"
      using set_b(1) [of t] inj by (intro filter_cong) auto
    then show ?thesis using True set_b(3)
      by (auto simp: remove_index_connection_def put_bucket_def index_bucket_def split: option.splits)
  next
    case False
    then have "c \<notin> set (index_bucket p t)" using set_b(1) by auto
    then have "filter (\<lambda>d. d \<noteq> c) (index_bucket p t) = index_bucket p t"
      by (auto simp: filter_id_conv)
    then show ?thesis using False set_b(3)
      by (auto simp: remove_index_connection_def put_bucket_def index_bucket_def split: option.splits)
  qed
  then have "index_bucket (p\<lparr>cpl_by_id := m, cpl_coalesced_by_target := ?m\<rparr>) t
     = filter (\<lambda>d. d \<noteq> c) (index_bucket p t)" "?m t \<noteq> Some []" for t m
    by (simp_all add: index_bucket_def)
  moreover have "inj_on ?id (M - {c})" using index_invD(1) [OF inv] by (rule inj_on_subset) blast
  moreover have "((cpl_by_id p)(?id c := None)) i = Some a \<longleftrightarrow>
    (\<exists>d \<in> M - {c}. ?id d = i \<and> rc_address (cpl_heap p d) = a)" for i a
    using index_invD(2) [OF inv, of i a] inj by auto
  moreover have "set (filter (\<lambda>d. d \<noteq> c) (index_bucket p t))
      = {d \<in> M - {c}. coalescing_index_target (cpl_heap p d) = Some t}" for t
    using set_b(1) by auto
  ultimately show ?thesis using set_b(2) by (simp add: index_inv_def)
qed

text \<open>Removing a list of references from the indexes one by one.\<close>

definition drop_indexes :: "cref list \<Rightarrow> ConnectionPool \<Rightarrow> ConnectionPool" where
  "drop_indexes removed p =
     p\<lparr>cpl_by_id := fold (\<lambda>c m. m(rc_id (cpl_heap p c) := None)) removed (cpl_by_id p),
       cpl_coalesced_by_target :=
         fold (remove_index_connection (cpl_heap p)) removed (cpl_coalesced_by_target p)\<rparr>"

lemma drop_indexes_Cons:
  "drop_indexes (c # cs) p = drop_indexes cs
     (p\<lparr>cpl_by_id := (cpl_by_id p)(rc_id (cpl_heap p c) := None),
        cpl_coalesced_by_target :=
          remove_index_connection (cpl_heap p) c (cpl_coalesced_by_target p)\<rparr>)"
  by (simp add: drop_indexes_def)

lemma index_inv_drop_indexes:
  "\<lbrakk>index_inv p M; set removed \<subseteq> M; distinct removed\<rbrakk>
   \<Longrightarrow> index_inv (drop_indexes removed p) (M - set removed)"
proof (induction removed arbitrary: p M)
  case (Cons c cs)
  have "index_inv (drop_indexes (c # cs) p) (M - {c} - set cs)"
    unfolding drop_indexes_Cons
    using Cons.prems by (intro Cons.IH index_inv_remove_one) auto
  moreover have "M - {c} - set cs = M - set (c # cs)" by auto
  ultimately show ?case by simp
qed (simp add: drop_indexes_def)

lemma finish_removals_eq:
  "finish_removals removed p =
     (drop_indexes removed p)
       \<lparr>cpl_hook_calls := cpl_hook_calls p @
          (if cpl_eviction_hook p then map (\<lambda>c. rc_id (cpl_heap p c)) removed else [])\<rparr>"
  by (simp add: finish_removals_def drop_indexes_def notify_evictions_def Let_def)

lemma finish_removals_fields [simp]:
  "cpl_heap (finish_removals r p) = cpl_heap p"
  "cpl_shards (finish_removals r p) = cpl_shards p"
  "cpl_settings (finish_removals r p) = cpl_settings p"
  "cpl_eviction_hook (finish_removals r p) = cpl_eviction_hook p"
  "pool_bucket fx (finish_removals r p) a = pool_bucket fx p a"
  "pooled fx (finish_removals r p) = pooled fx p"
  by (simp_all add: finish_removals_eq drop_indexes_def pooled_def pool_bucket_def pool_shard_def)

lemma pool_view_updates [simp]:
  "pool_bucket fx (p\<lparr>cpl_heap := h\<rparr>) a = pool_bucket fx p a"
  "pool_bucket fx (p\<lparr>cpl_by_id := m\<rparr>) a = pool_bucket fx p a"
  "pool_bucket fx (p\<lparr>cpl_coalesced_by_target := k\<rparr>) a = pool_bucket fx p a"
  "pool_bucket fx (p\<lparr>cpl_hook_calls := x\<rparr>) a = pool_bucket fx p a"
  "pool_bucket fx (p\<lparr>cpl_eviction_hook := e\<rparr>) a = pool_bucket fx p a"
  "pool_bucket fx (drop_indexes r p) a = pool_bucket fx p a"
  by (simp_all add: pool_bucket_def pool_shard_def drop_indexes_def)

lemma pooled_updates [simp]:
  "pooled fx (p\<lparr>cpl_heap := h\<rparr>) = pooled fx p"
  "pooled fx (p\<lparr>cpl_by_id := m\<rparr>) = pooled fx p"
  "pooled fx (p\<lparr>cpl_coalesced_by_target := k\<rparr>) = pooled fx p"
  "pooled fx (p\<lparr>cpl_hook_calls := x\<rparr>) = pooled fx p"
  "pooled fx (p\<lparr>cpl_eviction_hook := e\<rparr>) = pooled fx p"
  "pooled fx (drop_indexes r p) = pooled fx p"
  by (simp_all add: pooled_def)

lemma shards_ok_updates [simp]:
  "shards_ok fx (p\<lparr>cpl_heap := h\<rparr>) = shards_ok fx p"
  "shards_ok fx (p\<lparr>cpl_by_id := m\<rparr>) = shards_ok fx p"
  "shards_ok fx (p\<lparr>cpl_coalesced_by_target := k\<rparr>) = shards_ok fx p"
  "shards_ok fx (p\<lparr>cpl_hook_calls := x\<rparr>) = shards_ok fx p"
  "shards_ok fx (p\<lparr>cpl_eviction_hook := e\<rparr>) = shards_ok fx p"
  "shards_ok fx (drop_indexes r p) = shards_ok fx p"
  by (simp_all add: shards_ok_def drop_indexes_def)

lemma buckets_ok_updates [simp]:
  "buckets_ok fx (p\<lparr>cpl_by_id := m\<rparr>) = buckets_ok fx p"
  "buckets_ok fx (p\<lparr>cpl_coalesced_by_target := k\<rparr>) = buckets_ok fx p"
  "buckets_ok fx (p\<lparr>cpl_hook_calls := x\<rparr>) = buckets_ok fx p"
  "buckets_ok fx (p\<lparr>cpl_eviction_hook := e\<rparr>) = buckets_ok fx p"
  "buckets_ok fx (drop_indexes r p) = buckets_ok fx p"
  by (simp_all add: buckets_ok_def) (simp add: drop_indexes_def)

lemma index_inv_hook [simp]: "index_inv (p\<lparr>cpl_hook_calls := x\<rparr>) M = index_inv p M"
  by (simp add: index_inv_def index_bucket_def)

lemma pool_inv_finish_removals:
  assumes "pre_inv fx p M" "set removed = M - pooled fx p" "distinct removed"
  shows "pool_inv fx (finish_removals removed p)"
proof -
  have "index_inv (drop_indexes removed p) (M - set removed)"
    using assms by (intro index_inv_drop_indexes) (auto simp: pre_inv_def)
  moreover have "M - set removed = pooled fx p" using assms by (auto simp: pre_inv_def)
  ultimately show ?thesis
    using assms(1) by (simp add: pool_inv_def pre_inv_def finish_removals_eq)
qed

lemma pooledI: "c \<in> set (pool_bucket fx p a) \<Longrightarrow> c \<in> pooled fx p"
  unfolding pooled_def by blast

lemma pre_inv_heap:
  assumes "pre_inv fx p M" "\<And>c. rc_fixed (h c) = rc_fixed (cpl_heap p c)"
    and "\<And>c. c \<in> pooled fx p \<Longrightarrow> rc_inv (h c)"
  shows "pre_inv fx (p\<lparr>cpl_heap := h\<rparr>) M"
proof -
  have bk: "buckets_ok fx p" using assms(1) by (simp add: pre_inv_def)
  have "rc_address (h c) = a \<and> rc_inv (h c)" if "c \<in> set (pool_bucket fx p a)" for a c
    using assms(3) [OF pooledI [OF that]] rc_fixed_eqD(2) [OF assms(2) [of c]] buckets_okD(2) [OF bk that]
    by simp
  then have "buckets_ok fx (p\<lparr>cpl_heap := h\<rparr>)"
    using buckets_okD(1) [OF bk] by (simp only: buckets_ok_def pool_view_updates) auto
  moreover have "index_inv (p\<lparr>cpl_heap := h\<rparr>) M"
    using assms(1,2) by - (rule index_inv_cong [of p], simp_all add: pre_inv_def)
  ultimately show ?thesis using assms(1)
    by (simp add: pre_inv_def)
qed

lemma pre_inv_evicts:
  assumes "pre_inv fx p M" "evicts fx p R p'" shows "pre_inv fx p' M"
proof -
  have "index_inv p' M" using assms
    by - (rule index_inv_cong [of p], simp_all add: pre_inv_def evicts_def)
  then show ?thesis
    using assms evicts_pooled [OF assms(2)] evicts_buckets_ok [OF assms(2)]
    by (auto simp: pre_inv_def evicts_def)
qed

lemma pool_invD:
  assumes "pool_inv fx p"
  shows "shards_ok fx p" "buckets_ok fx p" "index_inv p (pooled fx p)" "pre_inv fx p (pooled fx p)"
  using assms by (auto simp: pool_inv_def pre_inv_def)

lemma pooled_rc_inv: "buckets_ok fx p \<Longrightarrow> c \<in> pooled fx p \<Longrightarrow> rc_inv (cpl_heap p c)"
  by (auto simp: buckets_ok_def pooled_def)

text \<open>
  The shape of every operation that prunes first: prune, change connection states only, finish.
\<close>

lemma prune_finish_inv:
  assumes inv: "pool_inv fx p" and ev: "evicts fx p (set removed) p1" "distinct removed"
    and h: "\<And>c. rc_fixed (h c) = rc_fixed (cpl_heap p1 c)"
      "\<And>c. c \<in> pooled fx p1 \<Longrightarrow> rc_inv (h c)"
  shows "pool_inv fx (finish_removals removed (p1\<lparr>cpl_heap := h\<rparr>))"
proof -
  have "pre_inv fx p1 (pooled fx p)" using pre_inv_evicts [OF pool_invD(4) [OF inv] ev(1)] .
  then have "pre_inv fx (p1\<lparr>cpl_heap := h\<rparr>) (pooled fx p)" using h by (rule pre_inv_heap)
  moreover have "set removed = pooled fx p - pooled fx (p1\<lparr>cpl_heap := h\<rparr>)"
    using ev(1) evicts_pooled [OF ev(1)] by (auto simp: evicts_def)
  ultimately show ?thesis using ev(2) by (rule pool_inv_finish_removals)
qed

lemma prune_in_shard_evicts:
  assumes "pool_inv fx p" "prune_in_shard fx now a p = (p1, removed)"
  shows "evicts fx p (set removed) p1" "distinct removed"
  using prune_nth_shard_evicts [OF pool_invD(1,2) [OF assms(1)]] assms(2)
  by (auto simp: prune_in_shard_def)

section \<open>Acquisition\<close>

lemma find_try_acquire_cases:
  "find_try_acquire h cs = (h', r) \<Longrightarrow>
     (r = None \<and> h' = h \<and> (\<forall>c \<in> set cs. \<not> rc_can_acquire (h c))) \<or>
     (\<exists>xs c ys. cs = xs @ c # ys \<and> r = Some c \<and> rc_can_acquire (h c)
        \<and> (\<forall>x \<in> set xs. \<not> rc_can_acquire (h x)) \<and> h' = h(c := snd (rc_try_acquire (h c))))"
proof (induction cs)
  case (Cons c cs)
  show ?case
  proof (cases "rc_can_acquire (h c)")
    case True
    then obtain x where "rc_try_acquire (h c) = (True, x)"
      using rc_try_acquire_iff [of "h c"] by (cases "rc_try_acquire (h c)") auto
    then have "r = Some c" "h' = h(c := snd (rc_try_acquire (h c)))" using Cons.prems by auto
    then show ?thesis using True by (intro disjI2 exI [of _ "[]"]) simp
  next
    case False
    then have "rc_try_acquire (h c) = (False, h c)"
      by (simp add: rc_try_acquire_def rc_can_acquire_def)
    then have "find_try_acquire h cs = (h', r)" using Cons.prems by simp
    from Cons.IH [OF this] show ?thesis
    proof (elim disjE exE conjE)
      fix xs d ys
      assume "cs = xs @ d # ys" "r = Some d" "rc_can_acquire (h d)"
        "\<forall>x \<in> set xs. \<not> rc_can_acquire (h x)" "h' = h(d := snd (rc_try_acquire (h d)))"
      then show ?thesis using False by (intro disjI2 exI [of _ "c # xs"]) auto
    qed (use False in auto)
  qed
qed simp

lemma find_try_acquire_heap:
  assumes "find_try_acquire h cs = (h', r)"
  shows "rc_fixed (h' c) = rc_fixed (h c)" "rc_inv (h c) \<Longrightarrow> rc_inv (h' c)"
  using find_try_acquire_cases [OF assms] by auto

lemma find_try_acquire_id_heap:
  "find_try_acquire_id cid h cs = (h', r) \<Longrightarrow>
     rc_fixed (h' c) = rc_fixed (h c) \<and> (rc_inv (h c) \<longrightarrow> rc_inv (h' c))"
proof (induction cs)
  case (Cons d cs)
  obtain b x where x: "rc_try_acquire (h d) = (b, x)" by fastforce
  then have "rc_fixed x = rc_fixed (h d)" "rc_inv (h d) \<Longrightarrow> rc_inv x"
    using rc_fixed_ops(1) [of "h d"] rc_inv_try_acquire [of "h d"] by auto
  then show ?case using Cons x by (cases "rc_id (h d) = cid"; cases b; auto)
qed simp

lemma pool_acquire_inv:
  assumes "pool_inv fx p" shows "pool_inv fx (fst (pool_acquire fx now a p))"
proof -
  obtain p1 removed where pr: "prune_in_shard fx now a p = (p1, removed)" by fastforce
  obtain h r where f: "find_try_acquire (cpl_heap p1) (pool_bucket fx p1 a) = (h, r)" by fastforce
  note ev = prune_in_shard_evicts [OF assms pr]
  have "pool_inv fx (finish_removals removed (p1\<lparr>cpl_heap := h\<rparr>))"
    using find_try_acquire_heap [OF f] pooled_rc_inv [OF evicts_buckets_ok [OF ev(1) pool_invD(2) [OF assms]]]
    by (intro prune_finish_inv [OF assms ev]) auto
  then show ?thesis using pr f by (simp add: pool_acquire_def)
qed

lemma acquire_with_in_use_hint_acquire:
  "fst (acquire_with_in_use_hint fx now a p) = fst (pool_acquire fx now a p)"
  "fst (snd (acquire_with_in_use_hint fx now a p)) = snd (pool_acquire fx now a p)"
  by (simp_all add: acquire_with_in_use_hint_def pool_acquire_def Let_def split: prod.splits)

lemma prune_only_inv:
  assumes "pool_inv fx p" "prune_in_shard fx now a p = (p1, removed)"
  shows "pool_inv fx (finish_removals removed p1)"
proof -
  note ev = prune_in_shard_evicts [OF assms]
  have "pool_inv fx (finish_removals removed (p1\<lparr>cpl_heap := cpl_heap p1\<rparr>))"
    using pooled_rc_inv [OF evicts_buckets_ok [OF ev(1) pool_invD(2) [OF assms(1)]]]
    by (intro prune_finish_inv [OF assms(1) ev]) auto
  then show ?thesis by simp
qed

lemma prune_query_inv:
  assumes "pool_inv fx p"
  shows "pool_inv fx (fst (has_in_use_connection fx now a p))"
    "pool_inv fx (fst (get_by_id fx now a cid p))"
    "pool_inv fx (fst (pool_stats fx now a p))"
  using prune_only_inv [OF assms]
  by (simp_all add: has_in_use_connection_def get_by_id_def pool_stats_def split: prod.splits)

lemma acquire_by_id_inv:
  assumes "pool_inv fx p" shows "pool_inv fx (fst (acquire_by_id fx now a cid p))"
proof -
  obtain p1 removed where pr: "prune_in_shard fx now a p = (p1, removed)" by fastforce
  obtain h r where f: "(if cpl_by_id p1 cid \<noteq> Some a then (cpl_heap p1, None)
                 else find_try_acquire_id cid (cpl_heap p1) (pool_bucket fx p1 a)) = (h, r)"
    by (metis surj_pair)
  note ev = prune_in_shard_evicts [OF assms pr]
  have h: "rc_fixed (h c) = rc_fixed (cpl_heap p1 c) \<and> (rc_inv (cpl_heap p1 c) \<longrightarrow> rc_inv (h c))" for c
    using f find_try_acquire_id_heap [of cid "cpl_heap p1" "pool_bucket fx p1 a" h r c]
    by (cases "cpl_by_id p1 cid \<noteq> Some a") auto
  have "pool_inv fx (finish_removals removed (p1\<lparr>cpl_heap := h\<rparr>))"
    using h pooled_rc_inv [OF evicts_buckets_ok [OF ev(1) pool_invD(2) [OF assms]]]
    by (intro prune_finish_inv [OF assms ev]) auto
  moreover have "fst (acquire_by_id fx now a cid p) = finish_removals removed (p1\<lparr>cpl_heap := h\<rparr>)"
    unfolding acquire_by_id_def pr prod.case f by (rule fst_conv)
  ultimately show ?thesis by simp
qed

lemma pool_inv_heap_upd:
  assumes "pool_inv fx p" "rc_fixed r = rc_fixed (cpl_heap p c)" "rc_inv (cpl_heap p c) \<Longrightarrow> rc_inv r"
  shows "pool_inv fx (p\<lparr>cpl_heap := (cpl_heap p)(c := r)\<rparr>)"
proof -
  have "pre_inv fx (p\<lparr>cpl_heap := (cpl_heap p)(c := r)\<rparr>) (pooled fx p)"
    using assms pooled_rc_inv [OF pool_invD(2) [OF assms(1)]]
    by (intro pre_inv_heap [OF pool_invD(4)]) auto
  then show ?thesis by (simp add: pool_inv_def)
qed

lemma pool_release_inv:
  assumes "pool_inv fx p" shows "pool_inv fx (fst (pool_release fx now c p))"
proof -
  obtain b r where r: "rc_release now (cpl_heap p c) = (b, r)" by fastforce
  have fixed: "rc_fixed r = rc_fixed (cpl_heap p c)" "rc_inv (cpl_heap p c) \<Longrightarrow> rc_inv r"
    using rc_fixed_ops(2) [of now "cpl_heap p c"] rc_inv_release [of "cpl_heap p c" now] r by auto
  show ?thesis
  proof (cases b)
    case True
    then show ?thesis
      using r prune_only_inv [OF pool_inv_heap_upd [OF assms fixed]]
      by (simp add: pool_release_def split: prod.splits)
  next
    case False
    then show ?thesis using r assms by (simp add: pool_release_def)
  qed
qed

section \<open>Insertion\<close>

lemma index_inv_insert:
  assumes inv: "index_inv p M" and c: "c \<notin> M" "\<And>d. d \<in> M \<Longrightarrow> rc_id (cpl_heap p d) \<noteq> rc_id (cpl_heap p c)"
  shows "index_inv (index_coalescing c
           (p\<lparr>cpl_by_id := (cpl_by_id p)(rc_id (cpl_heap p c) \<mapsto> rc_address (cpl_heap p c))\<rparr>))
         (insert c M)"
proof -
  let ?p = "p\<lparr>cpl_by_id := (cpl_by_id p)(rc_id (cpl_heap p c) \<mapsto> rc_address (cpl_heap p c))\<rparr>"
  let ?q = "index_coalescing c ?p"
  have q: "cpl_heap ?q = cpl_heap p" "cpl_by_id ?q = cpl_by_id ?p"
    by (simp_all add: index_coalescing_def split: option.splits)
  have b: "index_bucket ?q t =
      index_bucket p t @ (if coalescing_index_target (cpl_heap p c) = Some t then [c] else [])" for t
    by (auto simp: index_bucket_def index_coalescing_def split: option.splits)
  have ne: "cpl_coalesced_by_target ?q t \<noteq> Some []" for t
    using index_invD(5) [OF inv] by (simp add: index_coalescing_def split: option.splits)
  have "distinct (index_bucket ?q t)" for t
    using b [of t] index_invD(3,4) [OF inv, of t] c(1) by simp
  moreover have "set (index_bucket ?q t) =
      {d \<in> insert c M. coalescing_index_target (cpl_heap p d) = Some t}" for t
    using b [of t] index_invD(4) [OF inv, of t] by auto
  moreover have "cpl_by_id ?p i = Some a \<longleftrightarrow>
      (\<exists>d \<in> insert c M. rc_id (cpl_heap p d) = i \<and> rc_address (cpl_heap p d) = a)" for i a
    using index_invD(2) [OF inv, of i a] c(2) by auto
  moreover have "inj_on (\<lambda>d. rc_id (cpl_heap p d)) (insert c M)"
    using index_invD(1) [OF inv] c by (simp add: inj_on_insert image_iff) metis
  ultimately show ?thesis using ne q by (simp add: index_inv_def)
qed

lemma shards_ok_put:
  assumes "shards_ok fx p" "cs \<noteq> []"
  shows "shards_ok fx (put_shard fx a ((pool_shard fx p a)(a \<mapsto> cs)) p)"
    "pool_bucket fx (put_shard fx a ((pool_shard fx p a)(a \<mapsto> cs)) p) b
     = (if b = a then cs else pool_bucket fx p b)"
proof -
  let ?q = "p\<lparr>cpl_shards := (cpl_shards p)[address_shard fx a := (pool_shard fx p a)(a \<mapsto> cs)],
              cpl_heap := cpl_heap p\<rparr>"
  have q: "put_shard fx a ((pool_shard fx p a)(a \<mapsto> cs)) p = ?q" by (simp add: put_shard_def)
  show "shards_ok fx (put_shard fx a ((pool_shard fx p a)(a \<mapsto> cs)) p)"
    unfolding q using shards_okD(2,3) [OF assms(1) address_shard_less] assms(2)
    by (intro shards_ok_update [OF assms(1)]) (auto simp: pool_shard_def split: if_splits)
  show "pool_bucket fx (put_shard fx a ((pool_shard fx p a)(a \<mapsto> cs)) p) b
     = (if b = a then cs else pool_bucket fx p b)"
    unfolding q pool_bucket_put [OF assms(1)] by (simp add: pool_bucket_def pool_shard_def)
qed

lemma pool_insert_eq:
  "pool_insert fx now c p =
     (let a = rc_address (cpl_heap p c);
          q = put_shard fx a ((pool_shard fx p a)(a \<mapsto> pool_bucket fx p a @ [c])) p
      in case prune_in_shard fx now a q of
           (p1, evicted) \<Rightarrow>
             finish_removals evicted
               (index_coalescing c (p1\<lparr>cpl_by_id := (cpl_by_id p1)(rc_id (cpl_heap p1 c) \<mapsto> a)\<rparr>)))"
  unfolding pool_insert_def Let_def pool_bucket_def
  by (cases "pool_shard fx p (rc_address (cpl_heap p c)) (rc_address (cpl_heap p c))") simp_all

lemma index_coalescing_fields [simp]:
  "cpl_heap (index_coalescing c p) = cpl_heap p"
  "cpl_hook_calls (index_coalescing c p) = cpl_hook_calls p"
  "cpl_eviction_hook (index_coalescing c p) = cpl_eviction_hook p"
  "cpl_settings (index_coalescing c p) = cpl_settings p"
  "pool_bucket fx (index_coalescing c p) a = pool_bucket fx p a"
  "pooled fx (index_coalescing c p) = pooled fx p"
  "shards_ok fx (index_coalescing c p) = shards_ok fx p"
  "buckets_ok fx (index_coalescing c p) = buckets_ok fx p"
  by (simp_all add: index_coalescing_def split: option.splits)

text \<open>A connection may be inserted when it is new to the pool and its id is not in use there.\<close>

definition insertable :: "(Address \<Rightarrow> nat) \<Rightarrow> ConnectionPool \<Rightarrow> cref \<Rightarrow> bool" where
  "insertable fx p c \<longleftrightarrow>
     c \<notin> pooled fx p \<and> rc_inv (cpl_heap p c) \<and>
     (\<forall>d \<in> pooled fx p. rc_id (cpl_heap p d) \<noteq> rc_id (cpl_heap p c))"

lemma put_new_connection:
  assumes inv: "pool_inv fx p" and c: "insertable fx p c"
    and a: "a = rc_address (cpl_heap p c)"
    and q: "q = put_shard fx a ((pool_shard fx p a)(a \<mapsto> pool_bucket fx p a @ [c])) p"
  shows "shards_ok fx q" "buckets_ok fx q" "pooled fx q = insert c (pooled fx p)"
    "index_inv q (pooled fx p)" "cpl_heap q = cpl_heap p"
proof -
  have b: "pool_bucket fx q b = (if b = a then pool_bucket fx p a @ [c] else pool_bucket fx p b)" for b
    unfolding q by (rule shards_ok_put(2) [OF pool_invD(1) [OF inv]]) simp
  show "shards_ok fx q"
    unfolding q by (rule shards_ok_put(1) [OF pool_invD(1) [OF inv]]) simp
  show heap: "cpl_heap q = cpl_heap p" by (simp add: q put_shard_def)
  show "pooled fx q = insert c (pooled fx p)"
    unfolding pooled_def using b by (auto split: if_splits)
  show "index_inv q (pooled fx p)"
    by (rule index_inv_cong [OF pool_invD(3) [OF inv]]) (simp_all add: q put_shard_def)
  have "distinct (pool_bucket fx q b) \<and>
      (\<forall>d \<in> set (pool_bucket fx q b). rc_address (cpl_heap p d) = b \<and> rc_inv (cpl_heap p d))" for b
    using b [of b] buckets_okD(1) [OF pool_invD(2) [OF inv], of b]
      buckets_okD(2,3) [OF pool_invD(2) [OF inv], of _ b] c a pooledI [of c fx p b]
    by (auto simp: insertable_def split: if_splits)
  then show "buckets_ok fx q" unfolding buckets_ok_def heap by blast
qed

lemma pool_insert_shape:
  assumes inv: "pool_inv fx p" and c: "insertable fx p c"
  obtains q p1 evicted p2 where "cpl_heap q = cpl_heap p" "pooled fx q = insert c (pooled fx p)"
    "evicts fx q (set evicted) p1" "distinct evicted"
    "p2 = index_coalescing c (p1\<lparr>cpl_by_id :=
        (cpl_by_id p1)(rc_id (cpl_heap p1 c) \<mapsto> rc_address (cpl_heap p1 c))\<rparr>)"
    "pre_inv fx p2 (insert c (pooled fx p))"
    "cpl_hook_calls q = cpl_hook_calls p" "cpl_eviction_hook q = cpl_eviction_hook p"
    "pool_insert fx now c p = finish_removals evicted p2"
proof -
  define a where "a = rc_address (cpl_heap p c)"
  define q where "q = put_shard fx a ((pool_shard fx p a)(a \<mapsto> pool_bucket fx p a @ [c])) p"
  note new = put_new_connection [OF inv c a_def q_def]
  obtain p1 evicted where pr: "prune_in_shard fx now a q = (p1, evicted)" by fastforce
  then have ev: "evicts fx q (set evicted) p1" "distinct evicted"
    using prune_nth_shard_evicts [OF new(1,2)] by (auto simp: prune_in_shard_def)
  have fixed: "rc_fixed (cpl_heap p1 d) = rc_fixed (cpl_heap p d)" for d
    using ev(1) new(5) by (simp add: evicts_def)
  define p2 where "p2 = index_coalescing c (p1\<lparr>cpl_by_id :=
        (cpl_by_id p1)(rc_id (cpl_heap p1 c) \<mapsto> rc_address (cpl_heap p1 c))\<rparr>)"
  have "index_inv p1 (pooled fx p)"
    using ev(1) by (intro index_inv_cong [OF new(4)]) (simp_all add: evicts_def)
  then have "index_inv p2 (insert c (pooled fx p))"
    unfolding p2_def using c rc_fixed_eqD(1) [OF fixed]
    by (intro index_inv_insert) (auto simp: insertable_def)
  moreover have "shards_ok fx p1" "pooled fx p1 \<subseteq> insert c (pooled fx p)"
    using ev(1) evicts_pooled [OF ev(1)] new(3) by (auto simp: evicts_def)
  ultimately have "pre_inv fx p2 (insert c (pooled fx p))"
    using evicts_buckets_ok [OF ev(1) new(2)] by (simp add: pre_inv_def p2_def)
  moreover have "pool_insert fx now c p = finish_removals evicted p2"
    using pr rc_fixed_eqD(2) [OF fixed, of c]
    by (simp add: pool_insert_eq Let_def a_def [symmetric] q_def [symmetric] p2_def)
  ultimately show thesis
    using that [OF new(5,3) ev p2_def] by (simp add: q_def put_shard_def)
qed

lemma pool_insert_inv:
  assumes "pool_inv fx p" "insertable fx p c" shows "pool_inv fx (pool_insert fx now c p)"
  using assms
proof (rule pool_insert_shape [where now = now])
  fix q p1 evicted p2
  assume pq: "pooled fx q = insert c (pooled fx p)" and ev: "evicts fx q (set evicted) p1"
    and "distinct evicted" and pre: "pre_inv fx p2 (insert c (pooled fx p))"
    and p2: "p2 = index_coalescing c (p1\<lparr>cpl_by_id :=
        (cpl_by_id p1)(rc_id (cpl_heap p1 c) \<mapsto> rc_address (cpl_heap p1 c))\<rparr>)"
    and ins: "pool_insert fx now c p = finish_removals evicted p2"
  have "pooled fx p2 = pooled fx q - set evicted" "set evicted \<subseteq> pooled fx q"
    using evicts_pooled [OF ev] ev by (simp_all add: p2 evicts_def)
  then have "set evicted = insert c (pooled fx p) - pooled fx p2" using pq by blast
  then show ?thesis unfolding ins using pre \<open>distinct evicted\<close> by (intro pool_inv_finish_removals)
qed

section \<open>Coalescing\<close>

lemma prune_keeps_open: "prune_keeps s now c \<Longrightarrow> \<not> rc_is_closed c"
  by (auto simp: prune_keeps_def is_in_use_def rc_snapshot_def allocation_state_def rc_is_closed_def
      rc_is_healthy_def split: if_splits)

lemma prune_connections_keeps:
  assumes "distinct cs" "prune_connections s now heap cs = (h', kept, removed)" "c \<in> set kept"
  shows "prune_keeps s now (heap c)"
proof -
  obtain rem2 where "enforce_max_idle_connections (ps_max_idle_per_address s)
        (close_all {c \<in> set cs. \<not> prune_keeps s now (heap c)} heap)
        (filter (\<lambda>c. prune_keeps s now (heap c)) cs) = (h', kept, rem2)"
    using assms(1,2) by (auto simp: prune_connections_def retain_closing_eq split: prod.splits)
  from enforce_max_idle_spec(2) [OF distinct_filter [OF assms(1)] this] show ?thesis
    using assms(3) by auto
qed

lemma prune_nth_shard_bucket:
  assumes "shards_ok fx p" "prune_nth_shard now (address_shard fx a) a p = (p', removed)"
  shows "\<exists>h. prune_connections (cpl_settings p) now (cpl_heap p) (pool_bucket fx p a)
             = (h, pool_bucket fx p' a, removed) \<and> cpl_heap p' = h"
proof (cases "pool_shard fx p a a")
  case None
  then have "p' = p" "removed = []"
    using assms(2) by (auto simp: prune_nth_shard_def prune_address_def pool_shard_def)
  then show ?thesis using None
    by (simp add: pool_bucket_def prune_connections_def enforce_max_idle_connections_def
        idle_entries_def)
next
  case (Some cs)
  then have cs: "pool_bucket fx p a = cs" by (simp add: pool_bucket_def)
  obtain h kept where pc: "prune_connections (cpl_settings p) now (cpl_heap p) cs = (h, kept, removed)"
    and p': "p' = p\<lparr>cpl_shards := (cpl_shards p)[address_shard fx a :=
                      put_bucket a kept (cpl_shards p ! address_shard fx a)], cpl_heap := h\<rparr>"
    using assms(2) Some by (auto simp: prune_nth_shard_def prune_address_def pool_shard_def
        put_bucket_def split: prod.splits)
  have "pool_bucket fx p' a = kept"
    unfolding p' pool_bucket_put [OF assms(1)] by (simp add: put_bucket_def)
  then show ?thesis using pc cs p' by simp
qed

lemma prune_nth_shard_open:
  assumes "shards_ok fx p" "buckets_ok fx p"
    "prune_nth_shard now (address_shard fx a) a p = (p', removed)" "c \<in> set (pool_bucket fx p' a)"
  shows "prune_keeps (cpl_settings p) now (cpl_heap p c)" "cpl_heap p' c = cpl_heap p c"
proof -
  obtain h where pc: "prune_connections (cpl_settings p) now (cpl_heap p) (pool_bucket fx p a)
      = (h, pool_bucket fx p' a, removed)" and h: "cpl_heap p' = h"
    using prune_nth_shard_bucket [OF assms(1,3)] by blast
  note d = buckets_okD(1) [OF assms(2), of a]
  show "prune_keeps (cpl_settings p) now (cpl_heap p c)"
    by (rule prune_connections_keeps [OF d pc assms(4)])
  show "cpl_heap p' c = cpl_heap p c"
    using prune_connections_spec(1,2) [OF d pc] assms(4) h by (simp add: close_all_def)
qed

lemma prune_each_open:
  assumes "shards_ok fx p" "buckets_ok fx p" "\<forall>(i, a) \<in> set ias. i = address_shard fx a"
    and "prune_each now ias p = (p', removed)"
  shows "\<forall>(i, a) \<in> set ias. \<forall>c \<in> set (pool_bucket fx p' a).
           \<not> rc_is_closed (cpl_heap p' c) \<and> prune_keeps (cpl_settings p) now (cpl_heap p c)"
  using assms
proof (induction ias arbitrary: p removed)
  case (Cons ia ias)
  obtain i a where ia: "ia = (i, a)" by (cases ia)
  obtain p1 r1 r2 where 1: "prune_nth_shard now i a p = (p1, r1)"
    and 2: "prune_each now ias p1 = (p', r2)"
    using Cons.prems(4) ia by (auto split: prod.splits)
  have i: "i = address_shard fx a" using Cons.prems(3) ia by simp
  have e1: "evicts fx p (set r1) p1"
    using prune_nth_shard_evicts [OF Cons.prems(1,2)] 1 i by auto
  have ok1: "shards_ok fx p1" "buckets_ok fx p1"
    using e1 evicts_buckets_ok [OF e1 Cons.prems(2)] by (auto simp: evicts_def)
  have e2: "evicts fx p1 (set r2) p'"
    using prune_each_evicts [OF ok1 _ 2] Cons.prems(3) by auto
  have sub: "c \<in> set (pool_bucket fx p1 b) \<and> cpl_heap p' c = cpl_heap p1 c"
    if "c \<in> set (pool_bucket fx p' b)" for b c
    using e2 that by (auto simp: evicts_def close_all_def)
  have sub1: "cpl_heap p1 c = cpl_heap p c" if "c \<in> set (pool_bucket fx p1 b)" for b c
    using e1 that by (auto simp: evicts_def close_all_def)
  have "\<not> rc_is_closed (cpl_heap p' c) \<and> prune_keeps (cpl_settings p) now (cpl_heap p c)"
    if "c \<in> set (pool_bucket fx p' a)" for c
    using sub [OF that] prune_nth_shard_open [OF Cons.prems(1,2) 1 [unfolded i], of c] prune_keeps_open
    by auto
  moreover have "\<forall>(i, a) \<in> set ias. \<forall>c \<in> set (pool_bucket fx p' a).
           \<not> rc_is_closed (cpl_heap p' c) \<and> prune_keeps (cpl_settings p1) now (cpl_heap p1 c)"
    using Cons.IH [OF ok1 _ 2] Cons.prems(3) by auto
  moreover have "cpl_settings p1 = cpl_settings p" using e1 by (simp add: evicts_def)
  ultimately show ?case using ia sub sub1 by fastforce
qed simp

lemma collect_candidates_index:
  assumes "\<And>t c. t \<in> set ts \<Longrightarrow> c \<in> set (case index t of Some b \<Rightarrow> b | None \<Rightarrow> []) \<Longrightarrow>
      coalescing_index_target (heap c) = Some t \<and> \<not> rc_is_closed (heap c)"
    and "\<And>t. index t \<noteq> Some []"
  shows "fst (collect_candidates heap a plan ts index seen acc) = index"
  using assms(1)
proof (induction ts arbitrary: seen acc)
  case (Cons t ts)
  have "prune_coalescing_bucket heap t index = index"
  proof (cases "index t")
    case (Some b)
    then have "filter (\<lambda>d. coalescing_index_target (heap d) = Some t \<and> \<not> rc_is_closed (heap d)) b = b"
      using Cons.prems [of t] by (intro filter_True) auto
    then show ?thesis using Some assms(2) [of t]
      by (auto simp: prune_coalescing_bucket_def put_bucket_def fun_eq_iff)
  qed (simp add: prune_coalescing_bucket_def)
  moreover have "fst (collect_candidates heap a plan ts index seen' acc') = index" for seen' acc'
    using Cons.prems by (intro Cons.IH) auto
  ultimately show ?case by (simp add: Let_def split: option.splits prod.splits)
qed simp

lemma direct_route_targets_set:
  "set (direct_route_targets plan) = {t. \<exists>r \<in> set (rp_routes plan). rt_kind r = DirectRoute t}"
proof -
  have "set (fold (\<lambda>route targets. case rt_kind route of
             DirectRoute target \<Rightarrow> push_unique targets [target] | _ \<Rightarrow> targets) rs acc)
        = set acc \<union> {t. \<exists>r \<in> set rs. rt_kind r = DirectRoute t}" for rs acc
    by (induction rs arbitrary: acc) (auto split: RouteKind.splits)
  from this [of "rp_routes plan" "[]"] show ?thesis
    by (simp only: direct_route_targets_def list.set Un_empty_left)
qed

text \<open>
  \<open>hs\<close> visits exactly the addresses it is given: the documented behaviour of iterating a
  \<^verbatim>\<open>HashSet\<close>.
\<close>

lemma acquire_coalesced_shape:
  assumes inv: "pool_inv fx p" and hs: "\<forall>xs. set (hs xs) = set xs"
  shows "(fst (acquire_coalesced fx hs now a plan p) = p \<and> snd (acquire_coalesced fx hs now a plan p) = None) \<or>
    (\<exists>removed p1 h cands.
       request_allows_h2_coalescing a \<and>
       evicts fx p (set removed) p1 \<and> distinct removed \<and>
       pool_inv fx (finish_removals removed p1) \<and>
       cands = snd (collect_candidates (cpl_heap p1) a plan (direct_route_targets plan)
                 (cpl_coalesced_by_target (finish_removals removed p1)) {} []) \<and>
       find_try_acquire (cpl_heap p1) cands = (h, snd (acquire_coalesced fx hs now a plan p)) \<and>
       (\<forall>t \<in> set (direct_route_targets plan). \<forall>c \<in> set (index_bucket (finish_removals removed p1) t).
          prune_keeps (cpl_settings p) now (cpl_heap p c)) \<and>
       fst (acquire_coalesced fx hs now a plan p) = (finish_removals removed p1)\<lparr>cpl_heap := h\<rparr>)"
proof (cases "request_allows_h2_coalescing a \<and> direct_route_targets plan \<noteq> []")
  case True
  define ts where "ts = direct_route_targets plan"
  define as where "as = hs (concat (map (\<lambda>t. case cpl_coalesced_by_target p t of
      Some bucket \<Rightarrow> map (\<lambda>c. rc_address (cpl_heap p c)) bucket | None \<Rightarrow> []) ts))"
  obtain p1 removed where pe: "prune_each now (map (\<lambda>a. (address_shard fx a, a)) as) p = (p1, removed)"
    by fastforce
  note ok = pool_invD(1,2) [OF inv]
  have ev: "evicts fx p (set removed) p1" "distinct removed"
    using prune_each_evicts [OF ok _ pe] by auto
  define p2 where "p2 = finish_removals removed p1"
  have bk1: "\<And>c. c \<in> pooled fx p1 \<Longrightarrow> rc_inv (cpl_heap p1 c)"
    by (rule pooled_rc_inv [OF evicts_buckets_ok [OF ev(1) ok(2)]])
  have inv2: "pool_inv fx p2"
    using prune_finish_inv [OF inv ev, of "cpl_heap p1"] bk1 by (simp add: p2_def)
  have heap2: "cpl_heap p2 = cpl_heap p1" by (simp add: p2_def)
  have fixed: "rc_fixed (cpl_heap p1 c) = rc_fixed (cpl_heap p c)" for c
    using ev(1) by (simp add: evicts_def)
  have good: "coalescing_index_target (cpl_heap p1 c) = Some t \<and> \<not> rc_is_closed (cpl_heap p1 c)
      \<and> prune_keeps (cpl_settings p) now (cpl_heap p c)"
    if t: "t \<in> set ts" and c: "c \<in> set (index_bucket p2 t)" for t c
  proof -
    have tgt: "c \<in> pooled fx p1" "coalescing_index_target (cpl_heap p1 c) = Some t"
      using index_invD(4) [OF pool_invD(3) [OF inv2], of t] c heap2 by (auto simp: p2_def)
    have "coalescing_index_target (cpl_heap p c) = Some t"
      using coalescing_index_target_fixed [OF fixed] tgt(2) by simp
    then have "c \<in> set (index_bucket p t)"
      using index_invD(4) [OF pool_invD(3) [OF inv], of t] tgt(1) evicts_pooled [OF ev(1)] by auto
    then have "rc_address (cpl_heap p c) \<in> set as"
      using t hs by (force simp: as_def index_bucket_def split: option.splits)
    moreover have "c \<in> set (pool_bucket fx p1 (rc_address (cpl_heap p c)))"
      using tgt(1) buckets_okD(2) [OF evicts_buckets_ok [OF ev(1) ok(2)]] rc_fixed_eqD(2) [OF fixed, of c]
      unfolding pooled_def by fastforce
    ultimately show ?thesis using prune_each_open [OF ok _ pe] tgt(2) by auto
  qed
  obtain idx cands where cc: "collect_candidates (cpl_heap p2) a plan ts (cpl_coalesced_by_target p2) {} []
      = (idx, cands)" by fastforce
  have idx: "idx = cpl_coalesced_by_target p2"
    using collect_candidates_index [of ts "cpl_coalesced_by_target p2" "cpl_heap p2" a plan "{}" "[]"]
      good index_invD(5) [OF pool_invD(3) [OF inv2]] cc
    by (simp add: heap2 index_bucket_def)
  obtain h r where f: "find_try_acquire (cpl_heap p2) cands = (h, r)" by fastforce
  have res: "acquire_coalesced fx hs now a plan p = (p2\<lparr>cpl_heap := h\<rparr>, r)"
    using True pe cc f idx
    by (simp add: acquire_coalesced_def Let_def ts_def as_def p2_def)
  show ?thesis
    unfolding res fst_conv snd_conv
    using True ev inv2 good f cc heap2
    by (intro disjI2 exI [of _ removed] exI [of _ p1] exI [of _ h] exI [of _ cands])
       (simp add: p2_def ts_def)
next
  case False
  then show ?thesis by (auto simp: acquire_coalesced_def Let_def)
qed

lemma acquire_coalesced_inv:
  assumes "pool_inv fx p" "\<forall>xs. set (hs xs) = set xs"
  shows "pool_inv fx (fst (acquire_coalesced fx hs now a plan p))"
  using acquire_coalesced_shape [OF assms, of now a plan]
proof (elim disjE exE conjE)
  fix removed p1 h cands
  assume inv: "pool_inv fx (finish_removals removed p1)"
    and f: "find_try_acquire (cpl_heap p1) cands = (h, snd (acquire_coalesced fx hs now a plan p))"
    and res: "fst (acquire_coalesced fx hs now a plan p) = (finish_removals removed p1)\<lparr>cpl_heap := h\<rparr>"
  have "pre_inv fx ((finish_removals removed p1)\<lparr>cpl_heap := h\<rparr>) (pooled fx (finish_removals removed p1))"
    using find_try_acquire_heap [OF f] pooled_rc_inv [OF pool_invD(2) [OF inv]]
    by (intro pre_inv_heap [OF pool_invD(4) [OF inv]]) auto
  then show ?thesis unfolding res by (simp add: pool_inv_def)
qed (simp add: assms(1))

section \<open>Removal\<close>

lemma remove_index_connection_fixed:
  assumes "\<And>c. rc_fixed (h c) = rc_fixed (h' c)"
  shows "remove_index_connection h = remove_index_connection h'"
  using rc_fixed_eqD(1) [OF assms] coalescing_index_target_fixed [OF assms]
  by (auto simp: remove_index_connection_def fun_eq_iff split: option.split)

text \<open>
  Removing a known id takes exactly one connection out of its bucket, closes it and drops it from
  both indexes.
\<close>

lemma remove_without_hook_shape:
  assumes inv: "pool_inv fx p" and id: "cpl_by_id p cid = Some a"
  obtains c p1 where "c \<in> set (pool_bucket fx p a)" "rc_id (cpl_heap p c) = cid"
    "evicts fx p {c} p1" "remove_without_hook fx cid p = (drop_indexes [c] p1, Some c)"
proof -
  let ?id = "\<lambda>c. rc_id (cpl_heap p c)"
  obtain c where c: "c \<in> pooled fx p" "?id c = cid" "rc_address (cpl_heap p c) = a"
    using index_invD(2) [OF pool_invD(3) [OF inv]] id by blast
  then have mem: "c \<in> set (pool_bucket fx p a)"
    using buckets_okD(2) [OF pool_invD(2) [OF inv]] by (auto simp: pooled_def)
  define cs where "cs = pool_bucket fx p a"
  have st: "pool_shard fx p a a = Some cs"
    using mem by (cases "pool_shard fx p a a") (simp_all add: cs_def pool_bucket_def)
  obtain i where i: "position (\<lambda>c. ?id c = cid) cs = Some i"
    using mem c(2) position_None_iff [of "\<lambda>c. ?id c = cid" cs] by (auto simp: cs_def)
  then have i': "i < length cs" "?id (cs ! i) = cid" by (simp_all add: position_Some_iff)
  have ci: "cs ! i = c"
    using inj_onD [OF index_invD(1) [OF pool_invD(3) [OF inv]], of "cs ! i" c] i' c
      pooledI [of "cs ! i" fx p a] nth_mem [OF i'(1)] by (simp add: cs_def)
  have rm: "remove_nth i cs = filter (\<lambda>d. d \<noteq> c) cs"
    using remove_nth_filter [OF _ i'(1)] buckets_okD(1) [OF pool_invD(2) [OF inv]] ci by (simp add: cs_def)
  define h where "h = (cpl_heap p)(c := rc_close (cpl_heap p c))"
  have h: "h = close_all {c} (cpl_heap p)" by (auto simp: h_def close_all_def)
  define p1 where "p1 = p\<lparr>cpl_shards := (cpl_shards p)[address_shard fx a :=
      put_bucket a (filter (\<lambda>d. d \<noteq> c) cs) (pool_shard fx p a)], cpl_heap := h\<rparr>"
  have other: "filter (\<lambda>d. d \<noteq> c) (pool_bucket fx p b) = pool_bucket fx p b" if "b \<noteq> a" for b
    using that buckets_okD(2) [OF pool_invD(2) [OF inv], of c b] c(3) by (intro filter_True) auto
  have "pool_bucket fx p1 b = filter (\<lambda>d. d \<notin> {c}) (pool_bucket fx p b)" for b
    unfolding p1_def pool_bucket_put [OF pool_invD(1) [OF inv]] using other [of b]
    by (auto simp: put_bucket_def cs_def) (simp_all add: pool_bucket_def pool_shard_def)
  moreover have "shards_ok fx p1"
    unfolding p1_def using shards_okD(2,3) [OF pool_invD(1) [OF inv] address_shard_less] mem
    by (intro shards_ok_update [OF pool_invD(1) [OF inv]])
       (auto simp: put_bucket_def pool_shard_def split: if_splits)
  ultimately have "evicts fx p {c} p1" using c(1) h by (simp add: evicts_def p1_def)
  moreover have "remove_index_connection h = remove_index_connection (cpl_heap p)"
    by (rule remove_index_connection_fixed) (simp add: h_def)
  ultimately show thesis
    using that [OF mem c(2)] id st i ci rm
    by (simp add: remove_without_hook_def drop_indexes_def Let_def p1_def put_shard_def pool_shard_def
        h_def c(2) rc_fixed_eqD(1) [OF rc_fixed_ops(4)])
qed

lemma drop_indexes_inv:
  assumes "pool_inv fx p" "evicts fx p {c} p1" shows "pool_inv fx (drop_indexes [c] p1)"
proof -
  have "pool_inv fx (finish_removals [c] (p1\<lparr>cpl_heap := cpl_heap p1\<rparr>))"
    using assms pooled_rc_inv [OF evicts_buckets_ok [OF assms(2) pool_invD(2) [OF assms(1)]]]
    by (intro prune_finish_inv [OF assms(1)]) auto
  then show ?thesis
    by (simp add: finish_removals_eq pool_inv_def pre_inv_def)
qed

lemma remove_without_hook_inv:
  assumes "pool_inv fx p" shows "pool_inv fx (fst (remove_without_hook fx cid p))"
proof (cases "cpl_by_id p cid")
  case None
  then show ?thesis using assms by (simp add: remove_without_hook_def)
next
  case (Some a)
  from remove_without_hook_shape [OF assms Some] drop_indexes_inv [OF assms] show ?thesis
    by (metis fst_conv)
qed

lemma pool_inv_hook_update [simp]: "pool_inv fx (p\<lparr>cpl_hook_calls := x\<rparr>) = pool_inv fx p"
  by (simp add: pool_inv_def pre_inv_def)

lemma pool_remove_inv:
  assumes "pool_inv fx p" shows "pool_inv fx (fst (pool_remove fx cid p))"
  using remove_without_hook_inv [OF assms, of cid]
  by (auto simp: pool_remove_def notify_evictions_def split: prod.splits)

section \<open>The reaper\<close>

lemma prune_each_other_shards:
  "prune_each now (map (Pair j) as) p = (p', removed) \<Longrightarrow> i \<noteq> j \<Longrightarrow> cpl_shards p' ! i = cpl_shards p ! i"
  by (induction as arbitrary: p removed)
     (fastforce simp: prune_nth_shard_def split: prod.splits)+

text \<open>
  \<open>ko\<close> enumerates keys of the shard's map: the documented behaviour of \<^verbatim>\<open>HashMap::keys\<close>.
\<close>

lemma prune_shards_evicts:
  assumes "shards_ok fx p" "buckets_ok fx p" "distinct is"
    "\<forall>i \<in> set is. set (ko (cpl_shards p ! i)) \<subseteq> dom (cpl_shards p ! i)"
    and "\<forall>i \<in> set is. i < ADDRESS_SHARDS" and "prune_shards ko now is p = (p', removed)"
  shows "evicts fx p (set removed) p' \<and> distinct removed"
  using assms
proof (induction "is" arbitrary: p removed)
  case (Cons i "is")
  obtain p1 r1 r2 where 1: "prune_each now (map (Pair i) (ko (cpl_shards p ! i))) p = (p1, r1)"
    and 2: "prune_shards ko now is p1 = (p', r2)" and r: "removed = r1 @ r2"
    using Cons.prems(6) by (auto split: prod.splits)
  have "a \<in> dom (cpl_shards p ! i) \<Longrightarrow> i = address_shard fx a" for a
    using shards_okD(2) [OF Cons.prems(1)] Cons.prems(5) by fastforce
  then have "\<forall>(j, a) \<in> set (map (Pair i) (ko (cpl_shards p ! i))). j = address_shard fx a"
    using Cons.prems(4) by fastforce
  from prune_each_evicts [OF Cons.prems(1,2) this 1]
  have e1: "evicts fx p (set r1) p1" "distinct r1" by simp_all
  have "cpl_shards p1 ! j = cpl_shards p ! j" if "j \<in> set is" for j
    using prune_each_other_shards [OF 1, of j] that Cons.prems(3) by (cases "j = i") auto
  then have "evicts fx p1 (set r2) p' \<and> distinct r2"
    using e1 Cons.prems(3-5) evicts_buckets_ok [OF e1(1) Cons.prems(2)]
    by (intro Cons.IH [OF _ _ _ _ _ 2]) (simp_all add: evicts_def)
  then have e2: "evicts fx p1 (set r2) p'" "distinct r2" by simp_all
  have "set r1 \<inter> set r2 = {}" using e2(1) evicts_pooled [OF e1(1)] by (auto simp: evicts_def)
  then show ?case using evicts_trans [OF e1(1) e2(1)] e1 e2 r by auto
qed (auto intro: evicts_refl)

lemma prune_all_shape:
  assumes "pool_inv fx p" "\<forall>st. set (ko st) \<subseteq> dom st"
  obtains p1 removed where "evicts fx p (set removed) p1" "distinct removed"
    "prune_all ko now p = finish_removals removed p1"
proof -
  obtain p1 removed where ps: "prune_shards ko now [0..<length (cpl_shards p)] p = (p1, removed)"
    by fastforce
  then have "evicts fx p (set removed) p1 \<and> distinct removed"
    using assms(2) shards_okD(1) [OF pool_invD(1) [OF assms(1)]]
    by (intro prune_shards_evicts [OF pool_invD(1,2) [OF assms(1)] _ _ _ ps]) simp_all
  then show thesis using that [of removed p1] ps by (simp add: prune_all_def)
qed

lemma prune_all_inv:
  assumes "pool_inv fx p" "\<forall>st. set (ko st) \<subseteq> dom st"
  shows "pool_inv fx (prune_all ko now p)"
  using assms
proof (rule prune_all_shape [where now = now])
  fix p1 removed
  assume ev: "evicts fx p (set removed) p1" "distinct removed"
    and eq: "prune_all ko now p = finish_removals removed p1"
  have "pool_inv fx (finish_removals removed (p1\<lparr>cpl_heap := cpl_heap p1\<rparr>))"
    using pooled_rc_inv [OF evicts_buckets_ok [OF ev(1) pool_invD(2) [OF assms(1)]]]
    by (intro prune_finish_inv [OF assms(1) ev]) auto
  then show ?thesis unfolding eq by simp
qed

section \<open>Reachable pools\<close>

text \<open>
  One step of a program that uses the pool: any operation, a new connection record for a reference
  that is not pooled, and the state changes other owners of a connection make through their \<^verbatim>\<open>Arc\<close>.
\<close>

inductive pool_step ::
  "(Address \<Rightarrow> nat) \<Rightarrow> (Address list \<Rightarrow> Address list) \<Rightarrow> (PoolState \<Rightarrow> Address list)
   \<Rightarrow> ConnectionPool \<Rightarrow> ConnectionPool \<Rightarrow> bool"
  for fx hs ko where
  step_create: "c \<notin> pooled fx p \<Longrightarrow>
     pool_step fx hs ko p (p\<lparr>cpl_heap := (cpl_heap p)(c := r)\<rparr>)"
| step_insert: "insertable fx p c \<Longrightarrow> pool_step fx hs ko p (pool_insert fx now c p)"
| step_acquire: "pool_step fx hs ko p (fst (pool_acquire fx now a p))"
| step_acquire_hint: "pool_step fx hs ko p (fst (acquire_with_in_use_hint fx now a p))"
| step_in_use: "pool_step fx hs ko p (fst (has_in_use_connection fx now a p))"
| step_coalesced: "pool_step fx hs ko p (fst (acquire_coalesced fx hs now a plan p))"
| step_release: "pool_step fx hs ko p (fst (pool_release fx now c p))"
| step_get: "pool_step fx hs ko p (fst (get_by_id fx now a cid p))"
| step_acquire_id: "pool_step fx hs ko p (fst (acquire_by_id fx now a cid p))"
| step_remove: "pool_step fx hs ko p (fst (pool_remove fx cid p))"
| step_remove_no_hook: "pool_step fx hs ko p (fst (remove_without_hook fx cid p))"
| step_stats: "pool_step fx hs ko p (fst (pool_stats fx now a p))"
| step_prune_all: "pool_step fx hs ko p (prune_all ko now p)"
| step_hook: "pool_step fx hs ko p (set_eviction_hook p)"
| step_conn: "pool_step fx hs ko p (p\<lparr>cpl_heap := (cpl_heap p)(c := conn_apply e (cpl_heap p c))\<rparr>)"

lemma pool_inv_new: "pool_inv fx (pool_new settings heap)"
proof -
  have "pool_bucket fx (pool_new settings heap) a = []" for a
    by (simp add: pool_bucket_def pool_shard_def pool_new_def)
  then show ?thesis
    by (simp add: pool_inv_def pre_inv_def pooled_def buckets_ok_def index_inv_def index_bucket_def
        shards_ok_def) (simp add: pool_new_def)
qed

lemma rc_fixed_apply: "rc_fixed (conn_apply e c) = rc_fixed c"
  by (cases e) simp_all

lemma pool_inv_create:
  assumes inv: "pool_inv fx p" and c: "c \<notin> pooled fx p"
  shows "pool_inv fx (p\<lparr>cpl_heap := (cpl_heap p)(c := r)\<rparr>)"
proof -
  let ?q = "p\<lparr>cpl_heap := (cpl_heap p)(c := r)\<rparr>"
  have same: "cpl_heap ?q d = cpl_heap p d" if "d \<in> pooled fx p" for d using that c by auto
  have "buckets_ok fx ?q"
    using buckets_okD [OF pool_invD(2) [OF inv]] same [OF pooledI]
    by (simp only: buckets_ok_def pool_view_updates) metis
  moreover have "index_inv ?q (pooled fx p)"
    using index_invD [OF pool_invD(3) [OF inv]] same
    by (simp add: index_inv_def index_bucket_def cong: conj_cong inj_on_cong bex_cong)
  ultimately show ?thesis using pool_invD(1) [OF inv] by (simp add: pool_inv_def pre_inv_def)
qed

lemma pool_step_inv:
  assumes "pool_step fx hs ko p q" "pool_inv fx p"
    and "\<forall>xs. set (hs xs) = set xs" "\<forall>st. set (ko st) \<subseteq> dom st"
  shows "pool_inv fx q"
  using assms
proof (induction rule: pool_step.induct)
  case (step_hook p)
  then show ?case by (simp add: set_eviction_hook_def pool_inv_def pre_inv_def index_inv_def index_bucket_def)
next
  case (step_conn p c e)
  then show ?case using rc_fixed_apply rc_inv_apply by (intro pool_inv_heap_upd) auto
qed (simp_all add: pool_inv_create pool_insert_inv pool_acquire_inv acquire_with_in_use_hint_acquire
    prune_query_inv acquire_coalesced_inv pool_release_inv acquire_by_id_inv pool_remove_inv
    remove_without_hook_inv prune_all_inv)

end
