(* ===== verification/Pool_Props.thy ===== *)
theory Pool_Props
  imports Pool_Inv
begin

text \<open>
  The properties of the connection pool that its callers rely on, with a concrete pool of two
  HTTP/2 connections on which they are exercised.
\<close>

section \<open>Helper lemmas\<close>

lemma idle_entries_Cons:
  "idle_entries heap (c # cs) =
     (if sn_allocation (rc_snapshot (heap c)) = AllocIdle \<and> cs_idle_since (rc_state (heap c)) \<noteq> None
      then (rc_id (heap c), the (cs_idle_since (rc_state (heap c)))) # idle_entries heap cs
      else idle_entries heap cs)"
  by (auto simp: idle_entries_def List.map_filter_simps rc_snapshot_def)

definition is_idle :: "RealConnection \<Rightarrow> bool" where
  "is_idle c \<longleftrightarrow> allocation_state (rc_state c) = AllocIdle"

lemma rc_inv_idle_since: "rc_inv c \<Longrightarrow> is_idle c \<Longrightarrow> cs_idle_since (rc_state c) \<noteq> None"
  by (auto simp: rc_inv_def is_idle_def allocation_state_def split: if_splits)

lemma idle_entries_eq:
  assumes "\<forall>c \<in> set cs. rc_inv (heap c)"
  shows "idle_entries heap cs =
         map (\<lambda>c. (rc_id (heap c), the (cs_idle_since (rc_state (heap c)))))
             (filter (\<lambda>c. is_idle (heap c)) cs)"
  using assms
proof (induction cs)
  case (Cons c cs)
  then show ?case using rc_inv_idle_since [of "heap c"]
    by (simp add: idle_entries_Cons) (simp add: is_idle_def rc_snapshot_def)
qed (simp add: idle_entries_def)

lemma sort_key_take_drop_le:
  fixes f :: "'a \<Rightarrow> nat"
  assumes "x \<in> set (take k (sort_key f xs))" "y \<in> set (drop k (sort_key f xs))"
  shows "f x \<le> f y"
proof -
  have "sorted (map f (take k (sort_key f xs)) @ map f (drop k (sort_key f xs)))"
    by (simp only: map_append [symmetric] append_take_drop_id) simp
  then have "\<forall>u \<in> set (map f (take k (sort_key f xs))). \<forall>v \<in> set (map f (drop k (sort_key f xs))). u \<le> v"
    unfolding sorted_append by blast
  moreover have "f x \<in> set (map f (take k (sort_key f xs)))" using assms(1) by simp
  moreover have "f y \<in> set (map f (drop k (sort_key f xs)))" using assms(2) by simp
  ultimately show ?thesis by blast
qed

text \<open>
  Selecting, from a list of distinctly named entries, the ones named in the prefix of its sorted
  version splits the list into exactly that prefix and the rest.
\<close>

lemma sorted_prefix_split:
  fixes xs :: "('a \<times> nat) list"
  assumes d: "distinct (map fst xs)"
    and S: "S = set (map fst (take k (sort_key snd xs)))"
  shows "set (filter (\<lambda>e. fst e \<in> S) xs) = set (take k (sort_key snd xs))"
    "set (filter (\<lambda>e. fst e \<notin> S) xs) = set (drop k (sort_key snd xs))"
    "length (filter (\<lambda>e. fst e \<notin> S) xs) = length xs - k"
proof -
  let ?ys = "sort_key snd xs"
  have ms: "mset ?ys = mset xs" by simp
  have dy: "distinct (map fst ?ys)"
    using d by (metis mset_map mset_eq_imp_distinct_iff ms)
  have sy: "set ?ys = set xs" by simp
  have split: "?ys = take k ?ys @ drop k ?ys" by simp
  have "fst ` set (take k ?ys) \<inter> fst ` set (drop k ?ys) = {}"
    using dy by (subst (asm) split) (simp only: map_append distinct_append set_map)
  then have notin: "e \<in> set (drop k ?ys) \<Longrightarrow> fst e \<notin> S" for e
    by (auto simp: S)
  have inS: "e \<in> set (take k ?ys) \<Longrightarrow> fst e \<in> S" for e by (auto simp: S)
  have un: "set xs = set (take k ?ys) \<union> set (drop k ?ys)"
    by (metis sy set_append append_take_drop_id)
  show "set (filter (\<lambda>e. fst e \<in> S) xs) = set (take k ?ys)" using un notin inS by auto
  show rest: "set (filter (\<lambda>e. fst e \<notin> S) xs) = set (drop k ?ys)" using un notin inS by auto
  have "distinct ?ys" "distinct xs" using dy d distinct_map by blast+
  then have "length (filter (\<lambda>e. fst e \<notin> S) xs) = length (drop k ?ys)"
    using rest by (metis distinct_card distinct_drop distinct_filter)
  then show "length (filter (\<lambda>e. fst e \<notin> S) xs) = length xs - k" by simp
qed

lemma enforce_max_idle_bound:
  assumes d: "distinct cs" and inj: "inj_on (\<lambda>c. rc_id (heap c)) (set cs)"
    and rc: "\<forall>c \<in> set cs. rc_inv (heap c)" and n: "n \<noteq> USIZE_MAX"
    and e: "enforce_max_idle_connections n heap cs = (h', kept, removed)"
  shows "length (filter (\<lambda>c. is_idle (heap c)) kept) \<le> n"
    "x \<in> set removed \<Longrightarrow> is_idle (heap x) \<and> length (filter (\<lambda>c. is_idle (heap c)) kept) = n"
    "x \<in> set removed \<Longrightarrow> y \<in> set kept \<Longrightarrow> is_idle (heap y) \<Longrightarrow>
       the (cs_idle_since (rc_state (heap x))) \<le> the (cs_idle_since (rc_state (heap y)))"
proof -
  let ?e = "\<lambda>c. (rc_id (heap c), the (cs_idle_since (rc_state (heap c))))"
  let ?idle = "filter (\<lambda>c. is_idle (heap c)) cs"
  have ie: "idle_entries heap cs = map ?e ?idle" by (rule idle_entries_eq [OF rc])
  let ?k = "length ?idle - n"
  define S where "S = set (map fst (take ?k (sort_key snd (map ?e ?idle))))"
  have "inj_on (\<lambda>c. rc_id (heap c)) (set ?idle)" using inj by (rule inj_on_subset) auto
  then have dist: "distinct (map fst (map ?e ?idle))" using d by (simp add: distinct_map comp_def)
  note sp = sorted_prefix_split [OF dist S_def]
  have goal: "length (filter (\<lambda>c. is_idle (heap c)) kept) \<le> n \<and>
     (\<forall>x \<in> set removed. is_idle (heap x) \<and> length (filter (\<lambda>c. is_idle (heap c)) kept) = n \<and>
       (\<forall>y \<in> set kept. is_idle (heap y) \<longrightarrow>
          the (cs_idle_since (rc_state (heap x))) \<le> the (cs_idle_since (rc_state (heap y)))))"
    using e
  proof (cases rule: enforce_max_idle_cases)
    case 1
    then show ?thesis using n ie by simp
  next
    case 2
    have rt: "kept = filter (\<lambda>c. rc_id (heap c) \<notin> S) cs" "removed = filter (\<lambda>c. rc_id (heap c) \<in> S) cs"
      using 2(2) d ie by (simp_all add: retain_closing_eq S_def)
    have idle_kept: "filter (\<lambda>c. is_idle (heap c)) kept = filter (\<lambda>c. rc_id (heap c) \<notin> S) ?idle"
      by (simp add: rt conj_commute)
    have len: "length (filter (\<lambda>c. is_idle (heap c)) kept) = n"
      using sp(3) 2(1) ie by (simp add: idle_kept filter_map comp_def)
    have x: "is_idle (heap x) \<and> ?e x \<in> set (take ?k (sort_key snd (map ?e ?idle)))" if "x \<in> set removed" for x
    proof -
      have xs: "x \<in> set cs" "rc_id (heap x) \<in> S" using that rt by auto
      then obtain z where z: "z \<in> set ?idle" "rc_id (heap z) = rc_id (heap x)"
        using sp(1) by (auto simp: S_def dest!: in_set_takeD)
      then have "z = x" using inj_onD [OF inj, of z x] xs by auto
      then show ?thesis using z sp(1) xs by (auto simp: set_eq_iff)
    qed
    have y: "?e y \<in> set (drop ?k (sort_key snd (map ?e ?idle)))" if "y \<in> set kept" "is_idle (heap y)" for y
      using that rt sp(2) by (auto simp: set_eq_iff)
    have "the (cs_idle_since (rc_state (heap u))) \<le> the (cs_idle_since (rc_state (heap v)))"
      if "u \<in> set removed" "v \<in> set kept" "is_idle (heap v)" for u v
      using sort_key_take_drop_le [OF conjunct2 [OF x [OF that(1)]] y [OF that(2,3)]] by simp
    then show ?thesis using len x by simp
  qed
  then show "length (filter (\<lambda>c. is_idle (heap c)) kept) \<le> n"
    "x \<in> set removed \<Longrightarrow> is_idle (heap x) \<and> length (filter (\<lambda>c. is_idle (heap c)) kept) = n"
    "x \<in> set removed \<Longrightarrow> y \<in> set kept \<Longrightarrow> is_idle (heap y) \<Longrightarrow>
       the (cs_idle_since (rc_state (heap x))) \<le> the (cs_idle_since (rc_state (heap y)))"
    by auto
qed

section \<open>A concrete pool\<close>

definition ex_conn :: "u64 \<Rightarrow> instant \<Rightarrow> RealConnection" where
  "ex_conn cid now =
     real_connection_with_stream_cap now cid (route_direct (ex_address ''a.t'') (SockV4 1 443))
       ConnHttp2 None [''*.t''] 2"

definition ex_settings :: PoolSettings where
  "ex_settings = \<lparr>ps_idle_timeout = Some 100, ps_max_idle_per_address = 1, ps_max_lifetime = None\<rparr>"

definition ex_pool :: ConnectionPool where
  "ex_pool =
     pool_insert (\<lambda>_. 0) 4 0
       (set_eviction_hook (pool_new ex_settings (\<lambda>c. ex_conn (c + 7) (3 * c))))"

lemmas ex_defs = ex_pool_def ex_settings_def ex_conn_def ex_address_def route_direct_def
  real_connection_with_stream_cap_def

lemmas pool_eval = pool_insert_def pool_shard_def put_shard_def prune_in_shard_def prune_nth_shard_def
  prune_address_def prune_connections_def enforce_max_idle_connections_def idle_entries_def
  List.map_filter_simps rc_snapshot_def allocation_state_def prune_keeps_def is_in_use_def
  rc_is_healthy_def rc_is_closed_def idle_connection_expired_def connection_lifetime_expired_def
  elapsed_def finish_removals_def notify_evictions_def index_coalescing_def coalescing_index_target_def
  connection_allows_h2_coalescing_def remove_index_connection_def put_bucket_def pool_new_def
  set_eviction_hook_def address_shard_def ADDRESS_SHARDS_def pool_bucket_def Let_def USIZE_MAX_def
  rc_close_def

lemma ex_pool_bucket: "pool_bucket (\<lambda>_. 0) ex_pool a = (if a = ex_address ''a.t'' then [0] else [])"
  by (simp add: ex_defs pool_eval)

lemma ex_pool_pooled: "pooled (\<lambda>_. 0) ex_pool = {0}"
  by (auto simp: pooled_def ex_pool_bucket)

lemma ex_pool_new_pooled:
  "pooled fx (set_eviction_hook (pool_new ex_settings heap)) = {}"
  by (simp add: pooled_def pool_bucket_def pool_shard_def set_eviction_hook_def pool_new_def)

lemma ex_pool_insertable:
  "insertable (\<lambda>_. 0) (set_eviction_hook (pool_new ex_settings (\<lambda>c. ex_conn (c + 7) (3 * c)))) 0"
  by (simp add: insertable_def ex_pool_new_pooled)
     (simp add: set_eviction_hook_def pool_new_def ex_conn_def)

lemma ex_pool_inv: "pool_inv (\<lambda>_. 0) ex_pool"
proof -
  have "pool_inv (\<lambda>_. 0) (set_eviction_hook (pool_new ex_settings (\<lambda>c. ex_conn (c + 7) (3 * c))))"
    using pool_inv_new [of "\<lambda>_. 0" ex_settings "\<lambda>c. ex_conn (c + 7) (3 * c)"]
    by (simp add: set_eviction_hook_def pool_inv_def pre_inv_def index_inv_def index_bucket_def)
  then show ?thesis unfolding ex_pool_def using ex_pool_insertable by (intro pool_insert_inv)
qed

lemma ex_pool_heap: "cpl_heap ex_pool = (\<lambda>c. ex_conn (c + 7) (3 * c))"
  by (simp add: ex_defs pool_eval)

lemma ex_pool_settings: "cpl_settings ex_pool = ex_settings" "cpl_eviction_hook ex_pool"
  "cpl_hook_calls ex_pool = []"
  by (simp_all add: ex_defs pool_eval)

lemma ex_conn_simps [simp]: "rc_inv (ex_conn i t)" "rc_id (ex_conn i t) = i"
  by (simp add: ex_conn_def) (simp add: ex_conn_def real_connection_with_stream_cap_def)

text \<open>The first connection is checked out, a second one inserted, and the first given back.\<close>

definition ex_busy :: ConnectionPool where
  "ex_busy = ex_pool\<lparr>cpl_heap := (cpl_heap ex_pool)(0 := conn_apply EvAcquire (cpl_heap ex_pool 0))\<rparr>"

definition ex_two :: ConnectionPool where
  "ex_two =
     (let p = pool_insert (\<lambda>_. 0) 6 1 ex_busy
      in p\<lparr>cpl_heap := (cpl_heap p)(0 := conn_apply (EvRelease 9) (cpl_heap p 0))\<rparr>)"

lemma ex_busy_insertable: "insertable (\<lambda>_. 0) ex_busy 1"
  by (simp add: insertable_def ex_busy_def ex_pool_pooled ex_pool_heap
      rc_fixed_eqD(1) [OF rc_fixed_ops(1)])

lemma ex_two_inv: "pool_inv (\<lambda>_. 0) ex_two"
proof -
  have "pool_inv (\<lambda>_. 0) ex_busy" unfolding ex_busy_def
    using ex_pool_inv rc_fixed_apply rc_inv_apply by (intro pool_inv_heap_upd) auto
  then have "pool_inv (\<lambda>_. 0) (pool_insert (\<lambda>_. 0) 6 1 ex_busy)"
    using ex_busy_insertable by (rule pool_insert_inv)
  then show ?thesis unfolding ex_two_def Let_def
    using rc_fixed_apply rc_inv_apply by (intro pool_inv_heap_upd) auto
qed

lemmas ex_two_eval = ex_two_def ex_busy_def ex_defs pool_eval rc_try_acquire_def can_acquire_with_def
  rc_release_def

section \<open>Properties\<close>

text \<open>
  C2.  Every pool reachable from a new one, by any interleaving of pool operations, creations of
  connections and state changes made by the other owners of a connection, satisfies the invariant:
  each shard holds only addresses that hash to it, each bucket holds distinct connections of its
  own address in a legal allocation state, connection ids are unique, the id map holds exactly the
  pooled connections, and the coalescing index holds exactly the pooled direct HTTPS HTTP/2
  connections under their socket address.  \<open>hs\<close> and \<open>ko\<close> are the iteration orders of the hash
  containers.
\<close>

theorem pool_reachable_inv:
  assumes "(pool_step fx hs ko)\<^sup>*\<^sup>* (pool_new settings heap) p"
    and "\<forall>xs. set (hs xs) = set xs" and "\<forall>st. set (ko st) \<subseteq> dom st"
  shows "pool_inv fx p"
  using assms(1)
proof (induction rule: rtranclp_induct)
  case base
  show ?case by (rule pool_inv_new)
next
  case (step q r)
  then show ?case using assms(2,3) by (intro pool_step_inv [of fx hs ko q r])
qed

theorem pool_reachable_inv_witness:
  "pool_inv (\<lambda>_. 0) ex_pool \<and> pooled (\<lambda>_. 0) ex_pool = {0}"
proof -
  let ?p0 = "pool_new ex_settings (\<lambda>c. ex_conn (c + 7) (3 * c))"
  have "(pool_step (\<lambda>_. 0) (\<lambda>xs. xs) (\<lambda>_. []))\<^sup>*\<^sup>* ?p0 ex_pool"
    unfolding ex_pool_def
    using step_hook step_insert [OF ex_pool_insertable]
    by (meson rtranclp.rtrancl_refl rtranclp.rtrancl_into_rtrancl)
  then have "pool_inv (\<lambda>_. 0) ex_pool" by (rule pool_reachable_inv) simp_all
  then show ?thesis using ex_pool_pooled by simp
qed

text \<open>
  Acquiring for an address returns only a connection of that address that was pooled, healthy,
  neither over its idle timeout nor over its lifetime, and with a free stream; it takes exactly one
  allocation on it, staying within the capacity of its protocol, and touches no connection that
  stays pooled.  It returns nothing only when no connection left in the bucket can be acquired.
\<close>

theorem pool_acquire_correct:
  assumes inv: "pool_inv fx p" and acq: "pool_acquire fx now a p = (p', result)"
  shows "case result of
           Some c \<Rightarrow>
             c \<in> set (pool_bucket fx p a) \<and> rc_address (cpl_heap p c) = a \<and>
             rc_is_healthy (cpl_heap p c) \<and> prune_keeps (cpl_settings p) now (cpl_heap p c) \<and>
             cs_allocations (rc_state (cpl_heap p' c)) = cs_allocations (rc_state (cpl_heap p c)) + 1 \<and>
             cs_allocations (rc_state (cpl_heap p' c)) \<le> rc_capacity (cpl_heap p c) \<and>
             (\<forall>d \<in> pooled fx p' - {c}. cpl_heap p' d = cpl_heap p d)
         | None \<Rightarrow> \<forall>c \<in> set (pool_bucket fx p' a). \<not> rc_can_acquire (cpl_heap p' c)"
proof -
  obtain p1 removed where pr: "prune_in_shard fx now a p = (p1, removed)" by fastforce
  obtain h r where f: "find_try_acquire (cpl_heap p1) (pool_bucket fx p1 a) = (h, r)" by fastforce
  have eq: "p' = finish_removals removed (p1\<lparr>cpl_heap := h\<rparr>)" "result = r"
    using acq pr f by (simp_all add: pool_acquire_def)
  note ev = prune_in_shard_evicts [OF inv pr]
  note keep = prune_nth_shard_open [OF pool_invD(1,2) [OF inv] pr [unfolded prune_in_shard_def]]
  have unch: "cpl_heap p1 d = cpl_heap p d" if "d \<in> pooled fx p1" for d
    using that ev(1) evicts_pooled [OF ev(1)] by (simp add: evicts_def close_all_def)
  from find_try_acquire_cases [OF f] show ?thesis
  proof (elim disjE exE conjE)
    fix xs c ys
    assume c: "pool_bucket fx p1 a = xs @ c # ys" "r = Some c" "rc_can_acquire (cpl_heap p1 c)"
      "h = (cpl_heap p1)(c := snd (rc_try_acquire (cpl_heap p1 c)))"
    have mem: "c \<in> set (pool_bucket fx p1 a)" using c(1) by simp
    have "c \<in> set (pool_bucket fx p a)" using mem ev(1) by (simp add: evicts_def)
    moreover have "rc_is_healthy (cpl_heap p c)"
      "cs_allocations (rc_state (cpl_heap p c)) < rc_capacity (cpl_heap p c)"
      using c(3) keep(2) [OF mem] by (simp_all add: rc_can_acquire_iff)
    ultimately show ?thesis
      using c keep [OF mem] unch buckets_okD(2) [OF pool_invD(2) [OF inv], of c a]
        rc_try_acquire_allocations [of "cpl_heap p c"] by (simp add: eq)
  qed (simp add: eq)
qed

theorem pool_acquire_correct_witness:
  "snd (pool_acquire (\<lambda>_. 0) 6 (ex_address ''a.t'') ex_pool) = Some 0 \<and>
   cs_allocations (rc_state (cpl_heap (fst (pool_acquire (\<lambda>_. 0) 6 (ex_address ''a.t'') ex_pool)) 0)) = 1"
proof -
  have "snd (pool_acquire (\<lambda>_. 0) 6 (ex_address ''a.t'') ex_pool) = Some 0"
    by (simp add: pool_acquire_def ex_defs pool_eval rc_try_acquire_def can_acquire_with_def)
  then show ?thesis
    using pool_acquire_correct [OF ex_pool_inv surjective_pairing, of 6 "ex_address ''a.t''"]
    by (simp add: ex_pool_heap) (simp add: ex_conn_def real_connection_with_stream_cap_def)
qed

text \<open>
  After pruning an address, at most \<open>max_idle_per_address\<close> of its connections are idle.  A
  connection that is evicted although it is healthy and unexpired was idle, was evicted because the
  limit was reached, and had been idle at least as long as every idle connection that was kept.
\<close>

theorem prune_max_idle:
  assumes inv: "pool_inv fx p" and n: "ps_max_idle_per_address (cpl_settings p) \<noteq> USIZE_MAX"
    and pr: "prune_in_shard fx now a p = (p1, removed)"
  shows "length (filter (\<lambda>c. is_idle (cpl_heap p c)) (pool_bucket fx p1 a))
           \<le> ps_max_idle_per_address (cpl_settings p) \<and>
         (\<forall>x \<in> set removed. prune_keeps (cpl_settings p) now (cpl_heap p x) \<longrightarrow>
            is_idle (cpl_heap p x) \<and>
            length (filter (\<lambda>c. is_idle (cpl_heap p c)) (pool_bucket fx p1 a))
              = ps_max_idle_per_address (cpl_settings p) \<and>
            (\<forall>y \<in> set (pool_bucket fx p1 a). is_idle (cpl_heap p y) \<longrightarrow>
               the (cs_idle_since (rc_state (cpl_heap p x)))
                 \<le> the (cs_idle_since (rc_state (cpl_heap p y)))))"
proof -
  define cs where "cs = pool_bucket fx p a"
  define heap where "heap = cpl_heap p"
  define s where "s = cpl_settings p"
  let ?keep = "\<lambda>c. prune_keeps s now (heap c)"
  let ?h1 = "close_all {c \<in> set cs. \<not> ?keep c} heap"
  have d: "distinct cs" unfolding cs_def by (rule buckets_okD(1) [OF pool_invD(2) [OF inv]])
  obtain h where "prune_connections s now heap cs = (h, pool_bucket fx p1 a, removed)"
    using prune_nth_shard_bucket [OF pool_invD(1) [OF inv] pr [unfolded prune_in_shard_def]]
    by (auto simp: cs_def heap_def s_def)
  then obtain rem2 where e: "enforce_max_idle_connections (ps_max_idle_per_address s) ?h1
        (filter ?keep cs) = (h, pool_bucket fx p1 a, rem2)"
    and r: "removed = filter (\<lambda>c. \<not> ?keep c) cs @ rem2"
    using d by (auto simp: prune_connections_def retain_closing_eq split: prod.splits)
  have same: "?h1 c = heap c" if "c \<in> set (filter ?keep cs)" for c using that by (simp add: close_all_def)
  have cs: "set (filter ?keep cs) \<subseteq> pooled fx p" by (auto simp: cs_def intro: pooledI)
  have inj: "inj_on (\<lambda>c. rc_id (?h1 c)) (set (filter ?keep cs))"
    using inj_on_subset [OF index_invD(1) [OF pool_invD(3) [OF inv]] cs]
    by (simp only: rc_fixed_eqD(1) [OF close_all_fixed]) (simp only: heap_def)
  have rc: "\<forall>c \<in> set (filter ?keep cs). rc_inv (?h1 c)"
    using same pooled_rc_inv [OF pool_invD(2) [OF inv]] cs by (auto simp: heap_def)
  have sub: "set (pool_bucket fx p1 a) \<subseteq> set (filter ?keep cs)" "set rem2 \<subseteq> set (filter ?keep cs)"
    using enforce_max_idle_spec(2,3) [OF distinct_filter [OF d] e] by auto
  note b = enforce_max_idle_bound [OF distinct_filter [OF d] inj rc n [folded s_def] e]
  have flt: "filter (\<lambda>c. is_idle (?h1 c)) (pool_bucket fx p1 a) = filter (\<lambda>c. is_idle (heap c)) (pool_bucket fx p1 a)"
    using same sub(1) by (intro filter_cong) auto
  have rem: "x \<in> set rem2" if "x \<in> set removed" "?keep x" for x using that r by auto
  show ?thesis
    unfolding heap_def [symmetric] s_def [symmetric]
    using b(1) b(2,3) [OF rem] same sub rem unfolding flt
    by (auto simp: subset_iff)
qed

theorem prune_max_idle_witness:
  "snd (prune_in_shard (\<lambda>_. 0) 10 (ex_address ''a.t'') ex_two) = [1] \<and>
   length (filter (\<lambda>c. is_idle (cpl_heap ex_two c))
     (pool_bucket (\<lambda>_. 0) (fst (prune_in_shard (\<lambda>_. 0) 10 (ex_address ''a.t'') ex_two)) (ex_address ''a.t''))) \<le> 1"
proof -
  have "snd (prune_in_shard (\<lambda>_. 0) 10 (ex_address ''a.t'') ex_two) = [1]"
    by (simp add: ex_two_eval)
  moreover have "ps_max_idle_per_address (cpl_settings ex_two) = 1"
    by (simp add: ex_two_eval)
  ultimately show ?thesis
    using prune_max_idle [OF ex_two_inv _ surjective_pairing, of 10 "ex_address ''a.t''"]
    by (simp add: USIZE_MAX_def)
qed

lemma collect_bucket_sound:
  "c \<in> set (snd (collect_bucket heap a plan cs seen acc)) \<Longrightarrow>
     c \<in> set acc \<or> (c \<in> set cs \<and> can_coalesce (heap c) a plan)"
  by (induction cs arbitrary: seen acc) (fastforce simp: Let_def split: if_splits)+

lemma collect_candidates_sound:
  assumes "c \<in> set (snd (collect_candidates heap a plan ts index seen acc))"
  shows "c \<in> set acc \<or> can_coalesce (heap c) a plan \<and> (\<exists>t \<in> set ts. \<exists>b. index t = Some b \<and> c \<in> set b)"
  using assms
proof (induction ts arbitrary: index seen acc)
  case (Cons t ts)
  let ?i = "prune_coalescing_bucket heap t index"
  have pc: "?i u = Some b \<Longrightarrow> x \<in> set b \<Longrightarrow> \<exists>b'. index u = Some b' \<and> x \<in> set b'" for u b x
    by (auto simp: prune_coalescing_bucket_def put_bucket_def split: option.splits if_splits)
  obtain seen1 acc1 where cb: "(case ?i t of None \<Rightarrow> (seen, acc)
      | Some b \<Rightarrow> collect_bucket heap a plan b seen acc) = (seen1, acc1)" by (metis surj_pair)
  have "c \<in> set (snd (collect_candidates heap a plan ts ?i seen1 acc1))"
    using Cons.prems cb by (cases "?i t") (simp_all add: Let_def)
  from Cons.IH [OF this] consider "c \<in> set acc1"
    | "can_coalesce (heap c) a plan" "\<exists>t \<in> set ts. \<exists>b. ?i t = Some b \<and> c \<in> set b" by blast
  then show ?case
  proof cases
    case 1
    show ?thesis
    proof (cases "?i t")
      case (Some b)
      then have "c \<in> set acc \<or> (c \<in> set b \<and> can_coalesce (heap c) a plan)"
        using collect_bucket_sound [of c heap a plan b seen acc] 1 cb by simp
      then show ?thesis using pc [OF Some] by auto
    qed (use 1 cb in simp)
  next
    case 2
    then show ?thesis using pc by (meson list.set_intros(2))
  qed
qed simp

text \<open>
  C13.  A coalesced acquisition only returns a pooled connection that may carry the request: an
  unexpired healthy HTTP/2 connection, https and direct like the request, to the same port of a
  different authority, with a verified certificate name that covers the request's host, connected
  to a socket address the request's own route plan dials directly; it takes one stream on it.
\<close>

theorem acquire_coalesced_safe:
  assumes inv: "pool_inv fx p" and hs: "\<forall>xs. set (hs xs) = set xs"
    and acq: "acquire_coalesced fx hs now a plan p = (p', Some c)"
  shows "c \<in> pooled fx p \<and> rc_is_healthy (cpl_heap p c) \<and>
         prune_keeps (cpl_settings p) now (cpl_heap p c) \<and>
         rc_protocol (cpl_heap p c) = ConnHttp2 \<and>
         ad_scheme a = SchemeHttps \<and> ad_scheme (rc_address (cpl_heap p c)) = SchemeHttps \<and>
         ad_proxy a = None \<and> ad_proxy (rc_address (cpl_heap p c)) = None \<and>
         ak_port (ad_authority (rc_address (cpl_heap p c))) = ak_port (ad_authority a) \<and>
         ad_authority (rc_address (cpl_heap p c)) \<noteq> ad_authority a \<and>
         (\<exists>name \<in> set (rc_verified_server_names (cpl_heap p c)).
            verified_server_name_matches name (ak_host (ad_authority a))) \<and>
         (\<exists>target. rt_kind (rc_route (cpl_heap p c)) = DirectRoute target \<and>
            (\<exists>route \<in> set (rp_routes plan). rt_kind route = DirectRoute target)) \<and>
         cs_allocations (rc_state (cpl_heap p' c)) = cs_allocations (rc_state (cpl_heap p c)) + 1 \<and>
         cs_allocations (rc_state (cpl_heap p' c)) \<le> rc_max_http2_streams (cpl_heap p c)"
  using acquire_coalesced_shape [OF inv hs, of now a plan] unfolding acq fst_conv snd_conv
proof (elim disjE exE conjE)
  fix removed p1 h cands
  assume ev: "evicts fx p (set removed) p1" and inv1: "pool_inv fx (finish_removals removed p1)"
    and ra: "request_allows_h2_coalescing a"
    and cands: "cands = snd (collect_candidates (cpl_heap p1) a plan (direct_route_targets plan)
                 (cpl_coalesced_by_target (finish_removals removed p1)) {} [])"
    and f: "find_try_acquire (cpl_heap p1) cands = (h, Some c)"
    and kp: "\<forall>t \<in> set (direct_route_targets plan). \<forall>c \<in> set (index_bucket (finish_removals removed p1) t).
          prune_keeps (cpl_settings p) now (cpl_heap p c)"
    and p': "p' = (finish_removals removed p1)\<lparr>cpl_heap := h\<rparr>"
  have c: "c \<in> set cands" "rc_can_acquire (cpl_heap p1 c)"
    "h c = snd (rc_try_acquire (cpl_heap p1 c))"
    using find_try_acquire_cases [OF f] by auto
  obtain t where t: "can_coalesce (cpl_heap p1 c) a plan" "t \<in> set (direct_route_targets plan)"
      "c \<in> set (index_bucket (finish_removals removed p1) t)"
    using collect_candidates_sound [OF c(1) [unfolded cands]] by (auto simp: index_bucket_def)
  have "c \<in> pooled fx p1"
    using index_invD(4) [OF pool_invD(3) [OF inv1], of t] t(3) by auto
  then have pool: "c \<in> pooled fx p" "cpl_heap p1 c = cpl_heap p c"
    using evicts_pooled [OF ev] ev by (auto simp: evicts_def close_all_def)
  show ?thesis
    using pool t kp c(2,3) ra rc_try_acquire_allocations [of "cpl_heap p c"]
    by (auto simp: p' can_coalesce_def rc_can_acquire_iff rc_capacity_def route_overlap_def
        request_allows_h2_coalescing_def connection_allows_h2_coalescing_def
        split: if_splits RouteKind.splits)
qed simp

definition ex_plan :: RoutePlan where
  "ex_plan = \<lparr>rp_routes = [route_direct (ex_address ''b.t'') (SockV4 1 443)],
              rp_fast_fallback_stagger = 0\<rparr>"

theorem acquire_coalesced_safe_witness:
  "snd (acquire_coalesced (\<lambda>_. 0) (\<lambda>xs. xs) 5 (ex_address ''b.t'') ex_plan ex_pool) = Some 0 \<and>
   ad_authority (rc_address (cpl_heap ex_pool 0)) \<noteq> ad_authority (ex_address ''b.t'')"
proof -
  let ?r = "acquire_coalesced (\<lambda>_. 0) (\<lambda>xs. xs) 5 (ex_address ''b.t'') ex_plan ex_pool"
  have r: "snd ?r = Some 0"
    by (simp add: acquire_coalesced_def request_allows_h2_coalescing_def direct_route_targets_def
        prune_coalescing_bucket_def can_coalesce_def route_overlap_def verified_server_name_matches_def
        strip_prefix_def strip_suffix_def rc_try_acquire_def can_acquire_with_def ex_plan_def ex_defs pool_eval)
  then have "?r = (fst ?r, Some 0)" by (metis surjective_pairing)
  from acquire_coalesced_safe [OF ex_pool_inv _ this] r show ?thesis by simp
qed










lemma prune_shards_keeps:
  assumes "shards_ok fx p" "buckets_ok fx p" "distinct is"
    and "\<forall>i \<in> set is. set (ko (cpl_shards p ! i)) = dom (cpl_shards p ! i)"
    and "\<forall>i \<in> set is. i < ADDRESS_SHARDS" and "prune_shards ko now is p = (p', removed)"
    and "i \<in> set is" "address_shard fx a = i" "c \<in> set (pool_bucket fx p' a)"
  shows "prune_keeps (cpl_settings p) now (cpl_heap p c)"
  using assms
proof (induction "is" arbitrary: p removed)
  case (Cons j "is")
  obtain p1 r1 r2 where 1: "prune_each now (map (Pair j) (ko (cpl_shards p ! j))) p = (p1, r1)"
    and 2: "prune_shards ko now is p1 = (p', r2)"
    using Cons.prems(6) by (auto split: prod.splits)
  have "b \<in> dom (cpl_shards p ! j) \<Longrightarrow> j = address_shard fx b" for b
    using shards_okD(2) [OF Cons.prems(1)] Cons.prems(5) by fastforce
  then have keys: "\<forall>(k, b) \<in> set (map (Pair j) (ko (cpl_shards p ! j))). k = address_shard fx b"
    using Cons.prems(4) by auto
  have e1: "evicts fx p (set r1) p1" using prune_each_evicts [OF Cons.prems(1,2) keys 1] by simp
  have ok1: "shards_ok fx p1" "buckets_ok fx p1"
    using e1 evicts_buckets_ok [OF e1 Cons.prems(2)] by (simp_all add: evicts_def)
  have shards: "cpl_shards p1 ! k = cpl_shards p ! k" if "k \<in> set is" for k
    using prune_each_other_shards [OF 1, of k] that Cons.prems(3) by (cases "k = j") auto
  have e2: "evicts fx p1 (set r2) p'"
    using prune_shards_evicts [OF ok1 _ _ _ 2] Cons.prems(3-5) shards by simp
  have c1: "c \<in> set (pool_bucket fx p1 a)" "c \<in> set (pool_bucket fx p a)"
    using Cons.prems(9) e1 e2 by (simp_all add: evicts_def)
  have same: "cpl_heap p1 c = cpl_heap p c" "cpl_settings p1 = cpl_settings p"
    using c1(1) e1 by (simp_all add: evicts_def close_all_def)
  show ?case
  proof (cases "i = j")
    case True
    then have "a \<in> dom (cpl_shards p ! j)"
      using c1(2) Cons.prems(8)
      by (cases "(cpl_shards p ! j) a") (auto simp: pool_bucket_def pool_shard_def)
    then have "(j, a) \<in> set (map (Pair j) (ko (cpl_shards p ! j)))" using Cons.prems(4) by simp
    with prune_each_open [OF Cons.prems(1,2) keys 1] c1(1) show ?thesis by blast
  next
    case False
    then have "prune_keeps (cpl_settings p1) now (cpl_heap p1 c)"
      using Cons.prems(3-5,7-9) shards by (intro Cons.IH [OF ok1 _ _ _ 2]) simp_all
    then show ?thesis using same by simp
  qed
qed simp

text \<open>
  After the reaper has run over all shards, no pooled connection is over its idle timeout or
  its lifetime while idle, and none is unhealthy without a live exchange.  \<open>ko\<close> enumerates the keys
  of the pool's shards.
\<close>

theorem prune_all_complete:
  assumes inv: "pool_inv fx p"
    and ko: "\<forall>i < ADDRESS_SHARDS. set (ko (cpl_shards p ! i)) = dom (cpl_shards p ! i)"
    and c: "c \<in> pooled fx (prune_all ko now p)"
  shows "prune_keeps (cpl_settings p) now (cpl_heap (prune_all ko now p) c)"
proof -
  obtain p1 removed where ps: "prune_shards ko now [0..<length (cpl_shards p)] p = (p1, removed)"
    by fastforce
  have len: "length (cpl_shards p) = ADDRESS_SHARDS"
    by (rule shards_okD(1) [OF pool_invD(1) [OF inv]])
  have ev: "evicts fx p (set removed) p1"
    using prune_shards_evicts [OF pool_invD(1,2) [OF inv] _ _ _ ps] ko len by simp
  have eq: "prune_all ko now p = finish_removals removed p1" using ps by (simp add: prune_all_def)
  obtain a where a: "c \<in> set (pool_bucket fx p1 a)" using c by (auto simp: eq pooled_def)
  then have "cpl_heap p1 c = cpl_heap p c" using ev by (simp add: evicts_def close_all_def)
  moreover have "prune_keeps (cpl_settings p) now (cpl_heap p c)"
    using ko len by (intro prune_shards_keeps [OF pool_invD(1,2) [OF inv] _ _ _ ps _ refl a]) simp_all
  ultimately show ?thesis by (simp add: eq)
qed

lemma prune_shards_empty:
  "\<forall>i \<in> set is. ko (cpl_shards p ! i) = [] \<Longrightarrow> prune_shards ko now is p = (p, [])"
  by (induction "is") simp_all

theorem prune_all_complete_witness:
  "let ko = (\<lambda>st. if st (ex_address ''a.t'') = None then [] else [ex_address ''a.t'']);
       p = prune_all ko 50 ex_pool
   in pooled (\<lambda>_. 0) p = {0} \<and> prune_keeps ex_settings 50 (cpl_heap p 0)"
proof -
  define ko where "ko = (\<lambda>st :: PoolState. if st (ex_address ''a.t'') = None then [] else [ex_address ''a.t''])"
  have shards: "cpl_shards ex_pool = [ex_address ''a.t'' \<mapsto> [0]] # replicate 31 Map.empty"
    using replicate_Suc [of 31 "Map.empty :: PoolState"] by (simp add: ex_defs pool_eval)
  have law: "\<forall>i < ADDRESS_SHARDS. set (ko (cpl_shards ex_pool ! i)) = dom (cpl_shards ex_pool ! i)"
    by (auto simp: shards ko_def nth_Cons' ADDRESS_SHARDS_def)
  have first: "prune_nth_shard 50 0 (ex_address ''a.t'') ex_pool = (ex_pool, [])"
    by (simp add: ex_defs pool_eval)
  have "[0..<32] = 0 # [1..<32]" by (simp add: upt_rec [of 0])
  moreover have "ko (cpl_shards ex_pool ! 0) = [ex_address ''a.t'']" by (simp add: shards ko_def)
  moreover have "prune_shards ko 50 [1..<32] ex_pool = (ex_pool, [])"
    by (rule prune_shards_empty) (auto simp: shards ko_def nth_Cons')
  ultimately have "prune_shards ko 50 [0..<32] ex_pool = (ex_pool, [])" using first by simp
  then have "pooled (\<lambda>_. 0) (prune_all ko 50 ex_pool) = {0}"
    using ex_pool_pooled by (simp add: prune_all_def shards finish_removals_def)
  then show ?thesis
    using prune_all_complete [OF ex_pool_inv law, of 0 50] ex_pool_settings
    by (simp add: ko_def [symmetric] Let_def)
qed

end
