(* ===== verification/WS_Codec.thy ===== *)
theory WS_Codec
  imports Wire_Error
begin

text \<open>
  WebSocket messages, their validation, and the frame codec (\<^verbatim>\<open>openwire-core/src/websocket/message.rs\<close>,
  \<^verbatim>\<open>error.rs\<close>, \<^verbatim>\<open>engine.rs\<close>; \<^verbatim>\<open>openwire/src/websocket/native/{mask,codec}.rs\<close>).  Payloads are byte
  lists.  A Rust \<^verbatim>\<open>String\<close> in a frame is the list of its UTF-8 bytes; \<open>utf8_valid\<close> is the check of
  \<^verbatim>\<open>std::str::from_utf8\<close>.
\<close>

unbundle bit_operations_syntax

section \<open>Messages\<close>

datatype WebSocketEngineError =
    InvalidFrame string
  | InvalidUtf8
  | InvalidCloseCode u16
  | PayloadTooLarge usize usize
  | UnsupportedExtension string
  | EngineIo WireError

datatype EngineFrame =
    FText bytes
  | FBinary bytes
  | FPing bytes
  | FPong bytes
  | FClose u16 bytes

datatype Message =
    MText bytes
  | MBinary bytes
  | MPing bytes
  | MPong bytes
  | MClose u16 bytes

datatype MessageKind = KindText | KindBinary

definition MAX_CONTROL_FRAME_PAYLOAD_BYTES :: usize where
  "MAX_CONTROL_FRAME_PAYLOAD_BYTES = 125"

definition MAX_CLOSE_REASON_BYTES :: usize where
  "MAX_CLOSE_REASON_BYTES = 123"

definition CLOSE_NO_STATUS_CODE :: u16 where
  "CLOSE_NO_STATUS_CODE = 1005"

fun message_kind :: "Message \<Rightarrow> MessageKind option" where
  "message_kind (MText _) = Some KindText"
| "message_kind (MBinary _) = Some KindBinary"
| "message_kind _ = None"

fun message_payload_len :: "Message \<Rightarrow> usize" where
  "message_payload_len (MText s) = length s"
| "message_payload_len (MBinary b) = length b"
| "message_payload_len (MPing b) = length b"
| "message_payload_len (MPong b) = length b"
| "message_payload_len (MClose _ reason) = 2 + length reason"

fun frame_of_message :: "Message \<Rightarrow> EngineFrame" where
  "frame_of_message (MText s) = FText s"
| "frame_of_message (MBinary b) = FBinary b"
| "frame_of_message (MPing b) = FPing b"
| "frame_of_message (MPong b) = FPong b"
| "frame_of_message (MClose c r) = FClose c r"

fun message_of_frame :: "EngineFrame \<Rightarrow> Message" where
  "message_of_frame (FText s) = MText s"
| "message_of_frame (FBinary b) = MBinary b"
| "message_of_frame (FPing b) = MPing b"
| "message_of_frame (FPong b) = MPong b"
| "message_of_frame (FClose c r) = MClose c r"

definition close_code_is_valid :: "u16 \<Rightarrow> bool" where
  "close_code_is_valid code \<longleftrightarrow>
     (1000 \<le> code \<and> code \<le> 1003) \<or> (1007 \<le> code \<and> code \<le> 1014) \<or> (3000 \<le> code \<and> code \<le> 4999)"

definition validate_close_frame :: "u16 \<Rightarrow> bytes \<Rightarrow> (WebSocketEngineError, unit) result" where
  "validate_close_frame code reason =
     (if \<not> close_code_is_valid code then Inl (InvalidCloseCode code)
      else if length reason > MAX_CLOSE_REASON_BYTES
        then Inl (InvalidFrame ''close reason exceeds 123 bytes'')
      else Inr ())"

definition validate_control_payload_len :: "string \<Rightarrow> usize \<Rightarrow> (WebSocketEngineError, unit) result" where
  "validate_control_payload_len kind len =
     (if len > MAX_CONTROL_FRAME_PAYLOAD_BYTES
      then Inl (InvalidFrame (kind @ '' control frame exceeds 125 bytes'')) else Inr ())"

fun validate_outbound_message :: "Message \<Rightarrow> (WebSocketEngineError, unit) result" where
  "validate_outbound_message (MPing p) = validate_control_payload_len ''ping'' (length p)"
| "validate_outbound_message (MPong p) = validate_control_payload_len ''pong'' (length p)"
| "validate_outbound_message (MClose code reason) = validate_close_frame code reason"
| "validate_outbound_message (MText _) = Inr ()"
| "validate_outbound_message (MBinary _) = Inr ()"

fun validate_outbound_engine_frame :: "EngineFrame \<Rightarrow> (WebSocketEngineError, unit) result" where
  "validate_outbound_engine_frame (FPing p) = validate_control_payload_len ''ping'' (length p)"
| "validate_outbound_engine_frame (FPong p) = validate_control_payload_len ''pong'' (length p)"
| "validate_outbound_engine_frame (FClose code reason) =
     (if code = CLOSE_NO_STATUS_CODE \<and> reason = [] then Inr () else validate_close_frame code reason)"
| "validate_outbound_engine_frame (FText _) = Inr ()"
| "validate_outbound_engine_frame (FBinary _) = Inr ()"

section \<open>UTF-8\<close>

definition is_cont :: "byte \<Rightarrow> bool" where
  "is_cont b \<longleftrightarrow> 0x80 \<le> b \<and> b \<le> 0xBF"

fun utf8_valid :: "bytes \<Rightarrow> bool" where
  "utf8_valid [] = True"
| "utf8_valid (a # r) =
     (if a \<le> 0x7F then utf8_valid r
      else if 0xC2 \<le> a \<and> a \<le> 0xDF then
        (case r of b # r' \<Rightarrow> is_cont b \<and> utf8_valid r' | _ \<Rightarrow> False)
      else if 0xE0 \<le> a \<and> a \<le> 0xEF then
        (case r of
           b # c # r' \<Rightarrow>
             (if a = 0xE0 then 0xA0 \<le> b \<and> b \<le> 0xBF
              else if a = 0xED then 0x80 \<le> b \<and> b \<le> 0x9F else is_cont b)
             \<and> is_cont c \<and> utf8_valid r'
         | _ \<Rightarrow> False)
      else if 0xF0 \<le> a \<and> a \<le> 0xF4 then
        (case r of
           b # c # d # r' \<Rightarrow>
             (if a = 0xF0 then 0x90 \<le> b \<and> b \<le> 0xBF
              else if a = 0xF4 then 0x80 \<le> b \<and> b \<le> 0x8F else is_cont b)
             \<and> is_cont c \<and> is_cont d \<and> utf8_valid r'
         | _ \<Rightarrow> False)
      else False)"

section \<open>Big-endian integers\<close>

text \<open>\<^verbatim>\<open>to_be_bytes\<close> and \<^verbatim>\<open>from_be_bytes\<close> of a \<open>k\<close>-byte unsigned integer.\<close>

primrec be_bytes :: "nat \<Rightarrow> nat \<Rightarrow> bytes" where
  "be_bytes 0 n = []"
| "be_bytes (Suc k) n = be_bytes k (n div 256) @ [word_of_nat n]"

definition from_be_bytes :: "bytes \<Rightarrow> nat" where
  "from_be_bytes bs = foldl (\<lambda>acc b. acc * 256 + unat b) 0 bs"

section \<open>Masking\<close>

type_synonym mask_key = "byte \<times> byte \<times> byte \<times> byte"

fun key_bytes :: "mask_key \<Rightarrow> bytes" where
  "key_bytes (a, b, c, d) = [a, b, c, d]"

definition mask_in_place :: "bytes \<Rightarrow> mask_key \<Rightarrow> bytes" where
  "mask_in_place payload key =
     map (\<lambda>(index, b). b XOR (key_bytes key ! (index mod 4))) (List.enumerate 0 payload)"

section \<open>Frames\<close>

datatype Opcode = OpContinuation | OpText | OpBinary | OpClose | OpPing | OpPong

fun opcode_byte :: "Opcode \<Rightarrow> byte" where
  "opcode_byte OpContinuation = 0x0"
| "opcode_byte OpText = 0x1"
| "opcode_byte OpBinary = 0x2"
| "opcode_byte OpClose = 0x8"
| "opcode_byte OpPing = 0x9"
| "opcode_byte OpPong = 0xA"

definition opcode_from_byte :: "byte \<Rightarrow> Opcode option" where
  "opcode_from_byte b =
     (let x = b AND 0x0F in
      if x = 0x0 then Some OpContinuation
      else if x = 0x1 then Some OpText
      else if x = 0x2 then Some OpBinary
      else if x = 0x8 then Some OpClose
      else if x = 0x9 then Some OpPing
      else if x = 0xA then Some OpPong
      else None)"

fun is_control :: "Opcode \<Rightarrow> bool" where
  "is_control OpClose = True"
| "is_control OpPing = True"
| "is_control OpPong = True"
| "is_control _ = False"

record FrameHeader =
  fh_fin :: bool
  fh_opcode :: Opcode

record DecodedFrame =
  df_fin :: bool
  df_opcode :: Opcode
  df_payload :: bytes

definition encode_frame ::
  "bytes \<Rightarrow> FrameHeader \<Rightarrow> bytes \<Rightarrow> mask_key option \<Rightarrow> bytes" where
  "encode_frame out header payload mask_key =
     (let b0 = (if fh_fin header then 0x80 else 0x00) OR opcode_byte (fh_opcode header);
          mask_bit = (if mask_key \<noteq> None then 0x80 else 0x00) :: byte;
          len = length payload;
          len_bytes =
            (if len \<le> 125 then [mask_bit OR word_of_nat len]
             else if len \<le> 65535 then [mask_bit OR 126] @ be_bytes 2 len
             else [mask_bit OR 127] @ be_bytes 8 len)
      in out @ [b0] @ len_bytes @
         (case mask_key of
            Some key \<Rightarrow> key_bytes key @ mask_in_place payload key
          | None \<Rightarrow> payload))"

text \<open>
  The header and payload lengths of a frame; nothing when the length bytes have not all arrived.
\<close>

definition decode_lengths ::
  "byte \<Rightarrow> bytes \<Rightarrow> usize \<Rightarrow> (WebSocketEngineError, (usize \<times> usize) option) result" where
  "decode_lengths len_field buf max_frame_size =
     (if len_field \<le> 125 then Inr (Some (2, unat len_field))
      else if len_field = 126 then
        (if length buf < 4 then Inr None
         else let n = from_be_bytes (take 2 (drop 2 buf)) in
           if n \<le> 125 then Inl (InvalidFrame ''non-minimal payload length encoding'')
           else Inr (Some (4, n)))
      else
        (if length buf < 10 then Inr None
         else let n = from_be_bytes (take 8 (drop 2 buf)) in
           if n \<ge> 2 ^ 63 then Inl (InvalidFrame ''invalid 64-bit payload length'')
           else if n \<le> 65535 then Inl (InvalidFrame ''non-minimal payload length encoding'')
           else if n > USIZE_MAX then Inl (PayloadTooLarge max_frame_size USIZE_MAX)
           else Inr (Some (10, n))))"

text \<open>
  \<^verbatim>\<open>decode_frame\<close> returns nothing when the buffer is too short, else the frame and what is left of
  the buffer; on an error the buffer is not advanced.
\<close>

definition decode_frame ::
  "bytes \<Rightarrow> usize \<Rightarrow> (WebSocketEngineError, (DecodedFrame \<times> bytes) option) result" where
  "decode_frame buf max_frame_size =
     (if length buf < 2 then Inr None
      else
        let b0 = buf ! 0; b1 = buf ! 1; fin = (b0 AND 0x80 \<noteq> 0); rsv = b0 AND 0x70 in
        if rsv \<noteq> 0 then Inl (InvalidFrame ''reserved bits set'')
        else case opcode_from_byte b0 of
          None \<Rightarrow> Inl (InvalidFrame ''unknown opcode'')
        | Some opcode \<Rightarrow>
           if b1 AND 0x80 \<noteq> 0 then Inl (InvalidFrame ''server frames must not be masked'')
           else if is_control opcode \<and> \<not> fin then Inl (InvalidFrame ''fragmented control frame'')
           else case decode_lengths (b1 AND 0x7F) buf max_frame_size of
             Inl e \<Rightarrow> Inl e
           | Inr None \<Rightarrow> Inr None
           | Inr (Some (header_len, payload_len)) \<Rightarrow>
               if is_control opcode \<and> payload_len > 125
                 then Inl (InvalidFrame ''control frame > 125 bytes'')
               else if payload_len > max_frame_size
                 then Inl (PayloadTooLarge max_frame_size payload_len)
               else if length buf < header_len + payload_len then Inr None
               else Inr (Some (\<lparr>df_fin = fin, df_opcode = opcode,
                                df_payload = take payload_len (drop header_len buf)\<rparr>,
                               drop (header_len + payload_len) buf)))"

section \<open>Lemmas\<close>

lemma length_be_bytes [simp]: "length (be_bytes k n) = k"
  by (induction k arbitrary: n) simp_all

lemma from_be_bytes_snoc: "from_be_bytes (bs @ [b]) = from_be_bytes bs * 256 + unat b"
  by (simp add: from_be_bytes_def)

lemma from_be_be_bytes: "from_be_bytes (be_bytes k n) = n mod 256 ^ k"
proof (induction k arbitrary: n)
  case (Suc k)
  have "from_be_bytes (be_bytes (Suc k) n) = (n div 256) mod 256 ^ k * 256 + n mod 256"
    by (simp add: from_be_bytes_snoc Suc unat_of_nat)
  also have "\<dots> = n mod 256 ^ Suc k"
    by (simp add: mod_mult2_eq mult.commute)
  finally show ?case .
qed (simp add: from_be_bytes_def)

lemma from_be_bytes_less: "from_be_bytes bs < 256 ^ length bs"
proof (induction bs rule: rev_induct)
  case (snoc b bs)
  have "unat b < 256" using unsigned_less [of b] by simp
  then have "from_be_bytes bs * 256 + unat b < Suc (from_be_bytes bs) * 256" by simp
  also have "\<dots> \<le> 256 ^ length bs * 256" using snoc by (intro mult_le_mono1) simp
  finally show ?case by (simp add: from_be_bytes_snoc mult.commute)
qed (simp add: from_be_bytes_def)

lemma length_mask [simp]: "length (mask_in_place p key) = length p"
  by (simp add: mask_in_place_def)

lemma mask_nth: "i < length p \<Longrightarrow> mask_in_place p key ! i = p ! i XOR key_bytes key ! (i mod 4)"
  by (simp add: mask_in_place_def nth_enumerate_eq)

lemma mask_mask: "mask_in_place (mask_in_place p key) key = p"
  by (rule nth_equalityI) (simp_all add: mask_nth xor.assoc)

lemma opcode_from_b0:
  "opcode_from_byte ((if fin then 0x80 else 0) OR opcode_byte op) = Some op"
  "((if fin then 0x80 else 0) OR opcode_byte op) AND 0x70 = 0"
  "((if fin then 0x80 else 0) OR opcode_byte op) AND 0x80 \<noteq> 0 \<longleftrightarrow> fin"
  by (cases op; cases fin; simp add: opcode_from_byte_def)+

lemma small_len:
  assumes "n < 128"
  shows "(word_of_nat n :: byte) AND 0x80 = 0" "(word_of_nat n :: byte) AND 0x7F = word_of_nat n"
proof -
  let ?w = "word_of_nat n :: byte"
  have u: "unat ?w = n" using assms by (simp add: unat_of_nat)
  then have "take_bit 7 (unat ?w) = unat ?w" using assms by (simp add: take_bit_nat_eq_self)
  then have t: "take_bit 7 ?w = ?w" by (metis unsigned_take_bit_eq unsigned_word_eqI)
  have m: "(0x7F :: byte) = mask 7" by (simp add: mask_eq_exp_minus_1)
  show 2: "?w AND 0x7F = ?w" unfolding m take_bit_eq_mask [symmetric] by (rule t)
  have "?w AND 0x80 = (?w AND 0x7F) AND 0x80" by (simp only: 2)
  also have "\<dots> = 0" by (simp only: and.assoc) simp
  finally show "?w AND 0x80 = 0" .
qed

lemma unat_small_len: "n < 256 \<Longrightarrow> unat (word_of_nat n :: byte) = n"
  by (simp add: unat_of_nat)

text \<open>The parts of an unmasked frame on the wire.\<close>

definition len_bytes :: "nat \<Rightarrow> bytes" where
  "len_bytes n = (if n \<le> 125 then [word_of_nat n] else if n \<le> 65535 then 126 # be_bytes 2 n
                  else 127 # be_bytes 8 n)"

lemma encode_frame_unmasked:
  "encode_frame out hdr payload None =
     out @ ((if fh_fin hdr then 0x80 else 0) OR opcode_byte (fh_opcode hdr)) # len_bytes (length payload) @ payload"
  by (simp add: encode_frame_def len_bytes_def Let_def)

lemma len_bytes_field:
  assumes "n < 2 ^ 63"
  shows "\<exists>b bs. len_bytes n = b # bs \<and> b AND 0x80 = 0 \<and>
           decode_lengths (b AND 0x7F) (b0 # b # bs @ rest) mx = Inr (Some (2 + length bs, n))"
proof -
  consider "n \<le> 125" | "125 < n" "n \<le> 65535" | "65535 < n" by linarith
  then show ?thesis
  proof cases
    case 1
    have "(word_of_nat n :: byte) \<le> 125"
      using 1 by (simp add: word_le_nat_alt unat_of_nat)
    then show ?thesis using 1 small_len [of n] unat_small_len [of n]
      by (simp add: len_bytes_def decode_lengths_def)
  next
    case 2
    have "from_be_bytes (be_bytes 2 n) = n" using 2 by (simp add: from_be_be_bytes)
    then show ?thesis using 2
      by (simp add: len_bytes_def decode_lengths_def)
  next
    case 3
    have "from_be_bytes (be_bytes 8 n) = n" using assms by (simp add: from_be_be_bytes)
    then show ?thesis using 3 assms
      by (simp add: len_bytes_def decode_lengths_def USIZE_MAX_def Let_def)
  qed
qed

lemma decode_lengths_append:
  assumes "decode_lengths lf buf mx \<noteq> Inr None"
  shows "decode_lengths lf (buf @ ys) mx = decode_lengths lf buf mx"
proof -
  have "take 2 (drop 2 (buf @ ys)) = take 2 (drop 2 buf)" if "4 \<le> length buf"
    using that by simp
  moreover have "take 8 (drop 2 (buf @ ys)) = take 8 (drop 2 buf)" if "10 \<le> length buf"
    using that by simp
  ultimately show ?thesis using assms
    by (cases "lf \<le> 125"; cases "lf = 126")
       (auto simp: decode_lengths_def Let_def not_less split: if_splits)
qed

lemma decode_lengths_bounds:
  "decode_lengths lf buf mx = Inr (Some (hl, pl)) \<Longrightarrow> 2 \<le> hl"
  by (auto simp: decode_lengths_def Let_def split: if_splits)

text \<open>Case analysis of a decode whose buffer has at least the two fixed bytes.\<close>

lemma decode_frame_step:
  assumes "2 \<le> length buf"
  shows "decode_frame buf mx =
     (let b0 = buf ! 0; b1 = buf ! 1; fin = (b0 AND 0x80 \<noteq> 0) in
      if b0 AND 0x70 \<noteq> 0 then Inl (InvalidFrame ''reserved bits set'')
      else case opcode_from_byte b0 of
        None \<Rightarrow> Inl (InvalidFrame ''unknown opcode'')
      | Some opcode \<Rightarrow>
         if b1 AND 0x80 \<noteq> 0 then Inl (InvalidFrame ''server frames must not be masked'')
         else if is_control opcode \<and> \<not> fin then Inl (InvalidFrame ''fragmented control frame'')
         else case decode_lengths (b1 AND 0x7F) buf mx of
           Inl e \<Rightarrow> Inl e
         | Inr None \<Rightarrow> Inr None
         | Inr (Some (hl, pl)) \<Rightarrow>
             if is_control opcode \<and> pl > 125 then Inl (InvalidFrame ''control frame > 125 bytes'')
             else if pl > mx then Inl (PayloadTooLarge mx pl)
             else if length buf < hl + pl then Inr None
             else Inr (Some (\<lparr>df_fin = fin, df_opcode = opcode, df_payload = take pl (drop hl buf)\<rparr>,
                             drop (hl + pl) buf)))"
  using assms by (simp add: decode_frame_def Let_def)

lemma decode_frame_append:
  assumes "decode_frame buf mx \<noteq> Inr None"
  shows "decode_frame (buf @ ys) mx =
           (case decode_frame buf mx of
              Inr (Some (f, rest)) \<Rightarrow> Inr (Some (f, rest @ ys)) | r \<Rightarrow> r)"
proof -
  have len: "2 \<le> length buf" using assms by (auto simp: decode_frame_def split: if_splits)
  then have nth: "(buf @ ys) ! 0 = buf ! 0" "(buf @ ys) ! 1 = buf ! 1" by (auto simp: nth_append)
  note steps = decode_frame_step [OF len] decode_frame_step [of "buf @ ys" mx, unfolded nth]
  show ?thesis
  proof (cases "decode_lengths (buf ! 1 AND 0x7F) buf mx")
    case (Inl e)
    then show ?thesis using steps len decode_lengths_append [of "buf ! 1 AND 0x7F" buf mx ys]
      by (auto simp: Let_def split: option.splits)
  next
    case (Inr r)
    show ?thesis
    proof (cases r)
      case None
      then show ?thesis using steps len assms Inr by (auto simp: Let_def split: option.splits if_splits)
    next
      case (Some hp)
      then have "decode_lengths (buf ! 1 AND 0x7F) (buf @ ys) mx = Inr (Some hp)"
        using decode_lengths_append [of "buf ! 1 AND 0x7F" buf mx ys] Inr by simp
      then show ?thesis using steps len assms Inr Some
        by (cases hp) (auto simp: Let_def split: option.splits if_splits)
    qed
  qed
qed

lemma decode_frame_shrinks:
  "decode_frame buf mx = Inr (Some (f, rest)) \<Longrightarrow> length rest + 2 \<le> length buf"
  using decode_lengths_bounds
  by (fastforce simp: decode_frame_def Let_def split: if_splits option.splits sum.splits prod.splits)

lemma decode_frame_payload:
  "decode_frame buf mx = Inr (Some (f, rest)) \<Longrightarrow>
     length (df_payload f) \<le> mx \<and>
     (is_control (df_opcode f) \<longrightarrow> df_fin f \<and> length (df_payload f) \<le> 125)"
  by (auto simp: decode_frame_def Let_def split: if_splits option.splits sum.splits prod.splits)

end
