(* ===== verification/WS_Roundtrip.thy ===== *)
theory WS_Roundtrip
  imports WS_Codec
begin

text \<open>
  The properties of the frame codec: encoding and decoding are inverse in both directions, and the
  frames a client sends are the ones a peer that follows RFC 6455 reads.
\<close>

section \<open>Specification\<close>

text \<open>
  What a server does with a client frame (RFC 6455, section 5.2): the mask bit must be set, the
  four key bytes follow the length, and the payload is unmasked with them.
\<close>

definition server_decode :: "bytes \<Rightarrow> (FrameHeader \<times> bytes \<times> bytes) option" where
  "server_decode buf =
     (if length buf < 2 \<or> buf ! 0 AND 0x70 \<noteq> 0 \<or> buf ! 1 AND 0x80 = 0 then None
      else case (opcode_from_byte (buf ! 0), decode_lengths (buf ! 1 AND 0x7F) buf USIZE_MAX) of
        (Some op, Inr (Some (hl, pl))) \<Rightarrow>
          (case drop hl buf of
             a # b # c # d # body \<Rightarrow>
               if length body < pl then None
               else Some (\<lparr>fh_fin = (buf ! 0 AND 0x80 \<noteq> 0), fh_opcode = op\<rparr>,
                          mask_in_place (take pl body) (a, b, c, d), drop pl body)
           | _ \<Rightarrow> None)
      | _ \<Rightarrow> None)"

section \<open>Lemmas\<close>

lemma be_bytes_from_be: "be_bytes (length bs) (from_be_bytes bs) = bs"
proof (induction bs rule: rev_induct)
  case (snoc b bs)
  have u: "unat b < 256" using unsigned_less [of b] by simp
  have "unat (word_of_nat (from_be_bytes bs * 256 + unat b) :: byte)
        = (from_be_bytes bs * 256 + unat b) mod 2 ^ LENGTH(8)" by (rule unat_of_nat)
  also have "\<dots> = unat b" using u by simp
  finally have "(word_of_nat (from_be_bytes bs * 256 + unat b) :: byte) = b"
    by (rule iffD2 [OF word_unat_eq_iff])
  moreover have "(from_be_bytes bs * 256 + unat b) div 256 = from_be_bytes bs" using u by simp
  ultimately show ?case using snoc by (simp add: from_be_bytes_snoc)
qed (simp add: from_be_bytes_def)

lemma and_all_ones [simp]: "(b :: byte) AND 0xFF = b"
proof -
  have "(0xFF :: byte) = - 1" by simp
  then show ?thesis by (simp only: and.right_neutral)
qed

lemma byte_split: "(b :: byte) = b AND 0x80 OR b AND 0x7F"
proof -
  have "b = b AND (0x80 OR 0x7F)" by simp
  then show ?thesis by (simp only: bit.conj_disj_distrib)
qed

lemma b0_parts:
  assumes "(b :: byte) AND 0x70 = 0" "opcode_from_byte b = Some op"
  shows "b = (if b AND 0x80 \<noteq> 0 then 0x80 else 0) OR opcode_byte op"
proof -
  have op: "opcode_byte op = b AND 0x0F"
    using assms(2) by (auto simp: opcode_from_byte_def Let_def split: if_splits)
  have hi: "b AND 0x80 = (if b AND 0x80 \<noteq> 0 then 0x80 else 0)"
  proof (cases "b AND 0x80 = 0")
    case False
    have "(b AND 0x80) = (if bit b 7 then 0x80 else 0)"
    proof (rule bit_word_eqI)
      fix n
      have "(0x80 :: byte) = 2 ^ 7" by simp
      then have "bit (0x80 :: byte) n \<longleftrightarrow> n = 7 \<and> n < 8" by (simp only: bit_exp_iff) auto
      then show "bit (b AND 0x80) n = bit (if bit b 7 then 0x80 else 0 :: byte) n"
        by (auto simp: bit_and_iff)
    qed
    then show ?thesis using False by (auto split: if_splits)
  qed simp
  have "b = b AND (0x80 OR 0x70 OR 0x0F)" by simp
  also have "\<dots> = (b AND 0x80) OR (b AND 0x70) OR (b AND 0x0F)"
    by (simp only: bit.conj_disj_distrib or.assoc)
  also have "\<dots> = (b AND 0x80) OR opcode_byte op" using assms(1) op by simp
  finally show ?thesis using hi by simp
qed

lemma decode_lengths_len_bytes:
  assumes "decode_lengths b1 (b0 # b1 # bs) mx = Inr (Some (hl, pl))"
    and "b1 AND 0x80 = 0"
  shows "take hl (b0 # b1 # bs) = b0 # len_bytes pl"
proof -
  consider "b1 \<le> 125" "hl = 2" "pl = unat b1"
    | "b1 = 126" "2 \<le> length bs" "hl = 4" "pl = from_be_bytes (take 2 bs)" "125 < pl"
    | "b1 \<noteq> 126" "\<not> b1 \<le> 125" "8 \<le> length bs" "hl = 10" "pl = from_be_bytes (take 8 bs)" "65535 < pl"
    using assms(1) by (auto simp: decode_lengths_def Let_def split: if_splits)
  then show ?thesis
  proof cases
    case 1
    then have "unat b1 \<le> 125" by (simp add: word_le_nat_alt)
    then show ?thesis using 1 by (simp add: len_bytes_def)
  next
    case 2
    have "be_bytes 2 pl = take 2 bs" using be_bytes_from_be [of "take 2 bs"] 2 by simp
    moreover have "pl < 65536" using from_be_bytes_less [of "take 2 bs"] 2 by simp
    ultimately show ?thesis using 2 by (simp add: len_bytes_def)
  next
    case 3
    have "be_bytes 8 pl = take 8 bs" using be_bytes_from_be [of "take 8 bs"] 3 by simp
    moreover have "b1 = 127"
    proof -
      have "b1 = b1 AND 0x7F" using byte_split [of b1] assms(2) by simp
      then have "b1 \<le> 0x7F" using word_and_le1 [of b1 "0x7F"] by simp
      then have "unat b1 \<le> 127" by (simp add: word_le_nat_alt)
      moreover have "unat b1 \<noteq> 126" "\<not> unat b1 \<le> 125" using 3 by (auto simp: word_le_nat_alt word_unat_eq_iff)
      ultimately show ?thesis by (simp add: word_unat_eq_iff)
    qed
    ultimately show ?thesis using 3 by (simp add: len_bytes_def)
  qed
qed

lemma mask_bit_or:
  assumes "(b :: byte) AND 0x80 = 0"
  shows "(0x80 OR b) AND 0x80 = 0x80" "(0x80 OR b) AND 0x7F = b AND 0x7F"
proof -
  show "(0x80 OR b) AND 0x80 = 0x80" by (simp add: bit.conj_disj_distrib2 assms)
  show "(0x80 OR b) AND 0x7F = b AND 0x7F" by (simp add: bit.conj_disj_distrib2)
qed

lemma decode_lengths_second:
  "decode_lengths lf (a # b # bs) mx = decode_lengths lf (a # c # bs) mx"
  by (simp add: decode_lengths_def)

lemma encode_frame_masked:
  "encode_frame out hdr payload (Some key) =
     out @ ((if fh_fin hdr then 0x80 else 0) OR opcode_byte (fh_opcode hdr))
       # (0x80 OR hd (len_bytes (length payload))) # tl (len_bytes (length payload))
       @ key_bytes key @ mask_in_place payload key"
  by (simp add: encode_frame_def len_bytes_def Let_def)

lemma decode_wire:
  assumes "length payload < 2 ^ 63" "length payload \<le> mx"
    and "is_control op \<longrightarrow> fin \<and> length payload \<le> 125"
  shows "decode_frame (encode_frame [] \<lparr>fh_fin = fin, fh_opcode = op\<rparr> payload None @ rest) mx =
         Inr (Some (\<lparr>df_fin = fin, df_opcode = op, df_payload = payload\<rparr>, rest))"
proof -
  let ?b0 = "(if fin then 0x80 else 0) OR opcode_byte op"
  obtain b bs where b: "len_bytes (length payload) = b # bs" "b AND 0x80 = 0"
    "decode_lengths (b AND 0x7F) (?b0 # b # bs @ payload @ rest) mx
       = Inr (Some (2 + length bs, length payload))"
    using len_bytes_field [OF assms(1), of ?b0 "payload @ rest" mx] by auto
  let ?buf = "?b0 # b # bs @ payload @ rest"
  have enc: "encode_frame [] \<lparr>fh_fin = fin, fh_opcode = op\<rparr> payload None @ rest = ?buf"
    by (simp add: encode_frame_unmasked b(1))
  have len: "2 \<le> length ?buf" by simp
  show ?thesis
    unfolding enc decode_frame_step [OF len] using b(2,3) assms(2,3) opcode_from_b0 [of fin op]
    by (auto simp: Let_def)
qed

lemma server_decode_wire:
  assumes "length payload < 2 ^ 63"
  shows "server_decode (encode_frame [] hdr payload (Some key) @ rest) = Some (hdr, payload, rest)"
proof -
  let ?b0 = "(if fh_fin hdr then 0x80 else 0) OR opcode_byte (fh_opcode hdr)"
  obtain k1 k2 k3 k4 where key: "key = (k1, k2, k3, k4)" by (cases key) auto
  let ?body = "key_bytes key @ mask_in_place payload key @ rest"
  obtain b bs where b: "len_bytes (length payload) = b # bs" "b AND 0x80 = 0"
    "decode_lengths (b AND 0x7F) (?b0 # b # bs @ ?body) USIZE_MAX
       = Inr (Some (2 + length bs, length payload))"
    using len_bytes_field [OF assms, of ?b0 ?body USIZE_MAX] by blast
  let ?buf = "?b0 # (0x80 OR b) # bs @ ?body"
  have enc: "encode_frame [] hdr payload (Some key) @ rest = ?buf"
    by (simp add: encode_frame_masked b(1))
  have lens: "decode_lengths ((0x80 OR b) AND 0x7F) ?buf USIZE_MAX
                = Inr (Some (2 + length bs, length payload))"
    unfolding mask_bit_or(2) [OF b(2)] decode_lengths_second [of _ _ "0x80 OR b" _ _ b] by (rule b(3))
  have body: "drop (2 + length bs) ?buf = k1 # k2 # k3 # k4 # mask_in_place payload key @ rest"
    by (simp add: key)
  show ?thesis
    unfolding enc server_decode_def
    using lens body opcode_from_b0 [of "fh_fin hdr" "fh_opcode hdr"] mask_bit_or(1) [OF b(2)]
    by (simp add: mask_mask key [symmetric])
qed

section \<open>Properties\<close>

text \<open>
  C17.  Every frame the codec can put on the wire unmasked is decoded back exactly, whatever bytes
  follow it, provided it fits the receiver's frame limit (and, for a control frame, that it is a
  legal one): the codec loses no frame and consumes no byte of the next.
\<close>

theorem decode_encode_frame:
  assumes "length payload < 2 ^ 63" "length payload \<le> mx"
    and "is_control op \<longrightarrow> fin \<and> length payload \<le> 125"
  shows "decode_frame (encode_frame [] \<lparr>fh_fin = fin, fh_opcode = op\<rparr> payload None @ rest) mx =
         Inr (Some (\<lparr>df_fin = fin, df_opcode = op, df_payload = payload\<rparr>, rest))"
  by (rule decode_wire [OF assms])

theorem decode_encode_frame_witness:
  "decode_frame (encode_frame [] \<lparr>fh_fin = True, fh_opcode = OpText\<rparr> [72, 105] None @ [9]) 10 =
     Inr (Some (\<lparr>df_fin = True, df_opcode = OpText, df_payload = [72, 105]\<rparr>, [9]))"
  using decode_encode_frame [of "[72, 105]" 10 OpText True "[9]"] by simp

text \<open>
  C18.  Decoding is unambiguous: a decoded frame re-encodes to exactly the bytes it was read from.
  In particular non-minimal lengths, reserved bits and masked frames are never accepted.
\<close>

theorem encode_decode_frame:
  assumes "decode_frame buf mx = Inr (Some (f, rest))"
  shows "buf = encode_frame [] \<lparr>fh_fin = df_fin f, fh_opcode = df_opcode f\<rparr> (df_payload f) None @ rest"
proof -
  have len: "2 \<le> length buf" using assms by (auto simp: decode_frame_def split: if_splits)
  then obtain b0 b1 tl' where buf: "buf = b0 # b1 # tl'"
    by (metis Suc_le_length_iff numeral_2_eq_2)
  obtain op hl pl where op: "opcode_from_byte b0 = Some op" and rsv: "b0 AND 0x70 = 0"
    and mask: "b1 AND 0x80 = 0" and lens: "decode_lengths (b1 AND 0x7F) buf mx = Inr (Some (hl, pl))"
    and fit: "hl + pl \<le> length buf"
    and f: "f = \<lparr>df_fin = (b0 AND 0x80 \<noteq> 0), df_opcode = op, df_payload = take pl (drop hl buf)\<rparr>"
    and rest: "rest = drop (hl + pl) buf"
    using assms [unfolded decode_frame_step [OF len]] unfolding buf
    by (auto simp: Let_def not_less split: if_splits option.splits sum.splits prod.splits)
  have b1: "b1 AND 0x7F = b1" using byte_split [of b1] mask by simp
  have pl: "length (take pl (drop hl buf)) = pl" using fit by simp
  have lb: "take hl buf = b0 # len_bytes pl"
    unfolding buf by (rule decode_lengths_len_bytes [OF lens [unfolded b1 buf] mask])
  have "buf = take hl buf @ take pl (drop hl buf) @ drop (hl + pl) buf"
    by (metis append_take_drop_id drop_drop add.commute)
  then show ?thesis
    unfolding encode_frame_unmasked f rest
    using lb b0_parts [OF rsv op] pl by simp
qed

theorem encode_decode_frame_witness:
  "[0x81, 2, 72, 105, 9] = encode_frame [] \<lparr>fh_fin = True, fh_opcode = OpText\<rparr> [72, 105] None @ [9 :: byte]"
  using encode_decode_frame [of "[0x81, 2, 72, 105, 9]" 10
      "\<lparr>df_fin = True, df_opcode = OpText, df_payload = [72, 105]\<rparr>" "[9]"]
  by (simp add: decode_frame_def decode_lengths_def opcode_from_byte_def Let_def)

text \<open>
  A peer that follows RFC 6455 reads every masked client frame back exactly, whatever the
  mask key and whatever follows.
\<close>

theorem server_decode_encode_frame:
  assumes "length payload < 2 ^ 63"
  shows "server_decode (encode_frame [] hdr payload (Some key) @ rest) = Some (hdr, payload, rest)"
  by (rule server_decode_wire [OF assms])

theorem server_decode_encode_frame_witness:
  "server_decode (encode_frame [] \<lparr>fh_fin = True, fh_opcode = OpText\<rparr> [72, 105] (Some (1, 2, 3, 4)) @ [9])
     = Some (\<lparr>fh_fin = True, fh_opcode = OpText\<rparr>, [72, 105], [9])"
  using server_decode_encode_frame [of "[72, 105]" "\<lparr>fh_fin = True, fh_opcode = OpText\<rparr>" "(1, 2, 3, 4)" "[9]"]
  by simp

end
