(* ===== verification/WS_Session.thy ===== *)
theory WS_Session
  imports WS_Codec
begin

text \<open>
  Reassembly of fragmented messages (\<^verbatim>\<open>openwire/src/websocket/native/session.rs\<close>).  Where the
  source has \<^verbatim>\<open>unreachable!\<close> or \<^verbatim>\<open>expect\<close> the model has the value \<^term>\<open>None\<close>: a result
  \<^term>\<open>Some (r, st)\<close> is a return of \<open>r\<close> with the updated state \<open>st\<close>, \<^term>\<open>None\<close> a panic.
\<close>

section \<open>Model\<close>

record InProgress =
  ip_opcode :: Opcode
  ip_buffer :: bytes

record ReassemblyState =
  rs_max_message_size :: usize
  rs_in_progress :: "InProgress option"

definition reassembly_new :: "usize \<Rightarrow> ReassemblyState" where
  "reassembly_new mx = \<lparr>rs_max_message_size = mx, rs_in_progress = None\<rparr>"

definition check_message_size :: "usize \<Rightarrow> usize \<Rightarrow> (WebSocketEngineError, unit) result" where
  "check_message_size max_message_size received =
     (if received > max_message_size then Inl (PayloadTooLarge max_message_size received) else Inr ())"

fun deliver_opcode :: "Opcode \<Rightarrow> bytes \<Rightarrow> (WebSocketEngineError, EngineFrame option) result option" where
  "deliver_opcode OpText payload =
     Some (if utf8_valid payload then Inr (Some (FText payload)) else Inl InvalidUtf8)"
| "deliver_opcode OpBinary payload = Some (Inr (Some (FBinary payload)))"
| "deliver_opcode _ payload = None"

definition deliver_single ::
  "ReassemblyState \<Rightarrow> Opcode \<Rightarrow> bytes \<Rightarrow> (WebSocketEngineError, EngineFrame option) result option" where
  "deliver_single st opcode payload =
     (case check_message_size (rs_max_message_size st) (length payload) of
        Inl e \<Rightarrow> Some (Inl e)
      | Inr _ \<Rightarrow> deliver_opcode opcode payload)"

fun parse_control :: "DecodedFrame \<Rightarrow> (WebSocketEngineError, EngineFrame) result option" where
  "parse_control f =
     (case df_opcode f of
        OpPing \<Rightarrow> Some (Inr (FPing (df_payload f)))
      | OpPong \<Rightarrow> Some (Inr (FPong (df_payload f)))
      | OpClose \<Rightarrow> Some
          (case df_payload f of
             [] \<Rightarrow> Inr (FClose 1005 [])
           | [_] \<Rightarrow> Inl (InvalidFrame ''close payload of length 1'')
           | a # b # reason \<Rightarrow>
               let code = word_of_nat (from_be_bytes [a, b]) in
               if \<not> close_code_is_valid code then Inl (InvalidCloseCode code)
               else if \<not> utf8_valid reason then Inl InvalidUtf8
               else Inr (FClose code reason))
      | _ \<Rightarrow> None)"

definition append_continuation ::
  "ReassemblyState \<Rightarrow> DecodedFrame \<Rightarrow>
     ((WebSocketEngineError, EngineFrame option) result \<times> ReassemblyState) option" where
  "append_continuation st frame =
     (case rs_in_progress st of
        None \<Rightarrow> None
      | Some state \<Rightarrow>
          (case checked_add USIZE_MAX (length (ip_buffer state)) (length (df_payload frame)) of
             None \<Rightarrow> Some (Inl (PayloadTooLarge (rs_max_message_size st) USIZE_MAX), st)
           | Some new_len \<Rightarrow>
               (case check_message_size (rs_max_message_size st) new_len of
                  Inl e \<Rightarrow> Some (Inl e, st)
                | Inr _ \<Rightarrow>
                    let buffer = ip_buffer state @ df_payload frame in
                    if df_fin frame then
                      (let st' = st\<lparr>rs_in_progress := None\<rparr> in
                       map_option (\<lambda>r. (r, st')) (deliver_single st' (ip_opcode state) buffer))
                    else Some (Inr None, st\<lparr>rs_in_progress := Some (state\<lparr>ip_buffer := buffer\<rparr>)\<rparr>))))"

definition feed ::
  "ReassemblyState \<Rightarrow> DecodedFrame \<Rightarrow>
     ((WebSocketEngineError, EngineFrame option) result \<times> ReassemblyState) option" where
  "feed st frame =
     (if is_control (df_opcode frame) then
        map_option (\<lambda>r. (case r of Inl e \<Rightarrow> Inl e | Inr f \<Rightarrow> Inr (Some f), st)) (parse_control frame)
      else case (df_opcode frame, rs_in_progress st \<noteq> None) of
        (OpContinuation, False) \<Rightarrow> Some (Inl (InvalidFrame ''orphan continuation frame''), st)
      | (OpContinuation, True) \<Rightarrow> append_continuation st frame
      | (op, in_progress) \<Rightarrow>
          if op \<noteq> OpText \<and> op \<noteq> OpBinary then None
          else if in_progress
            then Some (Inl (InvalidFrame ''nested data frame while reassembling''), st)
          else if df_fin frame
            then map_option (\<lambda>r. (r, st)) (deliver_single st op (df_payload frame))
          else (case check_message_size (rs_max_message_size st) (length (df_payload frame)) of
                  Inl e \<Rightarrow> Some (Inl e, st)
                | Inr _ \<Rightarrow> Some (Inr None, st\<lparr>rs_in_progress :=
                      Some \<lparr>ip_opcode = op, ip_buffer = df_payload frame\<rparr>\<rparr>)))"

definition end_of_stream :: "ReassemblyState \<Rightarrow> (WebSocketEngineError, unit) result" where
  "end_of_stream st =
     (if rs_in_progress st \<noteq> None then Inl (InvalidFrame ''incomplete fragmented message'') else Inr ())"

section \<open>Invariant\<close>

text \<open>
  A message being reassembled was started by a text or binary frame and holds no more bytes than
  the limit.
\<close>

definition reassembly_inv :: "ReassemblyState \<Rightarrow> bool" where
  "reassembly_inv st \<longleftrightarrow>
     (case rs_in_progress st of
        None \<Rightarrow> True
      | Some p \<Rightarrow> ip_opcode p \<in> {OpText, OpBinary} \<and> length (ip_buffer p) \<le> rs_max_message_size st)"

text \<open>What a frame handed to the application satisfies.\<close>

fun engine_frame_ok :: "usize \<Rightarrow> EngineFrame \<Rightarrow> bool" where
  "engine_frame_ok mx (FText s) = (utf8_valid s \<and> length s \<le> mx)"
| "engine_frame_ok mx (FBinary b) = (length b \<le> mx)"
| "engine_frame_ok mx (FClose code reason) =
     (utf8_valid reason \<and> (close_code_is_valid code \<or> code = CLOSE_NO_STATUS_CODE \<and> reason = []))"
| "engine_frame_ok mx (FPing _) = True"
| "engine_frame_ok mx (FPong _) = True"

section \<open>Lemmas\<close>

lemma reassembly_new_inv [simp]: "reassembly_inv (reassembly_new mx)"
  by (simp add: reassembly_inv_def reassembly_new_def)

lemma check_message_size_Inr [simp]:
  "check_message_size mx n = Inr u \<longleftrightarrow> n \<le> mx"
  "check_message_size mx n = Inl e \<longleftrightarrow> mx < n \<and> e = PayloadTooLarge mx n"
  by (auto simp: check_message_size_def)

lemma deliver_single_ok:
  assumes "op \<in> {OpText, OpBinary}"
  shows "\<exists>r. deliver_single st op payload = Some r \<and>
           (\<forall>f. r = Inr (Some f) \<longrightarrow> engine_frame_ok (rs_max_message_size st) f)"
  using assms by (cases "length payload \<le> rs_max_message_size st")
    (auto simp: deliver_single_def check_message_size_def)

lemma deliver_single_not_none:
  "op \<in> {OpText, OpBinary} \<Longrightarrow> deliver_single st op payload \<noteq> Some (Inr None)"
  by (auto simp: deliver_single_def split: sum.splits if_splits)

lemma parse_control_ok:
  assumes "is_control (df_opcode f)"
  shows "\<exists>r. parse_control f = Some r \<and> (\<forall>g. r = Inr g \<longrightarrow> engine_frame_ok mx g)"
proof (cases "df_opcode f")
  case OpClose
  then show ?thesis
    by (cases "df_payload f" rule: remdups_adj.cases) (auto simp: Let_def CLOSE_NO_STATUS_CODE_def)
qed (use assms in auto)

lemma feed_control:
  "is_control (df_opcode f) \<Longrightarrow>
     feed st f = map_option (\<lambda>r. (case r of Inl e \<Rightarrow> Inl e | Inr g \<Rightarrow> Inr (Some g), st)) (parse_control f)"
  by (simp add: feed_def)

lemma feed_data:
  "df_opcode f \<in> {OpText, OpBinary} \<Longrightarrow>
     feed st f =
       (if rs_in_progress st \<noteq> None
          then Some (Inl (InvalidFrame ''nested data frame while reassembling''), st)
        else if df_fin f then map_option (\<lambda>r. (r, st)) (deliver_single st (df_opcode f) (df_payload f))
        else if length (df_payload f) \<le> rs_max_message_size st
          then Some (Inr None, st\<lparr>rs_in_progress :=
                 Some \<lparr>ip_opcode = df_opcode f, ip_buffer = df_payload f\<rparr>\<rparr>)
        else Some (Inl (PayloadTooLarge (rs_max_message_size st) (length (df_payload f))), st))"
  by (auto simp: feed_def check_message_size_def split: option.splits)

lemma feed_continuation:
  assumes "df_opcode f = OpContinuation" "rs_in_progress st = Some p"
    "length (ip_buffer p @ df_payload f) \<le> USIZE_MAX"
  shows "feed st f =
     (if length (ip_buffer p @ df_payload f) \<le> rs_max_message_size st
      then if df_fin f
        then map_option (\<lambda>r. (r, st\<lparr>rs_in_progress := None\<rparr>))
               (deliver_single (st\<lparr>rs_in_progress := None\<rparr>) (ip_opcode p) (ip_buffer p @ df_payload f))
        else Some (Inr None, st\<lparr>rs_in_progress := Some (p\<lparr>ip_buffer := ip_buffer p @ df_payload f\<rparr>)\<rparr>)
      else Some (Inl (PayloadTooLarge (rs_max_message_size st) (length (ip_buffer p @ df_payload f))), st))"
  using assms by (simp add: feed_def append_continuation_def checked_add_def check_message_size_def Let_def)

lemma feed_continuation_reject:
  assumes "df_opcode f = OpContinuation"
  shows "rs_in_progress st = None \<Longrightarrow> feed st f = Some (Inl (InvalidFrame ''orphan continuation frame''), st)"
    and "rs_in_progress st = Some p \<Longrightarrow> USIZE_MAX < length (ip_buffer p @ df_payload f) \<Longrightarrow>
         feed st f = Some (Inl (PayloadTooLarge (rs_max_message_size st) USIZE_MAX), st)"
  using assms by (simp_all add: feed_def append_continuation_def checked_add_def)

lemma feed_cases:
  assumes "reassembly_inv st"
  obtains (control) r where "is_control (df_opcode f)" "parse_control f = Some r"
      "feed st f = Some (case r of Inl e \<Rightarrow> Inl e | Inr g \<Rightarrow> Inr (Some g), st)"
    | (reject) e where "\<not> is_control (df_opcode f)" "feed st f = Some (Inl e, st)"
    | (single) r where "df_opcode f \<in> {OpText, OpBinary}" "rs_in_progress st = None" "df_fin f"
        "deliver_single st (df_opcode f) (df_payload f) = Some r" "feed st f = Some (r, st)"
    | (first) "df_opcode f \<in> {OpText, OpBinary}" "rs_in_progress st = None" "\<not> df_fin f"
        "length (df_payload f) \<le> rs_max_message_size st"
        "feed st f = Some (Inr None, st\<lparr>rs_in_progress :=
            Some \<lparr>ip_opcode = df_opcode f, ip_buffer = df_payload f\<rparr>\<rparr>)"
    | (middle) p where "df_opcode f = OpContinuation" "rs_in_progress st = Some p" "\<not> df_fin f"
        "length (ip_buffer p @ df_payload f) \<le> rs_max_message_size st"
        "feed st f = Some (Inr None, st\<lparr>rs_in_progress := Some (p\<lparr>ip_buffer := ip_buffer p @ df_payload f\<rparr>)\<rparr>)"
    | (last) p r where "df_opcode f = OpContinuation" "rs_in_progress st = Some p" "df_fin f"
        "deliver_single (st\<lparr>rs_in_progress := None\<rparr>) (ip_opcode p) (ip_buffer p @ df_payload f) = Some r"
        "feed st f = Some (r, st\<lparr>rs_in_progress := None\<rparr>)"
proof -
  consider "is_control (df_opcode f)" | "df_opcode f \<in> {OpText, OpBinary}"
    | "df_opcode f = OpContinuation" "rs_in_progress st = None"
    | p where "df_opcode f = OpContinuation" "rs_in_progress st = Some p"
    by (cases "df_opcode f"; cases "rs_in_progress st") simp_all
  then show ?thesis
  proof cases
    case 1
    then obtain r where "parse_control f = Some r" using parse_control_ok by blast
    then show ?thesis using 1 control feed_control [OF 1] by simp
  next
    case 2
    note data = feed_data [OF 2]
    obtain r where r: "deliver_single st (df_opcode f) (df_payload f) = Some r"
      using deliver_single_ok [OF 2] by blast
    have nc: "\<not> is_control (df_opcode f)" using 2 by auto
    show ?thesis
    proof (cases "rs_in_progress st = None \<and> (df_fin f \<or> length (df_payload f) \<le> rs_max_message_size st)")
      case True
      then show ?thesis using 2 r data single first by (cases "df_fin f") simp_all
    next
      case False
      then show ?thesis using nc data reject by (cases "rs_in_progress st") simp_all
    qed
  next
    case 3
    then show ?thesis using feed_continuation_reject(1) [OF 3] reject by simp
  next
    case (4 p)
    then have op: "ip_opcode p \<in> {OpText, OpBinary}" using assms by (simp add: reassembly_inv_def)
    obtain r where r: "deliver_single (st\<lparr>rs_in_progress := None\<rparr>) (ip_opcode p) (ip_buffer p @ df_payload f) = Some r"
      using deliver_single_ok [OF op] by blast
    have nc: "\<not> is_control (df_opcode f)" using 4 by simp
    show ?thesis
    proof (cases "length (ip_buffer p @ df_payload f) \<le> USIZE_MAX")
      case True
      note cont = feed_continuation [OF 4 True]
      consider "\<not> length (ip_buffer p @ df_payload f) \<le> rs_max_message_size st"
        | "length (ip_buffer p @ df_payload f) \<le> rs_max_message_size st" "df_fin f"
        | "length (ip_buffer p @ df_payload f) \<le> rs_max_message_size st" "\<not> df_fin f" by blast
      then show ?thesis
      proof cases
        case 1
        show ?thesis by (rule reject [OF nc]) (simp only: cont 1 if_False)
      next
        case 2
        show ?thesis by (rule last [OF 4 2(2) r]) (simp only: cont 2 if_True r option.map)
      next
        case 3
        show ?thesis by (rule middle [OF 4 3(2,1)]) (simp only: cont 3 if_True if_False)
      qed
    next
      case False
      then have "USIZE_MAX < length (ip_buffer p @ df_payload f)" by linarith
      from feed_continuation_reject(2) [OF 4 this] show ?thesis by (rule reject [OF nc])
    qed
  qed
qed

text \<open>\<open>feed\<close> never panics, keeps the invariant and the limit, and hands out only good frames.\<close>

lemma feed_total:
  assumes "reassembly_inv st"
  shows "\<exists>r st'. feed st f = Some (r, st') \<and> reassembly_inv st' \<and>
           rs_max_message_size st' = rs_max_message_size st \<and>
           (\<forall>g. r = Inr (Some g) \<longrightarrow> engine_frame_ok (rs_max_message_size st) g)"
  using assms
proof (cases rule: feed_cases [of st f])
  case (control r)
  then show ?thesis using assms parse_control_ok [of f "rs_max_message_size st"] by (auto split: sum.splits)
next
  case (single r)
  then show ?thesis using assms deliver_single_ok [of "df_opcode f" st "df_payload f"] by auto
next
  case (middle p)
  then show ?thesis using assms by (auto simp: reassembly_inv_def)
next
  case (last p r)
  have "ip_opcode p \<in> {OpText, OpBinary}" using assms last(2) by (simp add: reassembly_inv_def)
  from deliver_single_ok [OF this, of "st\<lparr>rs_in_progress := None\<rparr>" "ip_buffer p @ df_payload f"]
  show ?thesis using last by (auto simp: reassembly_inv_def)
qed (use assms in \<open>auto simp: reassembly_inv_def\<close>)

end
