(* ===== verification/WS_Engine.thy ===== *)
theory WS_Engine
  imports WS_Session WS_Roundtrip
begin

text \<open>
  The native WebSocket engine (\<^verbatim>\<open>openwire/src/websocket/native/engine.rs\<close>): the receiving stream,
  the sending sink, and the upgrade.  The transport is a script of the answers it gives to the
  polls: what each \<^verbatim>\<open>poll_read\<close>, \<^verbatim>\<open>poll_write\<close> and \<^verbatim>\<open>poll_flush\<close> returns.  An exhausted script
  answers \<open>Pending\<close>.  \<^term>\<open>None\<close> is a panic, as in the theory of the session.
\<close>

section \<open>Model\<close>

datatype 'a poll = Pending | Ready 'a

datatype read_event = ReadPending | ReadOk bytes | ReadErr string

record NativeStream =
  ns_buf :: bytes
  ns_reassembly :: ReassemblyState
  ns_max_frame_size :: usize
  ns_done :: bool

definition native_stream_new :: "usize \<Rightarrow> usize \<Rightarrow> NativeStream" where
  "native_stream_new max_frame_size max_message_size =
     \<lparr>ns_buf = [], ns_reassembly = reassembly_new max_message_size,
      ns_max_frame_size = max_frame_size, ns_done = False\<rparr>"

fun poll_fill ::
  "NativeStream \<Rightarrow> read_event list \<Rightarrow>
     (WebSocketEngineError, bool) result poll \<times> NativeStream \<times> read_event list" where
  "poll_fill me [] = (Pending, me, [])"
| "poll_fill me (ReadPending # evs) = (Pending, me, evs)"
| "poll_fill me (ReadOk filled # evs) =
     (if filled = [] then (Ready (Inr True), me, evs)
      else (Ready (Inr False), me\<lparr>ns_buf := ns_buf me @ filled\<rparr>, evs))"
| "poll_fill me (ReadErr e # evs) =
     (Ready (Inl (EngineIo (with_source KProtocol ''websocket read failed'' e))), me, evs)"

lemma poll_fill_events: "(Ready (Inr False), me', evs') = poll_fill me evs \<Longrightarrow> length evs' < length evs"
  by (cases "(me, evs)" rule: poll_fill.cases) (auto split: if_splits)

type_synonym stream_item = "(WebSocketEngineError, EngineFrame) result"

function poll_next ::
  "NativeStream \<Rightarrow> read_event list \<Rightarrow> (stream_item option poll \<times> NativeStream \<times> read_event list) option" where
  "poll_next me evs =
     (if ns_done me then Some (Ready None, me, evs)
      else case decode_frame (ns_buf me) (ns_max_frame_size me) of
        Inl e \<Rightarrow> Some (Ready (Some (Inl e)), me\<lparr>ns_done := True\<rparr>, evs)
      | Inr (Some (frame, rest)) \<Rightarrow>
          (case feed (ns_reassembly me) frame of
             None \<Rightarrow> None
           | Some (r, st') \<Rightarrow>
               let me' = me\<lparr>ns_buf := rest, ns_reassembly := st'\<rparr> in
               (case r of
                  Inl e \<Rightarrow> Some (Ready (Some (Inl e)), me'\<lparr>ns_done := True\<rparr>, evs)
                | Inr (Some ef) \<Rightarrow>
                    Some (Ready (Some (Inr ef)), me'\<lparr>ns_done := (df_opcode frame = OpClose)\<rparr>, evs)
                | Inr None \<Rightarrow> poll_next me' evs))
      | Inr None \<Rightarrow>
          (case poll_fill me evs of
             (Pending, me', evs') \<Rightarrow> Some (Pending, me', evs')
           | (Ready (Inl e), me', evs') \<Rightarrow> Some (Ready (Some (Inl e)), me'\<lparr>ns_done := True\<rparr>, evs')
           | (Ready (Inr True), me', evs') \<Rightarrow>
               (let me2 = me'\<lparr>ns_done := True\<rparr> in
                if ns_buf me' \<noteq> []
                  then Some (Ready (Some (Inl (InvalidFrame ''truncated websocket frame''))), me2, evs')
                else case end_of_stream (ns_reassembly me') of
                  Inl e \<Rightarrow> Some (Ready (Some (Inl e)), me2, evs')
                | Inr _ \<Rightarrow> Some (Ready None, me2, evs'))
           | (Ready (Inr False), me', evs') \<Rightarrow> poll_next me' evs'))"
  by pat_completeness auto
termination
  by (relation "measures [\<lambda>(me, evs). length evs, \<lambda>(me, evs). length (ns_buf me)]")
     (auto dest: decode_frame_shrinks poll_fill_events)

declare poll_next.simps [simp del]

section \<open>Specification\<close>

text \<open>
  What a byte stream means as a whole: the items the application must see when the peer sends
  exactly these bytes and then ends the stream.  It does not know of reads, buffers or polls.
\<close>

function stream_items :: "usize \<Rightarrow> ReassemblyState \<Rightarrow> bytes \<Rightarrow> stream_item list" where
  "stream_items mx st bs =
     (case decode_frame bs mx of
        Inl e \<Rightarrow> [Inl e]
      | Inr None \<Rightarrow>
          if bs \<noteq> [] then [Inl (InvalidFrame ''truncated websocket frame'')]
          else (case end_of_stream st of Inl e \<Rightarrow> [Inl e] | Inr _ \<Rightarrow> [])
      | Inr (Some (f, rest)) \<Rightarrow>
          (case feed st f of
             None \<Rightarrow> []
           | Some (Inl e, st') \<Rightarrow> [Inl e]
           | Some (Inr (Some g), st') \<Rightarrow>
               Inr g # (if df_opcode f = OpClose then [] else stream_items mx st' rest)
           | Some (Inr None, st') \<Rightarrow> stream_items mx st' rest))"
  by pat_completeness auto
termination
  by (relation "measure (\<lambda>(mx, st, bs). length bs)") (auto dest: decode_frame_shrinks)

declare stream_items.simps [simp del]

section \<open>One poll\<close>

abbreviation stream_rel :: "((NativeStream \<times> read_event list) \<times> (NativeStream \<times> read_event list)) set" where
  "stream_rel \<equiv> measures [\<lambda>(me, evs). if ns_done me then 0 else 1, \<lambda>(me, evs). length evs,
                           \<lambda>(me, evs). length (ns_buf me)]"

lemma poll_next_done: "ns_done me \<Longrightarrow> poll_next me evs = Some (Ready None, me, evs)"
  by (subst poll_next.simps) simp

lemma poll_next_bad:
  "\<not> ns_done me \<Longrightarrow> decode_frame (ns_buf me) (ns_max_frame_size me) = Inl e \<Longrightarrow>
   poll_next me evs = Some (Ready (Some (Inl e)), me\<lparr>ns_done := True\<rparr>, evs)"
  by (subst poll_next.simps) simp

lemma poll_next_frame:
  assumes "\<not> ns_done me" "decode_frame (ns_buf me) (ns_max_frame_size me) = Inr (Some (frame, rest))"
    and "feed (ns_reassembly me) frame = Some (r, st')"
  shows "poll_next me evs =
     (case r of
        Inl e \<Rightarrow> Some (Ready (Some (Inl e)), me\<lparr>ns_buf := rest, ns_reassembly := st', ns_done := True\<rparr>, evs)
      | Inr (Some g) \<Rightarrow> Some (Ready (Some (Inr g)),
          me\<lparr>ns_buf := rest, ns_reassembly := st', ns_done := (df_opcode frame = OpClose)\<rparr>, evs)
      | Inr None \<Rightarrow> poll_next (me\<lparr>ns_buf := rest, ns_reassembly := st'\<rparr>) evs)"
  using assms by (subst poll_next.simps) (simp split: sum.split option.split)

lemma poll_next_fill:
  assumes "\<not> ns_done me" "decode_frame (ns_buf me) (ns_max_frame_size me) = Inr None"
  shows "poll_next me [] = Some (Pending, me, [])"
    and "poll_next me (ReadPending # evs) = Some (Pending, me, evs)"
    and "poll_next me (ReadErr e # evs) =
           Some (Ready (Some (Inl (EngineIo (with_source KProtocol ''websocket read failed'' e)))),
                 me\<lparr>ns_done := True\<rparr>, evs)"
    and "bs \<noteq> [] \<Longrightarrow> poll_next me (ReadOk bs # evs) = poll_next (me\<lparr>ns_buf := ns_buf me @ bs\<rparr>) evs"
    and "poll_next me (ReadOk [] # evs) =
           Some (Ready (if ns_buf me \<noteq> [] then Some (Inl (InvalidFrame ''truncated websocket frame''))
                        else case end_of_stream (ns_reassembly me) of
                          Inl e \<Rightarrow> Some (Inl e) | Inr _ \<Rightarrow> None), me\<lparr>ns_done := True\<rparr>, evs)"
  using assms by (subst poll_next.simps; simp split: sum.split)+

text \<open>The two recursive calls, as an induction rule, and the ways a poll can go.\<close>

lemma poll_next_induct [case_names step]:
  assumes "\<And>me evs.
      (\<And>frame rest st'. \<not> ns_done me \<Longrightarrow>
         decode_frame (ns_buf me) (ns_max_frame_size me) = Inr (Some (frame, rest)) \<Longrightarrow>
         feed (ns_reassembly me) frame = Some (Inr None, st') \<Longrightarrow>
         P (me\<lparr>ns_buf := rest, ns_reassembly := st'\<rparr>) evs) \<Longrightarrow>
      (\<And>bs evs'. \<not> ns_done me \<Longrightarrow>
         decode_frame (ns_buf me) (ns_max_frame_size me) = Inr None \<Longrightarrow>
         evs = ReadOk bs # evs' \<Longrightarrow> bs \<noteq> [] \<Longrightarrow> P (me\<lparr>ns_buf := ns_buf me @ bs\<rparr>) evs') \<Longrightarrow>
      P me evs"
  shows "P me evs"
proof (induction "(me, evs)" arbitrary: me evs
    rule: wf_induct_rule [OF wf_measures [of "[\<lambda>(me, evs). length evs, \<lambda>(me, evs). length (ns_buf me)]"]])
  case 1
  show ?case
  proof (rule assms)
    fix frame rest st'
    assume "decode_frame (ns_buf me) (ns_max_frame_size me) = Inr (Some (frame, rest))"
    then have "length rest < length (ns_buf me)" using decode_frame_shrinks by fastforce
    then show "P (me\<lparr>ns_buf := rest, ns_reassembly := st'\<rparr>) evs" by (intro 1) simp
  next
    fix bs evs'
    assume "evs = ReadOk bs # evs'"
    then show "P (me\<lparr>ns_buf := ns_buf me @ bs\<rparr>) evs'" by (intro 1) simp
  qed
qed

lemma poll_next_cases:
  obtains (finished) "ns_done me"
    | (bad) e where "\<not> ns_done me" "decode_frame (ns_buf me) (ns_max_frame_size me) = Inl e"
    | (panic) frame rest where "\<not> ns_done me"
        "decode_frame (ns_buf me) (ns_max_frame_size me) = Inr (Some (frame, rest))"
        "feed (ns_reassembly me) frame = None"
    | (frame) frame rest r st' where "\<not> ns_done me"
        "decode_frame (ns_buf me) (ns_max_frame_size me) = Inr (Some (frame, rest))"
        "feed (ns_reassembly me) frame = Some (r, st')"
    | (fill) bs evs' where "\<not> ns_done me"
        "decode_frame (ns_buf me) (ns_max_frame_size me) = Inr None"
        "evs = ReadOk bs # evs'" "bs \<noteq> []"
    | (idle) "\<not> ns_done me" "decode_frame (ns_buf me) (ns_max_frame_size me) = Inr None"
        "evs = [] \<or> (\<exists>evs'. evs = ReadPending # evs')"
    | (over) "\<not> ns_done me" "decode_frame (ns_buf me) (ns_max_frame_size me) = Inr None"
        "(\<exists>e evs'. evs = ReadErr e # evs') \<or> (\<exists>evs'. evs = ReadOk [] # evs')"
proof (cases "decode_frame (ns_buf me) (ns_max_frame_size me)")
  case (Inl e)
  then show thesis using finished bad by blast
next
  case (Inr x)
  show thesis
  proof (cases x)
    case None
    then show thesis using Inr finished fill idle over
      by (metis list.exhaust read_event.exhaust)
  next
    case (Some p)
    then show thesis using Inr finished panic frame
      by (cases p; cases "feed (ns_reassembly me) (fst p)") auto
  qed
qed

lemma poll_next_panic:
  "\<not> ns_done me \<Longrightarrow> decode_frame (ns_buf me) (ns_max_frame_size me) = Inr (Some (frame, rest)) \<Longrightarrow>
   feed (ns_reassembly me) frame = None \<Longrightarrow> poll_next me evs = None"
  by (subst poll_next.simps) simp

text \<open>Every poll makes progress.\<close>

lemma poll_next_progress:
  assumes "poll_next me evs = Some (r, me', evs')"
  shows "(r = Pending \<longrightarrow> evs' = [] \<or> ((me', evs'), (me, evs)) \<in> stream_rel) \<and>
         (\<forall>i. r = Ready (Some i) \<longrightarrow> ((me', evs'), (me, evs)) \<in> stream_rel)"
  using assms
proof (induction me evs rule: poll_next_induct)
  case (step me evs)
  show ?case
  proof (cases rule: poll_next_cases [where me = me and evs = evs])
    case finished
    then show ?thesis using step.prems by (auto simp: poll_next_done)
  next
    case (bad e)
    then show ?thesis using step.prems by (auto simp: poll_next_bad)
  next
    case (panic frame rest)
    then show ?thesis using step.prems by (auto simp: poll_next_panic)
  next
    case (frame frame rest q st')
    note eq = poll_next_frame [OF frame, of evs]
    have len: "length rest < length (ns_buf me)" using decode_frame_shrinks [OF frame(2)] by simp
    show ?thesis
    proof (cases "q = Inr None")
      case True
      have "poll_next (me\<lparr>ns_buf := rest, ns_reassembly := st'\<rparr>) evs = Some (r, me', evs')"
        using step.prems eq True by simp
      from step.IH(1) [OF frame(1,2) frame(3) [unfolded True] this]
      show ?thesis using len frame(1) by auto
    next
      case False
      then show ?thesis using step.prems eq frame(1) len by (auto split: sum.splits option.splits)
    qed
  next
    case (fill bs rest)
    have "poll_next (me\<lparr>ns_buf := ns_buf me @ bs\<rparr>) rest = Some (r, me', evs')"
      using step.prems poll_next_fill(4) [OF fill(1,2,4)] fill(3) by simp
    from step.IH(2) [OF fill this] show ?thesis using fill by auto
  next
    case idle
    then show ?thesis using step.prems poll_next_fill(1,2) [OF idle(1,2)] by auto
  next
    case over
    then show ?thesis using step.prems poll_next_fill(3,5) [OF over(1,2)] by (auto split: if_splits)
  qed
qed

section \<open>The application side\<close>

text \<open>
  Polling until the stream ends (\<open>Ready None\<close>) or the transport has nothing more to say: the items
  received, or \<^term>\<open>None\<close> when a poll panics.
\<close>

function poll_all :: "NativeStream \<Rightarrow> read_event list \<Rightarrow> stream_item list option" where
  "poll_all me evs =
     (case poll_next me evs of
        None \<Rightarrow> None
      | Some (Pending, me', evs') \<Rightarrow> if evs' = [] then Some [] else poll_all me' evs'
      | Some (Ready None, me', evs') \<Rightarrow> Some []
      | Some (Ready (Some i), me', evs') \<Rightarrow> map_option (Cons i) (poll_all me' evs'))"
  by pat_completeness auto
termination
proof (relation stream_rel)
  show "wf stream_rel" by (rule wf_measures)
qed (use poll_next_progress in fast)+

declare poll_all.simps [simp del]

text \<open>
  A transport that delivers bytes in chunks of any size, possibly pending in between, and then
  ends; and the bytes it delivers.
\<close>

fun live_script :: "read_event list \<Rightarrow> bool" where
  "live_script [] = False"
| "live_script (ReadPending # evs) = live_script evs"
| "live_script (ReadErr e # evs) = False"
| "live_script (ReadOk bs # evs) = (if bs = [] then evs = [] else live_script evs)"

fun script_bytes :: "read_event list \<Rightarrow> bytes" where
  "script_bytes [] = []"
| "script_bytes (ReadOk bs # evs) = bs @ script_bytes evs"
| "script_bytes (_ # evs) = script_bytes evs"

abbreviation remaining_items :: "NativeStream \<Rightarrow> read_event list \<Rightarrow> stream_item list" where
  "remaining_items me evs \<equiv>
     stream_items (ns_max_frame_size me) (ns_reassembly me) (ns_buf me @ script_bytes evs)"

text \<open>One poll delivers the next item of the specification, or none when there is none left.\<close>

definition poll_ok :: "NativeStream \<Rightarrow> read_event list \<Rightarrow>
    stream_item option poll \<times> NativeStream \<times> read_event list \<Rightarrow> bool" where
  "poll_ok me evs = (\<lambda>(r, me', evs').
     case r of
       Pending \<Rightarrow> \<not> ns_done me' \<and> live_script evs' \<and> reassembly_inv (ns_reassembly me') \<and>
                  remaining_items me evs = remaining_items me' evs'
     | Ready None \<Rightarrow> remaining_items me evs = []
     | Ready (Some i) \<Rightarrow>
         if ns_done me' then remaining_items me evs = [i]
         else live_script evs' \<and> reassembly_inv (ns_reassembly me') \<and>
              remaining_items me evs = i # remaining_items me' evs')"

lemma poll_ok_cong:
  "remaining_items me evs = remaining_items me2 evs2 \<Longrightarrow> poll_ok me evs = poll_ok me2 evs2"
  by (simp only: poll_ok_def)

lemma poll_next_stream:
  assumes "\<not> ns_done me" "live_script evs" "reassembly_inv (ns_reassembly me)"
  shows "\<exists>out. poll_next me evs = Some out \<and> poll_ok me evs out"
  using assms
proof (induction me evs rule: poll_next_induct)
  case (step me evs)
  let ?bs = "ns_buf me @ script_bytes evs" and ?mx = "ns_max_frame_size me"
  have app: "decode_frame (ns_buf me) ?mx \<noteq> Inr None \<Longrightarrow> decode_frame ?bs ?mx =
      (case decode_frame (ns_buf me) ?mx of
         Inr (Some (f, rest)) \<Rightarrow> Inr (Some (f, rest @ script_bytes evs)) | r \<Rightarrow> r)"
    by (rule decode_frame_append)
  show ?case
  proof (cases rule: poll_next_cases [where me = me and evs = evs])
    case finished
    then show ?thesis using step.prems by simp
  next
    case (bad e)
    then show ?thesis using app
      by (simp add: poll_next_bad poll_ok_def stream_items.simps [of _ _ ?bs])
  next
    case (panic frame rest)
    then show ?thesis using feed_total [OF step.prems(3)] by (metis option.distinct(1))
  next
    case (frame frame rest r st')
    have inv: "reassembly_inv st'" using feed_total [OF step.prems(3), of frame] frame(3) by auto
    have d: "decode_frame ?bs ?mx = Inr (Some (frame, rest @ script_bytes evs))"
      using app frame(2) by simp
    note eq = poll_next_frame [OF frame, of evs]
    show ?thesis
    proof (cases "r = Inr None")
      case True
      have "remaining_items me evs = remaining_items (me\<lparr>ns_buf := rest, ns_reassembly := st'\<rparr>) evs"
        using d frame(3) True by (simp add: stream_items.simps [of _ _ ?bs])
      from poll_ok_cong [OF this] show ?thesis
        using step.IH(1) [OF frame(1,2) frame(3) [unfolded True]] step.prems inv eq True
        by simp
    next
      case False
      then show ?thesis using eq d frame(3) step.prems inv
        by (auto simp: poll_ok_def stream_items.simps [of _ _ ?bs] split: sum.splits option.splits)
    qed
  next
    case (fill bs rest)
    have "remaining_items me evs = remaining_items (me\<lparr>ns_buf := ns_buf me @ bs\<rparr>) rest"
      using fill(3) by simp
    from poll_ok_cong [OF this] show ?thesis
      using step.IH(2) [OF fill] step.prems poll_next_fill(4) [OF fill(1,2,4), of rest] fill(3,4)
      by simp
  next
    case idle
    then show ?thesis using step.prems poll_next_fill(1,2) [OF idle(1,2)] by (auto simp: poll_ok_def)
  next
    case over
    then have "evs = [ReadOk []]" using step.prems by (auto split: if_splits)
    then show ?thesis using poll_next_fill(5) [OF over(1,2), of "[]"] over(2)
      by (auto simp: poll_ok_def stream_items.simps [of _ _ "ns_buf me"]
          stream_items.simps [of _ _ "[]"] split: sum.splits)
  qed
qed

lemma poll_all_stream:
  assumes "\<not> ns_done me" "live_script evs" "reassembly_inv (ns_reassembly me)"
  shows "poll_all me evs = Some (remaining_items me evs)"
  using assms
proof (induction me evs rule: poll_all.induct)
  case (1 me evs)
  obtain r me' evs' where p: "poll_next me evs = Some (r, me', evs')"
    and ok: "poll_ok me evs (r, me', evs')"
    using poll_next_stream [OF "1.prems"] by auto
  show ?case
  proof (cases r)
    case Pending
    have "evs' \<noteq> []" using ok Pending by (auto simp: poll_ok_def)
    then show ?thesis using p ok Pending "1.IH"(1) [OF p refl Pending refl] by (simp add: poll_ok_def poll_all.simps [of me])
  next
    case (Ready x)
    show ?thesis
    proof (cases x)
      case None
      then show ?thesis using p ok Ready by (simp add: poll_ok_def poll_all.simps [of me])
    next
      case (Some i)
      have "poll_all me' evs' = Some []" if "ns_done me'"
        using that by (simp add: poll_all.simps [of me'] poll_next_done)
      then show ?thesis using p ok Ready Some "1.IH"(2) [OF p refl Ready Some refl]
        by (auto simp: poll_ok_def poll_all.simps [of me] split: if_splits)
    qed
  qed
qed

text \<open>
  C11.  However the transport cuts the peer's bytes into reads, and however often it is not ready,
  the stream never panics and hands the application exactly the items the byte string means.
\<close>

theorem poll_all_chunking:
  assumes "live_script evs"
  shows "poll_all (native_stream_new max_frame max_msg) evs =
         Some (stream_items max_frame (reassembly_new max_msg) (script_bytes evs))"
  using poll_all_stream [OF _ assms, of "native_stream_new max_frame max_msg"]
  by (simp add: native_stream_new_def)

theorem poll_all_chunking_witness:
  "poll_all (native_stream_new 16 16) [ReadOk [0x81], ReadPending, ReadOk [2, 72], ReadOk [105], ReadOk []]
     = Some [Inr (FText [72, 105])]"
proof -
  have "stream_items 16 (reassembly_new 16) [0x81, 2, 72, 105] = [Inr (FText [72, 105])]"
    by (simp add: stream_items.simps [of _ _ "[_, _, _, _]"] stream_items.simps [of _ _ "[]"]
        decode_frame_def decode_lengths_def opcode_from_byte_def feed_data deliver_single_def
        check_message_size_def reassembly_new_def end_of_stream_def Let_def)
  then show ?thesis
    using poll_all_chunking [of "[ReadOk [0x81], ReadPending, ReadOk [2, 72], ReadOk [105], ReadOk []]" 16 16]
    by simp
qed

section \<open>Fragmented messages\<close>

text \<open>The bytes of a frame from the server, and the control items among the frames of a message.\<close>

definition wire_frame :: "DecodedFrame \<Rightarrow> bytes" where
  "wire_frame f = encode_frame [] \<lparr>fh_fin = df_fin f, fh_opcode = df_opcode f\<rparr> (df_payload f) None"

definition sendable :: "usize \<Rightarrow> DecodedFrame \<Rightarrow> bool" where
  "sendable mx f \<longleftrightarrow> length (df_payload f) < 2 ^ 63 \<and> length (df_payload f) \<le> mx \<and>
     (is_control (df_opcode f) \<longrightarrow> df_fin f \<and> length (df_payload f) \<le> 125)"

fun interleaved :: "DecodedFrame \<Rightarrow> bool" where
  "interleaved f \<longleftrightarrow> df_opcode f \<in> {OpPing, OpPong} \<or> df_opcode f = OpContinuation \<and> \<not> df_fin f"

fun control_items :: "DecodedFrame list \<Rightarrow> stream_item list" where
  "control_items [] = []"
| "control_items (f # fs) =
     (case df_opcode f of
        OpPing \<Rightarrow> Inr (FPing (df_payload f)) # control_items fs
      | OpPong \<Rightarrow> Inr (FPong (df_payload f)) # control_items fs
      | _ \<Rightarrow> control_items fs)"

fun data_bytes :: "DecodedFrame list \<Rightarrow> bytes" where
  "data_bytes [] = []"
| "data_bytes (f # fs) = (if is_control (df_opcode f) then [] else df_payload f) @ data_bytes fs"

lemma stream_items_frame:
  assumes "sendable mx f"
  shows "stream_items mx st (wire_frame f @ rest) =
     (case feed st f of
        None \<Rightarrow> []
      | Some (Inl e, st') \<Rightarrow> [Inl e]
      | Some (Inr (Some g), st') \<Rightarrow>
          Inr g # (if df_opcode f = OpClose then [] else stream_items mx st' rest)
      | Some (Inr None, st') \<Rightarrow> stream_items mx st' rest)"
proof -
  have "decode_frame (wire_frame f @ rest) mx = Inr (Some (f, rest))"
    using decode_wire [of "df_payload f" mx "df_opcode f" "df_fin f" rest] assms
    by (simp add: wire_frame_def sendable_def)
  then show ?thesis by (subst stream_items.simps) simp
qed

lemma stream_items_tail:
  assumes "rs_in_progress st = Some p" "\<forall>f \<in> set mids. interleaved f \<and> sendable mx f"
    and "length (ip_buffer p @ data_bytes (mids @ [l])) \<le> rs_max_message_size st"
    and "rs_max_message_size st \<le> USIZE_MAX"
    and "sendable mx l" "df_opcode l = OpContinuation" "df_fin l"
    and "ip_opcode p = OpText \<and> utf8_valid (ip_buffer p @ data_bytes (mids @ [l])) \<and>
           g = FText (ip_buffer p @ data_bytes (mids @ [l])) \<or>
         ip_opcode p = OpBinary \<and> g = FBinary (ip_buffer p @ data_bytes (mids @ [l]))"
  shows "stream_items mx st (concat (map wire_frame (mids @ [l])) @ rest) =
         control_items mids @ Inr g # stream_items mx (st\<lparr>rs_in_progress := None\<rparr>) rest"
  using assms
proof (induction mids arbitrary: st p)
  case Nil
  have "feed st l = Some (Inr (Some g), st\<lparr>rs_in_progress := None\<rparr>)"
    using Nil feed_continuation [of l st p]
    by (auto simp: deliver_single_def check_message_size_def)
  then show ?case using Nil stream_items_frame [of mx l st rest] by simp
next
  case (Cons f mids)
  let ?rest = "concat (map wire_frame (mids @ [l])) @ rest"
  have step: "stream_items mx st (concat (map wire_frame ((f # mids) @ [l])) @ rest) =
              stream_items mx st (wire_frame f @ ?rest)" by simp
  note items = stream_items_frame [of mx f st ?rest]
  show ?case
  proof (cases "is_control (df_opcode f)")
    case True
    then have "df_opcode f = OpPing \<or> df_opcode f = OpPong" using Cons.prems(2) by auto
    then show ?thesis
      unfolding step using items Cons.prems Cons.IH [OF Cons.prems(1)] by (auto simp: feed_control)
  next
    case False
    then have f: "df_opcode f = OpContinuation" "\<not> df_fin f" using Cons.prems(2) by auto
    let ?p = "p\<lparr>ip_buffer := ip_buffer p @ df_payload f\<rparr>"
    have "feed st f = Some (Inr None, st\<lparr>rs_in_progress := Some ?p\<rparr>)"
      using f Cons.prems feed_continuation [of f st p] by simp
    then show ?thesis
      unfolding step using items Cons.prems f Cons.IH [of "st\<lparr>rs_in_progress := Some ?p\<rparr>" ?p] by simp
  qed
qed

text \<open>
  C15.  A message the peer fragments in any way, with pings and pongs in between, is delivered whole:
  the control frames first, in order, then one message with the concatenated payload; and the stream
  goes on with what follows.
\<close>

theorem fragmented_message_delivered:
  assumes "df_opcode first = OpText \<or> df_opcode first = OpBinary" "\<not> df_fin first"
    and "\<forall>f \<in> set mids. interleaved f"
    and "df_opcode l = OpContinuation" "df_fin l"
    and "\<forall>f \<in> set (first # mids @ [l]). sendable max_frame f"
    and "length payload \<le> max_msg" "max_msg \<le> USIZE_MAX"
    and "payload = data_bytes (first # mids @ [l])"
    and "df_opcode first = OpText \<longrightarrow> utf8_valid payload"
  shows "stream_items max_frame (reassembly_new max_msg)
           (concat (map wire_frame (first # mids @ [l])) @ rest) =
         control_items mids @
         Inr (if df_opcode first = OpText then FText payload else FBinary payload) #
         stream_items max_frame (reassembly_new max_msg) rest"
proof -
  let ?st = "reassembly_new max_msg"
  let ?p = "\<lparr>ip_opcode = df_opcode first, ip_buffer = df_payload first\<rparr>"
  let ?st' = "?st\<lparr>rs_in_progress := Some ?p\<rparr>"
  have pl: "payload = df_payload first @ data_bytes (mids @ [l])" using assms(1,9) by auto
  have "feed ?st first = Some (Inr None, ?st')"
    using feed_data [of first ?st] assms(1,2,7) pl by (auto simp: reassembly_new_def)
  then have "stream_items max_frame ?st (concat (map wire_frame (first # mids @ [l])) @ rest) =
             stream_items max_frame ?st' (concat (map wire_frame (mids @ [l])) @ rest)"
    using stream_items_frame [of max_frame first ?st "concat (map wire_frame (mids @ [l])) @ rest"] assms(6)
    by simp
  also have "\<dots> = control_items mids @
      Inr (if df_opcode first = OpText then FText payload else FBinary payload) #
      stream_items max_frame (?st'\<lparr>rs_in_progress := None\<rparr>) rest"
    using assms pl by (intro stream_items_tail) (auto simp: reassembly_new_def)
  finally show ?thesis by (simp add: reassembly_new_def)
qed

theorem fragmented_message_delivered_witness:
  "stream_items 16 (reassembly_new 16) (concat (map wire_frame
       (\<lparr>df_fin = False, df_opcode = OpText, df_payload = [72]\<rparr> #
        [\<lparr>df_fin = True, df_opcode = OpPing, df_payload = [7]\<rparr>,
         \<lparr>df_fin = False, df_opcode = OpContinuation, df_payload = [105]\<rparr>] @
        [\<lparr>df_fin = True, df_opcode = OpContinuation, df_payload = [33]\<rparr>])) @ [])
     = [Inr (FPing [7]), Inr (FText [72, 105, 33])]"
  (is "?lhs = _")
proof -
  have "?lhs = control_items [\<lparr>df_fin = True, df_opcode = OpPing, df_payload = [7]\<rparr>,
                              \<lparr>df_fin = False, df_opcode = OpContinuation, df_payload = [105]\<rparr>] @
               Inr (if OpText = OpText then FText [72, 105, 33] else FBinary [72, 105, 33]) #
               stream_items 16 (reassembly_new 16) []"
    by (rule fragmented_message_delivered
          [of "\<lparr>df_fin = False, df_opcode = OpText, df_payload = [72]\<rparr>", simplified DecodedFrame.simps])
       (simp_all add: sendable_def USIZE_MAX_def)
  also have "stream_items 16 (reassembly_new 16) [] = []"
    by (simp add: stream_items.simps [of _ _ "[]"] decode_frame_def end_of_stream_def reassembly_new_def)
  finally show ?thesis by simp
qed

section \<open>What the application can rely on\<close>

fun items_ok :: "usize \<Rightarrow> stream_item list \<Rightarrow> bool" where
  "items_ok mx [] = True"
| "items_ok mx (Inl e # is) = (is = [])"
| "items_ok mx (Inr g # is) =
     (engine_frame_ok mx g \<and> items_ok mx is \<and> (case g of FClose c r \<Rightarrow> is = [] | _ \<Rightarrow> True))"

lemma feed_close:
  assumes "reassembly_inv st" "feed st f = Some (Inr (Some (FClose c r)), st')"
  shows "df_opcode f = OpClose"
  using assms(1)
proof (cases rule: feed_cases [of st f])
  case (control q)
  then show ?thesis using assms(2) by (cases "df_opcode f") auto
next
  case (single q)
  then show ?thesis using assms(2) by (auto simp: deliver_single_def split: sum.splits if_splits)
next
  case (last p q)
  moreover have "ip_opcode p \<in> {OpText, OpBinary}" using assms(1) last(2) by (simp add: reassembly_inv_def)
  ultimately show ?thesis using assms(2) by (auto simp: deliver_single_def split: sum.splits if_splits)
qed (use assms(2) in simp_all)

text \<open>
  C16.  Whatever the peer sends, every message handed to the application respects the message limit,
  text and close reasons are valid UTF-8 and close codes are legal; an error or a close frame is the
  last item.
\<close>

theorem stream_items_safe: "items_ok max_msg (stream_items max_frame (reassembly_new max_msg) bs)"
proof -
  have "items_ok (rs_max_message_size st) (stream_items mx st bs)" if "reassembly_inv st" for mx st bs
    using that
  proof (induction mx st bs rule: stream_items.induct)
    case (1 mx st bs)
    show ?case
    proof (cases "\<exists>f rest. decode_frame bs mx = Inr (Some (f, rest))")
      case False
      then show ?thesis by (subst stream_items.simps) (auto split: sum.splits option.splits)
    next
      case True
      then obtain f rest where d: "decode_frame bs mx = Inr (Some (f, rest))" by blast
      obtain r st' where fd: "feed st f = Some (r, st')" and inv: "reassembly_inv st'"
        and mx: "rs_max_message_size st' = rs_max_message_size st"
        and ok: "\<And>g. r = Inr (Some g) \<Longrightarrow> engine_frame_ok (rs_max_message_size st) g"
        using feed_total [OF "1.prems", of f] by auto
      show ?thesis
      proof (cases r)
        case (Inl e)
        then show ?thesis using d fd by (subst stream_items.simps) simp
      next
        case (Inr x)
        show ?thesis
        proof (cases x)
          case None
          then show ?thesis using d fd Inr mx "1.IH"(1) [OF d refl refl fd refl Inr None inv]
            by (subst stream_items.simps) simp
        next
          case (Some g)
          have "df_opcode f = OpClose" if "g = FClose c q" for c q
            using feed_close [OF "1.prems"] fd Inr Some that by blast
          moreover have "items_ok (rs_max_message_size st) (stream_items mx st' rest)" if "df_opcode f \<noteq> OpClose"
            using "1.IH"(2) [OF d refl refl fd refl Inr Some that inv] mx by simp
          ultimately show ?thesis using d fd Inr Some ok
            by (subst stream_items.simps) (auto split: EngineFrame.splits)
        qed
      qed
    qed
  qed
  from this [OF reassembly_new_inv [of max_msg]] show ?thesis by (simp add: reassembly_new_def)
qed

end
