(* ===== verification/WS_Sink.thy ===== *)
theory WS_Sink
  imports WS_Engine
begin

text \<open>
  The sending half of the native WebSocket engine and its upgrade
  (\<^verbatim>\<open>openwire/src/websocket/native/engine.rs\<close>, \<^verbatim>\<open>mask.rs\<close>, \<^verbatim>\<open>openwire-core/src/websocket/engine.rs\<close>).
  The bytes the transport has accepted are the argument \<open>wire\<close>; the random source
  (\<^verbatim>\<open>getrandom\<close>) is the argument \<open>rnd\<close>: an error text, or the four bytes it produced.
\<close>

section \<open>Model\<close>

datatype write_event = WritePending | WriteOk usize | WriteErr string
datatype flush_event = FlushPending | FlushOk | FlushErr string

record NativeSink =
  sk_buf :: bytes

definition native_sink_new :: NativeSink where
  "native_sink_new = \<lparr>sk_buf = []\<rparr>"

definition random_mask_key :: "(string, mask_key) result \<Rightarrow> (WebSocketEngineError, mask_key) result" where
  "random_mask_key rnd =
     (case rnd of
        Inl e \<Rightarrow> Inl (EngineIo (err_internal ''failed to generate WebSocket mask key'' e))
      | Inr key \<Rightarrow> Inr key)"

fun engine_frame_header :: "EngineFrame \<Rightarrow> FrameHeader" where
  "engine_frame_header (FText _) = \<lparr>fh_fin = True, fh_opcode = OpText\<rparr>"
| "engine_frame_header (FBinary _) = \<lparr>fh_fin = True, fh_opcode = OpBinary\<rparr>"
| "engine_frame_header (FPing _) = \<lparr>fh_fin = True, fh_opcode = OpPing\<rparr>"
| "engine_frame_header (FPong _) = \<lparr>fh_fin = True, fh_opcode = OpPong\<rparr>"
| "engine_frame_header (FClose _ _) = \<lparr>fh_fin = True, fh_opcode = OpClose\<rparr>"

fun engine_frame_payload :: "EngineFrame \<Rightarrow> bytes" where
  "engine_frame_payload (FText text) = text"
| "engine_frame_payload (FBinary bs) = bs"
| "engine_frame_payload (FPing bs) = bs"
| "engine_frame_payload (FPong bs) = bs"
| "engine_frame_payload (FClose code reason) =
     (if code = 1005 \<and> reason = [] then [] else be_bytes 2 (unat code) @ reason)"

definition start_send ::
  "NativeSink \<Rightarrow> (string, mask_key) result \<Rightarrow> EngineFrame \<Rightarrow>
     (WebSocketEngineError, unit) result \<times> NativeSink" where
  "start_send me rnd item =
     (case validate_outbound_engine_frame item of
        Inl e \<Rightarrow> (Inl e, me)
      | Inr _ \<Rightarrow>
          (case random_mask_key rnd of
             Inl e \<Rightarrow> (Inl e, me)
           | Inr key \<Rightarrow>
               (Inr (), me\<lparr>sk_buf := encode_frame (sk_buf me) (engine_frame_header item)
                                       (engine_frame_payload item) (Some key)\<rparr>)))"

text \<open>
  \<^verbatim>\<open>drain\<close>: write until the buffer is empty, then flush.  The value \<^term>\<open>None\<close> is the panic of
  \<^verbatim>\<open>advance\<close> when the transport claims to have written more than it was given.
\<close>

fun drain ::
  "NativeSink \<Rightarrow> bytes \<Rightarrow> write_event list \<Rightarrow> flush_event \<Rightarrow>
     ((WebSocketEngineError, unit) result poll \<times> NativeSink \<times> bytes \<times> write_event list) option" where
  "drain me wire wevs fl =
     (if sk_buf me = [] then
        Some (case fl of
                FlushPending \<Rightarrow> Pending
              | FlushOk \<Rightarrow> Ready (Inr ())
              | FlushErr e \<Rightarrow> Ready (Inl (EngineIo (with_source KProtocol ''websocket flush failed'' e))),
              me, wire, wevs)
      else case wevs of
        [] \<Rightarrow> Some (Pending, me, wire, [])
      | WritePending # wevs' \<Rightarrow> Some (Pending, me, wire, wevs')
      | WriteOk n # wevs' \<Rightarrow>
          if n = 0 then Some (Ready (Inl (EngineIo (err_internal ''websocket peer closed write half''
                                                      ''write zero''))), me, wire, wevs')
          else if n > length (sk_buf me) then None
          else drain (me\<lparr>sk_buf := drop n (sk_buf me)\<rparr>) (wire @ take n (sk_buf me)) wevs' fl
      | WriteErr e # wevs' \<Rightarrow>
          Some (Ready (Inl (EngineIo (with_source KProtocol ''websocket write failed'' e))), me, wire, wevs'))"

declare drain.simps [simp del]

definition sink_poll_flush where
  "sink_poll_flush = drain"

definition sink_poll_close where
  "sink_poll_close = drain"

datatype Role = Client | Server

record WebSocketEngineConfig =
  ec_role :: Role
  ec_subprotocol :: "string option"
  ec_extensions :: "string list"
  ec_max_frame_size :: usize
  ec_max_message_size :: usize

definition upgrade :: "WebSocketEngineConfig \<Rightarrow> (WebSocketEngineError, NativeSink \<times> NativeStream) result" where
  "upgrade config =
     (if ec_role config \<noteq> Client
        then Inl (UnsupportedExtension ''native engine only supports client role in v1'')
      else if list_ex (\<lambda>extension. extension \<noteq> []) (ec_extensions config)
        then Inl (UnsupportedExtension (join_comma (ec_extensions config)))
      else Inr (native_sink_new,
                native_stream_new (ec_max_frame_size config) (ec_max_message_size config)))"

section \<open>The connection as a sequence of operations\<close>

text \<open>
  What the writer of a connection does to its sink: sending, flushing and closing, in any order and
  with any answers of the transport.  The state holds the sink, the bytes on the wire, and the frames
  \<open>start_send\<close> has accepted.
\<close>

datatype sink_op =
    SinkSend "(string, mask_key) result" EngineFrame
  | SinkFlush "write_event list" flush_event
  | SinkClose "write_event list" flush_event

type_synonym sink_state = "NativeSink \<times> bytes \<times> EngineFrame list"

fun sink_op_step :: "sink_state \<Rightarrow> sink_op \<Rightarrow> sink_state option" where
  "sink_op_step (sk, wire, sent) (SinkSend rnd f) =
     (case start_send sk rnd f of
        (Inl e, sk') \<Rightarrow> Some (sk', wire, sent)
      | (Inr _, sk') \<Rightarrow> Some (sk', wire, sent @ [f]))"
| "sink_op_step (sk, wire, sent) (SinkFlush wevs fl) =
     map_option (\<lambda>(r, sk', wire', _). (sk', wire', sent)) (sink_poll_flush sk wire wevs fl)"
| "sink_op_step (sk, wire, sent) (SinkClose wevs fl) =
     map_option (\<lambda>(r, sk', wire', _). (sk', wire', sent)) (sink_poll_close sk wire wevs fl)"

fun sink_run :: "sink_state \<Rightarrow> sink_op list \<Rightarrow> sink_state option" where
  "sink_run st [] = Some st"
| "sink_run st (op # ops) = (case sink_op_step st op of None \<Rightarrow> None | Some st' \<Rightarrow> sink_run st' ops)"

section \<open>Specification: the peer\<close>

lemma server_decode_shrinks:
  "server_decode buf = Some (h, p, rest) \<Longrightarrow> length rest < length buf"
proof -
  assume a: "server_decode buf = Some (h, p, rest)"
  then obtain hl pl x1 x2 x3 x4 body where "drop hl buf = x1 # x2 # x3 # x4 # body" "rest = drop pl body"
    by (auto simp: server_decode_def split: if_splits option.splits sum.splits prod.splits list.splits)
  then have "length (drop hl buf) = 4 + length body" "length rest \<le> length body" by simp_all
  then show ?thesis by simp
qed

text \<open>The peer reads frames until its input is used up, and understands each as an unfragmented one.\<close>

function server_read :: "bytes \<Rightarrow> EngineFrame list option" where
  "server_read buf =
     (if buf = [] then Some []
      else case server_decode buf of
        None \<Rightarrow> None
      | Some (h, p, rest) \<Rightarrow>
          (case feed (reassembly_new USIZE_MAX) \<lparr>df_fin = fh_fin h, df_opcode = fh_opcode h, df_payload = p\<rparr> of
             Some (Inr (Some f), _) \<Rightarrow> map_option (Cons f) (server_read rest)
           | _ \<Rightarrow> None))"
  by pat_completeness auto
termination
  by (relation "measure length") (auto dest: server_decode_shrinks)

declare server_read.simps [simp del]

section \<open>Lemmas\<close>

text \<open>Frames as the application can build them: strings are UTF-8, and sizes are addressable.\<close>

fun rust_frame :: "EngineFrame \<Rightarrow> bool" where
  "rust_frame (FText s) = (utf8_valid s \<and> length s < 2 ^ 63)"
| "rust_frame (FBinary b) = (length b < 2 ^ 63)"
| "rust_frame (FClose c r) = utf8_valid r"
| "rust_frame _ = True"

lemma valid_payload_len:
  "validate_outbound_engine_frame f = Inr () \<Longrightarrow> rust_frame f \<Longrightarrow> length (engine_frame_payload f) < 2 ^ 63"
  by (cases f)
     (auto simp: validate_control_payload_len_def MAX_CONTROL_FRAME_PAYLOAD_BYTES_def
        validate_close_frame_def MAX_CLOSE_REASON_BYTES_def split: if_splits)

lemma close_code_bytes: "word_of_nat (from_be_bytes (be_bytes 2 (unat code))) = (code :: u16)"
proof -
  have "unat code < 65536" using unsigned_less [of code] by simp
  then show ?thesis by (simp add: from_be_be_bytes)
qed

lemma feed_sent:
  assumes "validate_outbound_engine_frame f = Inr ()" "rust_frame f"
  shows "feed (reassembly_new USIZE_MAX) \<lparr>df_fin = fh_fin (engine_frame_header f),
           df_opcode = fh_opcode (engine_frame_header f), df_payload = engine_frame_payload f\<rparr>
         = Some (Inr (Some f), reassembly_new USIZE_MAX)"
proof (cases f)
  case (FClose code reason)
  show ?thesis
  proof (cases "code = CLOSE_NO_STATUS_CODE \<and> reason = []")
    case True
    then show ?thesis using FClose by (simp add: feed_control CLOSE_NO_STATUS_CODE_def)
  next
    case False
    then have v: "close_code_is_valid code"
      using assms(1) FClose by (auto simp: validate_close_frame_def split: if_splits)
    obtain a b where ab: "be_bytes 2 (unat code) = [a, b]" by (simp add: numeral_2_eq_2)
    have "word_of_nat (from_be_bytes [a, b]) = code" using close_code_bytes [of code] ab by simp
    then show ?thesis
      using False FClose v assms(2) ab by (auto simp: feed_control CLOSE_NO_STATUS_CODE_def)
  qed
qed (use assms in \<open>auto simp: feed_data feed_control deliver_single_def check_message_size_def
       reassembly_new_def USIZE_MAX_def\<close>)

lemma encode_frame_out: "encode_frame out h p k = out @ encode_frame [] h p k"
  by (simp add: encode_frame_def Let_def)

lemma server_read_encode:
  assumes "validate_outbound_engine_frame f = Inr ()" "rust_frame f"
  shows "server_read (encode_frame [] (engine_frame_header f) (engine_frame_payload f) (Some key) @ rest)
         = map_option (Cons f) (server_read rest)"
proof -
  let ?e = "encode_frame [] (engine_frame_header f) (engine_frame_payload f) (Some key)"
  have "server_decode (?e @ rest) = Some (engine_frame_header f, engine_frame_payload f, rest)"
    by (rule server_decode_wire [OF valid_payload_len [OF assms]])
  moreover have "?e \<noteq> []" by (simp add: encode_frame_masked)
  ultimately show ?thesis using feed_sent [OF assms] by (subst server_read.simps) simp
qed

lemma drain_keeps:
  "drain me wire wevs fl = Some (r, me', wire', wevs') \<Longrightarrow>
     wire' @ sk_buf me' = wire @ sk_buf me \<and> (r = Ready (Inr ()) \<longrightarrow> sk_buf me' = [])"
proof (induction me wire wevs fl rule: drain.induct)
  case (1 me wire wevs fl)
  show ?case
  proof (cases "sk_buf me = []")
    case True
    then show ?thesis using "1.prems" by (subst (asm) drain.simps) auto
  next
    case ne: False
    show ?thesis
    proof (cases "\<exists>n wevs'. wevs = WriteOk n # wevs' \<and> n \<noteq> 0 \<and> n \<le> length (sk_buf me)")
      case True
      then obtain n ws where w: "wevs = WriteOk n # ws" "n \<noteq> 0" "\<not> n > length (sk_buf me)" by auto
      have "drain (me\<lparr>sk_buf := drop n (sk_buf me)\<rparr>) (wire @ take n (sk_buf me)) ws fl = Some (r, me', wire', wevs')"
        using "1.prems" ne w by (subst (asm) drain.simps) simp
      from "1.IH" [OF ne w(1) refl w(2,3) this] show ?thesis by simp
    next
      case False
      then show ?thesis using "1.prems" ne
        by (subst (asm) drain.simps) (auto split: list.splits write_event.splits if_splits)
    qed
  qed
qed

definition sink_inv :: "sink_state \<Rightarrow> bool" where
  "sink_inv = (\<lambda>(sk, wire, sent).
     \<forall>rest. server_read (wire @ sk_buf sk @ rest) = map_option (\<lambda>fs. sent @ fs) (server_read rest))"

fun rust_op :: "sink_op \<Rightarrow> bool" where
  "rust_op (SinkSend rnd f) = rust_frame f"
| "rust_op _ = True"

lemma sink_step_inv:
  assumes "sink_inv st" "rust_op op" "sink_op_step st op = Some st'"
  shows "sink_inv st'"
proof -
  obtain sk wire sent where st: "st = (sk, wire, sent)" by (cases st) auto
  have drain: "sink_inv st'" if "drain sk wire wevs fl = Some (r, sk', wire', w)" "st' = (sk', wire', sent)"
    for wevs fl r sk' wire' w
  proof -
    have "wire' @ sk_buf sk' @ rest = wire @ sk_buf sk @ rest" for rest
      using drain_keeps [OF that(1)] by (metis append.assoc)
    note eq = this
    show ?thesis using assms(1) unfolding st that(2) sink_inv_def by (simp only: prod.case eq simp_thms)
  qed
  show ?thesis
  proof (cases op)
    case (SinkSend rnd f)
    show ?thesis
    proof (cases "validate_outbound_engine_frame f = Inr () \<and> (\<exists>key. rnd = Inr key)")
      case True
      then obtain key where k: "rnd = Inr key" "validate_outbound_engine_frame f = Inr ()" by blast
      let ?e = "encode_frame [] (engine_frame_header f) (engine_frame_payload f) (Some key)"
      have st': "st' = (sk\<lparr>sk_buf := sk_buf sk @ ?e\<rparr>, wire, sent @ [f])"
        using assms(3) st SinkSend k encode_frame_out [of "sk_buf sk"]
        by (simp add: start_send_def random_mask_key_def)
      have "server_read (wire @ sk_buf sk @ ?e @ rest) = map_option (\<lambda>fs. (sent @ [f]) @ fs) (server_read rest)" for rest
      proof -
        have "server_read (wire @ sk_buf sk @ (?e @ rest)) = map_option (\<lambda>fs. sent @ fs) (server_read (?e @ rest))"
          using assms(1) st by (simp only: sink_inv_def prod.case)
        also have "server_read (?e @ rest) = map_option (Cons f) (server_read rest)"
          using k(2) assms(2) SinkSend by (intro server_read_encode) simp_all
        finally show ?thesis by (simp add: option.map_comp comp_def)
      qed
      moreover have "(@) (sent @ [f]) = (\<lambda>fs. sent @ f # fs)" by auto
      ultimately show ?thesis unfolding st' sink_inv_def by simp
    next
      case False
      then have "st' = st" using assms(3) st SinkSend
        by (auto simp: start_send_def random_mask_key_def split: sum.splits)
      then show ?thesis using assms(1) by simp
    qed
  next
    case (SinkFlush wevs fl)
    then show ?thesis using assms(3) st drain by (auto simp: sink_poll_flush_def)
  next
    case (SinkClose wevs fl)
    then show ?thesis using assms(3) st drain by (auto simp: sink_poll_close_def)
  qed
qed

lemma sink_run_inv:
  "sink_inv st \<Longrightarrow> \<forall>op \<in> set ops. rust_op op \<Longrightarrow> sink_run st ops = Some st' \<Longrightarrow> sink_inv st'"
proof (induction ops arbitrary: st)
  case (Cons op ops)
  obtain st2 where st2: "sink_op_step st op = Some st2" "sink_run st2 ops = Some st'"
    using Cons.prems(3) by (cases "sink_op_step st op") simp_all
  have "sink_inv st2" using sink_step_inv [OF Cons.prems(1) _ st2(1)] Cons.prems(2) by simp
  then show ?case using Cons.IH [OF _ _ st2(2)] Cons.prems(2) by simp
qed simp

section \<open>Properties\<close>

text \<open>
  C14.  Whatever the writer does and however the transport splits its writes, the bytes on the wire
  followed by the bytes still buffered are, to a peer that follows RFC 6455, exactly the frames
  \<open>start_send\<close> accepted, in that order: no frame is lost, duplicated, reordered or garbled.
\<close>

theorem sink_delivers:
  assumes "\<forall>op \<in> set ops. rust_op op"
    and "sink_run (native_sink_new, [], []) ops = Some (sk, wire, sent)"
  shows "server_read (wire @ sk_buf sk) = Some sent"
proof -
  have "(@) [] = (\<lambda>fs :: EngineFrame list. fs)" by auto
  then have "sink_inv (native_sink_new, [], [])"
    by (simp add: sink_inv_def native_sink_new_def option.map_ident)
  from sink_run_inv [OF this assms] have "server_read (wire @ sk_buf sk @ []) = map_option (\<lambda>fs. sent @ fs) (server_read [])"
    unfolding sink_inv_def by blast
  then show ?thesis by (simp add: server_read.simps [of "[]"])
qed

theorem sink_delivers_witness:
  "server_read ([0x81, 0x81, 1] @ [2, 3, 4, 73]) = Some [FText [72]]"
  using sink_delivers [of "[SinkSend (Inr (1, 2, 3, 4)) (FText [72]), SinkFlush [WriteOk 3, WritePending] FlushOk]"
      "\<lparr>sk_buf = [2, 3, 4, 73]\<rparr>" "[0x81, 0x81, 1]" "[FText [72]]"]
  by (simp add: native_sink_new_def start_send_def random_mask_key_def sink_poll_flush_def drain.simps
      encode_frame_def mask_in_place_def Let_def)

text \<open>
  Flushing completes: when the transport accepts the buffered bytes piecewise, in writes of any
  positive sizes that add up to the buffer, \<open>drain\<close> returns success with everything on the wire.
\<close>

theorem drain_completes:
  assumes "\<forall>n \<in> set ns. 0 < n" "sum_list ns = length (sk_buf me)"
  shows "drain me wire (map WriteOk ns @ wevs) FlushOk =
         Some (Ready (Inr ()), me\<lparr>sk_buf := []\<rparr>, wire @ sk_buf me, wevs)"
  using assms
proof (induction ns arbitrary: me wire)
  case Nil
  then show ?case by (simp add: drain.simps)
next
  case (Cons n ns)
  let ?me = "me\<lparr>sk_buf := drop n (sk_buf me)\<rparr>"
  have "drain me wire (map WriteOk (n # ns) @ wevs) FlushOk =
        drain ?me (wire @ take n (sk_buf me)) (map WriteOk ns @ wevs) FlushOk"
    using Cons.prems by (subst drain.simps) auto
  also have "\<dots> = Some (Ready (Inr ()), ?me\<lparr>sk_buf := []\<rparr>, (wire @ take n (sk_buf me)) @ sk_buf ?me, wevs)"
    using Cons.prems by (intro Cons.IH) auto
  finally show ?case by simp
qed

theorem drain_completes_witness:
  "drain \<lparr>sk_buf = [1, 2, 3]\<rparr> [] (map WriteOk [1, 2] @ []) FlushOk =
     Some (Ready (Inr ()), \<lparr>sk_buf = []\<rparr>, [1, 2, 3], [])"
  using drain_completes [of "[1, 2]" "\<lparr>sk_buf = [1, 2, 3]\<rparr>" "[]" "[]"] by simp

end
