(* ===== verification/Scheduler.thy ===== *)
theory Scheduler
  imports Planning
begin

text \<open>
  Request admission (\<^verbatim>\<open>openwire/src/connection/scheduler.rs\<close> and the request limiter of
  \<^verbatim>\<open>limits.rs\<close>).  The state under the scheduler's mutex is a record; every operation holds the lock
  for its whole body, so it is one function on that record.  A waker is a number (its identity is what
  \<^verbatim>\<open>will_wake\<close> compares); the operations return the wakers they wake.  \<^verbatim>\<open>BTreeSet\<close> is a sorted list
  without duplicates, \<^verbatim>\<open>VecDeque\<close> a list, and \<^verbatim>\<open>Slab\<close> a partial map: the key a slab picks for a new
  entry is the parameter \<open>alloc\<close>.  Sequence numbers (\<^verbatim>\<open>u64\<close>) are not bounded.
\<close>

section \<open>Model\<close>

type_synonym waker = nat

definition HIGH_URGENCY_PROMOTIONS_BEFORE_AGING :: u32 where
  "HIGH_URGENCY_PROMOTIONS_BEFORE_AGING = 8"

definition AGING_WAIT :: duration where
  "AGING_WAIT = millis 250"

definition HIGH_URGENCY_MAX :: nat where
  "HIGH_URGENCY_MAX = 2"

record RequestPriority =
  urgency :: nat

definition from_urgency :: "nat \<Rightarrow> RequestPriority" where
  "from_urgency u = \<lparr>urgency = (if u > 7 then 7 else u)\<rparr>"

definition is_high_urgency :: "RequestPriority \<Rightarrow> bool" where
  "is_high_urgency p \<longleftrightarrow> urgency p \<le> HIGH_URGENCY_MAX"

record Waiter =
  wt_waker :: "waker option"
  wt_address :: Address
  wt_priority :: RequestPriority
  wt_seq :: u64
  wt_enqueued_at :: instant
  wt_admitted :: bool

record GlobalState =
  gs_global_running :: usize
  gs_queued :: usize
  gs_next_seq :: u64
  gs_high_urgency_promotions :: u32
  gs_waiters :: "usize \<Rightarrow> Waiter option"
  gs_ordered :: "(nat \<times> u64 \<times> usize) list"
  gs_fifo :: "usize list"
  gs_address_running :: "Address \<Rightarrow> usize option"
  gs_ready_waiters :: "waker list"

record RequestScheduler =
  rs_max_total :: usize
  rs_max_per_address :: usize
  rs_max_queued :: usize

record RequestAdmissionPermit =
  rap_scheduler :: bool
  rap_address :: "Address option"

definition permit_unlimited :: RequestAdmissionPermit where
  "permit_unlimited = \<lparr>rap_scheduler = False, rap_address = None\<rparr>"

definition scheduler_new :: "usize \<Rightarrow> usize \<Rightarrow> usize \<Rightarrow> RequestScheduler \<times> GlobalState" where
  "scheduler_new max_total max_per_address max_queued =
     (\<lparr>rs_max_total = max_total, rs_max_per_address = max_per_address, rs_max_queued = max_queued\<rparr>,
      \<lparr>gs_global_running = 0, gs_queued = 0, gs_next_seq = 0, gs_high_urgency_promotions = 0,
       gs_waiters = (\<lambda>_. None), gs_ordered = [], gs_fifo = [], gs_address_running = (\<lambda>_. None),
       gs_ready_waiters = []\<rparr>)"

definition enqueue_waiter :: "nat \<Rightarrow> u64 \<Rightarrow> usize \<Rightarrow> GlobalState \<Rightarrow> GlobalState" where
  "enqueue_waiter u seq wid g =
     g\<lparr>gs_ordered := insort_insert (u, seq, wid) (gs_ordered g), gs_fifo := gs_fifo g @ [wid],
       gs_queued := gs_queued g + 1\<rparr>"

definition dequeue_waiter :: "nat \<Rightarrow> u64 \<Rightarrow> usize \<Rightarrow> GlobalState \<Rightarrow> GlobalState" where
  "dequeue_waiter u seq wid g =
     g\<lparr>gs_ordered := remove1 (u, seq, wid) (gs_ordered g),
       gs_fifo := (case position (\<lambda>queued. queued = wid) (gs_fifo g) of
                     Some index \<Rightarrow> remove_nth index (gs_fifo g) | None \<Rightarrow> gs_fifo g),
       gs_queued := gs_queued g - 1\<rparr>"

definition address_running :: "GlobalState \<Rightarrow> Address \<Rightarrow> usize" where
  "address_running g a = (case gs_address_running g a of Some n \<Rightarrow> n | None \<Rightarrow> 0)"

definition bump_address_running :: "Address \<Rightarrow> GlobalState \<Rightarrow> GlobalState" where
  "bump_address_running a g =
     g\<lparr>gs_address_running := (gs_address_running g)(a \<mapsto> address_running g a + 1),
       gs_global_running := gs_global_running g + 1\<rparr>"

definition drop_address_running :: "Address \<Rightarrow> GlobalState \<Rightarrow> GlobalState" where
  "drop_address_running a g =
     (case gs_address_running g a of
        None \<Rightarrow> g\<lparr>gs_global_running := gs_global_running g - 1\<rparr>
      | Some running \<Rightarrow>
          let running' = running - 1 in
          g\<lparr>gs_address_running :=
              (if running' = 0 then (gs_address_running g)(a := None)
               else (gs_address_running g)(a \<mapsto> running')),
            gs_global_running := gs_global_running g - 1\<rparr>)"

definition has_global_capacity :: "RequestScheduler \<Rightarrow> usize \<Rightarrow> bool" where
  "has_global_capacity s running \<longleftrightarrow> running < rs_max_total s"

definition has_address_capacity :: "RequestScheduler \<Rightarrow> usize \<Rightarrow> bool" where
  "has_address_capacity s running \<longleftrightarrow> running < rs_max_per_address s"

definition address_has_capacity :: "GlobalState \<Rightarrow> Address \<Rightarrow> usize \<Rightarrow> bool" where
  "address_has_capacity g a max_per_address \<longleftrightarrow> address_running g a < max_per_address"

definition waiter_is_eligible :: "GlobalState \<Rightarrow> usize \<Rightarrow> usize \<Rightarrow> bool" where
  "waiter_is_eligible g wid max_per_address \<longleftrightarrow>
     (case gs_waiters g wid of
        Some w \<Rightarrow> address_has_capacity g (wt_address w) max_per_address | None \<Rightarrow> False)"

definition queue_blocks_priority :: "GlobalState \<Rightarrow> RequestPriority \<Rightarrow> usize \<Rightarrow> bool" where
  "queue_blocks_priority g p max_per_address \<longleftrightarrow>
     list_ex (\<lambda>(u, _, wid). u \<le> urgency p \<and> waiter_is_eligible g wid max_per_address) (gs_ordered g)"

text \<open>
  Indexing the slab panics on a vacant key; the ids \<open>select_waiter\<close> and \<open>try_promote\<close> index with are
  eligible ones, which are present.
\<close>

definition select_waiter :: "instant \<Rightarrow> GlobalState \<Rightarrow> usize \<Rightarrow> usize option" where
  "select_waiter now g max_per_address =
     (case List.find (\<lambda>wid. waiter_is_eligible g wid max_per_address) (map (\<lambda>(_, _, wid). wid) (gs_ordered g)) of
        None \<Rightarrow> None
      | Some best \<Rightarrow>
          (case List.find (\<lambda>wid. waiter_is_eligible g wid max_per_address) (gs_fifo g) of
             None \<Rightarrow> None
           | Some oldest \<Rightarrow>
               if oldest = best then Some best
               else
                 let oldest_waiter = the (gs_waiters g oldest); best_waiter = the (gs_waiters g best);
                     aged_by_time = (elapsed now (wt_enqueued_at oldest_waiter) \<ge> AGING_WAIT);
                     aged_by_count =
                       (gs_high_urgency_promotions g \<ge> HIGH_URGENCY_PROMOTIONS_BEFORE_AGING \<and>
                        urgency (wt_priority oldest_waiter) > urgency (wt_priority best_waiter))
                 in if aged_by_time \<or> aged_by_count then Some oldest else Some best))"

definition try_promote :: "RequestScheduler \<Rightarrow> instant \<Rightarrow> GlobalState \<Rightarrow> waker option \<times> GlobalState" where
  "try_promote s now g =
     (if \<not> has_global_capacity s (gs_global_running g) then (None, g)
      else case select_waiter now g (rs_max_per_address s) of
        None \<Rightarrow> (None, g)
      | Some wid \<Rightarrow>
          let w = the (gs_waiters g wid);
              g1 = dequeue_waiter (urgency (wt_priority w)) (wt_seq w) wid g;
              g2 = g1\<lparr>gs_waiters := (gs_waiters g1)(wid \<mapsto> w\<lparr>wt_admitted := True, wt_waker := None\<rparr>)\<rparr>;
              g3 = g2\<lparr>gs_high_urgency_promotions :=
                        (if is_high_urgency (wt_priority w)
                         then saturating_add U32_MAX (gs_high_urgency_promotions g2) 1 else 0)\<rparr>
          in (wt_waker w, bump_address_running (wt_address w) g3))"

definition wake_ready_waiters :: "RequestScheduler \<Rightarrow> GlobalState \<Rightarrow> waker option \<times> GlobalState" where
  "wake_ready_waiters s g =
     (if \<not> has_global_capacity s (gs_global_running g) then (None, g)
      else case gs_ready_waiters g of
        [] \<Rightarrow> (None, g)
      | w # ws \<Rightarrow> (Some w, g\<lparr>gs_ready_waiters := ws\<rparr>))"

definition scheduler_release :: "RequestScheduler \<Rightarrow> instant \<Rightarrow> Address \<Rightarrow> GlobalState \<Rightarrow> waker list \<times> GlobalState" where
  "scheduler_release s now a g =
     (let g1 = drop_address_running a g;
          (ready, g2) = wake_ready_waiters s g1;
          (promoted, g3) = try_promote s now g2
      in (List.map_filter (\<lambda>w. w) [ready, promoted], g3))"

text \<open>The three outcomes of a poll: a permit, an error, or pending; with the waiter key it leaves behind.\<close>

datatype admission = Admitted RequestAdmissionPermit | Rejected WireError | Waiting

definition limited_permit :: "Address \<Rightarrow> RequestAdmissionPermit" where
  "limited_permit a = \<lparr>rap_scheduler = True, rap_address = Some a\<rparr>"

definition is_admitted :: "GlobalState \<Rightarrow> usize \<Rightarrow> bool" where
  "is_admitted g wid \<longleftrightarrow> (case gs_waiters g wid of Some w \<Rightarrow> wt_admitted w | None \<Rightarrow> False)"

definition take_admitted :: "usize \<Rightarrow> GlobalState \<Rightarrow> admission \<times> usize option \<times> GlobalState \<times> waker list" where
  "take_admitted wid g =
     (Admitted (limited_permit (wt_address (the (gs_waiters g wid)))), None,
      g\<lparr>gs_waiters := (gs_waiters g)(wid := None)\<rparr>, [])"

definition poll_acquire ::
  "((usize \<Rightarrow> Waiter option) \<Rightarrow> usize) \<Rightarrow> RequestScheduler \<Rightarrow> instant \<Rightarrow> waker \<Rightarrow> Address \<Rightarrow>
     RequestPriority \<Rightarrow> usize option \<Rightarrow> GlobalState \<Rightarrow> admission \<times> usize option \<times> GlobalState \<times> waker list" where
  "poll_acquire alloc s now cx a p waiter_id g =
     (case waiter_id of
        Some wid \<Rightarrow>
          if is_admitted g wid then take_admitted wid g
          else (Waiting, Some wid,
                (case gs_waiters g wid of
                   Some w \<Rightarrow> g\<lparr>gs_waiters := (gs_waiters g)(wid \<mapsto> w\<lparr>wt_waker := Some cx\<rparr>)\<rparr> | None \<Rightarrow> g), [])
      | None \<Rightarrow>
          let can_run = (has_global_capacity s (gs_global_running g) \<and>
                         has_address_capacity s (address_running g a));
              blocked_by_queue = queue_blocks_priority g p (rs_max_per_address s)
          in if can_run \<and> \<not> blocked_by_queue
               then (Admitted (limited_permit a), None, bump_address_running a g, [])
             else if gs_queued g \<ge> rs_max_queued s
               then (Rejected (err_capacity ''request admission queue is full''), None, g, [])
             else
               let seq = gs_next_seq g;
                   g1 = g\<lparr>gs_next_seq := seq + 1\<rparr>;
                   wid = alloc (gs_waiters g1);
                   g2 = g1\<lparr>gs_waiters := (gs_waiters g1)(wid \<mapsto>
                          \<lparr>wt_waker = Some cx, wt_address = a, wt_priority = p, wt_seq = seq,
                           wt_enqueued_at = now, wt_admitted = False\<rparr>)\<rparr>;
                   g3 = enqueue_waiter (urgency p) seq wid g2;
                   (promoted, g4) = try_promote s now g3
               in if is_admitted g4 wid then take_admitted wid g4
                  else (Waiting, Some wid, g4, List.map_filter (\<lambda>w. w) [promoted]))"

definition scheduler_poll_ready :: "RequestScheduler \<Rightarrow> waker \<Rightarrow> GlobalState \<Rightarrow> bool \<times> GlobalState" where
  "scheduler_poll_ready s cx g =
     (if has_global_capacity s (gs_global_running g) then (True, g)
      else (False, if list_ex (\<lambda>existing. existing = cx) (gs_ready_waiters g) then g
                   else g\<lparr>gs_ready_waiters := gs_ready_waiters g @ [cx]\<rparr>))"

definition cancel_waiter :: "RequestScheduler \<Rightarrow> instant \<Rightarrow> usize \<Rightarrow> GlobalState \<Rightarrow> waker list \<times> GlobalState" where
  "cancel_waiter s now wid g =
     (case gs_waiters g wid of
        None \<Rightarrow> ([], g)
      | Some w \<Rightarrow>
          let g1 = g\<lparr>gs_waiters := (gs_waiters g)(wid := None)\<rparr> in
          if wt_admitted w then
            (let g2 = drop_address_running (wt_address w) g1;
                 (ready, g3) = wake_ready_waiters s g2;
                 (promoted, g4) = try_promote s now g3
             in (List.map_filter (\<lambda>w. w) [ready, promoted], g4))
          else ([], dequeue_waiter (urgency (wt_priority w)) (wt_seq w) wid g1))"

text \<open>Dropping a permit and dropping the guard of an unfinished acquisition.\<close>

definition permit_drop :: "RequestScheduler \<Rightarrow> instant \<Rightarrow> RequestAdmissionPermit \<Rightarrow> GlobalState \<Rightarrow> waker list \<times> GlobalState" where
  "permit_drop s now permit g =
     (case (rap_scheduler permit, rap_address permit) of
        (True, Some a) \<Rightarrow> scheduler_release s now a g | _ \<Rightarrow> ([], g))"

definition guard_drop :: "RequestScheduler \<Rightarrow> instant \<Rightarrow> usize option \<Rightarrow> GlobalState \<Rightarrow> waker list \<times> GlobalState" where
  "guard_drop s now wid g = (case wid of Some i \<Rightarrow> cancel_waiter s now i g | None \<Rightarrow> ([], g))"

text \<open>The limiter of requests: no scheduler at all when nothing is limited.\<close>

record RequestAdmissionLimiter =
  ral_scheduler :: "(RequestScheduler \<times> GlobalState) option"

definition request_limiter_new :: "usize \<Rightarrow> usize \<Rightarrow> usize \<Rightarrow> RequestAdmissionLimiter" where
  "request_limiter_new max_total max_per_address max_queued =
     (if max_total = USIZE_MAX \<and> max_per_address = USIZE_MAX \<and> max_queued = USIZE_MAX
      then \<lparr>ral_scheduler = None\<rparr>
      else \<lparr>ral_scheduler = Some (scheduler_new max_total max_per_address max_queued)\<rparr>)"

definition limiter_poll_ready :: "waker \<Rightarrow> RequestAdmissionLimiter \<Rightarrow> bool \<times> RequestAdmissionLimiter" where
  "limiter_poll_ready cx l =
     (case ral_scheduler l of
        None \<Rightarrow> (True, l)
      | Some (s, g) \<Rightarrow> (let (ready, g') = scheduler_poll_ready s cx g in (ready, \<lparr>ral_scheduler = Some (s, g')\<rparr>)))"

definition limiter_poll_acquire ::
  "((usize \<Rightarrow> Waiter option) \<Rightarrow> usize) \<Rightarrow> instant \<Rightarrow> waker \<Rightarrow> Address \<Rightarrow> RequestPriority \<Rightarrow> usize option \<Rightarrow>
     RequestAdmissionLimiter \<Rightarrow> admission \<times> usize option \<times> RequestAdmissionLimiter \<times> waker list" where
  "limiter_poll_acquire alloc now cx a p wid l =
     (case ral_scheduler l of
        None \<Rightarrow> (Admitted permit_unlimited, None, l, [])
      | Some (s, g) \<Rightarrow>
          (let (r, wid', g', woken) = poll_acquire alloc s now cx a p wid g
           in (r, wid', \<lparr>ral_scheduler = Some (s, g')\<rparr>, woken)))"

end
