(* ===== verification/Scheduler_Inv.thy ===== *)
theory Scheduler_Inv
  imports Scheduler
begin

text \<open>
  The invariant of the request scheduler, and that every operation keeps it: the two queues hold
  exactly the waiters not yet admitted, the running counts are those of the outstanding permits and
  the admitted waiters, the limits hold, and no slot is idle while a waiter could use it.
\<close>

section \<open>The queues\<close>

definition queue_ok ::
  "usize \<Rightarrow> instant \<Rightarrow> (usize \<Rightarrow> Waiter option) \<Rightarrow> (nat \<times> u64 \<times> usize) list \<Rightarrow> usize list \<Rightarrow> usize \<Rightarrow> u64 \<Rightarrow> bool"
where
  "queue_ok mq now ws ord fifo q n \<longleftrightarrow>
     finite (dom ws) \<and> sorted ord \<and> distinct ord \<and> distinct fifo \<and>
     (\<forall>u sq i. (u, sq, i) \<in> set ord \<longleftrightarrow>
        (\<exists>w. ws i = Some w \<and> \<not> wt_admitted w \<and> u = urgency (wt_priority w) \<and> sq = wt_seq w)) \<and>
     (\<forall>i. i \<in> set fifo \<longleftrightarrow> (\<exists>w. ws i = Some w \<and> \<not> wt_admitted w)) \<and>
     sorted_wrt (\<lambda>i j. wt_seq (the (ws i)) < wt_seq (the (ws j)) \<and>
                       wt_enqueued_at (the (ws i)) \<le> wt_enqueued_at (the (ws j))) fifo \<and>
     q = length fifo \<and> q \<le> mq \<and>
     (\<forall>i w. ws i = Some w \<longrightarrow> wt_seq w < n \<and> wt_enqueued_at w \<le> now)"

lemma queue_okD:
  assumes "queue_ok mq now ws ord fifo q n"
  shows "finite (dom ws)" "sorted ord" "distinct ord" "distinct fifo" "q = length fifo" "q \<le> mq"
    and "(u, sq, i) \<in> set ord \<longleftrightarrow>
        (\<exists>w. ws i = Some w \<and> \<not> wt_admitted w \<and> u = urgency (wt_priority w) \<and> sq = wt_seq w)"
    and "i \<in> set fifo \<longleftrightarrow> (\<exists>w. ws i = Some w \<and> \<not> wt_admitted w)"
    and "ws i = Some w \<Longrightarrow> wt_seq w < n"
    and "ws i = Some w \<Longrightarrow> wt_enqueued_at w \<le> now"
    and "sorted_wrt (\<lambda>i j. wt_seq (the (ws i)) < wt_seq (the (ws j)) \<and>
                       wt_enqueued_at (the (ws i)) \<le> wt_enqueued_at (the (ws j))) fifo"
  using assms unfolding queue_ok_def by blast+

lemma queue_enqueue:
  assumes ok: "queue_ok mq now ws ord fifo q n" and new: "ws i = None" and q: "q < mq"
    and w: "w = \<lparr>wt_waker = cx, wt_address = a, wt_priority = p, wt_seq = n, wt_enqueued_at = now, wt_admitted = False\<rparr>"
  shows "queue_ok mq now (ws(i \<mapsto> w)) (insort_insert (urgency p, n, i) ord) (fifo @ [i]) (q + 1) (n + 1)"
proof -
  note D = queue_okD [OF ok]
  have fresh: "i \<notin> set fifo" using D(8) [of i] new by simp
  have set_ord: "set (insort_insert (urgency p, n, i) ord) = insert (urgency p, n, i) (set ord)"
    by (rule set_insort_insert)
  have "sorted_wrt (\<lambda>x y. wt_seq (the ((ws(i \<mapsto> w)) x)) < wt_seq (the ((ws(i \<mapsto> w)) y)) \<and>
      wt_enqueued_at (the ((ws(i \<mapsto> w)) x)) \<le> wt_enqueued_at (the ((ws(i \<mapsto> w)) y))) fifo"
    using D(11) by (rule sorted_wrt_mono_rel [rotated]) (use fresh in auto)
  moreover have "wt_seq (the (ws x)) < n \<and> wt_enqueued_at (the (ws x)) \<le> now" if "x \<in> set fifo" for x
    using that D(8) [of x] D(9,10) by fastforce
  ultimately have srt: "sorted_wrt (\<lambda>x y. wt_seq (the ((ws(i \<mapsto> w)) x)) < wt_seq (the ((ws(i \<mapsto> w)) y)) \<and>
      wt_enqueued_at (the ((ws(i \<mapsto> w)) x)) \<le> wt_enqueued_at (the ((ws(i \<mapsto> w)) y))) (fifo @ [i])"
    using fresh w by (auto simp: sorted_wrt_append)
  have ord: "(u, sq, j) \<in> set (insort_insert (urgency p, n, i) ord) \<longleftrightarrow>
      (\<exists>v. (ws(i \<mapsto> w)) j = Some v \<and> \<not> wt_admitted v \<and> u = urgency (wt_priority v) \<and> sq = wt_seq v)" for u sq j
    unfolding set_ord insert_iff D(7) using new w by (cases "j = i") auto
  have fi: "j \<in> set (fifo @ [i]) \<longleftrightarrow> (\<exists>v. (ws(i \<mapsto> w)) j = Some v \<and> \<not> wt_admitted v)" for j
    using D(8) [of j] w by auto
  have bnd: "(ws(i \<mapsto> w)) j = Some v \<Longrightarrow> wt_seq v < n + 1 \<and> wt_enqueued_at v \<le> now" for j v
    using D(9,10) [of j v] w by (cases "j = i") auto
  show ?thesis
    unfolding queue_ok_def
    using D(1,5) q srt ord fi bnd fresh D(4) sorted_insort_insert [OF D(2)] distinct_insort_insert [OF D(3)]
    by simp
qed

text \<open>A waiter leaves the queue: it is admitted, or it goes away.\<close>

lemma queue_dequeue:
  assumes ok: "queue_ok mq now ws ord fifo q n" and w: "ws i = Some w" "\<not> wt_admitted w"
    and nw: "nw = None \<or> (\<exists>v. nw = Some v \<and> wt_admitted v \<and> wt_seq v = wt_seq w \<and> wt_enqueued_at v = wt_enqueued_at w)"
  shows "queue_ok mq now (ws(i := nw)) (remove1 (urgency (wt_priority w), wt_seq w, i) ord)
           (filter (\<lambda>j. j \<noteq> i) fifo) (q - 1) n"
proof -
  note D = queue_okD [OF ok]
  let ?ws = "ws(i := nw)" and ?fifo = "filter (\<lambda>j. j \<noteq> i) fifo"
  have i: "i \<in> set fifo" using D(8) [of i] w by simp
  have len: "q - 1 = length ?fifo"
  proof -
    have "?fifo = remove1 i fifo" using D(4)
      by (simp add: distinct_remove1_removeAll removeAll_filter_not_eq) (rule filter_cong; auto)
    then show ?thesis using i D(5) by (simp add: length_remove1)
  qed
  have srt: "sorted_wrt (\<lambda>x y. wt_seq (the (?ws x)) < wt_seq (the (?ws y)) \<and>
      wt_enqueued_at (the (?ws x)) \<le> wt_enqueued_at (the (?ws y))) ?fifo"
    using sorted_wrt_filter [OF D(11), of "\<lambda>j. j \<noteq> i"] by (rule sorted_wrt_mono_rel [rotated]) auto
  have ord: "(u, sq, j) \<in> set (remove1 (urgency (wt_priority w), wt_seq w, i) ord) \<longleftrightarrow>
      (\<exists>v. ?ws j = Some v \<and> \<not> wt_admitted v \<and> u = urgency (wt_priority v) \<and> sq = wt_seq v)" for u sq j
    unfolding set_remove1_eq [OF D(3)] using D(7) [of u sq j] w nw by (cases "j = i") auto
  have fi: "j \<in> set ?fifo \<longleftrightarrow> (\<exists>v. ?ws j = Some v \<and> \<not> wt_admitted v)" for j
    using D(8) [of j] nw by (cases "j = i") auto
  have bnd: "?ws j = Some v \<Longrightarrow> wt_seq v < n \<and> wt_enqueued_at v \<le> now" for j v
    using D(9,10) [of j v] D(9,10) [OF w(1)] nw by (cases "j = i") auto
  have fin: "finite (dom ?ws)" using D(1) by (rule rev_finite_subset [OF finite.insertI [of _ i]]) auto
  show ?thesis
    unfolding queue_ok_def
    using fin srt ord fi bnd len D(4,5,6) sorted_remove1 [OF D(2)] distinct_remove1 [OF D(3)]
    by simp
qed

text \<open>Changes that do not touch the queue: a new waker, an admitted waiter going away, a later clock.\<close>

lemma queue_same:
  assumes ok: "queue_ok mq now ws ord fifo q n" and w: "ws i = Some w"
    and nw: "wt_admitted w \<and> nw = None \<or>
             (\<exists>v. nw = Some v \<and> wt_admitted v = wt_admitted w \<and> wt_seq v = wt_seq w \<and>
                  wt_enqueued_at v = wt_enqueued_at w \<and> wt_priority v = wt_priority w)"
  shows "queue_ok mq now (ws(i := nw)) ord fifo q n"
proof -
  note D = queue_okD [OF ok]
  let ?ws = "ws(i := nw)"
  have srt: "sorted_wrt (\<lambda>x y. wt_seq (the (?ws x)) < wt_seq (the (?ws y)) \<and>
      wt_enqueued_at (the (?ws x)) \<le> wt_enqueued_at (the (?ws y))) fifo"
    using D(11)
  proof (rule sorted_wrt_mono_rel [rotated])
    fix x y assume "x \<in> set fifo" "y \<in> set fifo"
    then show "wt_seq (the (ws x)) < wt_seq (the (ws y)) \<and> wt_enqueued_at (the (ws x)) \<le> wt_enqueued_at (the (ws y)) \<Longrightarrow>
        wt_seq (the (?ws x)) < wt_seq (the (?ws y)) \<and> wt_enqueued_at (the (?ws x)) \<le> wt_enqueued_at (the (?ws y))"
      using D(8) [of x] D(8) [of y] w nw by (cases "x = i"; cases "y = i") auto
  qed
  have ord: "(u, sq, j) \<in> set ord \<longleftrightarrow>
      (\<exists>v. ?ws j = Some v \<and> \<not> wt_admitted v \<and> u = urgency (wt_priority v) \<and> sq = wt_seq v)" for u sq j
    using D(7) [of u sq j] w nw by (cases "j = i") auto
  have fi: "j \<in> set fifo \<longleftrightarrow> (\<exists>v. ?ws j = Some v \<and> \<not> wt_admitted v)" for j
    using D(8) [of j] w nw by (cases "j = i") auto
  have bnd: "?ws j = Some v \<Longrightarrow> wt_seq v < n \<and> wt_enqueued_at v \<le> now" for j v
    using D(9,10) [of j v] D(9,10) [OF w] nw by (cases "j = i") auto
  have fin: "finite (dom ?ws)" using D(1) by (rule rev_finite_subset [OF finite.insertI [of _ i]]) auto
  show ?thesis unfolding queue_ok_def using fin srt ord fi bnd D(2-6) by simp
qed

lemma queue_later: "queue_ok mq now ws ord fifo q n \<Longrightarrow> now \<le> now' \<Longrightarrow> queue_ok mq now' ws ord fifo q n"
  unfolding queue_ok_def by (meson order_trans)

section \<open>The running counts\<close>

definition admitted_addrs :: "(usize \<Rightarrow> Waiter option) \<Rightarrow> Address multiset" where
  "admitted_addrs ws =
     image_mset (\<lambda>i. wt_address (the (ws i))) (mset_set {i. \<exists>w. ws i = Some w \<and> wt_admitted w})"

text \<open>\<open>acct\<close>: the counts are those of the multiset of addresses that hold a slot.\<close>

definition acct :: "GlobalState \<Rightarrow> Address multiset \<Rightarrow> bool" where
  "acct g H \<longleftrightarrow> gs_global_running g = size H \<and>
     (\<forall>a. gs_address_running g a = (if count H a = 0 then None else Some (count H a)))"

lemma acct_running: "acct g H \<Longrightarrow> address_running g a = count H a"
  by (simp add: acct_def address_running_def)

lemma acct_bump: "acct g H \<Longrightarrow> acct (bump_address_running a g) (add_mset a H)"
  by (auto simp: acct_def bump_address_running_def address_running_def count_eq_zero_iff)

lemma acct_drop: "acct g (add_mset a H) \<Longrightarrow> acct (drop_address_running a g) H"
  by (auto simp: acct_def drop_address_running_def Let_def count_eq_zero_iff)

lemma admitted_addrs_finite:
  "finite (dom ws) \<Longrightarrow> finite {i. \<exists>w. ws i = Some w \<and> wt_admitted w}"
  by (rule rev_finite_subset [of "dom ws"]) auto

lemma admitted_addrs_cong:
  assumes "\<And>i w. ws i = Some w \<Longrightarrow> wt_admitted w \<Longrightarrow> \<exists>v. ws' i = Some v \<and> wt_admitted v \<and> wt_address v = wt_address w"
    and "\<And>i v. ws' i = Some v \<Longrightarrow> wt_admitted v \<Longrightarrow> \<exists>w. ws i = Some w \<and> wt_admitted w"
  shows "admitted_addrs ws' = admitted_addrs ws"
proof -
  let ?A = "{i. \<exists>w. ws i = Some w \<and> wt_admitted w}"
  have A: "{i. \<exists>w. ws' i = Some w \<and> wt_admitted w} = ?A" using assms by blast
  have sub: "i \<in> B" if "i \<in># mset_set B" for i and B :: "nat set" using that by (cases "finite B") simp_all
  have "wt_address (the (ws' i)) = wt_address (the (ws i))" if m: "i \<in># mset_set ?A" for i
  proof -
    obtain w where w: "ws i = Some w" "wt_admitted w" using sub [OF m] by blast
    obtain v where "ws' i = Some v" "wt_address v = wt_address w" using assms(1) [OF w] by blast
    then show ?thesis using w by simp
  qed
  then show ?thesis unfolding admitted_addrs_def A by (rule image_mset_cong)
qed

lemma admitted_addrs_add:
  assumes "finite (dom ws)" "\<not> (\<exists>w. ws i = Some w \<and> wt_admitted w)" "wt_admitted v"
  shows "admitted_addrs (ws(i \<mapsto> v)) = add_mset (wt_address v) (admitted_addrs ws)"
proof -
  let ?A = "{j. \<exists>w. ws j = Some w \<and> wt_admitted w}"
  have fin: "finite ?A" by (rule admitted_addrs_finite [OF assms(1)])
  have "{j. \<exists>w. (ws(i \<mapsto> v)) j = Some w \<and> wt_admitted w} = insert i ?A" using assms by auto
  moreover have "i \<notin> ?A" using assms by simp
  moreover have "image_mset (\<lambda>j. wt_address (the ((ws(i \<mapsto> v)) j))) (mset_set ?A) =
                 image_mset (\<lambda>j. wt_address (the (ws j))) (mset_set ?A)"
    using \<open>i \<notin> ?A\<close> fin by (intro image_mset_cong) auto
  ultimately show ?thesis unfolding admitted_addrs_def using fin by simp
qed

lemma admitted_addrs_del:
  assumes "finite (dom ws)" "ws i = Some w" "wt_admitted w"
  shows "admitted_addrs ws = add_mset (wt_address w) (admitted_addrs (ws(i := None)))"
proof -
  have "finite (dom (ws(i := None)))" using assms(1) by (simp add: dom_fun_upd)
  from admitted_addrs_add [OF this, of i w] have
    "admitted_addrs (ws(i := None, i \<mapsto> w)) = add_mset (wt_address w) (admitted_addrs (ws(i := None)))"
    using assms(3) by simp
  moreover have "ws(i := None, i \<mapsto> w) = ws" using assms(2) by auto
  ultimately show ?thesis by simp
qed

section \<open>Selection\<close>

definition waiting :: "GlobalState \<Rightarrow> usize \<Rightarrow> Waiter \<Rightarrow> bool" where
  "waiting g i w \<longleftrightarrow> gs_waiters g i = Some w \<and> \<not> wt_admitted w"

abbreviation gqueue_ok :: "RequestScheduler \<Rightarrow> instant \<Rightarrow> GlobalState \<Rightarrow> bool" where
  "gqueue_ok s now g \<equiv>
     queue_ok (rs_max_queued s) now (gs_waiters g) (gs_ordered g) (gs_fifo g) (gs_queued g) (gs_next_seq g)"

lemma eligible_iff:
  "gs_waiters g i = Some w \<Longrightarrow>
     waiter_is_eligible g i m \<longleftrightarrow> address_running g (wt_address w) < m"
  by (simp add: waiter_is_eligible_def address_has_capacity_def)

lemma select_waiter_None:
  assumes "gqueue_ok s now g"
  shows "select_waiter t g m = None \<longleftrightarrow> (\<forall>i w. waiting g i w \<longrightarrow> \<not> waiter_is_eligible g i m)"
proof -
  note D = queue_okD [OF assms]
  have a: "List.find (\<lambda>i. waiter_is_eligible g i m) (map (\<lambda>(_, _, i). i) (gs_ordered g)) = None \<longleftrightarrow>
        (\<forall>i w. waiting g i w \<longrightarrow> \<not> waiter_is_eligible g i m)"
    unfolding find_None_iff using D(7) by (fastforce simp: waiting_def)
  have b: "List.find (\<lambda>i. waiter_is_eligible g i m) (gs_fifo g) = None \<longleftrightarrow>
        (\<forall>i w. waiting g i w \<longrightarrow> \<not> waiter_is_eligible g i m)"
    unfolding find_None_iff using D(8) by (fastforce simp: waiting_def)
  show ?thesis using a b
    by (cases "List.find (\<lambda>i. waiter_is_eligible g i m) (map (\<lambda>(_, _, i). i) (gs_ordered g))";
        cases "List.find (\<lambda>i. waiter_is_eligible g i m) (gs_fifo g)")
       (simp_all add: select_waiter_def Let_def)
qed

lemma select_waiter_Some:
  assumes "gqueue_ok s now g" "select_waiter t g m = Some i"
  shows "\<exists>w. waiting g i w \<and> waiter_is_eligible g i m"
proof -
  note D = queue_okD [OF assms(1)]
  obtain best oldest where
    best: "List.find (\<lambda>i. waiter_is_eligible g i m) (map (\<lambda>(_, _, i). i) (gs_ordered g)) = Some best"
    and oldest: "List.find (\<lambda>i. waiter_is_eligible g i m) (gs_fifo g) = Some oldest"
    and i: "i = best \<or> i = oldest"
    using assms(2) by (auto simp: select_waiter_def Let_def split: option.splits if_splits)
  have "best \<in> (\<lambda>(_, _, i). i) ` set (gs_ordered g)" "waiter_is_eligible g best m"
    using find_SomeD [OF best] by simp_all
  moreover from this(1) obtain u sq where "(u, sq, best) \<in> set (gs_ordered g)" by auto
  moreover have "oldest \<in> set (gs_fifo g)" "waiter_is_eligible g oldest m"
    using find_SomeD [OF oldest] by simp_all
  ultimately show ?thesis using D(7) [of u sq best] D(8) [of oldest] i by (auto simp: waiting_def)
qed

lemma dequeue_fifo:
  assumes "distinct xs"
  shows "(case position (\<lambda>q. q = i) xs of Some k \<Rightarrow> remove_nth k xs | None \<Rightarrow> xs) = filter (\<lambda>j. j \<noteq> i) xs"
proof (cases "position (\<lambda>q. q = i) xs")
  case None
  then have "\<forall>x \<in> set xs. x \<noteq> i" by (simp add: position_None_iff)
  then show ?thesis using None by (simp add: filter_id_conv)
next
  case (Some k)
  then have "k < length xs" "xs ! k = i" by (simp_all add: position_Some_iff)
  then show ?thesis using Some remove_nth_filter [OF assms, of k] by simp
qed

lemma dequeue_waiter_eq:
  "distinct (gs_fifo g) \<Longrightarrow> dequeue_waiter u sq i g =
     g\<lparr>gs_ordered := remove1 (u, sq, i) (gs_ordered g), gs_fifo := filter (\<lambda>j. j \<noteq> i) (gs_fifo g),
       gs_queued := gs_queued g - 1\<rparr>"
  by (simp add: dequeue_waiter_def dequeue_fifo)

section \<open>The invariant\<close>

text \<open>\<open>P\<close> is the multiset of the addresses of the permits in use.\<close>

definition slots_ok :: "RequestScheduler \<Rightarrow> GlobalState \<Rightarrow> Address multiset \<Rightarrow> bool" where
  "slots_ok s g P \<longleftrightarrow>
     (let H = P + admitted_addrs (gs_waiters g) in
      acct g H \<and> size H \<le> rs_max_total s \<and> (\<forall>a. count H a \<le> rs_max_per_address s))"

definition base_inv :: "RequestScheduler \<Rightarrow> instant \<Rightarrow> GlobalState \<Rightarrow> Address multiset \<Rightarrow> bool" where
  "base_inv s now g P \<longleftrightarrow> gqueue_ok s now g \<and> slots_ok s g P"

definition conserving :: "RequestScheduler \<Rightarrow> GlobalState \<Rightarrow> bool" where
  "conserving s g \<longleftrightarrow> (gs_global_running g < rs_max_total s \<longrightarrow>
     (\<forall>i w. waiting g i w \<longrightarrow> \<not> waiter_is_eligible g i (rs_max_per_address s)))"

definition sched_inv :: "RequestScheduler \<Rightarrow> instant \<Rightarrow> GlobalState \<Rightarrow> Address multiset \<Rightarrow> bool" where
  "sched_inv s now g P \<longleftrightarrow> base_inv s now g P \<and> conserving s g"

text \<open>One slot short of conserving: what a release leaves for the promotion that follows it.\<close>

definition nearly :: "RequestScheduler \<Rightarrow> GlobalState \<Rightarrow> bool" where
  "nearly s g \<longleftrightarrow> rs_max_total s \<le> gs_global_running g + 1 \<or>
     (\<exists>a. \<forall>i w. waiting g i w \<and> waiter_is_eligible g i (rs_max_per_address s) \<longrightarrow>
        wt_address w = a \<and> rs_max_per_address s \<le> address_running g a + 1)"

lemma waiting_eligible:
  "waiting g i w \<Longrightarrow> waiter_is_eligible g i m \<longleftrightarrow> address_running g (wt_address w) < m"
  by (rule eligible_iff) (simp add: waiting_def)

lemma try_promote_Some:
  assumes "gqueue_ok s now g" "gs_global_running g < rs_max_total s"
    "select_waiter t g (rs_max_per_address s) = Some i" "gs_waiters g i = Some w"
  shows "try_promote s t g =
     (wt_waker w, bump_address_running (wt_address w)
        (g\<lparr>gs_ordered := remove1 (urgency (wt_priority w), wt_seq w, i) (gs_ordered g),
           gs_fifo := filter (\<lambda>j. j \<noteq> i) (gs_fifo g), gs_queued := gs_queued g - 1,
           gs_waiters := (gs_waiters g)(i \<mapsto> w\<lparr>wt_admitted := True, wt_waker := None\<rparr>),
           gs_high_urgency_promotions :=
             (if is_high_urgency (wt_priority w) then saturating_add U32_MAX (gs_high_urgency_promotions g) 1 else 0)\<rparr>))"
  using assms queue_okD(4) [OF assms(1)]
  by (simp add: try_promote_def has_global_capacity_def dequeue_waiter_eq Let_def)

lemma running_bump [simp]:
  "address_running (bump_address_running a g) b = address_running g b + (if b = a then 1 else 0)"
  "gs_global_running (bump_address_running a g) = gs_global_running g + 1"
  "gs_waiters (bump_address_running a g) = gs_waiters g"
  "gs_ordered (bump_address_running a g) = gs_ordered g"
  "gs_fifo (bump_address_running a g) = gs_fifo g"
  "gs_queued (bump_address_running a g) = gs_queued g"
  "gs_next_seq (bump_address_running a g) = gs_next_seq g"
  by (auto simp: bump_address_running_def address_running_def)

lemma running_cong: "gs_address_running g = gs_address_running h \<Longrightarrow> address_running g = address_running h"
  by (rule ext) (simp add: address_running_def)

lemma try_promote_inv:
  assumes base: "base_inv s now g P" and near: "nearly s g"
  shows "sched_inv s now (snd (try_promote s t g)) P"
proof (cases "gs_global_running g < rs_max_total s")
  case False
  then show ?thesis using base
    by (simp add: sched_inv_def conserving_def try_promote_def has_global_capacity_def)
next
  case cap: True
  have q: "gqueue_ok s now g" and sl: "slots_ok s g P" using base by (simp_all add: base_inv_def)
  show ?thesis
  proof (cases "select_waiter t g (rs_max_per_address s)")
    case None
    then show ?thesis using base cap select_waiter_None [OF q, of t "rs_max_per_address s"]
      by (simp add: sched_inv_def conserving_def try_promote_def has_global_capacity_def)
  next
    case (Some i)
    then obtain w where w: "waiting g i w" "waiter_is_eligible g i (rs_max_per_address s)"
      using select_waiter_Some [OF q] by blast
    then have wi: "gs_waiters g i = Some w" "\<not> wt_admitted w" by (simp_all add: waiting_def)
    let ?a = "wt_address w" and ?v = "w\<lparr>wt_admitted := True, wt_waker := None\<rparr>"
    let ?H = "P + admitted_addrs (gs_waiters g)"
    define g' where "g' = snd (try_promote s t g)"
    note prom = try_promote_Some [OF q cap Some wi(1)]
    have acct: "acct g ?H" "size ?H \<le> rs_max_total s" "\<And>b. count ?H b \<le> rs_max_per_address s"
      using sl by (simp_all add: slots_ok_def Let_def)
    have adm: "admitted_addrs ((gs_waiters g)(i \<mapsto> ?v)) = add_mset ?a (admitted_addrs (gs_waiters g))"
      using admitted_addrs_add [OF queue_okD(1) [OF q], of i ?v] wi by simp
    have run: "address_running g' b = address_running g b + (if b = ?a then 1 else 0)" for b
      unfolding g'_def prom snd_conv running_bump(1) by (simp add: address_running_def)
    have gr: "gs_global_running g' = gs_global_running g + 1" unfolding g'_def prom by simp
    have ws: "gs_waiters g' = (gs_waiters g)(i \<mapsto> ?v)" unfolding g'_def prom by simp
    have "gqueue_ok s now g'"
      unfolding g'_def prom using queue_dequeue [OF q wi, of "Some ?v"] by simp
    moreover have "slots_ok s g' P"
    proof -
      have "acct g' (add_mset ?a ?H)"
        unfolding g'_def prom snd_conv by (rule acct_bump) (use acct(1) in \<open>simp add: acct_def\<close>)
      moreover have "count ?H ?a < rs_max_per_address s"
        using w waiting_eligible [OF w(1)] acct_running [OF acct(1)] by simp
      moreover have "size ?H < rs_max_total s" using cap acct(1) by (simp add: acct_def)
      ultimately show ?thesis using acct(3) ws adm by (simp add: slots_ok_def Let_def)
    qed
    moreover have "conserving s g'"
    proof (cases "rs_max_total s \<le> gs_global_running g + 1")
      case True
      then show ?thesis using gr by (simp add: conserving_def)
    next
      case False
      then obtain a where a: "\<And>j v. waiting g j v \<Longrightarrow> waiter_is_eligible g j (rs_max_per_address s) \<Longrightarrow>
          wt_address v = a \<and> rs_max_per_address s \<le> address_running g a + 1"
        using near unfolding nearly_def by blast
      have "\<not> waiter_is_eligible g' j (rs_max_per_address s)" if "waiting g' j v" for j v
      proof -
        have "waiting g j v" using that ws by (auto simp: waiting_def split: if_splits)
        then show ?thesis using a [of j v] a [OF w] waiting_eligible [OF that] waiting_eligible [of g j v] run
          by (auto split: if_splits)
      qed
      then show ?thesis by (simp add: conserving_def)
    qed
    ultimately show ?thesis by (simp add: sched_inv_def base_inv_def g'_def)
  qed
qed

section \<open>The operations keep it\<close>

lemma ready_waiters_running [simp]: "address_running (g\<lparr>gs_ready_waiters := r\<rparr>) = address_running g"
  by (rule running_cong) simp

lemma ready_waiters_eligible [simp]:
  "waiter_is_eligible (g\<lparr>gs_ready_waiters := r\<rparr>) i m = waiter_is_eligible g i m"
  "waiting (g\<lparr>gs_ready_waiters := r\<rparr>) i w = waiting g i w"
  by (simp_all add: waiter_is_eligible_def address_has_capacity_def waiting_def split: option.split)

lemma ready_waiters_irrelevant [simp]:
  "base_inv s now (g\<lparr>gs_ready_waiters := r\<rparr>) P = base_inv s now g P"
  "nearly s (g\<lparr>gs_ready_waiters := r\<rparr>) = nearly s g"
  "conserving s (g\<lparr>gs_ready_waiters := r\<rparr>) = conserving s g"
  by (simp_all add: base_inv_def slots_ok_def acct_def nearly_def conserving_def)

lemma wake_ready_inv:
  "base_inv s now (snd (wake_ready_waiters s g)) P = base_inv s now g P"
  "nearly s (snd (wake_ready_waiters s g)) = nearly s g"
  by (simp_all add: wake_ready_waiters_def split: list.split)

lemma drop_running:
  assumes "acct g (add_mset a H)"
  shows "address_running (drop_address_running a g) b = address_running g b - (if b = a then 1 else 0)"
    "gs_global_running (drop_address_running a g) + 1 = gs_global_running g"
  using acct_running [OF acct_drop [OF assms]] acct_running [OF assms] acct_drop [OF assms] assms
  by (auto simp: acct_def)

lemma drop_other [simp]:
  "gs_waiters (drop_address_running a g) = gs_waiters g"
  "gs_ordered (drop_address_running a g) = gs_ordered g"
  "gs_fifo (drop_address_running a g) = gs_fifo g"
  "gs_queued (drop_address_running a g) = gs_queued g"
  "gs_next_seq (drop_address_running a g) = gs_next_seq g"
  by (simp_all add: drop_address_running_def Let_def split: option.split)

text \<open>Giving up a slot, of a permit or of an admitted waiter.\<close>

lemma drop_slot:
  assumes inv: "sched_inv s now g Q" and q: "gqueue_ok s now (g\<lparr>gs_waiters := ws\<rparr>)"
    and H: "Q + admitted_addrs (gs_waiters g) = add_mset a (P + admitted_addrs ws)"
    and sub: "\<And>i w. ws i = Some w \<Longrightarrow> \<not> wt_admitted w \<Longrightarrow> gs_waiters g i = Some w"
  shows "base_inv s now (drop_address_running a (g\<lparr>gs_waiters := ws\<rparr>)) P \<and>
         nearly s (drop_address_running a (g\<lparr>gs_waiters := ws\<rparr>))"
proof -
  let ?g1 = "g\<lparr>gs_waiters := ws\<rparr>" and ?H = "P + admitted_addrs ws"
  let ?g' = "drop_address_running a ?g1"
  have ac: "acct g (add_mset a ?H)" and bd: "size (add_mset a ?H) \<le> rs_max_total s"
    "\<And>b. count (add_mset a ?H) b \<le> rs_max_per_address s" and cons: "conserving s g"
    using inv H by (auto simp: sched_inv_def base_inv_def slots_ok_def Let_def)
  have ac1: "acct ?g1 (add_mset a ?H)" using ac by (simp add: acct_def)
  have run1: "address_running ?g1 = address_running g" by (rule running_cong) simp
  note run = drop_running [OF ac1]
  have "count ?H b \<le> rs_max_per_address s" for b using bd(2) [of b] by (simp split: if_splits)
  then have "base_inv s now ?g' P"
    using q bd(1) acct_drop [OF ac1] by (simp add: base_inv_def slots_ok_def Let_def)
  moreover have "nearly s ?g'"
  proof (cases "gs_global_running g < rs_max_total s")
    case False
    then show ?thesis using run(2) by (simp add: nearly_def)
  next
    case True
    have "wt_address w = a \<and> rs_max_per_address s \<le> address_running ?g' a + 1"
      if w: "waiting ?g' i w" "waiter_is_eligible ?g' i (rs_max_per_address s)" for i w
    proof -
      have "waiting g i w" using w(1) sub by (auto simp: waiting_def)
      then have "\<not> address_running g (wt_address w) < rs_max_per_address s"
        using cons True waiting_eligible unfolding conserving_def by blast
      moreover have "address_running ?g' (wt_address w) < rs_max_per_address s"
        using w waiting_eligible by blast
      ultimately show ?thesis using run(1) [of "wt_address w"] run(1) [of a] unfolding run1
        by (auto split: if_splits)
    qed
    then show ?thesis unfolding nearly_def by blast
  qed
  ultimately show ?thesis by blast
qed

lemma release_inv:
  assumes "sched_inv s now g (add_mset a P)"
  shows "sched_inv s now (snd (scheduler_release s t a g)) P"
proof -
  have "gqueue_ok s now g" using assms by (simp add: sched_inv_def base_inv_def)
  then have "base_inv s now (drop_address_running a g) P \<and> nearly s (drop_address_running a g)"
    using drop_slot [OF assms, of "gs_waiters g" a P] by simp
  then show ?thesis
    by (auto simp: scheduler_release_def Let_def split_beta wake_ready_inv intro!: try_promote_inv)
qed

lemma cancel_inv:
  assumes "sched_inv s now g P"
  shows "sched_inv s now (snd (cancel_waiter s t i g)) P"
proof (cases "gs_waiters g i")
  case None
  then show ?thesis using assms by (simp add: cancel_waiter_def)
next
  case (Some w)
  have q: "gqueue_ok s now g" and sl: "slots_ok s g P" and cons: "conserving s g"
    using assms by (simp_all add: sched_inv_def base_inv_def)
  note fin = queue_okD(1) [OF q]
  let ?ws = "(gs_waiters g)(i := None)"
  show ?thesis
  proof (cases "wt_admitted w")
    case True
    have "base_inv s now (drop_address_running (wt_address w) (g\<lparr>gs_waiters := ?ws\<rparr>)) P \<and>
          nearly s (drop_address_running (wt_address w) (g\<lparr>gs_waiters := ?ws\<rparr>))"
      using queue_same [OF q Some, of None] True admitted_addrs_del [OF fin Some True]
      by (intro drop_slot [OF assms]) (auto split: if_splits)
    then show ?thesis using Some True
      by (auto simp: cancel_waiter_def Let_def split_beta wake_ready_inv intro!: try_promote_inv)
  next
    case False
    define g' where "g' = snd (cancel_waiter s t i g)"
    have g': "g' = g\<lparr>gs_waiters := ?ws,
        gs_ordered := remove1 (urgency (wt_priority w), wt_seq w, i) (gs_ordered g),
        gs_fifo := filter (\<lambda>j. j \<noteq> i) (gs_fifo g), gs_queued := gs_queued g - 1\<rparr>"
      unfolding g'_def using Some False queue_okD(4) [OF q]
      by (simp add: cancel_waiter_def dequeue_waiter_eq Let_def)
    have adm: "admitted_addrs ?ws = admitted_addrs (gs_waiters g)"
      using Some False by (intro admitted_addrs_cong) (auto split: if_splits)
    have "gqueue_ok s now g'" unfolding g' using queue_dequeue [OF q Some False, of None] by simp
    moreover have "slots_ok s g' P" using sl adm unfolding g' by (simp add: slots_ok_def acct_def Let_def)
    moreover have "conserving s g'"
      using cons unfolding g'
      by (auto simp: conserving_def waiting_def waiter_is_eligible_def address_has_capacity_def
          address_running_def split: if_splits)
    ultimately show ?thesis by (simp add: sched_inv_def base_inv_def g'_def)
  qed
qed

text \<open>With a free slot nothing in the queue can use it, so nothing in the queue stands in the way.\<close>

lemma not_blocked:
  assumes "sched_inv s now g P" "gs_global_running g < rs_max_total s"
  shows "\<not> queue_blocks_priority g p (rs_max_per_address s)"
proof
  assume "queue_blocks_priority g p (rs_max_per_address s)"
  then obtain u sq i where i: "(u, sq, i) \<in> set (gs_ordered g)" "waiter_is_eligible g i (rs_max_per_address s)"
    by (auto simp: queue_blocks_priority_def list_ex_iff)
  have "gqueue_ok s now g" "conserving s g" using assms(1) by (simp_all add: sched_inv_def base_inv_def)
  then show False using queue_okD(7) [of _ _ _ "gs_ordered g"] i assms(2)
    unfolding conserving_def waiting_def by blast
qed

lemma try_promote_idle:
  assumes "gqueue_ok s now g" "conserving s g"
  shows "try_promote s t g = (None, g)"
  using assms select_waiter_None [OF assms(1), of t "rs_max_per_address s"]
  by (auto simp: try_promote_def has_global_capacity_def conserving_def)

definition can_run :: "RequestScheduler \<Rightarrow> GlobalState \<Rightarrow> Address \<Rightarrow> bool" where
  "can_run s g a \<longleftrightarrow> gs_global_running g < rs_max_total s \<and> address_running g a < rs_max_per_address s"

lemma bump_inv:
  assumes "sched_inv s now g P" "can_run s g a"
  shows "sched_inv s now (bump_address_running a g) (add_mset a P)"
proof -
  let ?H = "P + admitted_addrs (gs_waiters g)"
  have q: "gqueue_ok s now g" and ac: "acct g ?H" and bd: "\<And>b. count ?H b \<le> rs_max_per_address s"
    and cons: "conserving s g"
    using assms(1) by (auto simp: sched_inv_def base_inv_def slots_ok_def Let_def)
  have "slots_ok s (bump_address_running a g) (add_mset a P)"
    using acct_bump [OF ac, of a] bd acct_running [OF ac, of a] assms(2) ac
    by (auto simp: slots_ok_def Let_def can_run_def acct_def [of g])
  moreover have "conserving s (bump_address_running a g)"
    using cons by (fastforce simp: conserving_def waiting_def waiter_is_eligible_def address_has_capacity_def)
  ultimately show ?thesis using q by (simp add: sched_inv_def base_inv_def)
qed

definition enqueued :: "((usize \<Rightarrow> Waiter option) \<Rightarrow> usize) \<Rightarrow> instant \<Rightarrow> waker \<Rightarrow> Address \<Rightarrow> RequestPriority \<Rightarrow>
    GlobalState \<Rightarrow> GlobalState" where
  "enqueued alloc now cx a p g =
     enqueue_waiter (urgency p) (gs_next_seq g) (alloc (gs_waiters g))
       (g\<lparr>gs_next_seq := gs_next_seq g + 1, gs_waiters := (gs_waiters g)(alloc (gs_waiters g) \<mapsto>
            \<lparr>wt_waker = Some cx, wt_address = a, wt_priority = p, wt_seq = gs_next_seq g,
             wt_enqueued_at = now, wt_admitted = False\<rparr>)\<rparr>)"

lemma enqueued_inv:
  assumes inv: "sched_inv s now g P" and full: "\<not> can_run s g a" and q: "gs_queued g < rs_max_queued s"
    and new: "gs_waiters g (alloc (gs_waiters g)) = None"
  shows "sched_inv s now (enqueued alloc now cx a p g) P"
proof -
  let ?i = "alloc (gs_waiters g)" and ?g' = "enqueued alloc now cx a p g"
  define w where "w = \<lparr>wt_waker = Some cx, wt_address = a, wt_priority = p, wt_seq = gs_next_seq g,
                       wt_enqueued_at = now, wt_admitted = False\<rparr>"
  have ws: "gs_waiters ?g' = (gs_waiters g)(?i \<mapsto> w)" by (simp add: enqueued_def enqueue_waiter_def w_def)
  have qo: "gqueue_ok s now g" and sl: "slots_ok s g P" and cons: "conserving s g"
    using inv by (simp_all add: sched_inv_def base_inv_def)
  have run: "address_running ?g' = address_running g"
    by (rule running_cong) (simp add: enqueued_def enqueue_waiter_def)
  have gr: "gs_global_running ?g' = gs_global_running g" by (simp add: enqueued_def enqueue_waiter_def)
  have "gqueue_ok s now ?g'"
    using queue_enqueue [OF qo new q refl, of "Some cx" a p] by (simp add: enqueued_def enqueue_waiter_def)
  moreover have "admitted_addrs (gs_waiters ?g') = admitted_addrs (gs_waiters g)"
    unfolding ws using new by (intro admitted_addrs_cong) (auto simp: w_def split: if_splits)
  then have "slots_ok s ?g' P"
    using sl gr by (simp add: slots_ok_def acct_def enqueued_def enqueue_waiter_def)
  moreover have "conserving s ?g'"
  proof -
    have "\<not> address_running g (wt_address v) < rs_max_per_address s"
      if "gs_global_running g < rs_max_total s" "waiting ?g' j v" for j v
    proof (cases "j = ?i")
      case True
      then show ?thesis using that full ws by (auto simp: waiting_def w_def can_run_def)
    next
      case False
      then have "waiting g j v" using that(2) ws by (simp add: waiting_def)
      then show ?thesis using cons that(1) waiting_eligible unfolding conserving_def by blast
    qed
    then show ?thesis using gr run waiting_eligible unfolding conserving_def by metis
  qed
  ultimately show ?thesis by (simp add: sched_inv_def base_inv_def)
qed

text \<open>A first poll: what happens depends on the free slots and the length of the queue only.\<close>

lemma poll_acquire_fresh:
  assumes inv: "sched_inv s now g P" and new: "gs_waiters g (alloc (gs_waiters g)) = None"
  shows "poll_acquire alloc s now cx a p None g =
     (if can_run s g a then (Admitted (limited_permit a), None, bump_address_running a g, [])
      else if rs_max_queued s \<le> gs_queued g
        then (Rejected (err_capacity ''request admission queue is full''), None, g, [])
      else (Waiting, Some (alloc (gs_waiters g)), enqueued alloc now cx a p g, []))"
proof (cases "can_run s g a")
  case True
  then show ?thesis using not_blocked [OF inv, of p]
    by (simp add: poll_acquire_def can_run_def has_global_capacity_def has_address_capacity_def)
next
  case no: False
  show ?thesis
  proof (cases "rs_max_queued s \<le> gs_queued g")
    case True
    then show ?thesis using no
      by (auto simp: poll_acquire_def can_run_def has_global_capacity_def has_address_capacity_def)
  next
    case False
    let ?g' = "enqueued alloc now cx a p g"
    have "sched_inv s now ?g' P" by (rule enqueued_inv [OF inv no]) (use False new in simp_all)
    then have "try_promote s now ?g' = (None, ?g')"
      using try_promote_idle [of s now ?g' now] by (simp add: sched_inv_def base_inv_def)
    moreover have "\<not> is_admitted ?g' (alloc (gs_waiters g))"
      by (simp add: is_admitted_def enqueued_def enqueue_waiter_def)
    ultimately show ?thesis using no False
      by (auto simp: poll_acquire_def can_run_def has_global_capacity_def has_address_capacity_def Let_def
          enqueued_def map_filter_simps)
  qed
qed

text \<open>A later poll: the admitted waiter becomes a permit.\<close>

lemma poll_acquire_again:
  assumes inv: "sched_inv s now g P" and w: "gs_waiters g i = Some w"
  shows "poll_acquire alloc s now cx a p (Some i) g = (r, i', g', wk) \<Longrightarrow>
     (if wt_admitted w then r = Admitted (limited_permit (wt_address w)) \<and> sched_inv s now g' (add_mset (wt_address w) P)
      else r = Waiting \<and> sched_inv s now g' P)"
proof -
  assume poll: "poll_acquire alloc s now cx a p (Some i) g = (r, i', g', wk)"
  have q: "gqueue_ok s now g" and sl: "slots_ok s g P" and cons: "conserving s g"
    using inv by (simp_all add: sched_inv_def base_inv_def)
  show ?thesis
  proof (cases "wt_admitted w")
    case True
    let ?ws = "(gs_waiters g)(i := None)"
    have g': "r = Admitted (limited_permit (wt_address w))" "g' = g\<lparr>gs_waiters := ?ws\<rparr>"
      using poll True w by (auto simp: poll_acquire_def is_admitted_def take_admitted_def)
    have "gqueue_ok s now g'" unfolding g' using queue_same [OF q w, of None] True by simp
    moreover have "slots_ok s g' (add_mset (wt_address w) P)"
      using sl admitted_addrs_del [OF queue_okD(1) [OF q] w True] unfolding g'(2)
      by (simp add: slots_ok_def acct_def Let_def)
    moreover have "conserving s g'" using cons unfolding g'(2)
      by (auto simp: conserving_def waiting_def waiter_is_eligible_def address_has_capacity_def
          address_running_def split: if_splits)
    ultimately show ?thesis using True g'(1) by (simp add: sched_inv_def base_inv_def)
  next
    case False
    let ?v = "w\<lparr>wt_waker := Some cx\<rparr>"
    let ?ws = "(gs_waiters g)(i \<mapsto> ?v)"
    have g': "r = Waiting" "g' = g\<lparr>gs_waiters := ?ws\<rparr>"
      using poll False w by (auto simp: poll_acquire_def is_admitted_def)
    have "gqueue_ok s now g'" unfolding g' using queue_same [OF q w, of "Some ?v"] by simp
    moreover have "admitted_addrs ?ws = admitted_addrs (gs_waiters g)"
      using w False by (intro admitted_addrs_cong) (auto split: if_splits)
    then have "slots_ok s g' P" using sl unfolding g'(2) by (simp add: slots_ok_def acct_def Let_def)
    moreover have "conserving s g'"
    proof -
      have "waiter_is_eligible g' j m = waiter_is_eligible g j m" for j m
        unfolding g'(2) using w
        by (auto simp: waiter_is_eligible_def address_has_capacity_def address_running_def split: option.splits)
      moreover have "waiting g' j v \<Longrightarrow> \<exists>u. waiting g j u" for j v
        unfolding g'(2) using w False by (auto simp: waiting_def split: if_splits)
      ultimately show ?thesis using cons unfolding conserving_def g'(2) by auto
    qed
    ultimately show ?thesis using False g'(1) by (simp add: sched_inv_def base_inv_def)
  qed
qed

end
