(* ===== verification/Scheduler_Props.thy ===== *)
theory Scheduler_Props
  imports Scheduler_Inv
begin

text \<open>
  The request scheduler as a transition system, and its properties.
\<close>

section \<open>The system\<close>

text \<open>
  A state is the scheduler's state, the permits in use (by address) and the clock.  Callers poll new
  or pending acquisitions, drop permits, give up waiting, and ask whether there is capacity at all;
  \<open>alloc\<close> is the slab's choice of keys.
\<close>

type_synonym sched_state = "GlobalState \<times> Address multiset \<times> instant"

inductive sched_step ::
  "((usize \<Rightarrow> Waiter option) \<Rightarrow> usize) \<Rightarrow> RequestScheduler \<Rightarrow> sched_state \<Rightarrow> sched_state \<Rightarrow> bool"
  for alloc s where
  tick: "now \<le> now' \<Longrightarrow> sched_step alloc s (g, P, now) (g, P, now')"
| poll: "wid = None \<or> (\<exists>i. wid = Some i \<and> gs_waiters g i \<noteq> None) \<Longrightarrow>
     poll_acquire alloc s now cx a p wid g = (r, wid', g', woken) \<Longrightarrow>
     P' = (case r of Admitted permit \<Rightarrow> P + mset (case rap_address permit of Some b \<Rightarrow> [b] | None \<Rightarrow> []) | _ \<Rightarrow> P) \<Longrightarrow>
     sched_step alloc s (g, P, now) (g', P', now)"
| permit_dropped: "b \<in># P \<Longrightarrow> permit_drop s now (limited_permit b) g = (woken, g') \<Longrightarrow>
     sched_step alloc s (g, P, now) (g', P - {#b#}, now)"
| guard_dropped: "guard_drop s now wid g = (woken, g') \<Longrightarrow> sched_step alloc s (g, P, now) (g', P, now)"
| ready_polled: "scheduler_poll_ready s cx g = (ready, g') \<Longrightarrow> sched_step alloc s (g, P, now) (g', P, now)"

definition sched_reachable ::
  "((usize \<Rightarrow> Waiter option) \<Rightarrow> usize) \<Rightarrow> usize \<Rightarrow> usize \<Rightarrow> usize \<Rightarrow> sched_state \<Rightarrow> bool" where
  "sched_reachable alloc mt mp mq st \<longleftrightarrow>
     (sched_step alloc (fst (scheduler_new mt mp mq)))\<^sup>*\<^sup>* (snd (scheduler_new mt mp mq), {#}, 0) st"

text \<open>The contract of the slab: the key of a new entry is vacant.\<close>

definition fresh_keys :: "((usize \<Rightarrow> Waiter option) \<Rightarrow> usize) \<Rightarrow> bool" where
  "fresh_keys alloc \<longleftrightarrow> (\<forall>ws. finite (dom ws) \<longrightarrow> ws (alloc ws) = None)"

section \<open>Lemmas\<close>

lemma sched_inv_queue: "sched_inv s now g P \<Longrightarrow> gqueue_ok s now g"
  by (simp add: sched_inv_def base_inv_def)

lemma sched_inv_later: "sched_inv s now g P \<Longrightarrow> now \<le> now' \<Longrightarrow> sched_inv s now' g P"
  by (auto simp: sched_inv_def base_inv_def intro: queue_later)

lemma sched_step_inv:
  assumes "fresh_keys alloc" "sched_step alloc s (g, P, now) (g', P', now')" "sched_inv s now g P"
  shows "sched_inv s now' g' P'"
  using assms(2)
proof cases
  case tick
  then show ?thesis using assms(3) sched_inv_later by blast
next
  case (poll wid cx a p r wid' woken)
  show ?thesis
  proof (cases wid)
    case None
    have new: "gs_waiters g (alloc (gs_waiters g)) = None"
      using assms(1) queue_okD(1) [OF sched_inv_queue [OF assms(3)]] by (simp add: fresh_keys_def)
    note step = poll_acquire_fresh [of s now g P alloc cx a p, OF assms(3) new]
    show ?thesis
    proof (cases "can_run s g a \<or> rs_max_queued s \<le> gs_queued g")
      case True
      then show ?thesis using poll step None bump_inv [OF assms(3)] assms(3)
        by (auto simp: limited_permit_def split: if_splits)
    next
      case False
      then show ?thesis using poll step None enqueued_inv [of s now g P a alloc cx p, OF assms(3)] new by auto
    qed
  next
    case (Some i)
    then obtain w where w: "gs_waiters g i = Some w" using poll by auto
    show ?thesis
      using poll_acquire_again [OF assms(3) w poll(3) [unfolded Some]] poll
      by (auto simp: limited_permit_def split: if_splits)
  qed
next
  case (permit_dropped b woken)
  then have "P = add_mset b (P - {#b#})" by simp
  then have "sched_inv s now g (add_mset b (P - {#b#}))" using assms(3) by simp
  from release_inv [OF this, of now] show ?thesis
    using permit_dropped by (simp add: permit_drop_def limited_permit_def)
next
  case (guard_dropped wid woken)
  have "sched_inv s now (snd (guard_drop s now wid g)) P"
    using assms(3) cancel_inv [OF assms(3)] by (simp add: guard_drop_def split: option.split)
  then show ?thesis using guard_dropped by simp
next
  case (ready_polled cx ready)
  then show ?thesis using assms(3)
    by (auto simp: scheduler_poll_ready_def sched_inv_def split: if_splits)
qed

lemma sched_reachable_sched_inv:
  assumes "fresh_keys alloc" "sched_reachable alloc mt mp mq (g, P, now)"
  shows "sched_inv (fst (scheduler_new mt mp mq)) now g P"
proof -
  let ?s = "fst (scheduler_new mt mp mq)"
  have "case st of (g, P, now) \<Rightarrow> sched_inv ?s now g P"
    if "(sched_step alloc ?s)\<^sup>*\<^sup>* (snd (scheduler_new mt mp mq), {#}, 0) st" for st
    using that
  proof (induction rule: rtranclp_induct)
    case base
    show ?case
      by (simp add: scheduler_new_def sched_inv_def base_inv_def queue_ok_def slots_ok_def acct_def
          admitted_addrs_def conserving_def waiting_def)
  next
    case (step x y)
    obtain g1 P1 now1 g2 P2 now2 where "x = (g1, P1, now1)" "y = (g2, P2, now2)" by (cases x; cases y) auto
    then show ?case using step sched_step_inv [OF assms(1)] by auto
  qed
  from this [OF assms(2) [unfolded sched_reachable_def]] show ?thesis by simp
qed

lemma new_limits [simp]:
  "rs_max_total (fst (scheduler_new mt mp mq)) = mt"
  "rs_max_per_address (fst (scheduler_new mt mp mq)) = mp"
  "rs_max_queued (fst (scheduler_new mt mp mq)) = mq"
  by (simp_all add: scheduler_new_def)

text \<open>The two candidates of the selection: the best by urgency, and the oldest.\<close>

lemma select_waiter_order:
  assumes q: "gqueue_ok s now g" and sel: "select_waiter now g m = Some i"
    and j: "j \<in> set (gs_fifo g)" "waiter_is_eligible g j m"
  shows "i \<in> set (gs_fifo g) \<and> waiter_is_eligible g i m \<and>
    (if 8 \<le> gs_high_urgency_promotions g \<or>
        (\<exists>k \<in> set (gs_fifo g). waiter_is_eligible g k m \<and>
           millis 250 \<le> elapsed now (wt_enqueued_at (the (gs_waiters g k))))
     then wt_seq (the (gs_waiters g i)) \<le> wt_seq (the (gs_waiters g j))
     else (urgency (wt_priority (the (gs_waiters g i))), wt_seq (the (gs_waiters g i))) \<le>
          (urgency (wt_priority (the (gs_waiters g j))), wt_seq (the (gs_waiters g j))))"
proof -
  note D = queue_okD [OF q]
  let ?el = "\<lambda>i. waiter_is_eligible g i m" and ?w = "\<lambda>i. the (gs_waiters g i)"
  obtain best oldest where
    best: "List.find ?el (map (\<lambda>(_, _, i). i) (gs_ordered g)) = Some best"
    and oldest: "List.find ?el (gs_fifo g) = Some oldest"
    using sel by (auto simp: select_waiter_def split: option.splits)
  have old: "wt_seq (?w oldest) \<le> wt_seq (?w k) \<and> wt_enqueued_at (?w oldest) \<le> wt_enqueued_at (?w k)"
    if "k \<in> set (gs_fifo g)" "?el k" for k
    using find_sorted_wrt [OF oldest D(11) that] by auto
  have key: "k \<in> set (gs_fifo g) \<Longrightarrow> (urgency (wt_priority (?w k)), wt_seq (?w k), k) \<in> set (gs_ordered g)" for k
    using D(7) [of _ _ k] D(8) [of k] by auto
  have in_ord: "\<exists>u sq. (u, sq, best) \<in> set (gs_ordered g)" using find_SomeD [OF best] by auto
  then have best_fifo: "best \<in> set (gs_fifo g)" "?el best"
    using D(7) [of _ _ best] D(8) [of best] find_SomeD [OF best] by auto
  have bst: "(urgency (wt_priority (?w best)), wt_seq (?w best)) \<le> (urgency (wt_priority (?w k)), wt_seq (?w k))"
    if "k \<in> set (gs_fifo g)" "?el k" for k
  proof -
    let ?R = "\<lambda>i k. (urgency (wt_priority (?w i)), wt_seq (?w i)) \<le> (urgency (wt_priority (?w k)), wt_seq (?w k))"
    have "sorted_wrt (\<lambda>(u, sq, i) (u', sq', k). ?R i k) (gs_ordered g)"
      using D(2)
    proof (rule sorted_wrt_mono_rel [rotated], safe)
      fix u sq i u' sq' k
      assume "(u, sq, i) \<in> set (gs_ordered g)" "(u', sq', k) \<in> set (gs_ordered g)" "(u, sq, i) \<le> (u', sq', k)"
      then show "?R i k" using D(7) by fastforce
    qed
    then have "sorted_wrt ?R (map (\<lambda>(_, _, i). i) (gs_ordered g))"
      unfolding sorted_wrt_map by (rule sorted_wrt_mono_rel [rotated]) auto
    moreover have "k \<in> set (map (\<lambda>(_, _, i). i) (gs_ordered g))" using key [OF that(1)] by force
    ultimately show ?thesis using find_sorted_wrt [OF best _ _ that(2), of ?R] by auto
  qed
  have of: "oldest \<in> set (gs_fifo g)" "?el oldest" using find_SomeD [OF oldest] by simp_all
  let ?time = "millis 250 \<le> elapsed now (wt_enqueued_at (?w oldest))"
  let ?count = "8 \<le> gs_high_urgency_promotions g \<and> urgency (wt_priority (?w best)) < urgency (wt_priority (?w oldest))"
  have i: "i = (if oldest \<noteq> best \<and> (?time \<or> ?count) then oldest else best)"
    using sel best oldest
    by (auto simp: select_waiter_def Let_def AGING_WAIT_def HIGH_URGENCY_PROMOTIONS_BEFORE_AGING_def split: if_splits)
  have time: "?time" if "k \<in> set (gs_fifo g)" "?el k" "millis 250 \<le> elapsed now (wt_enqueued_at (?w k))" for k
    using old [OF that(1,2)] that(3) by (auto simp: elapsed_def)
  have count: "wt_seq (?w best) \<le> wt_seq (?w oldest)" if "\<not> urgency (wt_priority (?w best)) < urgency (wt_priority (?w oldest))"
    using bst [OF of] that by auto
  show ?thesis
  proof (cases "?time \<or> 8 \<le> gs_high_urgency_promotions g")
    case True
    have "wt_seq (?w i) \<le> wt_seq (?w oldest)" using i True count by (auto split: if_splits)
    then have "wt_seq (?w i) \<le> wt_seq (?w j)" using old [OF j] by simp
    moreover have "8 \<le> gs_high_urgency_promotions g \<or>
        (\<exists>k \<in> set (gs_fifo g). ?el k \<and> millis 250 \<le> elapsed now (wt_enqueued_at (?w k)))"
      using True of by blast
    ultimately show ?thesis using i of best_fifo by simp
  next
    case False
    then have "i = best" using i by simp
    moreover have "\<not> (8 \<le> gs_high_urgency_promotions g \<or>
        (\<exists>k \<in> set (gs_fifo g). ?el k \<and> millis 250 \<le> elapsed now (wt_enqueued_at (?w k))))"
      using False time by blast
    ultimately show ?thesis using bst [OF j] best_fifo by (simp only: if_False simp_thms)
  qed
qed

section \<open>An example state\<close>

text \<open>A slab that reuses the lowest vacant key; one request running, two queued.\<close>

definition lowest_vacant :: "(usize \<Rightarrow> Waiter option) \<Rightarrow> usize" where
  "lowest_vacant ws = (LEAST i. ws i = None)"

lemma fresh_lowest_vacant: "fresh_keys lowest_vacant"
  unfolding fresh_keys_def lowest_vacant_def
proof (intro allI impI)
  fix ws :: "usize \<Rightarrow> Waiter option" assume "finite (dom ws)"
  then obtain i where "i \<notin> dom ws" using ex_new_if_finite infinite_UNIV_nat by blast
  then show "ws (LEAST i. ws i = None) = None" by (intro LeastI [of "\<lambda>i. ws i = None" i]) auto
qed

lemma lowest_vacant_eval [simp]:
  "lowest_vacant (\<lambda>_. None) = 0" "lowest_vacant [0 \<mapsto> w] = 1"
  unfolding lowest_vacant_def by (auto intro!: Least_equality)

definition ex_waiter :: "string \<Rightarrow> nat \<Rightarrow> u64 \<Rightarrow> Waiter" where
  "ex_waiter host u sq = \<lparr>wt_waker = Some 0, wt_address = ex_address host, wt_priority = \<lparr>urgency = u\<rparr>,
     wt_seq = sq, wt_enqueued_at = 0, wt_admitted = False\<rparr>"

definition ex_sched :: GlobalState where
  "ex_sched = \<lparr>gs_global_running = 1, gs_queued = 2, gs_next_seq = 2, gs_high_urgency_promotions = 0,
     gs_waiters = [0 \<mapsto> ex_waiter ''b.t'' 3 0, 1 \<mapsto> ex_waiter ''c.t'' 0 1], gs_ordered = [(0, 1, 1), (3, 0, 0)],
     gs_fifo = [0, 1], gs_address_running = [ex_address ''a.t'' \<mapsto> 1], gs_ready_waiters = []\<rparr>"

lemmas sched_eval =
  poll_acquire_def has_global_capacity_def has_address_capacity_def address_running_def
  queue_blocks_priority_def bump_address_running_def enqueue_waiter_def try_promote_def is_admitted_def
  limited_permit_def scheduler_new_def ex_waiter_def insort_insert_key_def map_filter_simps

lemma ex_sched_reachable: "sched_reachable lowest_vacant 1 1 2 (ex_sched, {#ex_address ''a.t''#}, 0)"
proof -
  let ?s = "fst (scheduler_new 1 1 2)" and ?new = "snd (scheduler_new 1 1 2)"
  let ?one = "?new\<lparr>gs_global_running := 1, gs_address_running := [ex_address ''a.t'' \<mapsto> 1]\<rparr>"
  let ?two = "?one\<lparr>gs_queued := 1, gs_next_seq := 1, gs_waiters := [0 \<mapsto> ex_waiter ''b.t'' 3 0],
                   gs_ordered := [(3, 0, 0)], gs_fifo := [0]\<rparr>"
  let ?p = "poll_acquire lowest_vacant ?s 0 0"
  have 1: "?p (ex_address ''a.t'') \<lparr>urgency = 3\<rparr> None ?new = (Admitted (limited_permit (ex_address ''a.t'')), None, ?one, [])"
    by (simp add: sched_eval)
  have 2: "?p (ex_address ''b.t'') \<lparr>urgency = 3\<rparr> None ?one = (Waiting, Some 0, ?two, [])"
    by (simp add: sched_eval)
  have 3: "?p (ex_address ''c.t'') \<lparr>urgency = 0\<rparr> None ?two = (Waiting, Some 1, ex_sched, [])"
    by (simp add: sched_eval ex_sched_def fun_eq_iff)
  have "sched_step lowest_vacant ?s (?new, {#}, 0) (?one, {#ex_address ''a.t''#}, 0)"
    by (rule sched_step.poll [OF _ 1]) (simp_all add: limited_permit_def)
  moreover have "sched_step lowest_vacant ?s (?one, {#ex_address ''a.t''#}, 0) (?two, {#ex_address ''a.t''#}, 0)"
    by (rule sched_step.poll [OF _ 2]) simp_all
  moreover have "sched_step lowest_vacant ?s (?two, {#ex_address ''a.t''#}, 0) (ex_sched, {#ex_address ''a.t''#}, 0)"
    by (rule sched_step.poll [OF _ 3]) simp_all
  ultimately show ?thesis unfolding sched_reachable_def
    by (meson converse_rtranclp_into_rtranclp rtranclp.rtrancl_refl)
qed

section \<open>Properties\<close>

text \<open>
  C6.  Whatever the callers do, the permits in use never exceed the total limit or the limit of an
  address, the queue never exceeds its limit, and no slot is wasted: while there is a free slot in
  total, every queued request waits for its own address to get below its limit.
\<close>

theorem scheduler_limits:
  assumes "fresh_keys alloc" "sched_reachable alloc mt mp mq (g, P, now)"
  shows "size P \<le> mt \<and> count P a \<le> mp \<and> gs_queued g \<le> mq \<and> gs_queued g = length (gs_fifo g) \<and>
    (gs_global_running g < mt \<and> i \<in> set (gs_fifo g) \<longrightarrow>
       (\<exists>w. gs_waiters g i = Some w \<and> mp \<le> address_running g (wt_address w)))"
proof -
  let ?H = "P + admitted_addrs (gs_waiters g)"
  have inv: "sched_inv (fst (scheduler_new mt mp mq)) now g P" by (rule sched_reachable_sched_inv [OF assms])
  note D = queue_okD [OF sched_inv_queue [OF inv]]
  have "size ?H \<le> mt" "count ?H a \<le> mp"
    using inv by (simp_all add: sched_inv_def base_inv_def slots_ok_def Let_def)
  then have "size P \<le> mt" "count P a \<le> mp" by simp_all
  moreover have "\<exists>w. gs_waiters g i = Some w \<and> mp \<le> address_running g (wt_address w)"
    if cap: "gs_global_running g < mt" and mem: "i \<in> set (gs_fifo g)"
  proof -
    obtain w where w: "waiting g i w" using D(8) [of i] mem by (auto simp: waiting_def)
    then have "\<not> waiter_is_eligible g i mp" using inv cap by (auto simp: sched_inv_def conserving_def)
    then show ?thesis using w waiting_eligible [OF w] by (auto simp: waiting_def)
  qed
  ultimately show ?thesis using D(5,6) by simp
qed

theorem scheduler_limits_witness:
  "size {#ex_address ''a.t''#} \<le> (1 :: nat) \<and> gs_queued ex_sched \<le> 2"
  using scheduler_limits [OF fresh_lowest_vacant ex_sched_reachable, of "ex_address ''a.t''" 0] by blast

text \<open>
  A new request is admitted at once exactly when both limits leave room for it, is rejected with a
  capacity error exactly when they do not and the queue is full, and waits otherwise: queued requests
  never delay one that could run.
\<close>

theorem scheduler_admission:
  assumes "fresh_keys alloc" "sched_reachable alloc mt mp mq (g, P, now)"
  shows "fst (poll_acquire alloc (fst (scheduler_new mt mp mq)) now cx a p None g) =
    (if gs_global_running g < mt \<and> address_running g a < mp then Admitted (limited_permit a)
     else if gs_queued g = mq then Rejected (err_capacity ''request admission queue is full'')
     else Waiting)"
proof -
  have inv: "sched_inv (fst (scheduler_new mt mp mq)) now g P" by (rule sched_reachable_sched_inv [OF assms])
  note D = queue_okD [OF sched_inv_queue [OF inv]]
  have "gs_waiters g (alloc (gs_waiters g)) = None" using assms(1) D(1) by (simp add: fresh_keys_def)
  from poll_acquire_fresh [of _ now g P alloc cx a p, OF inv this] show ?thesis using D(6) by (auto simp: can_run_def)
qed

theorem scheduler_admission_witness:
  "fst (poll_acquire lowest_vacant (fst (scheduler_new 1 1 2)) 0 7 (ex_address ''d.t'') \<lparr>urgency = 1\<rparr> None ex_sched)
     = Rejected (err_capacity ''request admission queue is full'')"
  using scheduler_admission [OF fresh_lowest_vacant ex_sched_reachable, of 7 "ex_address ''d.t''" "\<lparr>urgency = 1\<rparr>"]
  by (simp add: ex_sched_def)

text \<open>
  C19.  The order of service: among the queued requests that could run, the scheduler promotes the most
  urgent one, the earlier first; but as soon as one of them has waited 250 ms, or eight urgent requests
  in a row were promoted, it promotes the earliest of them, whatever the urgency.
\<close>

theorem scheduler_order:
  assumes "fresh_keys alloc" "sched_reachable alloc mt mp mq (g, P, now)"
    and "select_waiter now g mp = Some i"
    and "j \<in> set (gs_fifo g)" "waiter_is_eligible g j mp"
  shows "i \<in> set (gs_fifo g) \<and> waiter_is_eligible g i mp \<and>
    (let w = the (gs_waiters g i); v = the (gs_waiters g j);
         aged = (8 \<le> gs_high_urgency_promotions g \<or>
           (\<exists>k \<in> set (gs_fifo g). waiter_is_eligible g k mp \<and>
              millis 250 \<le> elapsed now (wt_enqueued_at (the (gs_waiters g k)))))
     in if aged then wt_seq w \<le> wt_seq v
        else (urgency (wt_priority w), wt_seq w) \<le> (urgency (wt_priority v), wt_seq v))"
proof -
  have inv: "sched_inv (fst (scheduler_new mt mp mq)) now g P" by (rule sched_reachable_sched_inv [OF assms(1,2)])
  show ?thesis unfolding Let_def by (rule select_waiter_order [OF sched_inv_queue [OF inv] assms(3,4,5)])
qed

theorem scheduler_order_witness:
  "select_waiter 0 ex_sched 1 = Some 1 \<and> ((0 :: nat), (1 :: nat)) \<le> (3, 0)"
proof -
  have sel: "select_waiter 0 ex_sched 1 = Some 1"
    by (simp add: ex_sched_def select_waiter_def waiter_is_eligible_def address_has_capacity_def
        address_running_def ex_waiter_def ex_address_def elapsed_def AGING_WAIT_def millis_def
        HIGH_URGENCY_PROMOTIONS_BEFORE_AGING_def)
  have el: "0 \<in> set (gs_fifo ex_sched)" "waiter_is_eligible ex_sched 0 1"
    by (simp_all add: ex_sched_def waiter_is_eligible_def address_has_capacity_def address_running_def
        ex_waiter_def ex_address_def)
  from scheduler_order [OF fresh_lowest_vacant ex_sched_reachable sel el]
  show ?thesis using sel by (simp add: ex_sched_def ex_waiter_def Let_def elapsed_def millis_def)
qed

end
