(* ===== verification/Request_Body.thy ===== *)
theory Request_Body
  imports Wire_Error Http_Types
begin

text \<open>
  Request bodies (\<^verbatim>\<open>openwire-core/src/body.rs\<close>).  A streaming body is a boxed \<^verbatim>\<open>http_body::Body\<close> from
  outside; it is the list of the frames it will still produce, a frame being the data or the error its
  \<^verbatim>\<open>poll_frame\<close> returns, with the size hint it reports.
\<close>

section \<open>Model\<close>

type_synonym body_frame = "(WireError, bytes) result"

record boxed_body =
  bb_frames :: "body_frame list"
  bb_size_hint :: "u64 \<times> u64 option"

datatype RequestBodyPresence = Absent | Present

datatype RequestBodyInner =
    BodyEmpty
  | Replayable bytes bool
  | Streaming boxed_body

record RequestBody =
  rb_inner :: RequestBodyInner
  rb_replayable_len :: "u64 option"
  rb_presence :: RequestBodyPresence

definition body_absent :: RequestBody where
  "body_absent = \<lparr>rb_inner = BodyEmpty, rb_replayable_len = Some 0, rb_presence = Absent\<rparr>"

definition body_explicit_empty :: RequestBody where
  "body_explicit_empty = \<lparr>rb_inner = BodyEmpty, rb_replayable_len = Some 0, rb_presence = Present\<rparr>"

definition body_from_bytes :: "bytes \<Rightarrow> RequestBody" where
  "body_from_bytes bs =
     \<lparr>rb_inner = Replayable bs False, rb_replayable_len = Some (length bs), rb_presence = Present\<rparr>"

definition body_from_stream :: "boxed_body \<Rightarrow> RequestBody" where
  "body_from_stream stream =
     \<lparr>rb_inner = Streaming stream, rb_replayable_len = None, rb_presence = Present\<rparr>"

definition body_from_body :: "boxed_body \<Rightarrow> RequestBody" where
  "body_from_body b = \<lparr>rb_inner = Streaming b, rb_replayable_len = None, rb_presence = Present\<rparr>"

definition body_try_clone :: "RequestBody \<Rightarrow> RequestBody option" where
  "body_try_clone b =
     (case rb_inner b of
        BodyEmpty \<Rightarrow> Some (case rb_presence b of Absent \<Rightarrow> body_absent | Present \<Rightarrow> body_explicit_empty)
      | Replayable bs _ \<Rightarrow> Some (body_from_bytes bs)
      | Streaming _ \<Rightarrow> None)"

definition body_is_absent :: "RequestBody \<Rightarrow> bool" where
  "body_is_absent b \<longleftrightarrow> rb_presence b = Absent"

text \<open>\<^verbatim>\<open>poll_frame\<close>: the next frame, or nothing at the end, and the body after it.\<close>

definition body_poll_frame :: "RequestBody \<Rightarrow> body_frame option \<times> RequestBody" where
  "body_poll_frame b =
     (case rb_inner b of
        BodyEmpty \<Rightarrow> (None, b)
      | Replayable bs emitted \<Rightarrow>
          if emitted then (None, b)
          else (if bs = [] then None else Some (Inr bs), b\<lparr>rb_inner := Replayable bs True\<rparr>)
      | Streaming inner \<Rightarrow>
          (case bb_frames inner of
             [] \<Rightarrow> (None, b)
           | f # fs \<Rightarrow> (Some f, b\<lparr>rb_inner := Streaming (inner\<lparr>bb_frames := fs\<rparr>)\<rparr>)))"

definition body_is_end_stream :: "RequestBody \<Rightarrow> bool" where
  "body_is_end_stream b =
     (case rb_inner b of
        BodyEmpty \<Rightarrow> True
      | Replayable bs emitted \<Rightarrow> emitted \<or> bs = []
      | Streaming inner \<Rightarrow> bb_frames inner = [])"

definition body_size_hint :: "RequestBody \<Rightarrow> u64 \<times> u64 option" where
  "body_size_hint b =
     (case rb_inner b of
        BodyEmpty \<Rightarrow> (0, Some 0)
      | Replayable bs _ \<Rightarrow> (length bs, Some (length bs))
      | Streaming inner \<Rightarrow> bb_size_hint inner)"

section \<open>Specification\<close>

text \<open>The frames a reader that polls to the end sees.\<close>

definition body_rank :: "RequestBody \<Rightarrow> nat" where
  "body_rank b =
     (case rb_inner b of
        BodyEmpty \<Rightarrow> 0 | Replayable bs emitted \<Rightarrow> if emitted then 0 else 1 | Streaming inner \<Rightarrow> length (bb_frames inner))"

function body_frames :: "RequestBody \<Rightarrow> body_frame list" where
  "body_frames b = (case body_poll_frame b of (None, _) \<Rightarrow> [] | (Some f, b') \<Rightarrow> f # body_frames b')"
  by pat_completeness auto
termination
  by (relation "measure body_rank")
     (auto simp: body_poll_frame_def body_rank_def split: RequestBodyInner.splits if_splits list.splits)

declare body_frames.simps [simp del]

text \<open>A body as its constructors and its reader make it.\<close>

definition body_wf :: "RequestBody \<Rightarrow> bool" where
  "body_wf b \<longleftrightarrow>
     (case rb_inner b of
        BodyEmpty \<Rightarrow> rb_replayable_len b = Some 0
      | Replayable bs _ \<Rightarrow> rb_replayable_len b = Some (length bs) \<and> rb_presence b = Present
      | Streaming _ \<Rightarrow> rb_replayable_len b = None \<and> rb_presence b = Present)"

lemma body_wf_new [simp]:
  "body_wf body_absent" "body_wf body_explicit_empty" "body_wf (body_from_bytes bs)"
  "body_wf (body_from_stream s)" "body_wf (body_from_body s)"
  by (simp_all add: body_wf_def body_absent_def body_explicit_empty_def body_from_bytes_def
      body_from_stream_def body_from_body_def)

lemma body_wf_poll: "body_wf b \<Longrightarrow> body_wf (snd (body_poll_frame b))"
  by (auto simp: body_wf_def body_poll_frame_def split: RequestBodyInner.splits list.splits)

lemma body_frames_inner:
  "rb_inner b = BodyEmpty \<Longrightarrow> body_frames b = []"
  "rb_inner b = Replayable bs True \<Longrightarrow> body_frames b = []"
  by (subst body_frames.simps; simp add: body_poll_frame_def)+

lemma body_frames_replayable:
  "rb_inner b = Replayable bs False \<Longrightarrow> body_frames b = (if bs = [] then [] else [Inr bs])"
  by (subst body_frames.simps) (simp add: body_poll_frame_def body_frames_inner(2))

section \<open>Properties\<close>

lemma body_clone_stable:
  assumes "body_try_clone b = Some c"
  shows "body_try_clone c = Some c"
  using assms by (auto simp: body_try_clone_def body_absent_def body_explicit_empty_def body_from_bytes_def
      split: RequestBodyInner.splits RequestBodyPresence.splits)

lemma body_clone_absent [simp]: "body_try_clone body_absent = Some body_absent"
  by (simp add: body_try_clone_def body_absent_def)

text \<open>
  A body can be copied exactly when its length is known in advance.  Reading the body does not
  change that copy: it is always the complete body, with the length and the presence the original has,
  and what is left of the original is either the same frames or none.
\<close>

theorem body_clone_replays:
  assumes "body_wf b"
  shows "(body_try_clone b = None \<longleftrightarrow> rb_replayable_len b = None) \<and>
         body_try_clone (snd (body_poll_frame b)) = body_try_clone b \<and>
         (\<forall>c. body_try_clone b = Some c \<longrightarrow>
            body_wf c \<and> rb_presence c = rb_presence b \<and> body_try_clone c = Some c \<and>
            (\<exists>bs. rb_replayable_len b = Some (length bs) \<and> rb_replayable_len c = Some (length bs) \<and>
                  body_frames c = (if bs = [] then [] else [Inr bs]) \<and> body_frames b \<in> {body_frames c, []}))"
proof (cases "rb_inner b")
  case BodyEmpty
  then show ?thesis using assms
    by (auto simp: body_wf_def body_try_clone_def body_poll_frame_def body_absent_def body_explicit_empty_def
        body_frames_inner split: RequestBodyPresence.splits)
next
  case (Replayable bs emitted)
  then show ?thesis using assms
    by (cases emitted)
       (auto simp: body_wf_def body_try_clone_def body_poll_frame_def body_from_bytes_def
          body_frames_inner body_frames_replayable)
next
  case (Streaming inner)
  then show ?thesis using assms
    by (auto simp: body_wf_def body_try_clone_def body_poll_frame_def split: list.splits)
qed

theorem body_clone_replays_witness:
  "body_try_clone (snd (body_poll_frame (body_from_bytes [1, 2]))) = Some (body_from_bytes [1, 2])"
proof -
  have "body_try_clone (snd (body_poll_frame (body_from_bytes [1, 2]))) = body_try_clone (body_from_bytes [1, 2])"
    using body_clone_replays [OF body_wf_new(3), of "[1, 2]"] by blast
  also have "\<dots> = Some (body_from_bytes [1, 2])" by (simp add: body_try_clone_def body_from_bytes_def)
  finally show ?thesis .
qed

end
