(* ===== verification/Policy_Defaults.thy ===== *)
theory Policy_Defaults
  imports Wire_Error Http_Types
begin

text \<open>
  The retry and redirect policies (\<^verbatim>\<open>openwire/src/policy/defaults.rs\<close>) and the contexts they decide on
  (\<^verbatim>\<open>openwire-core/src/policy.rs\<close>).  \<^verbatim>\<open>Method::is_idempotent\<close> of the \<^verbatim>\<open>http\<close> crate is the parameter
  \<open>idem\<close>.  A policy supplied by the application is a function on the context.
\<close>

section \<open>Contexts and decisions\<close>

record RetryContext =
  rc_error :: WireError
  rc_attempt :: u32
  rc_is_body_replayable :: bool
  rc_request_method :: http_method

datatype RetryAfter = RetryImmediate | RetryDelayed | RetryInvalid

record ResponseRetryContext =
  rrc_response_status :: nat
  rrc_retry_count :: u32
  rrc_is_body_replayable :: bool
  rrc_request_method :: http_method
  rrc_retry_after :: "RetryAfter option"

record RedirectContext =
  rdc_request_method :: http_method
  rdc_request_uri :: uri
  rdc_response_status :: nat
  rdc_location :: uri
  rdc_redirect_count :: u32
  rdc_is_body_replayable :: bool

datatype RedirectDecision = RedirectFollow | RedirectStop | RedirectError WireError

section \<open>Retries\<close>

record DefaultRetryPolicy =
  dr_retry_on_connection_failure :: bool
  dr_max_retries :: usize
  dr_retry_canceled_requests :: bool
  dr_retry_non_idempotent :: bool

definition default_retry_policy :: DefaultRetryPolicy where
  "default_retry_policy =
     \<lparr>dr_retry_on_connection_failure = True, dr_max_retries = 1, dr_retry_canceled_requests = False,
      dr_retry_non_idempotent = False\<rparr>"

definition set_retry_on_connection_failure :: "bool \<Rightarrow> DefaultRetryPolicy \<Rightarrow> DefaultRetryPolicy" where
  "set_retry_on_connection_failure b p = p\<lparr>dr_retry_on_connection_failure := b\<rparr>"

definition set_max_retries :: "usize \<Rightarrow> DefaultRetryPolicy \<Rightarrow> DefaultRetryPolicy" where
  "set_max_retries n p = p\<lparr>dr_max_retries := n\<rparr>"

definition set_retry_canceled_requests :: "bool \<Rightarrow> DefaultRetryPolicy \<Rightarrow> DefaultRetryPolicy" where
  "set_retry_canceled_requests b p = p\<lparr>dr_retry_canceled_requests := b\<rparr>"

definition set_retry_non_idempotent :: "bool \<Rightarrow> DefaultRetryPolicy \<Rightarrow> DefaultRetryPolicy" where
  "set_retry_non_idempotent b p = p\<lparr>dr_retry_non_idempotent := b\<rparr>"

text \<open>The three tables of \<^verbatim>\<open>should_retry\<close>, in the order the source tries them.\<close>

definition retry_by_phase :: "DefaultRetryPolicy \<Rightarrow> WireError \<Rightarrow> string option" where
  "retry_by_phase p e =
     (let on = dr_retry_on_connection_failure p in
      case (we_kind e, we_phase e) of
        (KDns, PDns) \<Rightarrow> if on then Some ''dns'' else None
      | (KConnect, PTcp) \<Rightarrow> if on \<and> \<not> is_non_retryable_connect e then Some ''connect'' else None
      | (KConnect, PProxyTunnel) \<Rightarrow> if on \<and> is_retryable_establishment e then Some ''connect'' else None
      | (KTls, PTls) \<Rightarrow> if on \<and> is_retryable_establishment e then Some ''tls'' else None
      | (KProtocol, PProtocolBinding) \<Rightarrow> if on \<and> is_retryable_establishment e then Some ''connect'' else None
      | (KTimeout, PTcp) \<Rightarrow> if on then Some ''connect_timeout'' else None
      | (KTimeout, PProxyTunnel) \<Rightarrow> if on then Some ''connect_timeout'' else None
      | _ \<Rightarrow> None)"

definition retry_by_stage :: "DefaultRetryPolicy \<Rightarrow> WireError \<Rightarrow> EstablishmentStage \<Rightarrow> string option" where
  "retry_by_stage p e stage =
     (let on = (\<lambda>reason. if dr_retry_on_connection_failure p then Some reason else None) in
      case stage of
        EDns \<Rightarrow> if is_retryable_establishment e then on ''dns'' else None
      | ETcp \<Rightarrow> if is_connect_timeout e then on ''connect_timeout''
                else if is_retryable_establishment e then on ''connect'' else None
      | EProtocolBinding \<Rightarrow> if is_retryable_establishment e then on ''connect'' else None
      | ETls \<Rightarrow> if is_retryable_establishment e then on ''tls'' else None
      | ERouteExhausted \<Rightarrow> if is_retryable_establishment e then on ''connect'' else None
      | EProxyTunnel \<Rightarrow> if is_retryable_establishment e then on ''connect'' else None)"

definition retry_by_kind :: "DefaultRetryPolicy \<Rightarrow> WireError \<Rightarrow> string option" where
  "retry_by_kind p e =
     (let on = dr_retry_on_connection_failure p in
      case we_kind e of
        KCanceled \<Rightarrow> if dr_retry_canceled_requests p then Some ''canceled'' else None
      | KDns \<Rightarrow> if on then Some ''dns'' else None
      | KConnect \<Rightarrow> if on \<and> \<not> is_non_retryable_connect e then Some ''connect'' else None
      | KTls \<Rightarrow> if on then Some ''tls'' else None
      | KTimeout \<Rightarrow> if on \<and> is_connect_timeout e then Some ''connect_timeout'' else None
      | _ \<Rightarrow> None)"

definition should_retry :: "(http_method \<Rightarrow> bool) \<Rightarrow> DefaultRetryPolicy \<Rightarrow> RetryContext \<Rightarrow> string option" where
  "should_retry idem p ctx =
     (if \<not> rc_is_body_replayable ctx \<or> rc_attempt ctx \<ge> dr_max_retries p then None
      else let e = rc_error ctx in
        if request_committed e \<and> \<not> idem (rc_request_method ctx) then None
        else case retry_by_phase p e of
          Some reason \<Rightarrow> Some reason
        | None \<Rightarrow>
            (case establishment_stage e of
               Some stage \<Rightarrow> retry_by_stage p e stage
             | None \<Rightarrow> retry_by_kind p e))"

definition should_retry_response ::
  "(http_method \<Rightarrow> bool) \<Rightarrow> DefaultRetryPolicy \<Rightarrow> ResponseRetryContext \<Rightarrow> string option" where
  "should_retry_response idem p ctx =
     (if \<not> rrc_is_body_replayable ctx \<or> rrc_retry_count ctx \<ge> dr_max_retries p then None
      else if \<not> idem (rrc_request_method ctx) \<and> \<not> dr_retry_non_idempotent p then None
      else if rrc_response_status ctx = 408 \<and> dr_retry_on_connection_failure p \<and>
              rrc_retry_after ctx \<notin> {Some RetryDelayed, Some RetryInvalid} then Some ''http_408''
      else if rrc_response_status ctx = 503 \<and> rrc_retry_after ctx = Some RetryImmediate then Some ''http_503''
      else None)"

record CustomRetryPolicy =
  crp_should_retry :: "RetryContext \<Rightarrow> string option"
  crp_should_retry_response :: "ResponseRetryContext \<Rightarrow> string option"

record RetryPolicyConfig =
  rpc_default :: DefaultRetryPolicy
  rpc_custom :: "CustomRetryPolicy option"

definition retry_default_mut :: "(DefaultRetryPolicy \<Rightarrow> DefaultRetryPolicy) \<Rightarrow> RetryPolicyConfig \<Rightarrow> RetryPolicyConfig" where
  "retry_default_mut f c = \<lparr>rpc_default = f (rpc_default c), rpc_custom = None\<rparr>"

definition retry_set_custom :: "CustomRetryPolicy \<Rightarrow> RetryPolicyConfig \<Rightarrow> RetryPolicyConfig" where
  "retry_set_custom p c = c\<lparr>rpc_custom := Some p\<rparr>"

definition retry_has_custom_policy :: "RetryPolicyConfig \<Rightarrow> bool" where
  "retry_has_custom_policy c \<longleftrightarrow> rpc_custom c \<noteq> None"

text \<open>\<^verbatim>\<open>policy()\<close>: the decisions of the custom policy when there is one.\<close>

definition config_should_retry :: "(http_method \<Rightarrow> bool) \<Rightarrow> RetryPolicyConfig \<Rightarrow> RetryContext \<Rightarrow> string option" where
  "config_should_retry idem c ctx =
     (case rpc_custom c of Some p \<Rightarrow> crp_should_retry p ctx | None \<Rightarrow> should_retry idem (rpc_default c) ctx)"

definition config_should_retry_response ::
  "(http_method \<Rightarrow> bool) \<Rightarrow> RetryPolicyConfig \<Rightarrow> ResponseRetryContext \<Rightarrow> string option" where
  "config_should_retry_response idem c ctx =
     (case rpc_custom c of
        Some p \<Rightarrow> crp_should_retry_response p ctx | None \<Rightarrow> should_retry_response idem (rpc_default c) ctx)"

section \<open>Redirects\<close>

record DefaultRedirectPolicy =
  dp_follow_redirects :: bool
  dp_max_redirects :: usize
  dp_allow_insecure_redirects :: bool

definition default_redirect_policy :: DefaultRedirectPolicy where
  "default_redirect_policy =
     \<lparr>dp_follow_redirects = True, dp_max_redirects = 10, dp_allow_insecure_redirects = False\<rparr>"

definition set_follow_redirects :: "bool \<Rightarrow> DefaultRedirectPolicy \<Rightarrow> DefaultRedirectPolicy" where
  "set_follow_redirects b p = p\<lparr>dp_follow_redirects := b\<rparr>"

definition set_max_redirects :: "usize \<Rightarrow> DefaultRedirectPolicy \<Rightarrow> DefaultRedirectPolicy" where
  "set_max_redirects n p = p\<lparr>dp_max_redirects := n\<rparr>"

definition set_allow_insecure_redirects :: "bool \<Rightarrow> DefaultRedirectPolicy \<Rightarrow> DefaultRedirectPolicy" where
  "set_allow_insecure_redirects b p = p\<lparr>dp_allow_insecure_redirects := b\<rparr>"

definition is_redirect_status :: "nat \<Rightarrow> bool" where
  "is_redirect_status status \<longleftrightarrow> status \<in> {301, 302, 303, 307, 308}"

definition should_redirect :: "DefaultRedirectPolicy \<Rightarrow> RedirectContext \<Rightarrow> RedirectDecision" where
  "should_redirect p ctx =
     (if \<not> dp_follow_redirects p \<or> \<not> is_redirect_status (rdc_response_status ctx) then RedirectStop
      else if rdc_redirect_count ctx \<ge> dp_max_redirects p then
        RedirectError (with_response_status (rdc_response_status ctx)
          (err_redirect (''too many redirects (max '' @ show_nat (dp_max_redirects p) @ '')'')))
      else if \<not> dp_allow_insecure_redirects p \<and> uri_scheme_str (rdc_request_uri ctx) = Some ''https'' \<and>
              uri_scheme_str (rdc_location ctx) = Some ''http'' then
        RedirectError (with_response_status (rdc_response_status ctx)
          (err_redirect (''refusing insecure redirect from '' @ uri_text (rdc_request_uri ctx) @ '' to '' @
                         uri_text (rdc_location ctx))))
      else RedirectFollow)"

record RedirectPolicyConfig =
  rdp_default :: DefaultRedirectPolicy
  rdp_custom :: "(RedirectContext \<Rightarrow> RedirectDecision) option"

definition redirect_default_mut ::
  "(DefaultRedirectPolicy \<Rightarrow> DefaultRedirectPolicy) \<Rightarrow> RedirectPolicyConfig \<Rightarrow> RedirectPolicyConfig" where
  "redirect_default_mut f c = \<lparr>rdp_default = f (rdp_default c), rdp_custom = None\<rparr>"

definition redirect_set_custom :: "(RedirectContext \<Rightarrow> RedirectDecision) \<Rightarrow> RedirectPolicyConfig \<Rightarrow> RedirectPolicyConfig" where
  "redirect_set_custom p c = c\<lparr>rdp_custom := Some p\<rparr>"

definition redirect_has_custom_policy :: "RedirectPolicyConfig \<Rightarrow> bool" where
  "redirect_has_custom_policy c \<longleftrightarrow> rdp_custom c \<noteq> None"

definition redirect_default_policy :: "RedirectPolicyConfig \<Rightarrow> DefaultRedirectPolicy option" where
  "redirect_default_policy c = (if rdp_custom c = None then Some (rdp_default c) else None)"

definition config_should_redirect :: "RedirectPolicyConfig \<Rightarrow> RedirectContext \<Rightarrow> RedirectDecision" where
  "config_should_redirect c ctx =
     (case rdp_custom c of Some p \<Rightarrow> p ctx | None \<Rightarrow> should_redirect (rdp_default c) ctx)"

section \<open>Properties\<close>

text \<open>
  What the default policy retries: a request whose body can be sent again, below the limit, that
  was either not committed to the connection or is idempotent; and the failure is a connection failure
  with no verdict against retrying, or a cancellation the application asked to retry.  A coherent error
  whose establishment is marked as not retryable is never retried, save for a failed name resolution,
  an exhausted route or a timed-out connect.
\<close>

theorem should_retry_safe:
  assumes "should_retry idem p ctx = Some reason"
  shows "rc_is_body_replayable ctx \<and> rc_attempt ctx < dr_max_retries p \<and>
    (request_committed (rc_error ctx) \<longrightarrow> idem (rc_request_method ctx)) \<and>
    (dr_retry_on_connection_failure p \<or>
     dr_retry_canceled_requests p \<and> we_kind (rc_error ctx) = KCanceled \<and> reason = ''canceled'') \<and>
    (coherent_error (rc_error ctx) \<and> we_establishment (rc_error ctx) = Some c \<and> \<not> ec_retryable c \<longrightarrow>
       we_kind (rc_error ctx) = KDns \<and> ec_stage c = EDns \<or>
       we_kind (rc_error ctx) = KConnect \<and> ec_stage c = ERouteExhausted \<or>
       we_kind (rc_error ctx) = KTimeout \<and> ec_stage c \<in> {ETcp, ERouteExhausted, EProxyTunnel})"
proof -
  have g: "rc_is_body_replayable ctx" "rc_attempt ctx < dr_max_retries p"
    "request_committed (rc_error ctx) \<longrightarrow> idem (rc_request_method ctx)"
    using assms by (auto simp: should_retry_def Let_def split: if_splits)
  let ?e = "rc_error ctx"
  consider (phase) "retry_by_phase p ?e = Some reason"
    | (stage) st where "establishment_stage ?e = Some st" "retry_by_stage p ?e st = Some reason"
    | (kind) "establishment_stage ?e = None" "retry_by_kind p ?e = Some reason"
    using assms by (auto simp: should_retry_def Let_def split: if_splits option.splits)
  then show ?thesis
  proof cases
    case phase
    then have "dr_retry_on_connection_failure p"
      by (auto simp: retry_by_phase_def Let_def split: WireErrorKind.splits FailurePhase.splits if_splits)
    moreover have "we_kind ?e = KDns \<and> ec_stage c = EDns \<or> we_kind ?e = KConnect \<and> ec_stage c = ERouteExhausted \<or>
        we_kind ?e = KTimeout \<and> ec_stage c \<in> {ETcp, ERouteExhausted, EProxyTunnel}"
      if "coherent_error ?e" "we_establishment ?e = Some c" "\<not> ec_retryable c"
      using phase that
      by (cases "ec_stage c")
         (auto simp: retry_by_phase_def Let_def coherent_error_def is_retryable_establishment_def
            is_non_retryable_connect_def split: WireErrorKind.splits FailurePhase.splits if_splits)
    ultimately show ?thesis using g by blast
  next
    case stage
    then have "dr_retry_on_connection_failure p"
      by (auto simp: retry_by_stage_def Let_def split: EstablishmentStage.splits if_splits)
    moreover have "ec_retryable c" if "coherent_error ?e" "we_establishment ?e = Some c"
      using stage that
      by (auto simp: retry_by_stage_def Let_def coherent_error_def is_retryable_establishment_def
          is_connect_timeout_def split: EstablishmentStage.splits if_splits)
    ultimately show ?thesis using g by blast
  next
    case kind
    then have "we_establishment ?e = None" by (simp add: establishment_stage_def)
    moreover have "dr_retry_on_connection_failure p \<or>
        dr_retry_canceled_requests p \<and> we_kind ?e = KCanceled \<and> reason = ''canceled''"
      using kind(2) by (auto simp: retry_by_kind_def Let_def split: WireErrorKind.splits if_splits)
    ultimately show ?thesis using g by simp
  qed
qed

theorem should_retry_safe_witness:
  "should_retry rfc9110_idempotent default_retry_policy
     \<lparr>rc_error = err_dns ''lookup failed'' ''nx'', rc_attempt = 0, rc_is_body_replayable = True,
      rc_request_method = POST\<rparr> = Some ''dns'' \<and> (0 :: nat) < dr_max_retries default_retry_policy"
proof -
  have r: "should_retry rfc9110_idempotent default_retry_policy
     \<lparr>rc_error = err_dns ''lookup failed'' ''nx'', rc_attempt = 0, rc_is_body_replayable = True,
      rc_request_method = POST\<rparr> = Some ''dns''"
    by (simp add: should_retry_def default_retry_policy_def Let_def retry_by_phase_def wire_error_ctor_defs
        wire_error_base_defs wire_error_query_defs)
  from should_retry_safe [OF r] show ?thesis using r by simp
qed

lemma should_redirect_iff:
  "should_redirect p ctx = RedirectFollow \<longleftrightarrow>
     dp_follow_redirects p \<and> rdc_response_status ctx \<in> {301, 302, 303, 307, 308} \<and>
     rdc_redirect_count ctx < dp_max_redirects p \<and>
     (uri_scheme_str (rdc_request_uri ctx) = Some ''https'' \<and> uri_scheme_str (rdc_location ctx) = Some ''http'' \<longrightarrow>
        dp_allow_insecure_redirects p)"
  by (auto simp: should_redirect_def is_redirect_status_def)

end
