(* ===== verification/Exchange_Finder.thy ===== *)
theory Exchange_Finder
  imports Pool_Props
begin

text \<open>
  Address resolution and connection bookkeeping of one exchange
  (\<^verbatim>\<open>openwire/src/connection/exchange_finder.rs\<close>).  The proxy selector (a trait object) is the parameter
  \<open>select\<close>; the pool operations are those of the theory of the pool, with its parameters: the hash of
  addresses and the clock.  Creating a connection puts it at a heap cell the caller names.
\<close>

section \<open>Model\<close>

record ResolvedAddress =
  ra_address :: Address
  ra_selected_proxy :: "SelectedProxy option"

datatype PreparedExchangeOutcome = PoolHit usize cref | PoolMiss

record PreparedExchange =
  pe_addresses :: "ResolvedAddress list"
  pe_outcome :: PreparedExchangeOutcome

record ObservedConnection =
  oc_connection :: cref
  oc_reused :: bool

record ConnectionInfo =
  ci_id :: u64
  ci_remote_addr :: "socket_addr option"
  ci_local_addr :: "socket_addr option"
  ci_tls :: bool

definition pooled_address :: "PreparedExchange \<Rightarrow> ResolvedAddress option" where
  "pooled_address pe =
     (case pe_outcome pe of
        PoolHit i _ \<Rightarrow> if i < length (pe_addresses pe) then Some (pe_addresses pe ! i) else None
      | PoolMiss \<Rightarrow> None)"

definition pool_hit :: "PreparedExchange \<Rightarrow> bool" where
  "pool_hit pe \<longleftrightarrow> (case pe_outcome pe of PoolHit _ _ \<Rightarrow> True | PoolMiss \<Rightarrow> False)"

definition reserved_connection :: "PreparedExchange \<Rightarrow> cref option" where
  "reserved_connection pe = (case pe_outcome pe of PoolHit _ c \<Rightarrow> Some c | PoolMiss \<Rightarrow> None)"

definition pool_connection_id :: "ConnectionPool \<Rightarrow> PreparedExchange \<Rightarrow> u64 option" where
  "pool_connection_id p pe = map_option (\<lambda>c. rc_id (cpl_heap p c)) (reserved_connection pe)"

text \<open>The loop of \<^verbatim>\<open>resolve_addresses\<close>: stop at the first error, skip what is already there.\<close>

fun resolve_loop ::
  "uri \<Rightarrow> ResolvedAddress list \<Rightarrow> SelectedProxy option list \<Rightarrow> (WireError, ResolvedAddress list) result" where
  "resolve_loop u acc [] = Inr acc"
| "resolve_loop u acc (sp # sps) =
     (case address_from_uri u sp of
        Inl e \<Rightarrow> Inl e
      | Inr a \<Rightarrow>
          let resolved = \<lparr>ra_address = a, ra_selected_proxy = sp\<rparr> in
          resolve_loop u
            (if list_ex (\<lambda>candidate. ra_address candidate = ra_address resolved \<and>
                                      ra_selected_proxy candidate = ra_selected_proxy resolved) acc
             then acc else acc @ [resolved]) sps)"

definition resolve_addresses ::
  "(uri \<Rightarrow> (WireError, ProxyChoice list) result) \<Rightarrow> uri \<Rightarrow> SelectedProxy option \<Rightarrow>
     (WireError, ResolvedAddress list) result" where
  "resolve_addresses select u sticky_proxy =
     (case select u of
        Inl e \<Rightarrow> Inl e
      | Inr selection \<Rightarrow>
          (case resolve_loop u [] (resolved_proxy_candidates_with_sticky selection sticky_proxy) of
             Inl e \<Rightarrow> Inl e
           | Inr addresses \<Rightarrow>
               if addresses = [] then
                 (case address_from_uri u None of
                    Inl e \<Rightarrow> Inl e
                  | Inr a \<Rightarrow> Inr [\<lparr>ra_address = a, ra_selected_proxy = None\<rparr>])
               else Inr addresses))"

definition finder_prepare ::
  "(uri \<Rightarrow> (WireError, ProxyChoice list) result) \<Rightarrow> uri \<Rightarrow> ResolvedAddress list option \<Rightarrow> SelectedProxy option \<Rightarrow>
     (WireError, PreparedExchange) result" where
  "finder_prepare select u cached sticky_proxy =
     (case (case cached of Some c \<Rightarrow> Inr c | None \<Rightarrow> resolve_addresses select u sticky_proxy) of
        Inl e \<Rightarrow> Inl e
      | Inr addresses \<Rightarrow> Inr \<lparr>pe_addresses = addresses, pe_outcome = PoolMiss\<rparr>)"

definition first_acquirable_index :: "(Address \<Rightarrow> nat) \<Rightarrow> ConnectionPool \<Rightarrow> ResolvedAddress list \<Rightarrow> usize option" where
  "first_acquirable_index fx p addresses =
     position (\<lambda>resolved. has_acquirable_connection fx (ra_address resolved) p) addresses"

text \<open>
  \<^verbatim>\<open>observe_connection\<close>; the value \<^term>\<open>None\<close> is the panic of \<^verbatim>\<open>expect\<close> when there is no address.
\<close>

definition observe_new ::
  "(Address \<Rightarrow> nat) \<Rightarrow> instant \<Rightarrow> cref \<Rightarrow> PreparedExchange \<Rightarrow> ConnectionInfo \<Rightarrow> ConnectionProtocol \<Rightarrow>
     ConnectionPool \<Rightarrow> (ConnectionPool \<times> ObservedConnection) option" where
  "observe_new fx now fresh prepared info protocol p =
     (case (case pooled_address prepared of
              Some r \<Rightarrow> Some r
            | None \<Rightarrow> (case pe_addresses prepared of [] \<Rightarrow> None | r # _ \<Rightarrow> Some r)) of
        None \<Rightarrow> None
      | Some resolved \<Rightarrow>
          let observed_address = ra_address resolved in
          (case acquire_by_id fx now observed_address (ci_id info) p of
             (p1, Some existing) \<Rightarrow> Some (p1, \<lparr>oc_connection = existing, oc_reused = True\<rparr>)
           | (p1, None) \<Rightarrow>
               let route = route_from_observed observed_address (ci_remote_addr info);
                   connection = snd (rc_try_acquire (real_connection_with_id now (ci_id info) route protocol));
                   p2 = p1\<lparr>cpl_heap := (cpl_heap p1)(fresh := connection)\<rparr>
               in Some (pool_insert fx now fresh p2, \<lparr>oc_connection = fresh, oc_reused = False\<rparr>)))"

definition observe_connection ::
  "(Address \<Rightarrow> nat) \<Rightarrow> instant \<Rightarrow> cref \<Rightarrow> PreparedExchange \<Rightarrow> ConnectionInfo \<Rightarrow> ConnectionProtocol \<Rightarrow>
     ConnectionPool \<Rightarrow> (ConnectionPool \<times> ObservedConnection) option" where
  "observe_connection fx now fresh prepared info protocol p =
     (case reserved_connection prepared of
        Some reserved \<Rightarrow>
          if rc_id (cpl_heap p reserved) = ci_id info
          then Some (p, \<lparr>oc_connection = reserved, oc_reused = True\<rparr>)
          else observe_new fx now fresh prepared info protocol (fst (pool_remove fx (rc_id (cpl_heap p reserved)) p))
      | None \<Rightarrow> observe_new fx now fresh prepared info protocol p)"

definition finder_release :: "(Address \<Rightarrow> nat) \<Rightarrow> instant \<Rightarrow> cref \<Rightarrow> ConnectionPool \<Rightarrow> ConnectionPool \<times> bool" where
  "finder_release fx now c p = pool_release fx now c p"

definition discard_prepared :: "(Address \<Rightarrow> nat) \<Rightarrow> PreparedExchange \<Rightarrow> ConnectionPool \<Rightarrow> ConnectionPool" where
  "discard_prepared fx prepared p =
     (case reserved_connection prepared of
        Some c \<Rightarrow> fst (pool_remove fx (rc_id (cpl_heap p c)) p)
      | None \<Rightarrow> p)"

section \<open>Lemmas\<close>

lemma resolve_loop_Inr:
  assumes "resolve_loop u acc sps = Inr rs" "distinct (map ra_selected_proxy acc)" "distinct sps"
    "set (map ra_selected_proxy acc) \<inter> set sps = {}"
  shows "\<exists>xs. rs = acc @ xs \<and> map ra_selected_proxy xs = sps \<and>
           (\<forall>r \<in> set xs. address_from_uri u (ra_selected_proxy r) = Inr (ra_address r))"
  using assms
proof (induction u acc sps arbitrary: rs rule: resolve_loop.induct)
  case (2 u acc sp sps)
  obtain a where a: "address_from_uri u sp = Inr a" using "2.prems"(1) by (auto split: sum.splits)
  let ?r = "\<lparr>ra_address = a, ra_selected_proxy = sp\<rparr>"
  have new: "\<not> list_ex (\<lambda>c. ra_address c = a \<and> ra_selected_proxy c = sp) acc"
    using "2.prems"(4) by (auto simp: list_ex_iff)
  then have "resolve_loop u (acc @ [?r]) sps = Inr rs" using "2.prems"(1) a by simp
  then have "\<exists>xs. rs = (acc @ [?r]) @ xs \<and> map ra_selected_proxy xs = sps \<and>
      (\<forall>r \<in> set xs. address_from_uri u (ra_selected_proxy r) = Inr (ra_address r))"
    using "2.IH" [OF a refl, of rs] new "2.prems" by auto
  then obtain xs where xs: "rs = (acc @ [?r]) @ xs" "map ra_selected_proxy xs = sps"
    "\<forall>r \<in> set xs. address_from_uri u (ra_selected_proxy r) = Inr (ra_address r)" by blast
  have "rs = acc @ (?r # xs)" "map ra_selected_proxy (?r # xs) = sp # sps" using xs by simp_all
  moreover have "address_from_uri u (ra_selected_proxy r) = Inr (ra_address r)" if "r \<in> set (?r # xs)" for r
  proof (cases "r = ?r")
    case False
    then show ?thesis using that xs(3) by simp
  qed (simp add: a)
  ultimately show ?case by (intro exI [of _ "?r # xs"] conjI ballI)
qed simp

section \<open>Properties\<close>

text \<open>
  The addresses of a request are one per proxy candidate, in the order of the candidates (the
  sticky proxy first when it is among them), each the address of the request's URI behind that proxy;
  there is at least one and none occurs twice.
\<close>

theorem resolve_addresses_correct:
  assumes "select u = Inr selection" "resolve_addresses select u sticky = Inr rs"
  shows "rs \<noteq> [] \<and> distinct rs \<and>
    map ra_selected_proxy rs = resolved_proxy_candidates_with_sticky selection sticky \<and>
    (\<forall>r \<in> set rs. address_from_uri u (ra_selected_proxy r) = Inr (ra_address r)) \<and>
    (\<forall>s. sticky = Some s \<and> (\<exists>sp. ViaProxy sp \<in> set selection \<and> same_endpoint (selected_proxy sp) s) \<longrightarrow>
       (\<exists>sp. ra_selected_proxy (hd rs) = Some sp \<and> same_endpoint sp s))"
proof -
  let ?cs = "resolved_proxy_candidates_with_sticky selection sticky"
  have cs: "?cs \<noteq> []" "distinct ?cs" "set ?cs = (if selection = [] then {None} else choice_candidate ` set selection)"
    and first: "\<And>s. sticky = Some s \<Longrightarrow> \<exists>sp. Some sp \<in> set ?cs \<and> same_endpoint sp s \<Longrightarrow>
      \<exists>sp. hd ?cs = Some sp \<and> same_endpoint sp s"
    using resolved_candidates_sticky_first [of selection sticky] by (simp_all add: Let_def)
  obtain rs' where loop: "resolve_loop u [] ?cs = Inr rs'"
    using assms by (auto simp: resolve_addresses_def split: sum.splits)
  then have xs: "map ra_selected_proxy rs' = ?cs"
    "\<forall>r \<in> set rs'. address_from_uri u (ra_selected_proxy r) = Inr (ra_address r)"
    using resolve_loop_Inr [OF loop] cs(2) by auto
  then have "rs' \<noteq> []" using cs(1) by auto
  then have rs: "rs = rs'" using assms loop by (simp add: resolve_addresses_def)
  have "distinct rs" using xs(1) cs(2) rs distinct_map by metis
  moreover have "ra_selected_proxy (hd rs) = hd ?cs"
    using xs(1) \<open>rs' \<noteq> []\<close> rs by (metis hd_map)
  moreover have "Some (selected_proxy sp) \<in> set ?cs" if "ViaProxy sp \<in> set selection" for sp
    using cs(3) that by (force intro: image_eqI [of _ choice_candidate "ViaProxy sp"])
  ultimately show ?thesis using xs rs \<open>rs' \<noteq> []\<close> first by metis
qed

definition ex_uri :: uri where
  "ex_uri = \<lparr>uri_scheme_str = Some ''http'', uri_host = Some ''a.t'', uri_port_u16 = None,
     uri_authority = Some ''a.t'', uri_text = ''http://a.t/''\<rparr>"

theorem resolve_addresses_correct_witness:
  "\<exists>rs. resolve_addresses (\<lambda>_. Inr [Direct]) ex_uri None = Inr rs \<and> rs \<noteq> [] \<and>
     map ra_selected_proxy rs = resolved_proxy_candidates_with_sticky [Direct] None"
proof -
  have "\<exists>rs. resolve_addresses (\<lambda>_. Inr [Direct]) ex_uri None = Inr rs"
    by (simp add: resolve_addresses_def resolved_proxy_candidates_with_sticky_def address_from_uri_def ex_uri_def
        eq_ignore_ascii_case_def to_ascii_lowercase_def ascii_lower_def Let_def)
  then obtain rs where rs: "resolve_addresses (\<lambda>_. Inr [Direct]) ex_uri None = Inr rs" ..
  from resolve_addresses_correct [OF refl rs] show ?thesis using rs by blast
qed

end
