(* ===== verification/Call_Types.thy ===== *)
theory Call_Types
  imports Exchange_Finder Scheduler Request_Body Policy_Defaults
begin

text \<open>
  Requests and responses as the policies see them, with the per-call options of
  \<^verbatim>\<open>openwire/src/client.rs\<close> and the counters of \<^verbatim>\<open>trace.rs\<close>.  \<^verbatim>\<open>http::Extensions\<close> is a map from types to
  values: it is a record with one field per type the sources store in it, and one field \<open>ext_other\<close> for
  whatever the application stores.  Headers are abstract (see the theory of the HTTP types).
\<close>

section \<open>Per-call options\<close>

record CallOptions =
  co_call_timeout :: "duration option"
  co_connect_timeout :: "duration option"
  co_follow_redirects :: "bool option"
  co_max_redirects :: "usize option"
  co_retry_on_connection_failure :: "bool option"
  co_max_retries :: "usize option"
  co_retry_canceled_requests :: "bool option"
  co_allow_insecure_redirects :: "bool option"
  co_priority :: "RequestPriority option"

definition call_options_default :: CallOptions where
  "call_options_default =
     \<lparr>co_call_timeout = None, co_connect_timeout = None, co_follow_redirects = None, co_max_redirects = None,
      co_retry_on_connection_failure = None, co_max_retries = None, co_retry_canceled_requests = None,
      co_allow_insecure_redirects = None, co_priority = None\<rparr>"

definition has_retry_overrides :: "CallOptions \<Rightarrow> bool" where
  "has_retry_overrides o' \<longleftrightarrow>
     co_retry_on_connection_failure o' \<noteq> None \<or> co_max_retries o' \<noteq> None \<or> co_retry_canceled_requests o' \<noteq> None"

definition has_redirect_overrides :: "CallOptions \<Rightarrow> bool" where
  "has_redirect_overrides o' \<longleftrightarrow>
     co_follow_redirects o' \<noteq> None \<or> co_max_redirects o' \<noteq> None \<or> co_allow_insecure_redirects o' \<noteq> None"

text \<open>\<^verbatim>\<open>Option::or\<close> and \<^verbatim>\<open>Option::unwrap_or\<close>.\<close>

definition opt_or :: "'a option \<Rightarrow> 'a option \<Rightarrow> 'a option" where
  "opt_or a b = (case a of None \<Rightarrow> b | Some _ \<Rightarrow> a)"

definition unwrap_or :: "'a option \<Rightarrow> 'a \<Rightarrow> 'a" where
  "unwrap_or a d = (case a of None \<Rightarrow> d | Some x \<Rightarrow> x)"

definition call_options_apply :: "CallOptions \<Rightarrow> CallOptions \<Rightarrow> CallOptions" where
  "call_options_apply self other =
     \<lparr>co_call_timeout = opt_or (co_call_timeout other) (co_call_timeout self),
      co_connect_timeout = opt_or (co_connect_timeout other) (co_connect_timeout self),
      co_follow_redirects = opt_or (co_follow_redirects other) (co_follow_redirects self),
      co_max_redirects = opt_or (co_max_redirects other) (co_max_redirects self),
      co_retry_on_connection_failure =
        opt_or (co_retry_on_connection_failure other) (co_retry_on_connection_failure self),
      co_max_retries = opt_or (co_max_retries other) (co_max_retries self),
      co_retry_canceled_requests = opt_or (co_retry_canceled_requests other) (co_retry_canceled_requests self),
      co_allow_insecure_redirects = opt_or (co_allow_insecure_redirects other) (co_allow_insecure_redirects self),
      co_priority = opt_or (co_priority other) (co_priority self)\<rparr>"

record EffectiveRequestConfig =
  erc_call_timeout :: "duration option"
  erc_connect_timeout :: "duration option"
  erc_follow_redirects :: bool
  erc_max_redirects :: usize
  erc_retry_on_connection_failure :: bool
  erc_max_retries :: usize
  erc_retry_canceled_requests :: bool
  erc_allow_insecure_redirects :: bool
  erc_priority :: RequestPriority

definition effective_from_defaults ::
  "duration option \<Rightarrow> duration option \<Rightarrow> RetryPolicyConfig \<Rightarrow> RedirectPolicyConfig \<Rightarrow> EffectiveRequestConfig" where
  "effective_from_defaults call_timeout connect_timeout retry redirect =
     \<lparr>erc_call_timeout = call_timeout, erc_connect_timeout = connect_timeout,
      erc_follow_redirects = dp_follow_redirects (rdp_default redirect),
      erc_max_redirects = dp_max_redirects (rdp_default redirect),
      erc_retry_on_connection_failure = dr_retry_on_connection_failure (rpc_default retry),
      erc_max_retries = dr_max_retries (rpc_default retry),
      erc_retry_canceled_requests = dr_retry_canceled_requests (rpc_default retry),
      erc_allow_insecure_redirects = dp_allow_insecure_redirects (rdp_default redirect),
      erc_priority = \<lparr>urgency = 3\<rparr>\<rparr>"

definition effective_with_overrides :: "EffectiveRequestConfig \<Rightarrow> CallOptions \<Rightarrow> EffectiveRequestConfig" where
  "effective_with_overrides self o' =
     \<lparr>erc_call_timeout = opt_or (co_call_timeout o') (erc_call_timeout self),
      erc_connect_timeout = opt_or (co_connect_timeout o') (erc_connect_timeout self),
      erc_follow_redirects = unwrap_or (co_follow_redirects o') (erc_follow_redirects self),
      erc_max_redirects = unwrap_or (co_max_redirects o') (erc_max_redirects self),
      erc_retry_on_connection_failure =
        unwrap_or (co_retry_on_connection_failure o') (erc_retry_on_connection_failure self),
      erc_max_retries = unwrap_or (co_max_retries o') (erc_max_retries self),
      erc_retry_canceled_requests = unwrap_or (co_retry_canceled_requests o') (erc_retry_canceled_requests self),
      erc_allow_insecure_redirects = unwrap_or (co_allow_insecure_redirects o') (erc_allow_insecure_redirects self),
      erc_priority = unwrap_or (co_priority o') (erc_priority self)\<rparr>"

section \<open>Requests and responses\<close>

record PolicyTraceContext =
  ptc_retry_count :: u32
  ptc_redirect_count :: u32
  ptc_auth_count :: u32

definition policy_trace_default :: PolicyTraceContext where
  "policy_trace_default = \<lparr>ptc_retry_count = 0, ptc_redirect_count = 0, ptc_auth_count = 0\<rparr>"

text \<open>The marker of a WebSocket request, and the two preferences its handshake sets.\<close>

record WebSocketRequestMarker =
  wsm_subprotocols :: "string list"
  wsm_expected_accept :: string

definition websocket_marker_new :: "string list \<Rightarrow> WebSocketRequestMarker" where
  "websocket_marker_new subprotocols = \<lparr>wsm_subprotocols = subprotocols, wsm_expected_accept = []\<rparr>"

datatype TlsAlpnPreference = AlpnAuto | AlpnHttp1Only

record 'x Extensions =
  ext_policy_trace :: "PolicyTraceContext option"
  ext_request_config :: "EffectiveRequestConfig option"
  ext_call_options :: "CallOptions option"
  ext_cached_addresses :: "ResolvedAddress list option"
  ext_selected_proxy :: "SelectedProxy option"
  ext_dispatcher_queued :: bool
  ext_no_coalesced_connections :: bool
  ext_websocket_marker :: "WebSocketRequestMarker option"
  ext_tls_alpn_preference :: "TlsAlpnPreference option"
  ext_route_preference :: "RoutePreference option"
  ext_other :: 'x

record ('h, 'x) request =
  rq_method :: http_method
  rq_uri :: uri
  rq_version :: http_version
  rq_headers :: 'h
  rq_extensions :: "'x Extensions"
  rq_body :: RequestBody

text \<open>Of the extensions of a response the policies read the two that the transport sets.\<close>

record 'h response =
  rsp_status :: nat
  rsp_version :: http_version
  rsp_headers :: 'h
  rsp_selected_proxy :: "SelectedProxy option"
  rsp_coalesced_connection_retryable :: bool
  rsp_body :: "body_frame list"

end
