(* ===== verification/Auth_Challenge.thy ===== *)
theory Auth_Challenge
  imports Call_Types
begin

text \<open>
  Authentication challenges (RFC 7235) and the context an authenticator gets
  (\<^verbatim>\<open>openwire-core/src/auth.rs\<close>, \<^verbatim>\<open>openwire/src/auth.rs\<close>).  The parser works on text that has passed
  \<^verbatim>\<open>HeaderValue::to_str\<close>, so a character is a byte; the index arithmetic of the source is list
  recursion here.
\<close>

section \<open>Model\<close>

datatype AuthKind = AuthOrigin | AuthProxy

record AuthChallengeParam =
  acp_name :: string
  acp_value :: string

record AuthChallenge =
  ac_scheme :: string
  ac_token68 :: "string option"
  ac_parameters :: "AuthChallengeParam list"

definition challenge_parameter :: "AuthChallenge \<Rightarrow> string \<Rightarrow> string option" where
  "challenge_parameter c name =
     map_option acp_value (List.find (\<lambda>p. eq_ignore_ascii_case (acp_name p) name) (ac_parameters c))"

definition challenge_realm :: "AuthChallenge \<Rightarrow> string option" where
  "challenge_realm c = challenge_parameter c ''realm''"

definition is_ascii_alphanumeric :: "char \<Rightarrow> bool" where
  "is_ascii_alphanumeric c \<longleftrightarrow>
     (let n = (of_char c :: nat) in 48 \<le> n \<and> n \<le> 57 \<or> 65 \<le> n \<and> n \<le> 90 \<or> 97 \<le> n \<and> n \<le> 122)"

definition is_token_char :: "char \<Rightarrow> bool" where
  "is_token_char c \<longleftrightarrow> is_ascii_alphanumeric c \<or> c \<in> set ''!#$%&*+-.^_`|~'' \<or> c = CHR 39"

definition parse_token :: "string \<Rightarrow> (string \<times> string) option" where
  "parse_token value =
     (let t = takeWhile is_token_char value in
      if t = [] then None else Some (t, dropWhile is_token_char value))"

fun is_token68_loop :: "bool \<Rightarrow> bool \<Rightarrow> string \<Rightarrow> bool" where
  "is_token68_loop seen_padding has_value [] = has_value"
| "is_token68_loop seen_padding has_value (c # cs) =
     (if c = CHR ''='' then is_token68_loop True has_value cs
      else if is_ascii_alphanumeric c \<or> c \<in> set ''-._~+/'' then
        (if seen_padding then False else is_token68_loop seen_padding True cs)
      else False)"

definition is_token68 :: "string \<Rightarrow> bool" where
  "is_token68 value = is_token68_loop False False value"

fun split_commas_loop :: "string \<Rightarrow> bool \<Rightarrow> bool \<Rightarrow> string \<Rightarrow> string list" where
  "split_commas_loop cur in_quote escaped [] = [cur]"
| "split_commas_loop cur in_quote escaped (c # cs) =
     (if escaped then split_commas_loop (cur @ [c]) in_quote False cs
      else if c = CHR 92 \<and> in_quote then split_commas_loop (cur @ [c]) in_quote True cs
      else if c = CHR 34 then split_commas_loop (cur @ [c]) (\<not> in_quote) False cs
      else if c = CHR '','' \<and> \<not> in_quote then cur # split_commas_loop [] in_quote False cs
      else split_commas_loop (cur @ [c]) in_quote False cs)"

definition split_top_level_commas :: "string \<Rightarrow> string list" where
  "split_top_level_commas value = split_commas_loop [] False False value"

fun quoted_loop :: "string \<Rightarrow> bool \<Rightarrow> string \<Rightarrow> (string \<times> string) option" where
  "quoted_loop out escaped [] = None"
| "quoted_loop out escaped (c # cs) =
     (if escaped then quoted_loop (out @ [c]) False cs
      else if c = CHR 92 then quoted_loop out True cs
      else if c = CHR 34 then Some (out, cs)
      else quoted_loop (out @ [c]) False cs)"

definition parse_quoted_string :: "string \<Rightarrow> (string \<times> string) option" where
  "parse_quoted_string value = quoted_loop [] False (tl value)"

definition parse_auth_param_value :: "string \<Rightarrow> (string \<times> string) option" where
  "parse_auth_param_value value =
     (if value \<noteq> [] \<and> hd value = CHR 34 then parse_quoted_string value else parse_token value)"

definition parse_auth_param :: "string \<Rightarrow> AuthChallengeParam option" where
  "parse_auth_param value =
     (case parse_token (trim value) of
        None \<Rightarrow> None
      | Some (name, rest) \<Rightarrow>
          (case strip_prefix ''='' (trim_start rest) of
             None \<Rightarrow> None
           | Some rest' \<Rightarrow>
               (case parse_auth_param_value (trim_start rest') of
                  None \<Rightarrow> None
                | Some (v, remaining) \<Rightarrow>
                    if trim remaining = [] then Some \<lparr>acp_name = name, acp_value = v\<rparr> else None)))"

definition parse_auth_params :: "string \<Rightarrow> AuthChallengeParam list" where
  "parse_auth_params value = List.map_filter parse_auth_param (split_top_level_commas value)"

definition parse_challenge_start :: "string \<Rightarrow> AuthChallenge option" where
  "parse_challenge_start value =
     (case parse_token value of
        None \<Rightarrow> None
      | Some (scheme, rest) \<Rightarrow>
          if rest \<noteq> [] \<and> \<not> is_whitespace (hd rest) then None
          else let rest' = trim rest in
            if rest' = [] then Some \<lparr>ac_scheme = scheme, ac_token68 = None, ac_parameters = []\<rparr>
            else if is_token68 rest'
              then Some \<lparr>ac_scheme = scheme, ac_token68 = Some rest', ac_parameters = []\<rparr>
            else if CHR ''='' \<in> set rest'
              then Some \<lparr>ac_scheme = scheme, ac_token68 = None, ac_parameters = parse_auth_params rest'\<rparr>
            else Some \<lparr>ac_scheme = scheme, ac_token68 = None, ac_parameters = []\<rparr>)"

definition opt_list :: "'a option \<Rightarrow> 'a list" where
  "opt_list a = (case a of None \<Rightarrow> [] | Some x \<Rightarrow> [x])"

fun challenge_loop :: "AuthChallenge list \<Rightarrow> AuthChallenge option \<Rightarrow> string list \<Rightarrow> AuthChallenge list" where
  "challenge_loop challenges current [] = challenges @ opt_list current"
| "challenge_loop challenges current (part0 # parts) =
     (let part = trim part0 in
      if part = [] then challenge_loop challenges current parts
      else case (parse_auth_param part, current) of
        (Some parameter, Some challenge) \<Rightarrow>
          challenge_loop challenges
            (Some (challenge\<lparr>ac_parameters := ac_parameters challenge @ [parameter]\<rparr>)) parts
      | _ \<Rightarrow> challenge_loop (challenges @ opt_list current) (parse_challenge_start part) parts)"

definition parse_auth_challenge_header :: "string \<Rightarrow> AuthChallenge list" where
  "parse_auth_challenge_header value = challenge_loop [] None (split_top_level_commas value)"

definition parse_auth_challenges :: "string list \<Rightarrow> AuthChallenge list" where
  "parse_auth_challenges values = concat (map parse_auth_challenge_header values)"

section \<open>The context of an authenticator\<close>

record ('h, 'x) AuthContext =
  au_kind :: AuthKind
  au_request_method :: http_method
  au_request_uri :: uri
  au_request_version :: http_version
  au_request_headers :: 'h
  au_request_extensions :: "'x Extensions"
  au_request_body :: "RequestBody option"
  au_response_status :: nat
  au_response_headers :: 'h
  au_total_attempt :: u32
  au_retry_count :: u32
  au_redirect_count :: u32
  au_auth_count :: u32

definition auth_challenges :: "'h header_ops \<Rightarrow> ('h, 'x) AuthContext \<Rightarrow> AuthChallenge list" where
  "auth_challenges ops ctx =
     (let header = (case au_kind ctx of AuthOrigin \<Rightarrow> ''www-authenticate'' | AuthProxy \<Rightarrow> ''proxy-authenticate'') in
      parse_auth_challenges (List.map_filter to_str (hm_get_all ops (au_response_headers ctx) header)))"

definition auth_is_replayable :: "('h, 'x) AuthContext \<Rightarrow> bool" where
  "auth_is_replayable ctx \<longleftrightarrow> au_request_body ctx \<noteq> None"

definition auth_try_clone_request :: "('h, 'x) AuthContext \<Rightarrow> ('h, 'x) request option" where
  "auth_try_clone_request ctx =
     (case (case au_request_body ctx of None \<Rightarrow> None | Some b \<Rightarrow> body_try_clone b) of
        None \<Rightarrow> None
      | Some body \<Rightarrow>
          Some \<lparr>rq_method = au_request_method ctx, rq_uri = au_request_uri ctx, rq_version = au_request_version ctx,
                rq_headers = au_request_headers ctx, rq_extensions = au_request_extensions ctx, rq_body = body\<rparr>)"

record AuthAttemptState =
  aas_total_attempt :: u32
  aas_retry_count :: u32
  aas_redirect_count :: u32
  aas_auth_count :: u32

record ('h, 'x) AuthRequestState =
  ars_method :: http_method
  ars_uri :: uri
  ars_version :: http_version
  ars_headers :: 'h
  ars_extensions :: "'x Extensions"
  ars_body :: "RequestBody option"

record 'h AuthResponseState =
  arp_status :: nat
  arp_headers :: 'h

definition build_auth_context ::
  "AuthKind \<Rightarrow> ('h, 'x) AuthRequestState \<Rightarrow> 'h AuthResponseState \<Rightarrow> AuthAttemptState \<Rightarrow> ('h, 'x) AuthContext" where
  "build_auth_context kind request response attempts =
     \<lparr>au_kind = kind, au_request_method = ars_method request, au_request_uri = ars_uri request,
      au_request_version = ars_version request, au_request_headers = ars_headers request,
      au_request_extensions = ars_extensions request, au_request_body = ars_body request,
      au_response_status = arp_status response, au_response_headers = arp_headers response,
      au_total_attempt = aas_total_attempt attempts, au_retry_count = aas_retry_count attempts,
      au_redirect_count = aas_redirect_count attempts, au_auth_count = aas_auth_count attempts\<rparr>"

text \<open>An authenticator of the application, with the state it is called in.\<close>

type_synonym ('s, 'h, 'x) Authenticator =
  "('h, 'x) AuthContext \<Rightarrow> 's \<Rightarrow> (WireError, ('h, 'x) request option) result \<times> 's"

section \<open>Specification: writing challenges\<close>

text \<open>A parameter with its value as a quoted string, and a header line of challenges.\<close>

definition quote_value :: "string \<Rightarrow> string" where
  "quote_value v = concat (map (\<lambda>c. if c = CHR 34 \<or> c = CHR 92 then [CHR 92, c] else [c]) v)"

definition print_param :: "AuthChallengeParam \<Rightarrow> string" where
  "print_param p = acp_name p @ CHR ''='' # CHR 34 # quote_value (acp_value p) @ [CHR 34]"

definition challenge_parts :: "AuthChallenge \<Rightarrow> string list" where
  "challenge_parts c =
     (case ac_parameters c of
        [] \<Rightarrow> [ac_scheme c]
      | p # ps \<Rightarrow> (ac_scheme c @ CHR '' '' # print_param p) # map print_param ps)"

definition print_challenges :: "AuthChallenge list \<Rightarrow> string" where
  "print_challenges cs = join_comma (concat (map challenge_parts cs))"

definition is_token :: "string \<Rightarrow> bool" where
  "is_token s \<longleftrightarrow> s \<noteq> [] \<and> list_all is_token_char s"

definition printable :: "AuthChallenge \<Rightarrow> bool" where
  "printable c \<longleftrightarrow> is_token (ac_scheme c) \<and> ac_token68 c = None \<and> list_all (\<lambda>p. is_token (acp_name p)) (ac_parameters c)"

section \<open>Lemmas\<close>

lemma quoted_loop_quote: "quoted_loop out False (quote_value v @ CHR 34 # r) = Some (out @ v, r)"
  by (induction v arbitrary: out) (auto simp: quote_value_def)

lemma split_quote:
  "split_commas_loop cur True False (quote_value v @ CHR 34 # r) =
     split_commas_loop (cur @ quote_value v @ [CHR 34]) False False r"
  by (induction v arbitrary: cur) (auto simp: quote_value_def)

text \<open>A piece of text the splitter passes over.\<close>

definition balanced :: "string \<Rightarrow> bool" where
  "balanced p \<longleftrightarrow> (\<forall>cur r. split_commas_loop cur False False (p @ r) = split_commas_loop (cur @ p) False False r)"

lemma balancedD:
  "balanced p \<Longrightarrow> split_commas_loop cur False False (p @ r) = split_commas_loop (cur @ p) False False r"
  by (simp add: balanced_def)

lemma balanced_append: "balanced p \<Longrightarrow> balanced q \<Longrightarrow> balanced (p @ q)"
  by (simp add: balanced_def)

lemma balanced_plain: "CHR '','' \<notin> set p \<Longrightarrow> CHR 34 \<notin> set p \<Longrightarrow> balanced p"
  unfolding balanced_def by (induction p) auto

lemma balanced_quoted: "balanced (CHR 34 # quote_value v @ [CHR 34])"
  unfolding balanced_def using split_quote by simp

lemma token_chars:
  assumes "is_token_char c"
  shows "c \<noteq> CHR '',''" "c \<noteq> CHR 34" "c \<noteq> CHR ''=''" "\<not> is_whitespace c"
proof -
  have "\<not> is_token_char (CHR '','')" "\<not> is_token_char (CHR 34)" "\<not> is_token_char (CHR ''='')" by code_simp+
  then show "c \<noteq> CHR '',''" "c \<noteq> CHR 34" "c \<noteq> CHR ''=''" using assms by auto
  have "\<not> is_token_char c" if "is_whitespace c"
  proof -
    have "(of_char c :: nat) \<in> {9, 10, 11, 12, 13, 32}" using that by (auto simp: is_whitespace_def Let_def)
    then have "c \<in> char_of ` {9, 10, 11, 12, 13, 32 :: nat}" by (metis char_of_char image_eqI)
    moreover have "\<forall>d \<in> char_of ` {9, 10, 11, 12, 13, 32 :: nat}. \<not> is_token_char d" by code_simp
    ultimately show ?thesis by blast
  qed
  then show "\<not> is_whitespace c" using assms by blast
qed

lemma balanced_token: "is_token s \<Longrightarrow> balanced s"
  by (rule balanced_plain) (auto simp: is_token_def list_all_iff dest: token_chars)

lemma balanced_param: "is_token (acp_name p) \<Longrightarrow> balanced (print_param p)"
  using balanced_append [OF balanced_append [OF balanced_token balanced_plain [of "''=''"]] balanced_quoted]
  by (simp add: print_param_def)

lemma parse_token_token:
  assumes "is_token s" "r = [] \<or> \<not> is_token_char (hd r)"
  shows "parse_token (s @ r) = Some (s, r)"
proof -
  have "takeWhile is_token_char (s @ r) = s @ takeWhile is_token_char r"
    "dropWhile is_token_char (s @ r) = dropWhile is_token_char r"
    using assms(1) by (simp_all add: is_token_def list_all_iff takeWhile_append dropWhile_append)
  moreover have "takeWhile is_token_char r = []" "dropWhile is_token_char r = r"
    using assms(2) by (cases r; simp)+
  ultimately show ?thesis using assms(1) by (simp add: parse_token_def is_token_def)
qed

lemma dropWhile_keeps: "xs \<noteq> [] \<Longrightarrow> \<not> P (hd xs) \<Longrightarrow> dropWhile P xs = xs"
  by (cases xs) auto

lemma trim_id: "s \<noteq> [] \<Longrightarrow> \<not> is_whitespace (hd s) \<Longrightarrow> \<not> is_whitespace (last s) \<Longrightarrow> trim s = s"
  by (simp add: trim_def trim_start_def trim_end_matches_def dropWhile_keeps hd_rev)

lemma token_ends:
  assumes "is_token s"
  shows "s \<noteq> []" "\<not> is_whitespace (hd s)" "\<not> is_whitespace (last s)"
proof -
  show "s \<noteq> []" using assms by (simp add: is_token_def)
  then have "hd s \<in> set s" "last s \<in> set s" by simp_all
  then show "\<not> is_whitespace (hd s)" "\<not> is_whitespace (last s)"
    using assms by (auto simp: is_token_def list_all_iff dest: token_chars(4))
qed

text \<open>White space at the ends of the parts the printer writes: none.\<close>

definition tight :: "string \<Rightarrow> bool" where
  "tight s \<longleftrightarrow> s \<noteq> [] \<and> \<not> is_whitespace (hd s) \<and> \<not> is_whitespace (last s)"

lemma tight_trim: "tight s \<Longrightarrow> trim s = s" "tight s \<Longrightarrow> s \<noteq> []"
  by (simp_all add: tight_def trim_id)

lemma quote_not_space: "\<not> is_whitespace (CHR 34)" "\<not> is_whitespace (CHR ''='')"
  by code_simp+

lemma tight_param: "is_token (acp_name p) \<Longrightarrow> tight (print_param p)"
  using token_ends [of "acp_name p"] quote_not_space by (auto simp: tight_def print_param_def)

lemma tight_first: "is_token s \<Longrightarrow> is_token (acp_name p) \<Longrightarrow> tight (s @ CHR '' '' # print_param p)"
  using token_ends [of s] tight_param [of p] by (auto simp: tight_def)

lemma parse_print_param:
  assumes "is_token (acp_name p)"
  shows "parse_auth_param (print_param p) = Some p"
proof -
  have "parse_token (print_param p) = Some (acp_name p, CHR ''='' # CHR 34 # quote_value (acp_value p) @ [CHR 34])"
    unfolding print_param_def by (rule parse_token_token [OF assms]) (simp add: is_token_char_def is_ascii_alphanumeric_def)
  then show ?thesis
    using tight_trim(1) [OF tight_param [OF assms]] quote_not_space quoted_loop_quote [of "[]" "acp_value p" "[]"]
    by (simp add: parse_auth_param_def trim_start_def strip_prefix_def parse_auth_param_value_def
        parse_quoted_string_def trim_def trim_end_matches_def)
qed

lemma parse_first:
  assumes "is_token s"
  shows "parse_auth_param s = None"
    and "parse_challenge_start s = Some \<lparr>ac_scheme = s, ac_token68 = None, ac_parameters = []\<rparr>"
    and "is_token (acp_name p) \<Longrightarrow> parse_auth_param (s @ CHR '' '' # print_param p) = None"
    and "is_token (acp_name p) \<Longrightarrow> parse_challenge_start (s @ CHR '' '' # print_param p) =
           Some \<lparr>ac_scheme = s, ac_token68 = None, ac_parameters = [p]\<rparr>"
proof -
  have t: "parse_token s = Some (s, [])" using parse_token_token [OF assms, of "[]"] by simp
  have ts: "trim s = s" by (rule trim_id [OF token_ends [OF assms]])
  show "parse_auth_param s = None" using t ts by (simp add: parse_auth_param_def trim_start_def strip_prefix_def)
  show "parse_challenge_start s = Some \<lparr>ac_scheme = s, ac_token68 = None, ac_parameters = []\<rparr>"
    using t by (simp add: parse_challenge_start_def trim_def trim_start_def trim_end_matches_def)
next
  assume n: "is_token (acp_name p)"
  let ?pp = "print_param p"
  have sp: "\<not> is_token_char (CHR '' '')" "is_whitespace (CHR '' '')" by code_simp+
  have t: "parse_token (s @ CHR '' '' # ?pp) = Some (s, CHR '' '' # ?pp)"
    using parse_token_token [OF assms, of "CHR '' '' # ?pp"] sp by simp
  have tp: "trim ?pp = ?pp" "?pp \<noteq> []" using tight_trim [OF tight_param [OF n]] by simp_all
  have hd: "hd ?pp \<noteq> CHR ''=''" "dropWhile is_whitespace ?pp = ?pp"
  proof -
    have "hd ?pp \<in> set (acp_name p)" using token_ends(1) [OF n] by (simp add: print_param_def)
    then show "hd ?pp \<noteq> CHR ''=''" using n by (auto simp: is_token_def list_all_iff dest: token_chars(3))
    show "dropWhile is_whitespace ?pp = ?pp" using tight_param [OF n] by (simp add: tight_def dropWhile_keeps)
  qed
  show "parse_auth_param (s @ CHR '' '' # ?pp) = None"
    using t tight_trim(1) [OF tight_first [OF assms n]] sp hd tp
    by (cases ?pp) (auto simp: parse_auth_param_def trim_start_def strip_prefix_def)
  have "is_token68_loop a b (u @ CHR 34 # v) = False" for a b u v
    by (induction u arbitrary: a b) (auto simp: is_ascii_alphanumeric_def)
  then have "\<not> is_token68 ?pp"
    using append_assoc [of "acp_name p" "[CHR ''='']"] by (simp add: is_token68_def print_param_def)
       (metis append.left_neutral append_Cons append_assoc)
  moreover have "CHR ''='' \<in> set ?pp" by (simp add: print_param_def)
  moreover have "split_top_level_commas ?pp = [?pp]"
    using balanced_param [OF n] unfolding balanced_def split_top_level_commas_def
    by (metis append.right_neutral append_Nil split_commas_loop.simps(1))
  ultimately show "parse_challenge_start (s @ CHR '' '' # ?pp) =
      Some \<lparr>ac_scheme = s, ac_token68 = None, ac_parameters = [p]\<rparr>"
    using t sp tp parse_print_param [OF n]
    by (simp add: parse_challenge_start_def trim_space parse_auth_params_def map_filter_simps)
qed

lemma split_join:
  assumes "ps \<noteq> []" "\<forall>p \<in> set ps. balanced p"
  shows "split_commas_loop cur False False (join_comma ps) =
           (cur @ hd ps) # map (\<lambda>p. CHR '' '' # p) (tl ps)"
  using assms
proof (induction ps arbitrary: cur rule: join_comma.induct)
  case (2 p)
  then show ?case using balancedD [of p cur "[]"] by simp
next
  case (3 p q ps)
  have "split_commas_loop cur False False (p @ (CHR '','' # CHR '' '' # join_comma (q # ps))) =
        split_commas_loop (cur @ p) False False (CHR '','' # CHR '' '' # join_comma (q # ps))"
    using "3.prems"(2) by (intro balancedD) simp
  moreover have "split_commas_loop [CHR '' ''] False False (join_comma (q # ps)) =
        ([CHR '' ''] @ q) # map (\<lambda>p. CHR '' '' # p) ps"
    using "3.IH" [of "[CHR '' '']"] "3.prems"(2) by simp
  ultimately show ?case by simp
qed simp

lemma challenge_loop_spaces:
  "challenge_loop chs cur (map (\<lambda>p. CHR '' '' # p) ps) = challenge_loop chs cur ps"
proof (induction ps arbitrary: chs cur)
  case (Cons p ps)
  show ?case by (simp add: trim_space Cons Let_def split: option.split)
qed simp

lemma challenge_loop_params:
  assumes "list_all (\<lambda>p. is_token (acp_name p)) ps"
  shows "challenge_loop chs (Some c) (map print_param ps @ rest) =
         challenge_loop chs (Some (c\<lparr>ac_parameters := ac_parameters c @ ps\<rparr>)) rest"
  using assms
proof (induction ps arbitrary: c)
  case (Cons p ps)
  then show ?case using tight_trim [OF tight_param [of p]] parse_print_param [of p] by simp
qed simp

lemma challenge_loop_parts:
  assumes "printable c"
  shows "challenge_loop chs cur (challenge_parts c @ rest) = challenge_loop (chs @ opt_list cur) (Some c) rest"
proof (cases "ac_parameters c")
  case Nil
  have s: "is_token (ac_scheme c)" using assms by (simp add: printable_def)
  have "c = \<lparr>ac_scheme = ac_scheme c, ac_token68 = None, ac_parameters = []\<rparr>"
    using assms Nil by (simp add: printable_def)
  then show ?thesis
    using Nil parse_first(1,2) [OF s] trim_id [OF token_ends [OF s]] token_ends(1) [OF s]
    by (simp add: challenge_parts_def)
next
  case (Cons p ps)
  have s: "is_token (ac_scheme c)" and p: "is_token (acp_name p)" and ps: "list_all (\<lambda>p. is_token (acp_name p)) ps"
    using assms Cons by (simp_all add: printable_def)
  let ?one = "\<lparr>ac_scheme = ac_scheme c, ac_token68 = None, ac_parameters = [p]\<rparr>"
  have "c = ?one\<lparr>ac_parameters := ac_parameters ?one @ ps\<rparr>" using assms Cons by (simp add: printable_def)
  moreover have "challenge_loop chs cur (challenge_parts c @ rest) =
      challenge_loop (chs @ opt_list cur) (Some ?one) (map print_param ps @ rest)"
    using Cons parse_first(3,4) [OF s p] tight_trim [OF tight_first [OF s p]]
    by (simp add: challenge_parts_def)
  ultimately show ?thesis using challenge_loop_params [OF ps, of "chs @ opt_list cur" ?one rest] by simp
qed

lemma challenge_loop_all:
  "\<forall>c \<in> set cs. printable c \<Longrightarrow>
     challenge_loop chs cur (concat (map challenge_parts cs)) = chs @ opt_list cur @ cs"
proof (induction cs arbitrary: chs cur)
  case (Cons c cs)
  then show ?case using challenge_loop_parts [of c chs cur "concat (map challenge_parts cs)"]
    by (simp add: opt_list_def)
qed simp

lemma balanced_parts: "printable c \<Longrightarrow> p \<in> set (challenge_parts c) \<Longrightarrow> balanced p"
  using balanced_append [OF balanced_append [OF balanced_token balanced_plain [of "'' ''"]] balanced_param]
  by (auto simp: challenge_parts_def printable_def list_all_iff balanced_token balanced_param split: list.splits)

section \<open>Properties\<close>

text \<open>
  C27.  The challenge parser inverts the grammar: whatever challenges a server writes on one header line,
  with tokens as schemes and parameter names and any text as quoted values, commas, quotes and
  backslashes included, are read back exactly, in order.
\<close>

theorem parse_print_challenges:
  assumes "\<forall>c \<in> set cs. printable c"
  shows "parse_auth_challenge_header (print_challenges cs) = cs"
proof (cases "cs = []")
  case True
  then show ?thesis
    by (simp add: print_challenges_def parse_auth_challenge_header_def split_top_level_commas_def
        trim_def trim_start_def trim_end_matches_def opt_list_def)
next
  case False
  let ?ps = "concat (map challenge_parts cs)"
  have ne: "?ps \<noteq> []" using False by (cases cs) (auto simp: challenge_parts_def split: list.splits)
  have "\<forall>p \<in> set ?ps. balanced p" using assms balanced_parts by auto
  from split_join [OF ne this, of "[]"]
  have "split_top_level_commas (print_challenges cs) = hd ?ps # map (\<lambda>p. CHR '' '' # p) (tl ?ps)"
    by (simp add: split_top_level_commas_def print_challenges_def)
  then have "parse_auth_challenge_header (print_challenges cs) = challenge_loop [] None (hd ?ps # map (\<lambda>p. CHR '' '' # p) (tl ?ps))"
    by (simp only: parse_auth_challenge_header_def)
  also have "\<dots> = challenge_loop [] None (hd ?ps # tl ?ps)"
    using challenge_loop_spaces by (auto simp: Let_def split: option.split)
  also have "\<dots> = cs" using ne challenge_loop_all [OF assms, of "[]" None] by (simp add: opt_list_def)
  finally show ?thesis .
qed

theorem parse_print_challenges_witness:
  "parse_auth_challenge_header (print_challenges
     [\<lparr>ac_scheme = ''Digest'', ac_token68 = None,
       ac_parameters = [\<lparr>acp_name = ''realm'', acp_value = ''a,b''\<rparr>, \<lparr>acp_name = ''nonce'', acp_value = ''x''\<rparr>]\<rparr>,
      \<lparr>ac_scheme = ''Basic'', ac_token68 = None, ac_parameters = []\<rparr>]) =
     [\<lparr>ac_scheme = ''Digest'', ac_token68 = None,
       ac_parameters = [\<lparr>acp_name = ''realm'', acp_value = ''a,b''\<rparr>, \<lparr>acp_name = ''nonce'', acp_value = ''x''\<rparr>]\<rparr>,
      \<lparr>ac_scheme = ''Basic'', ac_token68 = None, ac_parameters = []\<rparr>]"
proof -
  have "is_token ''Digest''" "is_token ''realm''" "is_token ''nonce''" "is_token ''Basic''" by code_simp+
  then show ?thesis by (intro parse_print_challenges) (simp add: printable_def)
qed

end
