(* ===== verification/Follow_Up.thy ===== *)
theory Follow_Up
  imports Auth_Challenge
begin

text \<open>
  The follow-up loop of a call: authentication, retries and redirects
  (\<^verbatim>\<open>openwire/src/policy/follow_up.rs\<close>).  One iteration of the source's loop is the function
  \<open>follow_up_step\<close>; the loop itself is \<open>follow_up_loop\<close>.

  What the loop calls is collected in the record \<open>env\<close>: the network service, the clock, the date parser,
  the URL and URI parsers, header maps.  The state \<open>'s\<close> of all that (network, cookie jar, authenticators)
  is threaded through the calls.  The listener's events, and what is left of a drained response body, are
  the log.  The \<^verbatim>\<open>u32\<close> counters are natural numbers: they stay below the limits of the policies.
\<close>

section \<open>Parameters\<close>

record ('s, 'h, 'x) env =
  env_headers :: "'h header_ops"
  env_ready :: "'s \<Rightarrow> (string, unit) result \<times> 's"
  env_call :: "('h, 'x) request \<Rightarrow> u32 \<Rightarrow> 's \<Rightarrow> (WireError, 'h response) result \<times> 's"
  env_now :: "'s \<Rightarrow> nat"
  env_parse_http_date :: "string \<Rightarrow> nat option"
  env_url_parse :: "string \<Rightarrow> (string, url) result"
  env_url_join :: "url \<Rightarrow> string \<Rightarrow> (string, url) result"
  env_uri_parse :: "string \<Rightarrow> (string, uri) result"
  env_is_idempotent :: "http_method \<Rightarrow> bool"

record 's CookieJar =
  cj_cookies :: "'s \<Rightarrow> url \<Rightarrow> header_value option"
  cj_set_cookies :: "header_value list \<Rightarrow> url \<Rightarrow> 's \<Rightarrow> 's"

record ('s, 'h, 'x) AuthPolicyConfig =
  apc_authenticator :: "('s, 'h, 'x) Authenticator option"
  apc_proxy_authenticator :: "('s, 'h, 'x) Authenticator option"
  apc_max_auth_attempts :: usize

record ('s, 'h, 'x) PolicyConfig =
  pcf_cookie_jar :: "'s CookieJar option"
  pcf_auth :: "('s, 'h, 'x) AuthPolicyConfig"
  pcf_retry :: RetryPolicyConfig
  pcf_redirect :: RedirectPolicyConfig

datatype 'h follow_up_event =
    FollowUpDecision "'h response" bool
  | RetryEvent u32 string
  | RedirectEvent u32 uri
  | RetryDecision WireError bool
  | Drained "body_frame list"

section \<open>Validation and origins\<close>

definition validate_request_uri :: "uri \<Rightarrow> (WireError, unit) result" where
  "validate_request_uri u =
     (case uri_scheme_str u of
        None \<Rightarrow> Inl (err_invalid_request ''request URI is missing a scheme'')
      | Some scheme \<Rightarrow>
          if scheme \<notin> {''http'', ''https''}
            then Inl (err_invalid_request ''request URI scheme must be http or https'')
          else (case uri_authority u of
                  None \<Rightarrow> Inl (err_invalid_request ''request URI is missing an authority'')
                | Some authority \<Rightarrow>
                    if CHR 64 \<in> set authority
                      then Inl (err_invalid_request ''request URI authority must not include userinfo'')
                    else if uri_host u = None then Inl (err_invalid_request ''request URI is missing a host'')
                    else Inr ()))"

definition validate_request :: "('h, 'x) request \<Rightarrow> (WireError, unit) result" where
  "validate_request r = validate_request_uri (rq_uri r)"

definition request_url :: "('s, 'h, 'x) env \<Rightarrow> uri \<Rightarrow> (WireError, url) result" where
  "request_url env u =
     (case env_url_parse env (uri_text u) of
        Inl e \<Rightarrow> Inl (err_invalid_request (''request URI is not a valid URL: '' @ e))
      | Inr v \<Rightarrow> Inr v)"

definition resolve_redirect_uri :: "('s, 'h, 'x) env \<Rightarrow> uri \<Rightarrow> string \<Rightarrow> (WireError, uri) result" where
  "resolve_redirect_uri env base location =
     (case env_url_parse env (uri_text base) of
        Inl e \<Rightarrow> Inl (err_redirect (''invalid base URL for redirect: '' @ e))
      | Inr b \<Rightarrow>
          (case env_url_join env b location of
             Inl e \<Rightarrow> Inl (err_redirect (''invalid redirect URL: '' @ e))
           | Inr joined \<Rightarrow>
               (case env_uri_parse env (url_text joined) of
                  Inl e \<Rightarrow> Inl (err_redirect (''failed to parse redirect URI: '' @ e))
                | Inr u \<Rightarrow> Inr u)))"

record OriginKey =
  ok_scheme :: string
  ok_host :: string
  ok_port :: u16

definition origin_key_from_uri :: "uri \<Rightarrow> (WireError, OriginKey) result" where
  "origin_key_from_uri u =
     (case uri_scheme_str u of
        None \<Rightarrow> Inl (err_invalid_request ''request URI is missing a scheme'')
      | Some scheme \<Rightarrow>
          if scheme \<noteq> ''http'' \<and> scheme \<noteq> ''https''
            then Inl (err_invalid_request (''request URI scheme must be http or https, found '' @ scheme))
          else (case uri_host u of
                  None \<Rightarrow> Inl (err_invalid_request ''request URI is missing a host'')
                | Some host \<Rightarrow>
                    Inr \<lparr>ok_scheme = scheme, ok_host = to_ascii_lowercase host,
                         ok_port = (case uri_port_u16 u of
                                      Some port \<Rightarrow> port
                                    | None \<Rightarrow> if scheme = ''http'' then 80 else 443)\<rparr>))"

definition same_origin :: "uri \<Rightarrow> uri \<Rightarrow> (WireError, bool) result" where
  "same_origin left right =
     (case origin_key_from_uri left of
        Inl e \<Rightarrow> Inl e
      | Inr l \<Rightarrow> (case origin_key_from_uri right of Inl e \<Rightarrow> Inl e | Inr r \<Rightarrow> Inr (l = r)))"

definition EXTRA_SENSITIVE :: "string list" where
  "EXTRA_SENSITIVE = [''x-api-key'', ''x-auth-token'', ''x-csrf-token'', ''x-access-token'', ''x-session-token'']"

definition strip_sensitive_cross_origin_headers :: "'h header_ops \<Rightarrow> 'h \<Rightarrow> 'h" where
  "strip_sensitive_cross_origin_headers ops h =
     fold (hm_remove ops) EXTRA_SENSITIVE (hm_remove ops ''cookie'' (hm_remove ops ''authorization'' h))"

section \<open>Snapshots of a request\<close>

datatype SnapshotCaptureMode = Light | Rebuildable

definition capture_mode_for_policy :: "('s, 'h, 'x) PolicyConfig \<Rightarrow> SnapshotCaptureMode" where
  "capture_mode_for_policy config =
     (let may_redirect = (case redirect_default_policy (pcf_redirect config) of
                            Some p \<Rightarrow> dp_follow_redirects p | None \<Rightarrow> True);
          may_retry = (dr_max_retries (rpc_default (pcf_retry config)) > 0 \<or>
                       retry_has_custom_policy (pcf_retry config));
          may_auth = (apc_authenticator (pcf_auth config) \<noteq> None \<or>
                      apc_proxy_authenticator (pcf_auth config) \<noteq> None)
      in if may_redirect \<or> may_retry \<or> may_auth then Rebuildable else Light)"

record ('h, 'x) RequestSnapshot =
  sn_method :: http_method
  sn_uri :: uri
  sn_version :: http_version
  sn_headers :: "'h option"
  sn_extensions :: "'x Extensions option"
  sn_body :: "RequestBody option"

definition snapshot_capture :: "('h, 'x) request \<Rightarrow> SnapshotCaptureMode \<Rightarrow> ('h, 'x) RequestSnapshot" where
  "snapshot_capture r mode =
     \<lparr>sn_method = rq_method r, sn_uri = rq_uri r, sn_version = rq_version r,
      sn_headers = (case mode of Light \<Rightarrow> None | Rebuildable \<Rightarrow> Some (rq_headers r)),
      sn_extensions = (case mode of Light \<Rightarrow> None | Rebuildable \<Rightarrow> Some (rq_extensions r)),
      sn_body = body_try_clone (rq_body r)\<rparr>"

definition snapshot_is_replayable :: "('h, 'x) RequestSnapshot \<Rightarrow> bool" where
  "snapshot_is_replayable s \<longleftrightarrow> sn_body s \<noteq> None"

definition snapshot_headers :: "('h, 'x) RequestSnapshot \<Rightarrow> (WireError, 'h) result" where
  "snapshot_headers s =
     (case sn_headers s of
        Some h \<Rightarrow> Inr h
      | None \<Rightarrow> Inl (err_internal ''request snapshot is missing headers for follow-up rebuild''
                       ''light snapshot used for rebuild''))"

definition snapshot_extensions :: "('h, 'x) RequestSnapshot \<Rightarrow> (WireError, 'x Extensions) result" where
  "snapshot_extensions s =
     (case sn_extensions s of
        Some x \<Rightarrow> Inr x
      | None \<Rightarrow> Inl (err_internal ''request snapshot is missing extensions for follow-up rebuild''
                       ''light snapshot used for rebuild''))"

definition reset_network_attempt_extensions :: "SelectedProxy option \<Rightarrow> 'x Extensions \<Rightarrow> 'x Extensions" where
  "reset_network_attempt_extensions proxy x =
     x\<lparr>ext_cached_addresses := None, ext_selected_proxy := proxy, ext_dispatcher_queued := False\<rparr>"

definition to_retry_request ::
  "PolicyTraceContext \<Rightarrow> ('h, 'x) RequestSnapshot \<Rightarrow> (WireError, ('h, 'x) request) result" where
  "to_retry_request policy_trace s =
     (case (case sn_body s of None \<Rightarrow> None | Some b \<Rightarrow> body_try_clone b) of
        None \<Rightarrow> Inl (err_internal ''captured replayable body is no longer cloneable'' ''body clone failed on retry'')
      | Some body \<Rightarrow>
          (case snapshot_headers s of
             Inl e \<Rightarrow> Inl e
           | Inr headers \<Rightarrow>
               (case snapshot_extensions s of
                  Inl e \<Rightarrow> Inl e
                | Inr x \<Rightarrow>
                    let sticky_proxy = ext_selected_proxy x in
                    Inr \<lparr>rq_method = sn_method s, rq_uri = sn_uri s, rq_version = sn_version s,
                         rq_headers = headers,
                         rq_extensions =
                           (reset_network_attempt_extensions sticky_proxy x)\<lparr>ext_policy_trace := Some policy_trace\<rparr>,
                         rq_body = body\<rparr>)))"

definition into_redirect_request ::
  "'h header_ops \<Rightarrow> nat \<Rightarrow> uri \<Rightarrow> PolicyTraceContext \<Rightarrow> SelectedProxy option \<Rightarrow> ('h, 'x) RequestSnapshot \<Rightarrow>
     (WireError, ('h, 'x) request option) result" where
  "into_redirect_request ops status next_uri policy_trace proxy s =
     (case same_origin (sn_uri s) next_uri of
        Inl e \<Rightarrow> Inl e
      | Inr same \<Rightarrow>
          let should_switch_to_get = (status \<in> {301, 302, 303} \<and> sn_method s \<noteq> GET \<and> sn_method s \<noteq> HEAD);
              preserve_body = (status \<in> {307, 308})
          in if preserve_body \<and> sn_body s = None then Inr None
             else
               let body = (if preserve_body then the (sn_body s)
                           else if should_switch_to_get then body_absent
                           else (case sn_body s of Some b \<Rightarrow> b | None \<Rightarrow> body_absent));
                   method = (if preserve_body then sn_method s
                             else if should_switch_to_get then GET else sn_method s)
               in case sn_headers s of
                    None \<Rightarrow> Inl (err_internal ''request snapshot is missing headers for redirect rebuild''
                                   ''light snapshot used for rebuild'')
                  | Some h \<Rightarrow>
                      let h1 = hm_remove ops ''host'' h;
                          h2 = (if \<not> same then strip_sensitive_cross_origin_headers ops h1 else h1);
                          h3 = (if should_switch_to_get
                                then fold (hm_remove ops) [''content-length'', ''content-type'', ''content-encoding'',
                                                           ''transfer-encoding'', ''expect''] h2
                                else h2)
                      in case sn_extensions s of
                           None \<Rightarrow> Inl (err_internal ''request snapshot is missing extensions for redirect rebuild''
                                          ''light snapshot used for rebuild'')
                         | Some x \<Rightarrow>
                             Inr (Some \<lparr>rq_method = method, rq_uri = next_uri, rq_version = sn_version s,
                                        rq_headers = h3,
                                        rq_extensions = (reset_network_attempt_extensions proxy x)
                                                          \<lparr>ext_policy_trace := Some policy_trace\<rparr>,
                                        rq_body = body\<rparr>))"

section \<open>Decisions on a response\<close>

definition retry_after :: "('s, 'h, 'x) env \<Rightarrow> 's \<Rightarrow> 'h response \<Rightarrow> RetryAfter option" where
  "retry_after env s response =
     (case hm_get_all (env_headers env) (rsp_headers response) ''retry-after'' of
        [] \<Rightarrow> None
      | _ # _ # _ \<Rightarrow> Some RetryInvalid
      | [value] \<Rightarrow>
          (case to_str value of
             None \<Rightarrow> Some RetryInvalid
           | Some text \<Rightarrow>
               (case parse_uint U64_MAX text of
                  Inr seconds \<Rightarrow> Some (if seconds = 0 then RetryImmediate else RetryDelayed)
                | Inl _ \<Rightarrow>
                    (case env_parse_http_date env text of
                       Some instant \<Rightarrow> Some (if instant \<le> env_now env s then RetryImmediate else RetryDelayed)
                     | None \<Rightarrow> Some RetryInvalid))))"

definition retry_response_reason ::
  "('s, 'h, 'x) env \<Rightarrow> 's \<Rightarrow> ('h, 'x) RequestSnapshot \<Rightarrow> 'h response \<Rightarrow> u32 \<Rightarrow> RetryPolicyConfig \<Rightarrow> string option" where
  "retry_response_reason env s snapshot response retries config =
     config_should_retry_response (env_is_idempotent env) config
       \<lparr>rrc_response_status = rsp_status response, rrc_retry_count = retries,
        rrc_is_body_replayable = snapshot_is_replayable snapshot, rrc_request_method = sn_method snapshot,
        rrc_retry_after = retry_after env s response\<rparr>"

text \<open>The limit is cut to 32 bits by \<^verbatim>\<open>max_retries as u32\<close>.\<close>

definition should_retry_misdirected_request ::
  "('h, 'x) RequestSnapshot \<Rightarrow> 'h response \<Rightarrow> u32 \<Rightarrow> usize \<Rightarrow> bool" where
  "should_retry_misdirected_request snapshot response retry_count max_retries \<longleftrightarrow>
     rsp_status response = 421 \<and> snapshot_is_replayable snapshot \<and> retry_count < max_retries mod 2 ^ 32 \<and>
     rsp_coalesced_connection_retryable response"

definition INTERMEDIATE_BODY_DRAIN_LIMIT :: u64 where
  "INTERMEDIATE_BODY_DRAIN_LIMIT = 256 * 1024"

text \<open>Reading a body that is not handed on, up to the limit: the result, and the frames not read.\<close>

fun drain_loop :: "u64 \<Rightarrow> body_frame list \<Rightarrow> (WireError, unit) result \<times> body_frame list" where
  "drain_loop read [] = (Inr (), [])"
| "drain_loop read (Inl e # fs) = (Inl e, fs)"
| "drain_loop read (Inr data # fs) =
     (let read' = saturating_add U64_MAX read (length data) in
      if read' > INTERMEDIATE_BODY_DRAIN_LIMIT then (Inr (), fs) else drain_loop read' fs)"

definition drain_intermediate_response :: "'h response \<Rightarrow> (WireError, unit) result \<times> body_frame list" where
  "drain_intermediate_response response = drain_loop 0 (rsp_body response)"

section \<open>Cookies, authentication, overrides\<close>

definition apply_request_cookies ::
  "('s, 'h, 'x) env \<Rightarrow> 's CookieJar option \<Rightarrow> 's \<Rightarrow> ('h, 'x) request \<Rightarrow> (WireError, ('h, 'x) request) result" where
  "apply_request_cookies env jar s r =
     (case jar of
        None \<Rightarrow> Inr r
      | Some j \<Rightarrow>
          if contains_key (env_headers env) (rq_headers r) ''cookie'' then Inr r
          else (case request_url env (rq_uri r) of
                  Inl e \<Rightarrow> Inl e
                | Inr u \<Rightarrow>
                    (case cj_cookies j s u of
                       Some value \<Rightarrow> Inr (r\<lparr>rq_headers := hm_insert (env_headers env) ''cookie'' value (rq_headers r)\<rparr>)
                     | None \<Rightarrow> Inr r)))"

definition store_response_cookies ::
  "('s, 'h, 'x) env \<Rightarrow> 'h response \<Rightarrow> uri \<Rightarrow> 's CookieJar option \<Rightarrow> 's \<Rightarrow> (WireError, 's) result" where
  "store_response_cookies env response request_uri jar s =
     (case jar of
        None \<Rightarrow> Inr s
      | Some j \<Rightarrow>
          (case hm_get_all (env_headers env) (rsp_headers response) ''set-cookie'' of
             [] \<Rightarrow> Inr s
           | cookies \<Rightarrow>
               (case request_url env request_uri of
                  Inl e \<Rightarrow> Inl e
                | Inr u \<Rightarrow> Inr (cj_set_cookies j cookies u s))))"

definition select_authenticator ::
  "'h response \<Rightarrow> SelectedProxy option \<Rightarrow> ('s, 'h, 'x) AuthPolicyConfig \<Rightarrow> AuthKind \<times> ('s, 'h, 'x) Authenticator option" where
  "select_authenticator response proxy config =
     (if rsp_status response = 401 then (AuthOrigin, apc_authenticator config)
      else if rsp_status response = 407 \<and> proxy \<noteq> None then (AuthProxy, apc_proxy_authenticator config)
      else (AuthOrigin, None))"

definition authenticate_response ::
  "('h, 'x) RequestSnapshot \<Rightarrow> 'h response \<Rightarrow> AuthAttemptState \<Rightarrow> SelectedProxy option \<Rightarrow>
     ('s, 'h, 'x) AuthPolicyConfig \<Rightarrow> 's \<Rightarrow> (WireError, (('h, 'x) request \<times> u32) option) result \<times> 's" where
  "authenticate_response snapshot response attempts proxy config s =
     (case select_authenticator response proxy config of
        (kind, None) \<Rightarrow> (Inr None, s)
      | (kind, Some authenticator) \<Rightarrow>
          if aas_auth_count attempts \<ge> apc_max_auth_attempts config \<or> \<not> snapshot_is_replayable snapshot
            then (Inr None, s)
          else (case snapshot_headers snapshot of
                  Inl e \<Rightarrow> (Inl e, s)
                | Inr headers \<Rightarrow>
                    (case snapshot_extensions snapshot of
                       Inl e \<Rightarrow> (Inl e, s)
                     | Inr extensions \<Rightarrow>
                         (case authenticator (build_auth_context kind
                                 \<lparr>ars_method = sn_method snapshot, ars_uri = sn_uri snapshot, ars_version = sn_version snapshot,
                                  ars_headers = headers, ars_extensions = extensions,
                                  ars_body = Option.bind (sn_body snapshot) body_try_clone\<rparr>
                                 \<lparr>arp_status = rsp_status response, arp_headers = rsp_headers response\<rparr> attempts) s of
                            (Inl e, s') \<Rightarrow> (Inl (with_response_status (rsp_status response) e), s')
                          | (Inr None, s') \<Rightarrow> (Inr None, s')
                          | (Inr (Some r), s') \<Rightarrow>
                              let next_auth_count = aas_auth_count attempts + 1;
                                  x = (reset_network_attempt_extensions proxy (rq_extensions r))
                                        \<lparr>ext_policy_trace := Some \<lparr>ptc_retry_count = aas_retry_count attempts,
                                           ptc_redirect_count = aas_redirect_count attempts,
                                           ptc_auth_count = next_auth_count\<rparr>\<rparr>
                              in (Inr (Some (r\<lparr>rq_extensions := x\<rparr>, next_auth_count)), s')))))"

definition apply_request_overrides ::
  "EffectiveRequestConfig option \<Rightarrow> CallOptions \<Rightarrow> ('s, 'h, 'x) PolicyConfig \<Rightarrow> ('s, 'h, 'x) PolicyConfig" where
  "apply_request_overrides request_config request_options config =
     (case request_config of
        None \<Rightarrow> config
      | Some rc \<Rightarrow>
          let c1 = (if has_retry_overrides request_options \<and> \<not> retry_has_custom_policy (pcf_retry config)
                    then config\<lparr>pcf_retry := retry_default_mut
                           (\<lambda>p. set_retry_canceled_requests (erc_retry_canceled_requests rc)
                                 (set_max_retries (erc_max_retries rc)
                                   (set_retry_on_connection_failure (erc_retry_on_connection_failure rc) p)))
                           (pcf_retry config)\<rparr>
                    else config)
          in if has_redirect_overrides request_options \<and> \<not> redirect_has_custom_policy (pcf_redirect c1)
             then c1\<lparr>pcf_redirect := redirect_default_mut
                       (\<lambda>p. set_allow_insecure_redirects (erc_allow_insecure_redirects rc)
                             (set_max_redirects (erc_max_redirects rc)
                               (set_follow_redirects (erc_follow_redirects rc) p)))
                       (pcf_redirect c1)\<rparr>
             else c1)"

section \<open>The loop\<close>

text \<open>
  The variables of the loop.  The source's \<^verbatim>\<open>policy_trace\<close> is not among them: it is set from the counters at
  the head of the loop and before each use.
\<close>

record ('s, 'h, 'x) follow_up_state =
  fs_request :: "('h, 'x) request"
  fs_attempt :: u32
  fs_retries :: u32
  fs_redirects :: u32
  fs_auths :: u32
  fs_first_network_attempt :: bool
  fs_env :: 's
  fs_log :: "'h follow_up_event list"

datatype ('s, 'h, 'x) follow_up_outcome =
    Return "(WireError, 'h response) result" 's "'h follow_up_event list"
  | Continue "('s, 'h, 'x) follow_up_state"

definition emit_terminal_follow_up ::
  "'h response \<Rightarrow> ('s, 'h, 'x) follow_up_state \<Rightarrow> ('s, 'h, 'x) follow_up_outcome" where
  "emit_terminal_follow_up response st = Return (Inr response) (fs_env st) (fs_log st @ [FollowUpDecision response False])"

definition follow_up_fail :: "WireError \<Rightarrow> ('s, 'h, 'x) follow_up_state \<Rightarrow> ('s, 'h, 'x) follow_up_outcome" where
  "follow_up_fail e st = Return (Inl e) (fs_env st) (fs_log st)"

definition fs_trace :: "('s, 'h, 'x) follow_up_state \<Rightarrow> PolicyTraceContext" where
  "fs_trace st =
     \<lparr>ptc_retry_count = fs_retries st, ptc_redirect_count = fs_redirects st, ptc_auth_count = fs_auths st\<rparr>"

definition follow_up_auth ::
  "'h response \<Rightarrow> ('h, 'x) request \<Rightarrow> u32 \<Rightarrow> ('s, 'h, 'x) follow_up_state \<Rightarrow> ('s, 'h, 'x) follow_up_outcome" where
  "follow_up_auth response next_request next_auth_count st =
     Continue (st\<lparr>fs_request := next_request, fs_attempt := fs_attempt st + 1, fs_auths := next_auth_count,
       fs_log := fs_log st @ [FollowUpDecision response True, Drained (snd (drain_intermediate_response response))]\<rparr>)"

text \<open>A retry because of a response; \<open>adjust\<close> is what the source does to the rebuilt request.\<close>

definition follow_up_retry_response ::
  "(('h, 'x) request \<Rightarrow> ('h, 'x) request) \<Rightarrow> ('h, 'x) RequestSnapshot \<Rightarrow> 'h response \<Rightarrow> string \<Rightarrow>
     ('s, 'h, 'x) follow_up_state \<Rightarrow> ('s, 'h, 'x) follow_up_outcome" where
  "follow_up_retry_response adjust snapshot response reason st =
     (let st1 = st\<lparr>fs_retries := fs_retries st + 1\<rparr> in
      case to_retry_request (fs_trace st1) snapshot of
        Inl e \<Rightarrow> follow_up_fail e st1
      | Inr next_request \<Rightarrow>
          Continue (st1\<lparr>fs_request := adjust next_request, fs_attempt := fs_attempt st + 1,
            fs_log := fs_log st @ [FollowUpDecision response True, RetryEvent (fs_retries st1) reason,
                                   Drained (snd (drain_intermediate_response response))]\<rparr>))"

definition insert_no_coalesced :: "('h, 'x) request \<Rightarrow> ('h, 'x) request" where
  "insert_no_coalesced r = r\<lparr>rq_extensions := (rq_extensions r)\<lparr>ext_no_coalesced_connections := True\<rparr>\<rparr>"

definition follow_up_redirect ::
  "('s, 'h, 'x) env \<Rightarrow> ('s, 'h, 'x) PolicyConfig \<Rightarrow> ('h, 'x) RequestSnapshot \<Rightarrow> 'h response \<Rightarrow>
     ('s, 'h, 'x) follow_up_state \<Rightarrow> ('s, 'h, 'x) follow_up_outcome" where
  "follow_up_redirect env config snapshot response st =
     (if (case redirect_default_policy (pcf_redirect config) of
            Some p \<Rightarrow> \<not> dp_follow_redirects p | None \<Rightarrow> False) then emit_terminal_follow_up response st
      else if \<not> is_redirect_status (rsp_status response) then emit_terminal_follow_up response st
      else case Option.bind (header_get (env_headers env) (rsp_headers response) ''location'') to_str of
        None \<Rightarrow> emit_terminal_follow_up response st
      | Some location \<Rightarrow>
          (case resolve_redirect_uri env (sn_uri snapshot) location of
             Inl e \<Rightarrow> follow_up_fail e st
           | Inr next_uri \<Rightarrow>
               (case validate_request_uri next_uri of
                  Inl e \<Rightarrow> follow_up_fail e st
                | Inr _ \<Rightarrow>
                    (case config_should_redirect (pcf_redirect config)
                            \<lparr>rdc_request_method = sn_method snapshot, rdc_request_uri = sn_uri snapshot,
                             rdc_response_status = rsp_status response, rdc_location = next_uri,
                             rdc_redirect_count = fs_redirects st,
                             rdc_is_body_replayable = snapshot_is_replayable snapshot\<rparr> of
                       RedirectStop \<Rightarrow> emit_terminal_follow_up response st
                     | RedirectError e \<Rightarrow> follow_up_fail e st
                     | RedirectFollow \<Rightarrow>
                         (case into_redirect_request (env_headers env) (rsp_status response) next_uri
                                 ((fs_trace st)\<lparr>ptc_redirect_count := fs_redirects st + 1\<rparr>)
                                 (rsp_selected_proxy response) snapshot of
                            Inl e \<Rightarrow> follow_up_fail e st
                          | Inr None \<Rightarrow> emit_terminal_follow_up response st
                          | Inr (Some next_request) \<Rightarrow>
                              Continue (st\<lparr>fs_request := next_request, fs_redirects := fs_redirects st + 1,
                                fs_attempt := fs_attempt st + 1,
                                fs_log := fs_log st @ [FollowUpDecision response True,
                                  Drained (snd (drain_intermediate_response response)),
                                  RedirectEvent (fs_redirects st + 1) next_uri]\<rparr>))))))"

definition follow_up_response ::
  "('s, 'h, 'x) env \<Rightarrow> ('s, 'h, 'x) PolicyConfig \<Rightarrow> usize \<Rightarrow> ('h, 'x) RequestSnapshot \<Rightarrow> 'h response \<Rightarrow>
     ('s, 'h, 'x) follow_up_state \<Rightarrow> ('s, 'h, 'x) follow_up_outcome" where
  "follow_up_response env config max_retries snapshot response st =
     (case store_response_cookies env response (sn_uri snapshot) (pcf_cookie_jar config) (fs_env st) of
        Inl e \<Rightarrow> follow_up_fail e st
      | Inr s1 \<Rightarrow>
          (case authenticate_response snapshot response
                  \<lparr>aas_total_attempt = fs_attempt st, aas_retry_count = fs_retries st,
                   aas_redirect_count = fs_redirects st, aas_auth_count = fs_auths st\<rparr>
                  (rsp_selected_proxy response) (pcf_auth config) s1 of
             (Inl e, s2) \<Rightarrow> follow_up_fail e (st\<lparr>fs_env := s2\<rparr>)
           | (Inr (Some (next_request, next_auth_count)), s2) \<Rightarrow>
               follow_up_auth response next_request next_auth_count (st\<lparr>fs_env := s2\<rparr>)
           | (Inr None, s2) \<Rightarrow>
               if should_retry_misdirected_request snapshot response (fs_retries st) max_retries
                 then follow_up_retry_response insert_no_coalesced snapshot response ''misdirected_request''
                        (st\<lparr>fs_env := s2\<rparr>)
               else (case retry_response_reason env s2 snapshot response (fs_retries st) (pcf_retry config) of
                       Some reason \<Rightarrow> follow_up_retry_response id snapshot response reason (st\<lparr>fs_env := s2\<rparr>)
                     | None \<Rightarrow> follow_up_redirect env config snapshot response (st\<lparr>fs_env := s2\<rparr>))))"

definition follow_up_error ::
  "('s, 'h, 'x) env \<Rightarrow> ('s, 'h, 'x) PolicyConfig \<Rightarrow> ('h, 'x) RequestSnapshot \<Rightarrow> WireError \<Rightarrow>
     ('s, 'h, 'x) follow_up_state \<Rightarrow> ('s, 'h, 'x) follow_up_outcome" where
  "follow_up_error env config snapshot error st =
     (case config_should_retry (env_is_idempotent env) (pcf_retry config)
             \<lparr>rc_error = error, rc_attempt = fs_retries st, rc_is_body_replayable = snapshot_is_replayable snapshot,
              rc_request_method = sn_method snapshot\<rparr> of
        None \<Rightarrow> Return (Inl error) (fs_env st) (fs_log st @ [RetryDecision error False])
      | Some reason \<Rightarrow>
          let st1 = st\<lparr>fs_retries := fs_retries st + 1, fs_attempt := fs_attempt st + 1,
                fs_log := fs_log st @ [RetryDecision error True, RetryEvent (fs_retries st + 1) reason]\<rparr>
          in case to_retry_request (fs_trace st1) snapshot of
               Inl e \<Rightarrow> follow_up_fail e st1
             | Inr next_request \<Rightarrow> Continue (st1\<lparr>fs_request := next_request\<rparr>))"

text \<open>The network call of an iteration; the service is polled for readiness from the second one on.\<close>

definition network_call ::
  "('s, 'h, 'x) env \<Rightarrow> bool \<Rightarrow> ('h, 'x) request \<Rightarrow> u32 \<Rightarrow> 's \<Rightarrow>
     (WireError, (WireError, 'h response) result) result \<times> 's" where
  "network_call env first r attempt s =
     (if first then map_prod Inr id (env_call env r attempt s)
      else case env_ready env s of
             (Inl e, s1) \<Rightarrow> (Inl (err_internal ''network chain not ready'' e), s1)
           | (Inr _, s1) \<Rightarrow> map_prod Inr id (env_call env r attempt s1))"

definition traced_request :: "('s, 'h, 'x) follow_up_state \<Rightarrow> ('h, 'x) request" where
  "traced_request st =
     (fs_request st)\<lparr>rq_extensions := (rq_extensions (fs_request st))\<lparr>ext_policy_trace := Some (fs_trace st)\<rparr>\<rparr>"

definition follow_up_step ::
  "('s, 'h, 'x) env \<Rightarrow> ('s, 'h, 'x) PolicyConfig \<Rightarrow> usize \<Rightarrow> ('s, 'h, 'x) follow_up_state \<Rightarrow>
     ('s, 'h, 'x) follow_up_outcome" where
  "follow_up_step env config max_retries st =
     (case validate_request (fs_request st) of
        Inl e \<Rightarrow> follow_up_fail e st
      | Inr _ \<Rightarrow>
          let snapshot = snapshot_capture (traced_request st) (capture_mode_for_policy config) in
          case apply_request_cookies env (pcf_cookie_jar config) (fs_env st) (traced_request st) of
            Inl e \<Rightarrow> follow_up_fail e st
          | Inr request \<Rightarrow>
              (case network_call env (fs_first_network_attempt st) request (fs_attempt st) (fs_env st) of
                 (called, s') \<Rightarrow>
                   let st1 = st\<lparr>fs_env := s', fs_first_network_attempt := False\<rparr> in
                   (case called of
                      Inl e \<Rightarrow> follow_up_fail e st1
                    | Inr (Inr response) \<Rightarrow> follow_up_response env config max_retries snapshot response st1
                    | Inr (Inl error) \<Rightarrow> follow_up_error env config snapshot error st1)))"

text \<open>
  The loop returns \<^term>\<open>None\<close> when it never ends; \<open>follow_up_run\<close> is the loop with a bound on the number of
  iterations.
\<close>

partial_function (option) follow_up_loop ::
  "('s, 'h, 'x) env \<Rightarrow> ('s, 'h, 'x) PolicyConfig \<Rightarrow> usize \<Rightarrow> ('s, 'h, 'x) follow_up_state \<Rightarrow>
     ((WireError, 'h response) result \<times> 's \<times> 'h follow_up_event list) option" where
  "follow_up_loop env config max_retries st =
     (case follow_up_step env config max_retries st of
        Return r s log \<Rightarrow> Some (r, s, log)
      | Continue st' \<Rightarrow> follow_up_loop env config max_retries st')"

primrec follow_up_run ::
  "nat \<Rightarrow> ('s, 'h, 'x) env \<Rightarrow> ('s, 'h, 'x) PolicyConfig \<Rightarrow> usize \<Rightarrow> ('s, 'h, 'x) follow_up_state \<Rightarrow>
     ((WireError, 'h response) result \<times> 's \<times> 'h follow_up_event list) option" where
  "follow_up_run 0 env config max_retries st = None"
| "follow_up_run (Suc n) env config max_retries st =
     (case follow_up_step env config max_retries st of
        Return r s log \<Rightarrow> Some (r, s, log)
      | Continue st' \<Rightarrow> follow_up_run n env config max_retries st')"

text \<open>\<^verbatim>\<open>FollowUpPolicyService::call\<close>: the configuration of the call, its limit for misdirected requests, the
  first state of the loop.\<close>

definition call_config :: "('s, 'h, 'x) PolicyConfig \<Rightarrow> ('h, 'x) request \<Rightarrow> ('s, 'h, 'x) PolicyConfig" where
  "call_config config request =
     apply_request_overrides (ext_request_config (rq_extensions request))
       (unwrap_or (ext_call_options (rq_extensions request)) call_options_default) config"

definition call_max_retries :: "('s, 'h, 'x) PolicyConfig \<Rightarrow> ('h, 'x) request \<Rightarrow> usize" where
  "call_max_retries config request =
     (case ext_request_config (rq_extensions request) of
        Some rc \<Rightarrow> erc_max_retries rc
      | None \<Rightarrow> dr_max_retries (rpc_default (pcf_retry (call_config config request))))"

definition call_start :: "('h, 'x) request \<Rightarrow> u32 \<Rightarrow> 's \<Rightarrow> ('s, 'h, 'x) follow_up_state" where
  "call_start request attempt s =
     (let trace = unwrap_or (ext_policy_trace (rq_extensions request)) policy_trace_default in
      \<lparr>fs_request = request, fs_attempt = attempt, fs_retries = ptc_retry_count trace,
       fs_redirects = ptc_redirect_count trace, fs_auths = ptc_auth_count trace,
       fs_first_network_attempt = True, fs_env = s, fs_log = []\<rparr>)"

definition follow_up_call ::
  "('s, 'h, 'x) env \<Rightarrow> ('s, 'h, 'x) PolicyConfig \<Rightarrow> ('h, 'x) request \<Rightarrow> u32 \<Rightarrow> 's \<Rightarrow>
     ((WireError, 'h response) result \<times> 's \<times> 'h follow_up_event list) option" where
  "follow_up_call env config request attempt s =
     follow_up_loop env (call_config config request) (call_max_retries config request) (call_start request attempt s)"

end
