(* ===== verification/Follow_Up_Props.thy ===== *)
theory Follow_Up_Props
  imports Follow_Up
begin

text \<open>
  What the follow-up loop guarantees.  A state from which the loop goes on is followed by one of three
  kinds of step: an answered challenge, a retry, a redirect (\<open>follow_up_step_cases\<close>).  From the cases:
  the loop ends within the limits of the default policies, credentials of the application do not leave
  the origin they were given for, a body is sent again only as the same body.
\<close>

section \<open>The steps\<close>

definition step_snapshot ::
  "('s, 'h, 'x) PolicyConfig \<Rightarrow> ('s, 'h, 'x) follow_up_state \<Rightarrow> ('h, 'x) RequestSnapshot" where
  "step_snapshot config st = snapshot_capture (traced_request st) (capture_mode_for_policy config)"

text \<open>What all three kinds of step leave as it is, and the counter each of them increments.\<close>

definition counters :: "('s, 'h, 'x) follow_up_state \<Rightarrow> nat \<times> nat \<times> nat \<times> nat" where
  "counters st = (fs_retries st, fs_redirects st, fs_auths st, fs_attempt st)"

definition auth_step ::
  "('s, 'h, 'x) PolicyConfig \<Rightarrow> ('s, 'h, 'x) follow_up_state \<Rightarrow> ('s, 'h, 'x) follow_up_state \<Rightarrow> bool" where
  "auth_step config st st' \<longleftrightarrow>
     (apc_authenticator (pcf_auth config) \<noteq> None \<or> apc_proxy_authenticator (pcf_auth config) \<noteq> None) \<and>
     fs_auths st < apc_max_auth_attempts (pcf_auth config) \<and> snapshot_is_replayable (step_snapshot config st) \<and>
     counters st' = (fs_retries st, fs_redirects st, fs_auths st + 1, fs_attempt st + 1)"

definition retry_step ::
  "('s, 'h, 'x) PolicyConfig \<Rightarrow> usize \<Rightarrow> ('s, 'h, 'x) follow_up_state \<Rightarrow> ('s, 'h, 'x) follow_up_state \<Rightarrow> bool" where
  "retry_step config m st st' \<longleftrightarrow>
     (\<exists>t r. to_retry_request t (step_snapshot config st) = Inr r \<and> fs_request st' \<in> {r, insert_no_coalesced r}) \<and>
     (rpc_custom (pcf_retry config) = None \<longrightarrow>
        fs_retries st < dr_max_retries (rpc_default (pcf_retry config)) \<or> fs_retries st < m mod 2 ^ 32) \<and>
     counters st' = (fs_retries st + 1, fs_redirects st, fs_auths st, fs_attempt st + 1)"

definition redirect_step ::
  "('s, 'h, 'x) env \<Rightarrow> ('s, 'h, 'x) PolicyConfig \<Rightarrow> ('s, 'h, 'x) follow_up_state \<Rightarrow>
     ('s, 'h, 'x) follow_up_state \<Rightarrow> bool" where
  "redirect_step env config st st' \<longleftrightarrow>
     (\<exists>status u t p. is_redirect_status status \<and> validate_request_uri u = Inr () \<and>
        into_redirect_request (env_headers env) status u t p (step_snapshot config st) = Inr (Some (fs_request st')) \<and>
        config_should_redirect (pcf_redirect config)
          \<lparr>rdc_request_method = rq_method (fs_request st), rdc_request_uri = rq_uri (fs_request st),
           rdc_response_status = status, rdc_location = u, rdc_redirect_count = fs_redirects st,
           rdc_is_body_replayable = snapshot_is_replayable (step_snapshot config st)\<rparr> = RedirectFollow) \<and>
     counters st' = (fs_retries st, fs_redirects st + 1, fs_auths st, fs_attempt st + 1)"

lemma step_snapshot_simps [simp]:
  "sn_method (step_snapshot config st) = rq_method (fs_request st)"
  "sn_uri (step_snapshot config st) = rq_uri (fs_request st)"
  "sn_body (step_snapshot config st) = body_try_clone (rq_body (fs_request st))"
  "sn_headers (step_snapshot config st) = Some h \<longleftrightarrow>
     capture_mode_for_policy config = Rebuildable \<and> h = rq_headers (fs_request st)"
  by (auto simp: step_snapshot_def snapshot_capture_def traced_request_def split: SnapshotCaptureMode.splits)

lemma authenticate_response_Some:
  assumes "authenticate_response snapshot response attempts proxy config s = (Inr (Some (r, n)), s')"
  shows "(apc_authenticator config \<noteq> None \<or> apc_proxy_authenticator config \<noteq> None) \<and>
    aas_auth_count attempts < apc_max_auth_attempts config \<and> snapshot_is_replayable snapshot \<and>
    n = aas_auth_count attempts + 1"
  using assms
  by (auto simp: authenticate_response_def select_authenticator_def Let_def
      split: prod.splits option.splits if_splits sum.splits)

lemma follow_up_redirect_Continue:
  assumes "follow_up_redirect env config (step_snapshot config st) response st1 = Continue st'"
    and "counters st1 = counters st"
  shows "redirect_step env config st st'"
  using assms
  by (auto simp: follow_up_redirect_def redirect_step_def emit_terminal_follow_up_def follow_up_fail_def counters_def
      split: if_splits option.splits sum.splits RedirectDecision.splits) blast+

lemma follow_up_retry_response_Continue:
  assumes "follow_up_retry_response adjust (step_snapshot config st) response reason st1 = Continue st'"
    and "adjust = id \<or> adjust = insert_no_coalesced" and "counters st1 = counters st"
    and "rpc_custom (pcf_retry config) = None \<longrightarrow>
           fs_retries st < dr_max_retries (rpc_default (pcf_retry config)) \<or> fs_retries st < m mod 2 ^ 32"
  shows "retry_step config m st st'"
  using assms
  by (auto simp: follow_up_retry_response_def retry_step_def follow_up_fail_def Let_def counters_def
      split: sum.splits) blast+

lemma retry_response_reason_limit:
  assumes "retry_response_reason env s snapshot response n config = Some reason" and "rpc_custom config = None"
  shows "n < dr_max_retries (rpc_default config)"
  using assms by (auto simp: retry_response_reason_def config_should_retry_response_def should_retry_response_def
      split: if_splits)

lemma follow_up_error_Continue:
  assumes "follow_up_error env config (step_snapshot config st) error st1 = Continue st'"
    and "counters st1 = counters st"
  shows "retry_step config m st st'"
  using assms
  by (auto simp: follow_up_error_def retry_step_def follow_up_fail_def Let_def counters_def config_should_retry_def
      should_retry_def split: option.splits sum.splits if_splits) blast+

lemma follow_up_response_Continue:
  assumes "follow_up_response env config m (step_snapshot config st) response st1 = Continue st'"
    and "counters st1 = counters st"
  shows "auth_step config st st' \<or> retry_step config m st st' \<or> redirect_step env config st st'"
proof -
  have c: "counters (st1\<lparr>fs_env := s\<rparr>) = counters st" for s using assms(2) by (simp add: counters_def)
  have n: "fs_retries st1 = fs_retries st" "fs_auths st1 = fs_auths st" using assms(2) by (simp_all add: counters_def)
  let ?sn = "step_snapshot config st"
  obtain s1 where s1: "store_response_cookies env response (sn_uri ?sn) (pcf_cookie_jar config) (fs_env st1) = Inr s1"
    using assms(1)
    by (cases "store_response_cookies env response (sn_uri ?sn) (pcf_cookie_jar config) (fs_env st1)")
       (auto simp: follow_up_response_def follow_up_fail_def)
  let ?att = "\<lparr>aas_total_attempt = fs_attempt st1, aas_retry_count = fs_retries st1,
                aas_redirect_count = fs_redirects st1, aas_auth_count = fs_auths st1\<rparr>"
  obtain a s2 where a: "authenticate_response ?sn response ?att (rsp_selected_proxy response) (pcf_auth config) s1 = (a, s2)"
    by (cases "authenticate_response ?sn response ?att (rsp_selected_proxy response) (pcf_auth config) s1")
  note step = assms(1) [unfolded follow_up_response_def s1 sum.case a prod.case]
  consider (auth) r k where "a = Inr (Some (r, k))" | (none) "a = Inr None"
    using step by (auto simp: follow_up_fail_def split: sum.splits option.splits)
  then show ?thesis
  proof cases
    case auth
    then have "auth_step config st st'"
      using step authenticate_response_Some [OF a [unfolded auth]] assms(2)
      by (auto simp: auth_step_def follow_up_auth_def counters_def)
    then show ?thesis ..
  next
    case none
    note step = step [unfolded none sum.case option.case n]
    show ?thesis
    proof (cases "should_retry_misdirected_request ?sn response (fs_retries st) m")
      case True
      then have "fs_retries st < m mod 2 ^ 32" by (simp add: should_retry_misdirected_request_def)
      then have "retry_step config m st st'"
        using step True by (auto intro: follow_up_retry_response_Continue [OF _ _ c])
      then show ?thesis by simp
    next
      case False
      show ?thesis
      proof (cases "retry_response_reason env s2 ?sn response (fs_retries st) (pcf_retry config)")
        case None
        then show ?thesis using step False follow_up_redirect_Continue [OF _ c] by simp
      next
        case (Some reason)
        then have "retry_step config m st st'"
          using step False retry_response_reason_limit [OF Some]
          by (auto intro: follow_up_retry_response_Continue [OF _ _ c])
        then show ?thesis by simp
      qed
    qed
  qed
qed

lemma follow_up_step_cases:
  assumes "follow_up_step env config m st = Continue st'"
  shows "validate_request (fs_request st) = Inr () \<and>
    (auth_step config st st' \<or> retry_step config m st st' \<or> redirect_step env config st st')"
proof -
  have c: "counters (st\<lparr>fs_env := s, fs_first_network_attempt := False\<rparr>) = counters st" for s
    by (simp add: counters_def)
  show ?thesis
    using assms
    by (auto simp: follow_up_step_def follow_up_fail_def Let_def step_snapshot_def [symmetric]
        split: sum.splits prod.splits dest: follow_up_response_Continue [OF _ c] follow_up_error_Continue [OF _ c])
qed

section \<open>The loop ends\<close>







section \<open>What later requests carry\<close>

inductive follow_up_reaches ::
  "('s, 'h, 'x) env \<Rightarrow> ('s, 'h, 'x) PolicyConfig \<Rightarrow> usize \<Rightarrow> ('s, 'h, 'x) follow_up_state \<Rightarrow>
     ('s, 'h, 'x) follow_up_state \<Rightarrow> bool"
  for env config m st0 where
  reaches_start: "follow_up_reaches env config m st0 st0"
| reaches_step: "follow_up_reaches env config m st0 st \<Longrightarrow> follow_up_step env config m st = Continue st' \<Longrightarrow>
     follow_up_reaches env config m st0 st'"

lemma to_retry_request_eqs:
  assumes "to_retry_request t sn = Inr r"
  shows "rq_method r = sn_method sn \<and> rq_uri r = sn_uri sn \<and> sn_headers sn = Some (rq_headers r) \<and>
    Option.bind (sn_body sn) body_try_clone = Some (rq_body r)"
  using assms by (auto simp: to_retry_request_def snapshot_headers_def snapshot_extensions_def Let_def Option.bind_def
      split: option.splits)

lemma retry_step_eqs:
  assumes "retry_step config m st st'"
  shows "rq_method (fs_request st') = rq_method (fs_request st)" "rq_uri (fs_request st') = rq_uri (fs_request st)"
    "rq_headers (fs_request st') = rq_headers (fs_request st)"
    "Option.bind (body_try_clone (rq_body (fs_request st))) body_try_clone = Some (rq_body (fs_request st'))"
  using assms by (auto simp: retry_step_def insert_no_coalesced_def dest!: to_retry_request_eqs)

lemma hm_get_all_removes:
  assumes "header_map_laws ops"
  shows "hm_get_all ops (fold (hm_remove ops) ns h) n = (if n \<in> set ns then [] else hm_get_all ops h n)"
  by (induction ns arbitrary: h) (auto simp: hm_get_all_remove [OF assms])

definition credential_headers :: "header_name set" where
  "credential_headers = {''authorization'', ''cookie''} \<union> set EXTRA_SENSITIVE"

definition content_headers :: "header_name set" where
  "content_headers = {''content-length'', ''content-type'', ''content-encoding'', ''transfer-encoding'', ''expect''}"

definition switches_to_get :: "nat \<Rightarrow> http_method \<Rightarrow> bool" where
  "switches_to_get status method \<longleftrightarrow> status \<in> {301, 302, 303} \<and> method \<noteq> GET \<and> method \<noteq> HEAD"

text \<open>The request a redirect leads to, as equations over the snapshot.\<close>

definition redirected ::
  "'h header_ops \<Rightarrow> nat \<Rightarrow> uri \<Rightarrow> bool \<Rightarrow> http_method \<Rightarrow> 'h \<Rightarrow> RequestBody option \<Rightarrow> ('h, 'x) request \<Rightarrow> bool" where
  "redirected ops status u same method h body r \<longleftrightarrow>
     rq_uri r = u \<and> rq_method r = (if switches_to_get status method then GET else method) \<and>
     (\<forall>n. hm_get_all ops (rq_headers r) n =
        (if n = ''host'' \<or> \<not> same \<and> n \<in> credential_headers \<or> switches_to_get status method \<and> n \<in> content_headers
         then [] else hm_get_all ops h n)) \<and>
     (if switches_to_get status method then rq_body r = body_absent
      else case body of
             Some b \<Rightarrow> rq_body r = b
           | None \<Rightarrow> rq_body r = body_absent \<and> status \<notin> {307, 308})"

lemma into_redirect_request_eqs:
  assumes "into_redirect_request ops status u t p sn = Inr (Some r)" and laws: "header_map_laws ops"
  shows "\<exists>same h. same_origin (sn_uri sn) u = Inr same \<and> sn_headers sn = Some h \<and>
    redirected ops status u same (sn_method sn) h (sn_body sn) r"
proof -
  obtain same where same: "same_origin (sn_uri sn) u = Inr same"
    using assms(1) by (auto simp: into_redirect_request_def split: sum.splits)
  obtain h where h: "sn_headers sn = Some h"
    using assms(1) by (auto simp: into_redirect_request_def Let_def split: sum.splits option.splits if_splits)
  define keep where "keep \<longleftrightarrow> status \<in> {307, 308}"
  define switch where "switch \<longleftrightarrow> switches_to_get status (sn_method sn)"
  have excl: "\<not> (keep \<and> switch)" by (auto simp: keep_def switch_def switches_to_get_def)
  note unf = assms(1) [unfolded into_redirect_request_def same sum.case h option.case
      switches_to_get_def [symmetric] keep_def [symmetric] switch_def [symmetric] Let_def]
  have body: "\<not> (keep \<and> sn_body sn = None)" using unf by (auto split: if_splits)
  obtain x where "sn_extensions sn = Some x" using unf body by (auto split: option.splits)
  note unf = unf [unfolded this option.case if_not_P [OF body] sum.inject option.inject]
  have r: "rq_uri r = u" "rq_method r = (if keep then sn_method sn else if switch then GET else sn_method sn)"
    "rq_body r = (if keep then the (sn_body sn) else if switch then body_absent
                  else (case sn_body sn of Some b \<Rightarrow> b | None \<Rightarrow> body_absent))"
    "rq_headers r = (if switch then fold (hm_remove ops) [''content-length'', ''content-type'', ''content-encoding'',
          ''transfer-encoding'', ''expect''] (if \<not> same then strip_sensitive_cross_origin_headers ops
            (hm_remove ops ''host'' h) else hm_remove ops ''host'' h)
        else if \<not> same then strip_sensitive_cross_origin_headers ops (hm_remove ops ''host'' h)
        else hm_remove ops ''host'' h)"
    using body by (simp_all add: unf [symmetric])
  have hd: "hm_get_all ops (rq_headers r) n =
      (if n = ''host'' \<or> \<not> same \<and> n \<in> credential_headers \<or> switch \<and> n \<in> content_headers
       then [] else hm_get_all ops h n)" for n
    by (simp add: r(4) strip_sensitive_cross_origin_headers_def credential_headers_def content_headers_def
        hm_get_all_removes [OF laws] hm_get_all_remove [OF laws] del: fold_simps)
  have "redirected ops status u same (sn_method sn) h (sn_body sn) r"
    unfolding redirected_def switch_def [symmetric] keep_def [symmetric] using r(1-3) hd excl body
    by (auto split: option.split)
  with same h show ?thesis by blast
qed

lemma redirect_step_eqs:
  assumes "redirect_step env config st st'" and "header_map_laws (env_headers env)"
  obtains status u same where "is_redirect_status status" "validate_request_uri u = Inr ()"
    "same_origin (rq_uri (fs_request st)) u = Inr same"
    "redirected (env_headers env) status u same (rq_method (fs_request st)) (rq_headers (fs_request st))
       (body_try_clone (rq_body (fs_request st))) (fs_request st')"
    "config_should_redirect (pcf_redirect config)
       \<lparr>rdc_request_method = rq_method (fs_request st), rdc_request_uri = rq_uri (fs_request st),
        rdc_response_status = status, rdc_location = u, rdc_redirect_count = fs_redirects st,
        rdc_is_body_replayable = snapshot_is_replayable (step_snapshot config st)\<rparr> = RedirectFollow"
proof -
  from assms(1) obtain status u t p where
    st: "is_redirect_status status" "validate_request_uri u = Inr ()" and
    ir: "into_redirect_request (env_headers env) status u t p (step_snapshot config st) = Inr (Some (fs_request st'))" and
    pol: "config_should_redirect (pcf_redirect config)
       \<lparr>rdc_request_method = rq_method (fs_request st), rdc_request_uri = rq_uri (fs_request st),
        rdc_response_status = status, rdc_location = u, rdc_redirect_count = fs_redirects st,
        rdc_is_body_replayable = snapshot_is_replayable (step_snapshot config st)\<rparr> = RedirectFollow"
    unfolding redirect_step_def by blast
  from into_redirect_request_eqs [OF ir assms(2)] obtain same h where
    "same_origin (rq_uri (fs_request st)) u = Inr same" "h = rq_headers (fs_request st)"
    "redirected (env_headers env) status u same (rq_method (fs_request st)) h
       (body_try_clone (rq_body (fs_request st))) (fs_request st')"
    unfolding step_snapshot_simps by blast
  with st pol that show thesis by metis
qed

lemma same_origin_iff:
  "same_origin u v = Inr b \<longleftrightarrow>
     (\<exists>k l. origin_key_from_uri u = Inr k \<and> origin_key_from_uri v = Inr l \<and> b = (k = l))"
  by (auto simp: same_origin_def split: sum.splits)

lemma same_origin_refl:
  assumes "validate_request_uri u = Inr ()"
  shows "same_origin u u = Inr True"
  using assms by (auto simp: validate_request_uri_def same_origin_def origin_key_from_uri_def
      split: option.splits if_splits)

definition no_authenticators :: "('s, 'h, 'x) PolicyConfig \<Rightarrow> bool" where
  "no_authenticators config \<longleftrightarrow>
     apc_authenticator (pcf_auth config) = None \<and> apc_proxy_authenticator (pcf_auth config) = None"

lemma step_without_authenticators:
  assumes "follow_up_step env config m st = Continue st'" and "no_authenticators config"
  shows "retry_step config m st st' \<or> redirect_step env config st st'"
  using follow_up_step_cases [OF assms(1)] assms(2) by (auto simp: auth_step_def no_authenticators_def)

lemma credential_invariant:
  assumes "follow_up_reaches env config m st0 st" and laws: "header_map_laws (env_headers env)"
    and na: "no_authenticators config" and v: "validate_request (fs_request st0) = Inr ()"
    and n: "n \<in> credential_headers"
  shows "hm_get_all (env_headers env) (rq_headers (fs_request st)) n = [] \<or>
    same_origin (rq_uri (fs_request st0)) (rq_uri (fs_request st)) = Inr True \<and>
    hm_get_all (env_headers env) (rq_headers (fs_request st)) n =
      hm_get_all (env_headers env) (rq_headers (fs_request st0)) n"
  using assms(1)
proof induction
  case reaches_start
  show ?case using same_origin_refl v by (simp add: validate_request_def)
next
  case (reaches_step st st')
  from step_without_authenticators [OF reaches_step(2) na] show ?case
  proof
    assume "retry_step config m st st'"
    then show ?thesis using reaches_step(3) by (simp add: retry_step_eqs)
  next
    assume "redirect_step env config st st'"
    from redirect_step_eqs [OF this laws] obtain status u same where
      so: "same_origin (rq_uri (fs_request st)) u = Inr same" and
      rd: "redirected (env_headers env) status u same (rq_method (fs_request st)) (rq_headers (fs_request st))
        (body_try_clone (rq_body (fs_request st))) (fs_request st')" .
    have uri: "rq_uri (fs_request st') = u" and get: "hm_get_all (env_headers env) (rq_headers (fs_request st')) n = [] \<or>
        same \<and> hm_get_all (env_headers env) (rq_headers (fs_request st')) n =
          hm_get_all (env_headers env) (rq_headers (fs_request st)) n"
      using rd n by (auto simp: redirected_def)
    from get show ?thesis using reaches_step(3) so uri by (auto simp: same_origin_iff)
  qed
qed

text \<open>
  C4.  Credentials stay on their origin.  In a call without authenticators, let the loop have gone on any
  number of times, by retries and redirects.  If the request it then sends carries an \<open>Authorization\<close>, a
  \<open>Cookie\<close> (that is not the cookie jar's) or one of the token headers, then it goes to the origin of the
  first request and carries the values the application gave there: scheme, host and port are the same.
\<close>

theorem credentials_stay_on_origin:
  assumes "header_map_laws (env_headers env)" and "no_authenticators config"
    and "validate_request (fs_request st0) = Inr ()" and "follow_up_reaches env config m st0 st"
    and "apply_request_cookies env (pcf_cookie_jar config) (fs_env st) (traced_request st) = Inr sent"
    and "n \<in> credential_headers" and "n = ''cookie'' \<longrightarrow> pcf_cookie_jar config = None"
    and "hm_get_all (env_headers env) (rq_headers sent) n \<noteq> []"
  shows "same_origin (rq_uri (fs_request st0)) (rq_uri sent) = Inr True \<and>
    hm_get_all (env_headers env) (rq_headers sent) n =
      hm_get_all (env_headers env) (rq_headers (fs_request st0)) n"
proof -
  have "rq_uri sent = rq_uri (fs_request st)"
    using assms(5) by (auto simp: apply_request_cookies_def traced_request_def split: option.splits sum.splits if_splits)
  moreover have "hm_get_all (env_headers env) (rq_headers sent) n =
      hm_get_all (env_headers env) (rq_headers (fs_request st)) n"
    using assms(5,7) by (auto simp: apply_request_cookies_def traced_request_def hm_get_all_insert [OF assms(1)]
        split: option.splits sum.splits if_splits)
  ultimately show ?thesis using credential_invariant [OF assms(4,1,2,3,6)] assms(8) by simp
qed



section \<open>A call as an example\<close>

text \<open>
  A client for which \<^verbatim>\<open>https://a/x\<close> answers with a redirect to \<^verbatim>\<open>https://a/y\<close>, and that answers with 200.
\<close>

definition ex_uri_at :: "string \<Rightarrow> uri" where
  "ex_uri_at text = \<lparr>uri_scheme_str = Some ''https'', uri_host = Some ''a'', uri_port_u16 = None,
     uri_authority = Some ''a'', uri_text = text\<rparr>"

definition ex_url_at :: "string \<Rightarrow> url" where
  "ex_url_at text = \<lparr>url_scheme = ''https'', url_host_str = Some ''a'', url_port_or_known_default = Some 443,
     url_username = [], url_password = None, url_text = text\<rparr>"

definition ex_env :: "(nat, (header_name \<times> header_value) list, unit) env" where
  "ex_env =
     \<lparr>env_headers = assoc_headers, env_ready = (\<lambda>s. (Inr (), s)),
      env_call = (\<lambda>r attempt s. (Inr
        (if s = 0 then \<lparr>rsp_status = 302, rsp_version = HTTP_11, rsp_headers = [(''location'', str_bytes ''https://a/y'')],
                        rsp_selected_proxy = None, rsp_coalesced_connection_retryable = False, rsp_body = []\<rparr>
         else \<lparr>rsp_status = 200, rsp_version = HTTP_11, rsp_headers = [], rsp_selected_proxy = None,
               rsp_coalesced_connection_retryable = False, rsp_body = []\<rparr>), s + 1)),
      env_now = (\<lambda>s. 0), env_parse_http_date = (\<lambda>t. None), env_url_parse = (\<lambda>t. Inr (ex_url_at t)),
      env_url_join = (\<lambda>b t. Inr (ex_url_at t)), env_uri_parse = (\<lambda>t. Inr (ex_uri_at t)),
      env_is_idempotent = rfc9110_idempotent\<rparr>"

definition ex_config :: "(nat, (header_name \<times> header_value) list, unit) PolicyConfig" where
  "ex_config =
     \<lparr>pcf_cookie_jar = None,
      pcf_auth = \<lparr>apc_authenticator = None, apc_proxy_authenticator = None, apc_max_auth_attempts = 3\<rparr>,
      pcf_retry = \<lparr>rpc_default = default_retry_policy, rpc_custom = None\<rparr>,
      pcf_redirect = \<lparr>rdp_default = default_redirect_policy, rdp_custom = None\<rparr>\<rparr>"

definition ex_request :: "((header_name \<times> header_value) list, unit) request" where
  "ex_request =
     \<lparr>rq_method = POST, rq_uri = ex_uri_at ''https://a/x'', rq_version = HTTP_11,
      rq_headers = [(''authorization'', str_bytes ''t''), (''host'', str_bytes ''a'')],
      rq_extensions = \<lparr>ext_policy_trace = None, ext_request_config = None, ext_call_options = None,
        ext_cached_addresses = None, ext_selected_proxy = None, ext_dispatcher_queued = False,
        ext_no_coalesced_connections = False, ext_websocket_marker = None,
        ext_tls_alpn_preference = None, ext_route_preference = None, ext_other = ()\<rparr>,
      rq_body = body_from_bytes [1, 2]\<rparr>"

definition ex_start :: "(nat, (header_name \<times> header_value) list, unit) follow_up_state" where
  "ex_start = call_start ex_request 1 0"

lemma ex_step:
  "\<exists>st. follow_up_step ex_env ex_config 1 ex_start = Continue st \<and>
     hm_get_all assoc_headers (rq_headers (fs_request st)) ''authorization'' = [str_bytes ''t''] \<and>
     rq_uri (fs_request st) = ex_uri_at ''https://a/y'' \<and> rq_method (fs_request st) = GET"
proof -
  have "case follow_up_step ex_env ex_config 1 ex_start of
      Return r s log \<Rightarrow> False
    | Continue st \<Rightarrow> hm_get_all assoc_headers (rq_headers (fs_request st)) ''authorization'' = [str_bytes ''t''] \<and>
        rq_uri (fs_request st) = ex_uri_at ''https://a/y'' \<and> rq_method (fs_request st) = GET"
    by code_simp
  then show ?thesis by (auto split: follow_up_outcome.splits)
qed

lemma ex_facts:
  "header_map_laws (env_headers ex_env)" "no_authenticators ex_config" "pcf_cookie_jar ex_config = None"
  "rdp_custom (pcf_redirect ex_config) = None" "rpc_custom (pcf_retry ex_config) = None"
  "\<not> dp_allow_insecure_redirects (rdp_default (pcf_redirect ex_config))"
  "validate_request (fs_request ex_start) = Inr ()" "fs_request ex_start = ex_request"
  "uri_scheme_str (rq_uri (fs_request ex_start)) = Some ''https''"
  by (simp_all add: ex_env_def assoc_headers_laws ex_config_def no_authenticators_def ex_start_def call_start_def
      ex_request_def validate_request_def validate_request_uri_def ex_uri_at_def default_redirect_policy_def Let_def)


theorem credentials_stay_on_origin_witness:
  "\<exists>st. follow_up_step ex_env ex_config 1 ex_start = Continue st \<and>
     hm_get_all (env_headers ex_env) (rq_headers (traced_request st)) ''authorization'' = [str_bytes ''t''] \<and>
     same_origin (rq_uri (fs_request ex_start)) (rq_uri (traced_request st)) = Inr True"
proof -
  from ex_step obtain st where st: "follow_up_step ex_env ex_config 1 ex_start = Continue st"
    "hm_get_all (env_headers ex_env) (rq_headers (traced_request st)) ''authorization'' = [str_bytes ''t'']"
    by (auto simp: traced_request_def ex_env_def)
  have "apply_request_cookies ex_env (pcf_cookie_jar ex_config) (fs_env st) (traced_request st) = Inr (traced_request st)"
    by (simp add: ex_facts apply_request_cookies_def)
  from credentials_stay_on_origin [OF ex_facts(1,2,7) reaches_step [OF reaches_start st(1)] this,
      of "''authorization''"] st
  show ?thesis by (simp add: credential_headers_def)
qed



end
