(* ===== verification/Cache.thy ===== *)
theory Cache
  imports Call_Types
begin

text \<open>
  The caching interceptor (\<^verbatim>\<open>openwire-cache/src/lib.rs\<close>): cache directives, the policy of a request, the
  variants of a response, freshness and age, storability, validation, invalidation, and the interceptor
  over any store.  The in-memory store is in the theory of the memory store.

  Durations are nanoseconds up to \<open>DURATION_MAX\<close>; an instant of the wall clock is a number of nanoseconds
  since the epoch.  The record \<open>cache_env\<close> holds what the code takes from the \<^verbatim>\<open>http\<close>, \<^verbatim>\<open>httpdate\<close> and
  \<^verbatim>\<open>url\<close> crates, the clocks and the rest of the interceptor chain (\<^verbatim>\<open>Next\<close>); the state \<open>'s\<close> of the clocks
  and of the chain is threaded through.
\<close>

section \<open>Parameters\<close>

record 'u url_ops =
  uo_parse :: "string \<Rightarrow> 'u option"
  uo_join :: "'u \<Rightarrow> string \<Rightarrow> 'u option"
  uo_host_str :: "'u \<Rightarrow> string option"
  uo_set_host :: "string \<Rightarrow> 'u \<Rightarrow> 'u"
  uo_scheme :: "'u \<Rightarrow> string"
  uo_port :: "'u \<Rightarrow> u16 option"
  uo_set_port_none :: "'u \<Rightarrow> 'u"
  uo_path :: "'u \<Rightarrow> string"
  uo_set_path :: "string \<Rightarrow> 'u \<Rightarrow> 'u"
  uo_as_str :: "'u \<Rightarrow> string"

record ('s, 'h, 'x, 'u) cache_env =
  ce_headers :: "'h header_ops"
  ce_keys :: "'h \<Rightarrow> header_name list"
  ce_empty_headers :: 'h
  ce_header_name :: "string \<Rightarrow> header_name option"
  ce_parse_http_date :: "string \<Rightarrow> nat option"
  ce_uri_parse :: "string \<Rightarrow> uri option"
  ce_url :: "'u url_ops"
  ce_instant :: "'s \<Rightarrow> instant"
  ce_system_time :: "'s \<Rightarrow> nat"
  ce_next :: "('h, 'x) request \<Rightarrow> 's \<Rightarrow> (WireError, 'h response) result \<times> 's"

definition DURATION_MAX :: duration where
  "DURATION_MAX = secs U64_MAX + 999999999"

definition as_secs :: "duration \<Rightarrow> u64" where
  "as_secs d = d div secs 1"

definition duration_since :: "nat \<Rightarrow> nat \<Rightarrow> duration option" where
  "duration_since later earlier = (if earlier \<le> later then Some (later - earlier) else None)"

section \<open>Directives\<close>

definition MAX_DELTA_SECONDS :: u64 where
  "MAX_DELTA_SECONDS = 2147483648"

definition U128_MAX :: nat where
  "U128_MAX = 340282366920938463463374607431768211455"

record CacheDirective =
  cdr_name :: string
  cdr_value :: "string option"

datatype MaxStale = StaleAny | StaleLimit duration

record CacheDirectives =
  cd_public :: bool
  cd_no_cache :: bool
  cd_no_store :: bool
  cd_only_if_cached :: bool
  cd_max_age :: "duration option"
  cd_s_maxage :: "duration option"
  cd_max_stale :: "MaxStale option"
  cd_min_fresh :: "duration option"
  cd_must_revalidate :: bool

definition cache_directives_default :: CacheDirectives where
  "cache_directives_default =
     \<lparr>cd_public = False, cd_no_cache = False, cd_no_store = False, cd_only_if_cached = False, cd_max_age = None,
      cd_s_maxage = None, cd_max_stale = None, cd_min_fresh = None, cd_must_revalidate = False\<rparr>"

definition unquote :: "string \<Rightarrow> string" where
  "unquote value =
     (case Option.bind (strip_prefix [CHR 34] value) (strip_suffix [CHR 34]) of Some v \<Rightarrow> v | None \<Rightarrow> value)"

definition parse_delta_seconds :: "string \<Rightarrow> duration option" where
  "parse_delta_seconds value =
     (case parse_uint U128_MAX value of
        Inl _ \<Rightarrow> None
      | Inr seconds \<Rightarrow> Some (secs (min seconds MAX_DELTA_SECONDS)))"

definition cache_control_directives :: "string \<Rightarrow> CacheDirective list" where
  "cache_control_directives value =
     List.map_filter (\<lambda>raw0. let raw = trim raw0 in
       if raw = [] then None
       else Some (case split_once (CHR 61) raw of
                    Some (name, v) \<Rightarrow> \<lparr>cdr_name = to_ascii_lowercase (trim name), cdr_value = Some (unquote (trim v))\<rparr>
                  | None \<Rightarrow> \<lparr>cdr_name = to_ascii_lowercase raw, cdr_value = None\<rparr>))
     (split_on (CHR 44) value)"

definition directive_seconds :: "CacheDirective \<Rightarrow> duration option" where
  "directive_seconds d = Option.bind (cdr_value d) parse_delta_seconds"

definition apply_directive :: "CacheDirective \<Rightarrow> CacheDirectives \<Rightarrow> CacheDirectives" where
  "apply_directive d out =
     (let name = cdr_name d in
      if name = ''public'' then out\<lparr>cd_public := True\<rparr>
      else if name = ''no-cache'' then out\<lparr>cd_no_cache := True\<rparr>
      else if name = ''no-store'' then out\<lparr>cd_no_store := True\<rparr>
      else if name = ''only-if-cached'' then out\<lparr>cd_only_if_cached := True\<rparr>
      else if name = ''must-revalidate'' then out\<lparr>cd_must_revalidate := True\<rparr>
      else if name = ''max-age'' then
        (case directive_seconds d of Some v \<Rightarrow> out\<lparr>cd_max_age := Some v\<rparr> | None \<Rightarrow> out)
      else if name = ''s-maxage'' then
        (case directive_seconds d of Some v \<Rightarrow> out\<lparr>cd_s_maxage := Some v\<rparr> | None \<Rightarrow> out)
      else if name = ''max-stale'' then
        (case cdr_value d of
           Some value \<Rightarrow>
             (case parse_delta_seconds value of Some v \<Rightarrow> out\<lparr>cd_max_stale := Some (StaleLimit v)\<rparr> | None \<Rightarrow> out)
         | None \<Rightarrow> out\<lparr>cd_max_stale := Some StaleAny\<rparr>)
      else if name = ''min-fresh'' then
        (case directive_seconds d of Some v \<Rightarrow> out\<lparr>cd_min_fresh := Some v\<rparr> | None \<Rightarrow> out)
      else out)"

definition directives_from_headers :: "'h header_ops \<Rightarrow> 'h \<Rightarrow> CacheDirectives" where
  "directives_from_headers ops h =
     fold (\<lambda>v out. case to_str v of None \<Rightarrow> out | Some value \<Rightarrow> fold apply_directive (cache_control_directives value) out)
       (hm_get_all ops h ''cache-control'') cache_directives_default"

record CacheValidators =
  cv_etag :: "header_value option"
  cv_last_modified :: "header_value option"

definition validators_from_headers :: "'h header_ops \<Rightarrow> 'h \<Rightarrow> CacheValidators" where
  "validators_from_headers ops h =
     \<lparr>cv_etag = header_get ops h ''etag'', cv_last_modified = header_get ops h ''last-modified''\<rparr>"

definition has_any :: "CacheValidators \<Rightarrow> bool" where
  "has_any v \<longleftrightarrow> cv_etag v \<noteq> None \<or> cv_last_modified v \<noteq> None"

section \<open>The policy of a request\<close>

record RequestCachePolicy =
  rcp_is_cacheable :: bool
  rcp_has_authorization :: bool
  rcp_lookup :: bool
  rcp_store_response :: bool
  rcp_only_if_cached :: bool
  rcp_max_age :: "duration option"
  rcp_max_stale :: "MaxStale option"
  rcp_min_fresh :: "duration option"

definition request_pragma_no_cache :: "'h header_ops \<Rightarrow> 'h \<Rightarrow> bool" where
  "request_pragma_no_cache ops h \<longleftrightarrow>
     list_ex (\<lambda>v. case to_str v of
                    None \<Rightarrow> False
                  | Some value \<Rightarrow> list_ex (\<lambda>d. cdr_name d = ''no-cache'') (cache_control_directives value))
       (hm_get_all ops h ''pragma'')"

definition request_cache_directives :: "'h header_ops \<Rightarrow> 'h \<Rightarrow> CacheDirectives" where
  "request_cache_directives ops h =
     (let d = directives_from_headers ops h in
      if \<not> contains_key ops h ''cache-control'' \<and> request_pragma_no_cache ops h then d\<lparr>cd_no_cache := True\<rparr> else d)"

definition request_cache_policy :: "'h header_ops \<Rightarrow> ('h, 'x) request \<Rightarrow> RequestCachePolicy" where
  "request_cache_policy ops r =
     (let d = request_cache_directives ops (rq_headers r);
          is_cacheable = (rq_method r = GET \<and> rb_replayable_len (rq_body r) = Some 0)
      in \<lparr>rcp_is_cacheable = is_cacheable,
          rcp_has_authorization = contains_key ops (rq_headers r) ''authorization'',
          rcp_lookup = (is_cacheable \<and> \<not> cd_no_cache d \<and> (cd_max_age d \<noteq> Some 0 \<or> cd_max_stale d \<noteq> None)),
          rcp_store_response = (is_cacheable \<and> \<not> cd_no_store d),
          rcp_only_if_cached = (is_cacheable \<and> cd_only_if_cached d),
          rcp_max_age = cd_max_age d, rcp_max_stale = cd_max_stale d, rcp_min_fresh = cd_min_fresh d\<rparr>)"

section \<open>Variants\<close>

record VaryField =
  vf_name :: header_name
  vf_values :: "header_value list"

type_synonym CapturedVary = "VaryField list"

fun vary_names ::
  "'h header_ops \<Rightarrow> (string \<Rightarrow> header_name option) \<Rightarrow> 'h \<Rightarrow> CapturedVary \<Rightarrow> string list \<Rightarrow> CapturedVary option" where
  "vary_names ops hname rh fs [] = Some fs"
| "vary_names ops hname rh fs (name # names) =
     (if name = ''*'' then None
      else case hname name of
        None \<Rightarrow> None
      | Some n \<Rightarrow>
          if list_ex (\<lambda>f. vf_name f = n) fs then vary_names ops hname rh fs names
          else vary_names ops hname rh (fs @ [\<lparr>vf_name = n, vf_values = hm_get_all ops rh n\<rparr>]) names)"

fun vary_values ::
  "'h header_ops \<Rightarrow> (string \<Rightarrow> header_name option) \<Rightarrow> 'h \<Rightarrow> CapturedVary \<Rightarrow> header_value list \<Rightarrow> CapturedVary option" where
  "vary_values ops hname rh fs [] = Some fs"
| "vary_values ops hname rh fs (v # vs) =
     (case to_str v of
        None \<Rightarrow> None
      | Some value \<Rightarrow>
          (case vary_names ops hname rh fs (filter (\<lambda>n. n \<noteq> []) (map trim (split_on (CHR 44) value))) of
             None \<Rightarrow> None
           | Some fs' \<Rightarrow> vary_values ops hname rh fs' vs))"

definition vary_capture ::
  "'h header_ops \<Rightarrow> (string \<Rightarrow> header_name option) \<Rightarrow> 'h \<Rightarrow> 'h \<Rightarrow> CapturedVary option" where
  "vary_capture ops hname response_headers request_headers =
     vary_values ops hname request_headers [] (hm_get_all ops response_headers ''vary'')"

definition include_request_header :: "'h header_ops \<Rightarrow> header_name \<Rightarrow> 'h \<Rightarrow> CapturedVary \<Rightarrow> CapturedVary" where
  "include_request_header ops name request_headers fs =
     (case position (\<lambda>f. vf_name f = name) fs of
        Some i \<Rightarrow> fs[i := (fs ! i)\<lparr>vf_values := hm_get_all ops request_headers name\<rparr>]
      | None \<Rightarrow> fs @ [\<lparr>vf_name = name, vf_values = hm_get_all ops request_headers name\<rparr>])"

definition tracks_request_header :: "header_name \<Rightarrow> CapturedVary \<Rightarrow> bool" where
  "tracks_request_header name fs \<longleftrightarrow> list_ex (\<lambda>f. vf_name f = name) fs"

definition vary_matches :: "'h header_ops \<Rightarrow> 'h \<Rightarrow> CapturedVary \<Rightarrow> bool" where
  "vary_matches ops request_headers fs \<longleftrightarrow>
     list_all (\<lambda>f. hm_get_all ops request_headers (vf_name f) = vf_values f) fs"

section \<open>Freshness of a response\<close>

definition cache_control_directive_count :: "'h header_ops \<Rightarrow> 'h \<Rightarrow> string \<Rightarrow> usize" where
  "cache_control_directive_count ops h name =
     length (filter (\<lambda>d. cdr_name d = name)
       (concat (map cache_control_directives (List.map_filter to_str (hm_get_all ops h ''cache-control'')))))"

definition header_value_count :: "'h header_ops \<Rightarrow> 'h \<Rightarrow> header_name \<Rightarrow> usize" where
  "header_value_count ops h name = length (hm_get_all ops h name)"

definition parse_http_date_header ::
  "'h header_ops \<Rightarrow> (string \<Rightarrow> nat option) \<Rightarrow> 'h \<Rightarrow> header_name \<Rightarrow> nat option" where
  "parse_http_date_header ops pdate h name = Option.bind (Option.bind (header_get ops h name) to_str) pdate"

definition explicit_expires_lifetime ::
  "'h header_ops \<Rightarrow> (string \<Rightarrow> nat option) \<Rightarrow> 'h \<Rightarrow> nat \<Rightarrow> duration option" where
  "explicit_expires_lifetime ops pdate h now =
     (case header_get ops h ''expires'' of
        None \<Rightarrow> None
      | Some value \<Rightarrow>
          let expires = unwrap_or (Option.bind (to_str value) pdate) 0;
              date = unwrap_or (parse_http_date_header ops pdate h ''date'') now
          in Some (unwrap_or (duration_since expires date) 0))"

definition LAST_MODIFIED_HEURISTIC_DENOMINATOR :: u64 where
  "LAST_MODIFIED_HEURISTIC_DENOMINATOR = 10"

definition heuristic_freshness_lifetime ::
  "'h header_ops \<Rightarrow> (string \<Rightarrow> nat option) \<Rightarrow> 'h \<Rightarrow> nat \<Rightarrow> duration option" where
  "heuristic_freshness_lifetime ops pdate h now =
     (case parse_http_date_header ops pdate h ''last-modified'' of
        None \<Rightarrow> None
      | Some last_modified \<Rightarrow>
          (case duration_since (unwrap_or (parse_http_date_header ops pdate h ''date'') now) last_modified of
             None \<Rightarrow> None
           | Some since \<Rightarrow>
               let seconds = as_secs since div LAST_MODIFIED_HEURISTIC_DENOMINATOR in
               if seconds > 0 then Some (secs seconds) else None))"

definition response_freshness_lifetime ::
  "'h header_ops \<Rightarrow> (string \<Rightarrow> nat option) \<Rightarrow> 'h \<Rightarrow> CacheDirectives \<Rightarrow> nat \<Rightarrow> duration option" where
  "response_freshness_lifetime ops pdate h directives now =
     (if cache_control_directive_count ops h ''max-age'' > 1 then Some 0
      else case cd_max_age directives of
        Some max_age \<Rightarrow> Some max_age
      | None \<Rightarrow>
          if header_value_count ops h ''expires'' > 1 then Some 0
          else (case explicit_expires_lifetime ops pdate h now of
                  Some lifetime \<Rightarrow> Some lifetime
                | None \<Rightarrow>
                    (case heuristic_freshness_lifetime ops pdate h now of
                       Some lifetime \<Rightarrow> if lifetime \<noteq> 0 then Some lifetime else None
                     | None \<Rightarrow> None)))"

definition response_age :: "'h header_ops \<Rightarrow> 'h \<Rightarrow> duration" where
  "response_age ops h =
     (case Option.bind (header_get ops h ''age'') to_str of
        None \<Rightarrow> 0
      | Some value \<Rightarrow>
          (case parse_uint U64_MAX (trim (hd (split_on (CHR 44) value))) of
             Inl _ \<Rightarrow> 0
           | Inr seconds \<Rightarrow> secs seconds))"

definition response_current_age :: "'h header_ops \<Rightarrow> (string \<Rightarrow> nat option) \<Rightarrow> 'h \<Rightarrow> nat \<Rightarrow> duration" where
  "response_current_age ops pdate h now =
     max (unwrap_or (Option.bind (parse_http_date_header ops pdate h ''date'') (duration_since now)) 0)
       (response_age ops h)"

definition response_allows_authorized_storage :: "CacheDirectives \<Rightarrow> bool" where
  "response_allows_authorized_storage d \<longleftrightarrow> cd_public d \<or> cd_s_maxage d \<noteq> None \<or> cd_must_revalidate d"

definition response_is_storable ::
  "'h header_ops \<Rightarrow> 'h \<Rightarrow> nat \<Rightarrow> CacheDirectives \<Rightarrow> CacheValidators \<Rightarrow> duration \<Rightarrow> bool \<Rightarrow> bool" where
  "response_is_storable ops h status directives validators freshness_lifetime request_has_authorization \<longleftrightarrow>
     status = 200 \<and> \<not> contains_key ops h ''set-cookie'' \<and> \<not> cd_no_store directives \<and>
     (\<not> request_has_authorization \<or> response_allows_authorized_storage directives) \<and>
     (\<not> cd_no_cache directives \<or> has_any validators) \<and>
     (freshness_lifetime \<noteq> 0 \<or> has_any validators)"

section \<open>Cached responses\<close>

record 'h CachedResponse =
  ca_status :: nat
  ca_version :: http_version
  ca_headers :: 'h
  ca_body :: bytes
  ca_stored_at :: instant
  ca_initial_age :: duration
  ca_freshness_lifetime :: duration
  ca_vary :: CapturedVary
  ca_must_validate :: bool
  ca_must_revalidate :: bool

record CachedResponseOptions =
  cro_vary :: CapturedVary
  cro_must_validate :: bool
  cro_must_revalidate :: bool

definition new_with_vary ::
  "('s, 'h, 'x, 'u) cache_env \<Rightarrow> 's \<Rightarrow> nat \<Rightarrow> http_version \<Rightarrow> 'h \<Rightarrow> bytes \<Rightarrow> duration \<Rightarrow> CachedResponseOptions \<Rightarrow>
     'h CachedResponse" where
  "new_with_vary env s status version headers body freshness_lifetime options =
     \<lparr>ca_status = status, ca_version = version, ca_headers = headers, ca_body = body, ca_stored_at = ce_instant env s,
      ca_initial_age = response_current_age (ce_headers env) (ce_parse_http_date env) headers (ce_system_time env s),
      ca_freshness_lifetime = freshness_lifetime, ca_vary = cro_vary options,
      ca_must_validate = cro_must_validate options, ca_must_revalidate = cro_must_revalidate options\<rparr>"

definition current_age :: "instant \<Rightarrow> 'h CachedResponse \<Rightarrow> duration" where
  "current_age now e = saturating_add DURATION_MAX (ca_initial_age e) (elapsed now (ca_stored_at e))"

definition effective_freshness_lifetime :: "RequestCachePolicy \<Rightarrow> 'h CachedResponse \<Rightarrow> duration" where
  "effective_freshness_lifetime p e =
     (case rcp_max_age p of Some max_age \<Rightarrow> min (ca_freshness_lifetime e) max_age | None \<Rightarrow> ca_freshness_lifetime e)"

definition is_fresh_for :: "duration \<Rightarrow> duration \<Rightarrow> RequestCachePolicy \<Rightarrow> bool" where
  "is_fresh_for age lifetime p \<longleftrightarrow>
     age < lifetime \<and>
     (case rcp_min_fresh p of
        None \<Rightarrow> True
      | Some min_fresh \<Rightarrow>
          (case checked_add DURATION_MAX age min_fresh of None \<Rightarrow> False | Some required_age \<Rightarrow> required_age \<le> lifetime))"

definition is_stale_acceptable_for :: "duration \<Rightarrow> duration \<Rightarrow> RequestCachePolicy \<Rightarrow> 'h CachedResponse \<Rightarrow> bool" where
  "is_stale_acceptable_for age lifetime p e \<longleftrightarrow>
     \<not> (ca_must_revalidate e \<or> rcp_min_fresh p \<noteq> None) \<and>
     (case rcp_max_stale p of
        Some StaleAny \<Rightarrow> True
      | Some (StaleLimit limit) \<Rightarrow> age - lifetime \<le> limit
      | None \<Rightarrow> False)"

definition is_servable_for :: "instant \<Rightarrow> RequestCachePolicy \<Rightarrow> 'h CachedResponse \<Rightarrow> bool" where
  "is_servable_for now p e \<longleftrightarrow>
     \<not> ca_must_validate e \<and>
     (let age = current_age now e; lifetime = effective_freshness_lifetime p e
      in is_fresh_for age lifetime p \<or> is_stale_acceptable_for age lifetime p e)"

definition matches_request :: "'h header_ops \<Rightarrow> RequestCachePolicy \<Rightarrow> 'h \<Rightarrow> 'h CachedResponse \<Rightarrow> bool" where
  "matches_request ops p request_headers e \<longleftrightarrow>
     \<not> (rcp_has_authorization p \<and> \<not> tracks_request_header ''authorization'' (ca_vary e)) \<and>
     vary_matches ops request_headers (ca_vary e)"

definition same_variant_as :: "'h CachedResponse \<Rightarrow> 'h CachedResponse \<Rightarrow> bool" where
  "same_variant_as e other \<longleftrightarrow> ca_vary e = ca_vary other"

definition can_revalidate :: "'h header_ops \<Rightarrow> 'h \<Rightarrow> 'h CachedResponse \<Rightarrow> bool" where
  "can_revalidate ops request_headers e \<longleftrightarrow>
     \<not> contains_key ops request_headers ''if-none-match'' \<and> \<not> contains_key ops request_headers ''if-modified-since'' \<and>
     has_any (validators_from_headers ops (ca_headers e))"

definition apply_revalidation_headers :: "'h header_ops \<Rightarrow> 'h CachedResponse \<Rightarrow> 'h \<Rightarrow> 'h" where
  "apply_revalidation_headers ops e request_headers =
     (let v = validators_from_headers ops (ca_headers e);
          h1 = (case cv_etag v of
                  Some etag \<Rightarrow> hm_insert ops ''if-none-match'' etag request_headers | None \<Rightarrow> request_headers)
      in case cv_last_modified v of
           Some last_modified \<Rightarrow> hm_insert ops ''if-modified-since'' last_modified h1
         | None \<Rightarrow> h1)"

definition should_update_from_304 :: "header_name \<Rightarrow> bool" where
  "should_update_from_304 name \<longleftrightarrow>
     name \<noteq> ''content-length'' \<and> name \<noteq> ''content-encoding'' \<and> name \<noteq> ''transfer-encoding''"

definition merge_304_headers :: "'h header_ops \<Rightarrow> ('h \<Rightarrow> header_name list) \<Rightarrow> 'h \<Rightarrow> 'h \<Rightarrow> 'h" where
  "merge_304_headers ops keys stored validation =
     fold (\<lambda>name h. if \<not> should_update_from_304 name then h
                    else fold (hm_append ops name) (hm_get_all ops validation name) (hm_remove ops name h))
       (keys validation) (hm_remove ops ''age'' stored)"

definition freshen_from_not_modified ::
  "('s, 'h, 'x, 'u) cache_env \<Rightarrow> 's \<Rightarrow> 'h \<Rightarrow> 'h \<Rightarrow> 'h CachedResponse \<Rightarrow> 'h CachedResponse \<times> bool" where
  "freshen_from_not_modified env s validation_headers request_headers e =
     (let ops = ce_headers env;
          headers = merge_304_headers ops (ce_keys env) (ca_headers e) validation_headers;
          directives = directives_from_headers ops headers;
          validators = validators_from_headers ops headers;
          freshness_lifetime = unwrap_or (response_freshness_lifetime ops (ce_parse_http_date env) headers directives
                                            (ce_system_time env s)) 0;
          vary = map_option (\<lambda>v. if tracks_request_header ''authorization'' (ca_vary e)
                                 then include_request_header ops ''authorization'' request_headers v else v)
                   (vary_capture ops (ce_header_name env) headers request_headers);
          store_response = (vary \<noteq> None \<and>
             response_is_storable ops headers (ca_status e) directives validators freshness_lifetime
               (contains_key ops request_headers ''authorization''))
      in (new_with_vary env s (ca_status e) (ca_version e) headers (ca_body e) freshness_lifetime
            \<lparr>cro_vary = unwrap_or vary [], cro_must_validate = cd_no_cache directives,
             cro_must_revalidate = cd_must_revalidate directives\<rparr>,
          store_response))"

definition build_response :: "nat \<Rightarrow> http_version \<Rightarrow> 'h \<Rightarrow> bytes \<Rightarrow> 'h response" where
  "build_response status version headers body =
     \<lparr>rsp_status = status, rsp_version = version, rsp_headers = headers, rsp_selected_proxy = None,
      rsp_coalesced_connection_retryable = False, rsp_body = (if body = [] then [] else [Inr body])\<rparr>"

definition into_response :: "'h header_ops \<Rightarrow> instant \<Rightarrow> 'h CachedResponse \<Rightarrow> 'h response" where
  "into_response ops now e =
     (let age = min (as_secs (current_age now e)) MAX_DELTA_SECONDS
      in build_response (ca_status e) (ca_version e)
           (hm_insert ops ''age'' (str_bytes (show_nat age)) (ca_headers e)) (ca_body e))"

definition gateway_timeout_response :: "'h \<Rightarrow> 'h response" where
  "gateway_timeout_response no_headers = build_response 504 HTTP_11 no_headers []"

section \<open>Keys and invalidation\<close>

definition normalize_cache_uri :: "'u url_ops \<Rightarrow> uri \<Rightarrow> string" where
  "normalize_cache_uri uo u =
     (case uo_parse uo (uri_text u) of
        None \<Rightarrow> uri_text u
      | Some url0 \<Rightarrow>
          let url1 = (case uo_host_str uo url0 of
                        Some host \<Rightarrow> uo_set_host uo (to_ascii_lowercase host) url0 | None \<Rightarrow> url0);
              url2 = (if uo_scheme uo url1 = ''http'' \<and> uo_port uo url1 = Some 80 \<or>
                         uo_scheme uo url1 = ''https'' \<and> uo_port uo url1 = Some 443
                      then uo_set_port_none uo url1 else url1);
              url3 = (if uo_path uo url2 = [] then uo_set_path uo ''/'' url2 else url2)
          in uo_as_str uo url3)"

definition cache_key :: "'u url_ops \<Rightarrow> uri \<Rightarrow> string" where
  "cache_key uo u = normalize_cache_uri uo u"

definition request_method_invalidates_cache :: "http_method \<Rightarrow> bool" where
  "request_method_invalidates_cache m \<longleftrightarrow> m \<notin> {GET, HEAD, OPTIONS, TRACE}"

definition response_status_invalidates_cache :: "nat \<Rightarrow> bool" where
  "response_status_invalidates_cache status \<longleftrightarrow>
     (200 \<le> status \<and> status < 300) \<or> (300 \<le> status \<and> status < 400)"

definition same_host :: "'u url_ops \<Rightarrow> 'u \<Rightarrow> 'u \<Rightarrow> bool" where
  "same_host uo left right \<longleftrightarrow>
     (case (uo_host_str uo left, uo_host_str uo right) of
        (Some l, Some r) \<Rightarrow> eq_ignore_ascii_case l r
      | _ \<Rightarrow> False)"

definition same_host_invalidation_uri ::
  "'u url_ops \<Rightarrow> (string \<Rightarrow> uri option) \<Rightarrow> uri \<Rightarrow> header_value \<Rightarrow> uri option" where
  "same_host_invalidation_uri uo uparse target_uri value =
     (case uo_parse uo (uri_text target_uri) of
        None \<Rightarrow> None
      | Some target \<Rightarrow>
          (case to_str value of
             None \<Rightarrow> None
           | Some text \<Rightarrow>
               (case uo_join uo target text of
                  None \<Rightarrow> None
                | Some u \<Rightarrow> if \<not> same_host uo target u then None else uparse (uo_as_str uo u))))"

definition invalidation_keys ::
  "'h header_ops \<Rightarrow> 'u url_ops \<Rightarrow> (string \<Rightarrow> uri option) \<Rightarrow> uri \<Rightarrow> 'h \<Rightarrow> string list" where
  "invalidation_keys ops uo uparse target_uri response_headers =
     fold (\<lambda>name keys. fold (\<lambda>value keys.
             case same_host_invalidation_uri uo uparse target_uri value of
               None \<Rightarrow> keys
             | Some u \<Rightarrow> let key = cache_key uo u in if key \<in> set keys then keys else keys @ [key])
           (hm_get_all ops response_headers name) keys)
       [''location'', ''content-location''] [cache_key uo target_uri]"

section \<open>The interceptor\<close>

text \<open>The \<^verbatim>\<open>CacheStore\<close> trait, as the interceptor uses it.\<close>

record ('h, 'c) cache_store_ops =
  so_get_candidates :: "string \<Rightarrow> 'c \<Rightarrow> 'h CachedResponse list"
  so_put_candidate :: "string \<Rightarrow> 'h CachedResponse \<Rightarrow> 'c \<Rightarrow> 'c"
  so_remove :: "string \<Rightarrow> 'c \<Rightarrow> 'c"
  so_remove_candidate :: "string \<Rightarrow> 'h CachedResponse \<Rightarrow> 'c \<Rightarrow> 'c"

datatype 'h cache_event =
    CacheHit "'h response" | CacheConditionalHit "'h response" | CacheMiss | SatisfactionFailure "'h response"

text \<open>
  The loop over the candidates, newest first: the entry to serve, or the entry to validate if any.
\<close>

fun scan_candidates ::
  "'h header_ops \<Rightarrow> instant \<Rightarrow> RequestCachePolicy \<Rightarrow> 'h \<Rightarrow> 'h CachedResponse list \<Rightarrow>
     'h CachedResponse + 'h CachedResponse option" where
  "scan_candidates ops now p h [] = Inr None"
| "scan_candidates ops now p h (e # es) =
     (if matches_request ops p h e then
        (if rcp_lookup p \<and> is_servable_for now p e then Inl e
         else Inr (if \<not> rcp_only_if_cached p \<and> can_revalidate ops h e then Some e else None))
      else scan_candidates ops now p h es)"

text \<open>What the interceptor keeps while the rest of the chain runs.\<close>

record 'h cache_pending =
  cp_invalidation_target :: "uri option"
  cp_request_policy :: RequestCachePolicy
  cp_cache_key :: "string option"
  cp_request_headers :: 'h
  cp_validation_entry :: "'h CachedResponse option"

datatype ('h, 'x) cache_lookup =
    Served "'h response" "'h cache_event list"
  | Forward "('h, 'x) request" "'h cache_pending" "'h cache_event list"

definition cache_forward ::
  "'h header_ops \<Rightarrow> instant \<Rightarrow> ('h, 'x) request \<Rightarrow> 'h cache_pending \<Rightarrow> ('h, 'x) cache_lookup" where
  "cache_forward ops now r p =
     (case cp_validation_entry p of
        Some e \<Rightarrow> Forward (r\<lparr>rq_headers := apply_revalidation_headers ops e (rq_headers r)\<rparr>) p
                    [CacheConditionalHit (into_response ops now e)]
      | None \<Rightarrow> Forward r p (if cp_cache_key p \<noteq> None then [CacheMiss] else []))"

definition cache_before ::
  "('s, 'h, 'x, 'u) cache_env \<Rightarrow> ('h, 'c) cache_store_ops \<Rightarrow> ('h, 'x) request \<Rightarrow> 's \<Rightarrow> 'c \<Rightarrow> ('h, 'x) cache_lookup" where
  "cache_before env so r s c =
     (let ops = ce_headers env; now = ce_instant env s;
          policy = request_cache_policy ops r;
          pending = \<lparr>cp_invalidation_target =
                       (if request_method_invalidates_cache (rq_method r) then Some (rq_uri r) else None),
                     cp_request_policy = policy,
                     cp_cache_key = (if rcp_is_cacheable policy then Some (cache_key (ce_url env) (rq_uri r)) else None),
                     cp_request_headers = rq_headers r, cp_validation_entry = None\<rparr>
      in case cp_cache_key pending of
           None \<Rightarrow> cache_forward ops now r pending
         | Some key \<Rightarrow>
             (case scan_candidates ops now policy (rq_headers r) (rev (so_get_candidates so key c)) of
                Inl e \<Rightarrow> let response = into_response ops now e in Served response [CacheHit response]
              | Inr validation \<Rightarrow>
                  if rcp_only_if_cached policy then
                    let response = gateway_timeout_response (ce_empty_headers env)
                    in Served response [SatisfactionFailure response]
                  else cache_forward ops now r (pending\<lparr>cp_validation_entry := validation\<rparr>)))"

fun collect_body :: "body_frame list \<Rightarrow> (WireError, bytes) result" where
  "collect_body [] = Inr []"
| "collect_body (Inl e # fs) = Inl e"
| "collect_body (Inr data # fs) = (case collect_body fs of Inl e \<Rightarrow> Inl e | Inr rest \<Rightarrow> Inr (data @ rest))"

definition remove_unusable_candidate ::
  "'h header_ops \<Rightarrow> ('h, 'c) cache_store_ops \<Rightarrow> string \<Rightarrow> 'h cache_pending \<Rightarrow> 'c \<Rightarrow> 'c" where
  "remove_unusable_candidate ops so key p c =
     (if rcp_has_authorization (cp_request_policy p) then
        (case cp_validation_entry p of
           Some e \<Rightarrow> so_remove_candidate so key e c
         | None \<Rightarrow>
             fold (\<lambda>e c. if matches_request ops (cp_request_policy p) (cp_request_headers p) e
                         then so_remove_candidate so key e c else c)
               (so_get_candidates so key c) c)
      else so_remove so key c)"

definition cache_invalidate ::
  "('s, 'h, 'x, 'u) cache_env \<Rightarrow> ('h, 'c) cache_store_ops \<Rightarrow> 'h cache_pending \<Rightarrow> 'h response \<Rightarrow> 'c \<Rightarrow> 'c" where
  "cache_invalidate env so p response c =
     (case cp_invalidation_target p of
        None \<Rightarrow> c
      | Some target \<Rightarrow>
          if response_status_invalidates_cache (rsp_status response)
          then fold (so_remove so)
                 (invalidation_keys (ce_headers env) (ce_url env) (ce_uri_parse env) target (rsp_headers response)) c
          else c)"

text \<open>Storing a response, or dropping what it makes unusable.\<close>

definition cache_store_response ::
  "('s, 'h, 'x, 'u) cache_env \<Rightarrow> ('h, 'c) cache_store_ops \<Rightarrow> string \<Rightarrow> 'h cache_pending \<Rightarrow> 'h response \<Rightarrow> 's \<Rightarrow> 'c \<Rightarrow>
     (WireError, 'h response) result \<times> 'c" where
  "cache_store_response env so key p response s c =
     (let ops = ce_headers env;
          h = rsp_headers response;
          directives = directives_from_headers ops h;
          validators = validators_from_headers ops h;
          freshness_lifetime = unwrap_or (response_freshness_lifetime ops (ce_parse_http_date env) h directives
                                            (ce_system_time env s)) 0;
          has_authorization = rcp_has_authorization (cp_request_policy p)
      in if cd_no_store directives then (Inr response, remove_unusable_candidate ops so key p c)
         else if \<not> response_is_storable ops h (rsp_status response) directives validators freshness_lifetime
                    has_authorization
           then (Inr response, if rsp_status response = 200 then remove_unusable_candidate ops so key p c else c)
         else case vary_capture ops (ce_header_name env) h (cp_request_headers p) of
           None \<Rightarrow> (Inr response, remove_unusable_candidate ops so key p c)
         | Some vary0 \<Rightarrow>
             let vary = (if has_authorization
                         then include_request_header ops ''authorization'' (cp_request_headers p) vary0 else vary0)
             in case collect_body (rsp_body response) of
                  Inl e \<Rightarrow> (Inl e, c)
                | Inr body \<Rightarrow>
                    (Inr (build_response (rsp_status response) (rsp_version response) h body),
                     so_put_candidate so key
                       (new_with_vary env s (rsp_status response) (rsp_version response) h body freshness_lifetime
                          \<lparr>cro_vary = vary, cro_must_validate = cd_no_cache directives,
                           cro_must_revalidate = cd_must_revalidate directives\<rparr>) c))"

definition cache_after ::
  "('s, 'h, 'x, 'u) cache_env \<Rightarrow> ('h, 'c) cache_store_ops \<Rightarrow> 'h cache_pending \<Rightarrow> 'h response \<Rightarrow> 's \<Rightarrow> 'c \<Rightarrow>
     (WireError, 'h response) result \<times> 'c \<times> 'h cache_event list" where
  "cache_after env so p response s c0 =
     (let ops = ce_headers env; c = cache_invalidate env so p response c0 in
      case cp_cache_key p of
        None \<Rightarrow> (Inr response, c, [])
      | Some key \<Rightarrow>
          (case cp_validation_entry p of
             Some e \<Rightarrow>
               if rsp_status response = 304 then
                 (case collect_body (rsp_body response) of
                    Inl err \<Rightarrow> (Inl err, c, [])
                  | Inr _ \<Rightarrow>
                      let (freshened, store_response) =
                            freshen_from_not_modified env s (rsp_headers response) (cp_request_headers p) e;
                          served = into_response ops (ce_instant env s) freshened
                      in (Inr served,
                          if store_response then so_put_candidate so key freshened c
                          else so_remove_candidate so key e c,
                          [CacheHit served]))
               else if \<not> rcp_store_response (cp_request_policy p) then (Inr response, c, [])
               else (case cache_store_response env so key p response s c of (r, c') \<Rightarrow> (r, c', []))
           | None \<Rightarrow>
               if \<not> rcp_store_response (cp_request_policy p) then (Inr response, c, [])
               else (case cache_store_response env so key p response s c of (r, c') \<Rightarrow> (r, c', []))))"

definition cache_intercept ::
  "('s, 'h, 'x, 'u) cache_env \<Rightarrow> ('h, 'c) cache_store_ops \<Rightarrow> ('h, 'x) request \<Rightarrow> 's \<Rightarrow> 'c \<Rightarrow>
     (WireError, 'h response) result \<times> 's \<times> 'c \<times> 'h cache_event list" where
  "cache_intercept env so r s c =
     (case cache_before env so r s c of
        Served response log \<Rightarrow> (Inr response, s, c, log)
      | Forward r' p log \<Rightarrow>
          (case ce_next env r' s of
             (Inl e, s') \<Rightarrow> (Inl e, s', c, log)
           | (Inr response, s') \<Rightarrow>
               (case cache_after env so p response s' c of (result, c', log') \<Rightarrow> (result, s', c', log @ log'))))"

end
