(* ===== verification/Cache_Store.thy ===== *)
theory Cache_Store
  imports Cache "HOL-Library.AList"
begin

text \<open>
  The in-memory cache store (\<^verbatim>\<open>MemoryCacheStore\<close> of \<^verbatim>\<open>openwire-cache/src/lib.rs\<close>) and the contract of a store.
  The hash map is an association list with distinct keys.  Its iteration order is unspecified: which key
  \<^verbatim>\<open>keys().next()\<close> returns is the parameter \<open>pick\<close>, an index into the entries.
\<close>

section \<open>The memory store\<close>

type_synonym 'h cache_entries = "(string \<times> 'h CachedResponse list) list"

record 'h MemoryCacheStore =
  ms_entries :: "'h cache_entries"
  ms_max_entries :: usize
  ms_max_body_bytes :: usize

definition DEFAULT_MEMORY_CACHE_MAX_ENTRIES :: usize where
  "DEFAULT_MEMORY_CACHE_MAX_ENTRIES = 1024"

definition DEFAULT_MEMORY_CACHE_MAX_BODY_BYTES :: usize where
  "DEFAULT_MEMORY_CACHE_MAX_BODY_BYTES = 64 * 1024 * 1024"

definition with_limits :: "usize \<Rightarrow> usize \<Rightarrow> 'h MemoryCacheStore" where
  "with_limits max_entries max_body_bytes =
     \<lparr>ms_entries = [], ms_max_entries = max max_entries 1, ms_max_body_bytes = max_body_bytes\<rparr>"

definition memory_store_default :: "'h MemoryCacheStore" where
  "memory_store_default = with_limits DEFAULT_MEMORY_CACHE_MAX_ENTRIES DEFAULT_MEMORY_CACHE_MAX_BODY_BYTES"

definition body_bytes :: "'h CachedResponse list \<Rightarrow> usize" where
  "body_bytes cs = sum_list (map (\<lambda>e. length (ca_body e)) cs)"

definition total_body_bytes :: "'h cache_entries \<Rightarrow> usize" where
  "total_body_bytes es = sum_list (map (\<lambda>p. body_bytes (snd p)) es)"

definition first_key :: "('h cache_entries \<Rightarrow> nat) \<Rightarrow> 'h cache_entries \<Rightarrow> string option" where
  "first_key pick es = (if es = [] then None else Some (fst (es ! (pick es mod length es))))"

lemma first_key_Some:
  assumes "first_key pick es = Some k"
  shows "k \<in> fst ` set es"
  using assms by (auto simp: first_key_def split: if_splits)

lemma length_delete_present: "k \<in> fst ` set es \<Longrightarrow> length (AList.delete k es) < length es"
  by (auto simp: AList.delete_eq intro!: length_filter_less)

function evict_entries :: "('h cache_entries \<Rightarrow> nat) \<Rightarrow> usize \<Rightarrow> 'h cache_entries \<Rightarrow> 'h cache_entries" where
  "evict_entries pick max_entries es =
     (if length es > max_entries then
        (case first_key pick es of
           Some oldest \<Rightarrow> evict_entries pick max_entries (AList.delete oldest es)
         | None \<Rightarrow> es)
      else es)"
  by pat_completeness auto
termination
  by (relation "measure (\<lambda>(_, _, es). length es)") (auto intro!: length_delete_present first_key_Some)

function evict_bytes :: "('h cache_entries \<Rightarrow> nat) \<Rightarrow> usize \<Rightarrow> 'h cache_entries \<Rightarrow> 'h cache_entries" where
  "evict_bytes pick max_body_bytes es =
     (if total_body_bytes es > max_body_bytes \<and> es \<noteq> [] then
        (case first_key pick es of
           Some oldest \<Rightarrow> evict_bytes pick max_body_bytes (AList.delete oldest es)
         | None \<Rightarrow> es)
      else es)"
  by pat_completeness auto
termination
  by (relation "measure (\<lambda>(_, _, es). length es)") (auto intro!: length_delete_present first_key_Some)

declare evict_entries.simps [simp del] evict_bytes.simps [simp del]

definition enforce_limits ::
  "('h cache_entries \<Rightarrow> nat) \<Rightarrow> usize \<Rightarrow> usize \<Rightarrow> 'h cache_entries \<Rightarrow> 'h cache_entries" where
  "enforce_limits pick max_entries max_body_bytes es =
     evict_bytes pick max_body_bytes (evict_entries pick max_entries es)"

definition memory_get_candidates :: "string \<Rightarrow> 'h MemoryCacheStore \<Rightarrow> 'h CachedResponse list" where
  "memory_get_candidates key m = unwrap_or (map_of (ms_entries m) key) []"

definition memory_get :: "string \<Rightarrow> 'h MemoryCacheStore \<Rightarrow> 'h CachedResponse option" where
  "memory_get key m =
     (case map_of (ms_entries m) key of
        None \<Rightarrow> None
      | Some cs \<Rightarrow> if cs = [] then None else Some (last cs))"

definition put_variant :: "'h CachedResponse \<Rightarrow> 'h CachedResponse list \<Rightarrow> 'h CachedResponse list" where
  "put_variant value candidates =
     (case position (\<lambda>c. same_variant_as c value) candidates of
        Some i \<Rightarrow> candidates[i := value]
      | None \<Rightarrow> candidates @ [value])"

definition memory_put_candidate ::
  "('h cache_entries \<Rightarrow> nat) \<Rightarrow> string \<Rightarrow> 'h CachedResponse \<Rightarrow> 'h MemoryCacheStore \<Rightarrow> 'h MemoryCacheStore" where
  "memory_put_candidate pick key value m =
     (if length (ca_body value) > ms_max_body_bytes m then m
      else m\<lparr>ms_entries := enforce_limits pick (ms_max_entries m) (ms_max_body_bytes m)
               (AList.update key (put_variant value (memory_get_candidates key m)) (ms_entries m))\<rparr>)"

definition memory_put ::
  "('h cache_entries \<Rightarrow> nat) \<Rightarrow> string \<Rightarrow> 'h CachedResponse \<Rightarrow> 'h MemoryCacheStore \<Rightarrow> 'h MemoryCacheStore" where
  "memory_put pick key value m = memory_put_candidate pick key value m"

definition memory_remove :: "string \<Rightarrow> 'h MemoryCacheStore \<Rightarrow> 'h MemoryCacheStore" where
  "memory_remove key m = m\<lparr>ms_entries := AList.delete key (ms_entries m)\<rparr>"

definition memory_remove_candidate ::
  "string \<Rightarrow> 'h CachedResponse \<Rightarrow> 'h MemoryCacheStore \<Rightarrow> 'h MemoryCacheStore" where
  "memory_remove_candidate key value m =
     (case map_of (ms_entries m) key of
        None \<Rightarrow> m
      | Some candidates \<Rightarrow>
          let kept = filter (\<lambda>c. \<not> same_variant_as c value) candidates
          in m\<lparr>ms_entries := (if kept = [] then AList.delete key (ms_entries m)
                              else AList.update key kept (ms_entries m))\<rparr>)"

definition memory_ops :: "('h cache_entries \<Rightarrow> nat) \<Rightarrow> ('h, 'h MemoryCacheStore) cache_store_ops" where
  "memory_ops pick =
     \<lparr>so_get_candidates = memory_get_candidates, so_put_candidate = memory_put_candidate pick,
      so_remove = memory_remove, so_remove_candidate = memory_remove_candidate\<rparr>"

section \<open>The contract of a store\<close>

text \<open>
  What the interceptor may rely on.  A store may forget entries at any time, so a lookup after a store
  finds at most what was there and the new entry; a removal by key is complete.
\<close>

locale cache_store =
  fixes so :: "('h, 'c) cache_store_ops"
  assumes put: "set (so_get_candidates so k' (so_put_candidate so k v c)) \<subseteq>
      (if k' = k then insert v (set (so_get_candidates so k' c)) else set (so_get_candidates so k' c))"
    and remove: "so_get_candidates so k' (so_remove so k c) = (if k' = k then [] else so_get_candidates so k' c)"
    and remove_candidate: "set (so_get_candidates so k' (so_remove_candidate so k v c)) \<subseteq>
      set (so_get_candidates so k' c)"
begin

lemma fold_remove:
  "so_get_candidates so k (fold (so_remove so) ks c) = (if k \<in> set ks then [] else so_get_candidates so k c)"
  by (induction ks arbitrary: c) (auto simp: remove)

lemma remove_unusable:
  "set (so_get_candidates so k' (remove_unusable_candidate ops so k p c)) \<subseteq> set (so_get_candidates so k' c)"
proof -
  have "set (so_get_candidates so k' (fold (\<lambda>e c. if P e then so_remove_candidate so k e c else c) es c)) \<subseteq>
      set (so_get_candidates so k' c)" for P es
  proof (induction es arbitrary: c)
    case (Cons e es)
    show ?case using Cons [of "so_remove_candidate so k e c"] Cons [of c] remove_candidate [of k' k e c] by auto
  qed simp
  then show ?thesis
    using remove_candidate by (auto simp: remove_unusable_candidate_def remove split: option.split)
qed

lemma invalidate:
  "set (so_get_candidates so k (cache_invalidate env so p response c)) \<subseteq> set (so_get_candidates so k c)"
  by (auto simp: cache_invalidate_def fold_remove split: option.splits)

end

lemma map_of_evict_entries: "map_of (evict_entries pick n es) k \<in> {map_of es k, None}"
proof (induction pick n es rule: evict_entries.induct)
  case (1 pick n es)
  show ?case using 1 by (subst evict_entries.simps) (auto simp: delete_conv split: option.splits if_splits)
qed

lemma map_of_evict_bytes: "map_of (evict_bytes pick n es) k \<in> {map_of es k, None}"
proof (induction pick n es rule: evict_bytes.induct)
  case (1 pick n es)
  show ?case using 1 by (subst evict_bytes.simps) (auto simp: delete_conv split: option.splits if_splits)
qed

lemma map_of_enforce_limits: "map_of (enforce_limits pick n b es) k \<in> {map_of es k, None}"
  using map_of_evict_bytes [of pick b "evict_entries pick n es" k] map_of_evict_entries [of pick n es k]
  by (auto simp: enforce_limits_def)

lemma set_put_variant: "set (put_variant v cs) \<subseteq> insert v (set cs)"
  by (auto simp: put_variant_def dest!: set_update_subset_insert [THEN subsetD] split: option.splits)

lemma memory_get_put:
  "memory_get_candidates k' (memory_put_candidate pick k v m) \<in>
     {memory_get_candidates k' m, if k' = k then put_variant v (memory_get_candidates k m) else memory_get_candidates k' m, []}"
proof -
  let ?es = "AList.update k (put_variant v (memory_get_candidates k m)) (ms_entries m)"
  show ?thesis
    using map_of_enforce_limits [of pick "ms_max_entries m" "ms_max_body_bytes m" ?es k']
    by (auto simp: memory_put_candidate_def memory_get_candidates_def unwrap_or_def update_conv')
qed

lemma memory_get_remove:
  "memory_get_candidates k' (memory_remove k m) = (if k' = k then [] else memory_get_candidates k' m)"
  by (simp add: memory_remove_def memory_get_candidates_def delete_conv unwrap_or_def)

lemma memory_get_remove_candidate:
  "memory_get_candidates k' (memory_remove_candidate k v m) =
     (if k' = k then filter (\<lambda>c. \<not> same_variant_as c v) (memory_get_candidates k m) else memory_get_candidates k' m)"
  by (simp add: memory_remove_candidate_def memory_get_candidates_def delete_conv unwrap_or_def update_conv' Let_def
      split: option.split)

interpretation memory: cache_store "memory_ops pick" for pick
proof unfold_locales
  fix k' k v and c :: "'a MemoryCacheStore"
  show "set (so_get_candidates (memory_ops pick) k' (so_put_candidate (memory_ops pick) k v c)) \<subseteq>
      (if k' = k then insert v (set (so_get_candidates (memory_ops pick) k' c))
       else set (so_get_candidates (memory_ops pick) k' c))"
    using memory_get_put [of k' pick k v c] set_put_variant [of v "memory_get_candidates k c"]
    by (auto simp: memory_ops_def split: if_splits)
qed (auto simp: memory_ops_def memory_get_remove memory_get_remove_candidate)

section \<open>Limits\<close>

text \<open>Keys are distinct, no key is without a response, the variants of a key are distinct, and the limits hold.\<close>

definition entries_wf :: "'h cache_entries \<Rightarrow> bool" where
  "entries_wf es \<longleftrightarrow> distinct (map fst es) \<and> (\<forall>(k, cs) \<in> set es. cs \<noteq> [] \<and> distinct (map ca_vary cs))"

definition memory_store_inv :: "'h MemoryCacheStore \<Rightarrow> bool" where
  "memory_store_inv m \<longleftrightarrow>
     entries_wf (ms_entries m) \<and> 0 < ms_max_entries m \<and> length (ms_entries m) \<le> ms_max_entries m \<and>
     total_body_bytes (ms_entries m) \<le> ms_max_body_bytes m"

lemma entries_wf_delete: "entries_wf es \<Longrightarrow> entries_wf (AList.delete k es)"
  by (auto simp: entries_wf_def AList.delete_eq distinct_map intro: inj_on_subset)

lemma set_alist_update: "set (AList.update k v es) \<subseteq> insert (k, v) (set es)"
  by (induction es) auto

lemma entries_wf_update:
  assumes "entries_wf es" and "cs \<noteq> []" and "distinct (map ca_vary cs)"
  shows "entries_wf (AList.update k cs es)"
  using assms set_alist_update [of k cs es] by (fastforce simp: entries_wf_def distinct_update)

lemma total_body_bytes_delete: "total_body_bytes (AList.delete k es) \<le> total_body_bytes es"
  by (auto simp: total_body_bytes_def AList.delete_eq intro!: sum_list_filter_le_nat)

lemma evict_entries_props:
  "(entries_wf es \<longrightarrow> entries_wf (evict_entries pick n es)) \<and> length (evict_entries pick n es) \<le> n \<and>
   total_body_bytes (evict_entries pick n es) \<le> total_body_bytes es"
proof (induction pick n es rule: evict_entries.induct)
  case (1 pick n es)
  show ?case
  proof (cases "first_key pick es")
    case None
    then show ?thesis by (subst (1 2 3) evict_entries.simps) (auto simp: first_key_def split: if_splits)
  next
    case (Some k)
    then show ?thesis using 1 [OF _ Some] entries_wf_delete [of es k] total_body_bytes_delete [of k es]
      by (subst (1 2 3) evict_entries.simps) auto
  qed
qed

lemma evict_bytes_props:
  "(entries_wf es \<longrightarrow> entries_wf (evict_bytes pick b es)) \<and> length (evict_bytes pick b es) \<le> length es \<and>
   total_body_bytes (evict_bytes pick b es) \<le> b"
proof (induction pick b es rule: evict_bytes.induct)
  case (1 pick b es)
  show ?case
  proof (cases "first_key pick es")
    case None
    then have "es = []" by (simp add: first_key_def split: if_splits)
    then show ?thesis by (simp add: evict_bytes.simps total_body_bytes_def)
  next
    case (Some k)
    then have "es \<noteq> []" by (auto simp: first_key_def)
    then show ?thesis using 1 [OF _ Some] entries_wf_delete [of es k] length_delete_le [of k es] Some
      by (subst (1 2 3) evict_bytes.simps) auto
  qed
qed

lemma distinct_put_variant:
  assumes "distinct (map ca_vary cs)"
  shows "distinct (map ca_vary (put_variant v cs))"
proof (cases "position (\<lambda>c. same_variant_as c v) cs")
  case None
  then have "put_variant v cs = cs @ [v]" by (simp add: put_variant_def)
  then show ?thesis using assms None by (auto simp: position_None_iff same_variant_as_def)
next
  case (Some i)
  then have "i < length cs" "ca_vary (cs ! i) = ca_vary v" by (auto simp: position_Some_iff same_variant_as_def)
  then have "map ca_vary (cs[i := v]) = map ca_vary cs" by (metis list_update_id map_update nth_map)
  then show ?thesis using assms Some by (simp add: put_variant_def)
qed

lemma put_variant_nonempty: "put_variant v cs \<noteq> []"
  by (auto simp: put_variant_def position_Some_iff split: option.splits)

lemma memory_candidates_distinct: "entries_wf (ms_entries m) \<Longrightarrow> distinct (map ca_vary (memory_get_candidates k m))"
  by (auto simp: entries_wf_def memory_get_candidates_def unwrap_or_def dest: map_of_SomeD split: option.splits)

lemma memory_put_inv:
  assumes "memory_store_inv m"
  shows "memory_store_inv (memory_put_candidate pick k v m)"
proof -
  let ?es = "AList.update k (put_variant v (memory_get_candidates k m)) (ms_entries m)"
  have "entries_wf ?es"
    using assms by (auto simp: memory_store_inv_def intro!: entries_wf_update distinct_put_variant
        memory_candidates_distinct put_variant_nonempty)
  then show ?thesis
    using assms evict_entries_props [of ?es pick "ms_max_entries m"]
      evict_bytes_props [of "evict_entries pick (ms_max_entries m) ?es" pick "ms_max_body_bytes m"]
    by (auto simp: memory_store_inv_def memory_put_candidate_def enforce_limits_def)
qed

lemma memory_remove_inv:
  assumes "memory_store_inv m"
  shows "memory_store_inv (memory_remove k m)"
  using assms entries_wf_delete [of "ms_entries m" k] length_delete_le [of k "ms_entries m"]
    total_body_bytes_delete [of k "ms_entries m"]
  by (auto simp: memory_store_inv_def memory_remove_def)

lemma total_body_bytes_update:
  assumes "map_of es k = Some cs" and "body_bytes cs' \<le> body_bytes cs"
  shows "total_body_bytes (AList.update k cs' es) \<le> total_body_bytes es"
  using assms by (induction es) (auto simp: total_body_bytes_def split: if_splits)

lemma length_update_present: "map_of es k = Some cs \<Longrightarrow> length (AList.update k v es) = length es"
  by (induction es) (auto split: if_splits)

lemma memory_remove_candidate_inv:
  assumes "memory_store_inv m"
  shows "memory_store_inv (memory_remove_candidate k v m)"
proof (cases "map_of (ms_entries m) k")
  case None
  then show ?thesis using assms by (simp add: memory_remove_candidate_def)
next
  case (Some cs)
  let ?kept = "filter (\<lambda>c. \<not> same_variant_as c v) cs"
  have d: "distinct (map ca_vary ?kept)"
    using assms map_of_SomeD [OF Some] by (auto simp: memory_store_inv_def entries_wf_def distinct_map intro: inj_on_subset)
  have b: "body_bytes ?kept \<le> body_bytes cs" by (auto simp: body_bytes_def intro: sum_list_filter_le_nat)
  have "length (AList.update k ?kept (ms_entries m)) = length (ms_entries m)"
    by (rule length_update_present [OF Some])
  then show ?thesis
    using assms memory_remove_inv [OF assms, of k] entries_wf_update [OF _ _ d, of "ms_entries m" k]
      total_body_bytes_update [OF Some b]
    by (auto simp: memory_remove_candidate_def Some Let_def memory_store_inv_def memory_remove_def)
qed

text \<open>The operations on a store, as a sequence.\<close>

datatype 'h store_op = Put string "'h CachedResponse" | Remove string | RemoveCandidate string "'h CachedResponse"

fun store_apply :: "('h cache_entries \<Rightarrow> nat) \<Rightarrow> 'h store_op \<Rightarrow> 'h MemoryCacheStore \<Rightarrow> 'h MemoryCacheStore" where
  "store_apply pick (Put k v) m = memory_put_candidate pick k v m"
| "store_apply pick (Remove k) m = memory_remove k m"
| "store_apply pick (RemoveCandidate k v) m = memory_remove_candidate k v m"

lemma store_apply_limits:
  "ms_max_entries (store_apply pick x m) = ms_max_entries m"
  "ms_max_body_bytes (store_apply pick x m) = ms_max_body_bytes m"
  by (cases x; auto simp: memory_put_candidate_def memory_remove_def memory_remove_candidate_def Let_def
      split: option.split)+

lemma store_apply_inv: "memory_store_inv m \<Longrightarrow> memory_store_inv (store_apply pick x m)"
  by (cases x) (auto intro: memory_put_inv memory_remove_inv memory_remove_candidate_inv)

lemma store_run_inv:
  assumes "memory_store_inv m"
  shows "memory_store_inv (fold (store_apply pick) xs m)"
    "ms_max_entries (fold (store_apply pick) xs m) = ms_max_entries m"
    "ms_max_body_bytes (fold (store_apply pick) xs m) = ms_max_body_bytes m"
proof -
  have "memory_store_inv (fold (store_apply pick) xs m) \<and>
      ms_max_entries (fold (store_apply pick) xs m) = ms_max_entries m \<and>
      ms_max_body_bytes (fold (store_apply pick) xs m) = ms_max_body_bytes m"
    using assms
  proof (induction xs arbitrary: m)
    case (Cons x xs)
    show ?case using Cons.IH [OF store_apply_inv [OF Cons.prems]] by (simp add: store_apply_limits)
  qed simp
  then show "memory_store_inv (fold (store_apply pick) xs m)"
    "ms_max_entries (fold (store_apply pick) xs m) = ms_max_entries m"
    "ms_max_body_bytes (fold (store_apply pick) xs m) = ms_max_body_bytes m" by simp_all
qed

text \<open>
  C24.  The memory store keeps its limits: after any sequence of stores and removals, whatever the order
  of the hash map, there are at most the configured number of keys (at least one is allowed), the bodies
  take at most the configured number of bytes, and no key holds two responses of the same variant.
\<close>

theorem memory_store_bounded:
  "let m = fold (store_apply pick) xs (with_limits max_entries max_body_bytes) in
   length (ms_entries m) \<le> max max_entries 1 \<and> total_body_bytes (ms_entries m) \<le> max_body_bytes \<and>
   entries_wf (ms_entries m)"
proof -
  have "memory_store_inv (with_limits max_entries max_body_bytes :: 'a MemoryCacheStore)"
    by (simp add: memory_store_inv_def with_limits_def entries_wf_def total_body_bytes_def)
  note run = store_run_inv [OF this, of pick xs]
  have "ms_max_entries (with_limits max_entries max_body_bytes :: 'a MemoryCacheStore) = max max_entries 1"
    "ms_max_body_bytes (with_limits max_entries max_body_bytes :: 'a MemoryCacheStore) = max_body_bytes"
    by (simp_all add: with_limits_def)
  with run show ?thesis unfolding Let_def memory_store_inv_def by metis
qed

end
