(* ===== verification/Cache_Props.thy ===== *)
theory Cache_Props
  imports Cache_Store "HOL-Library.Code_Target_Nat"
begin

text \<open>
  What the cache serves.  The entries of a reachable cache are traced to the requests that were sent on:
  every stored response was storable, and it was stored for a request with the same key that it matches.
  The steps of the interceptor interleave: a call looks the cache up, and later, when the rest of the chain
  has answered, updates it.
\<close>

section \<open>Variants\<close>

lemma vary_names_matches:
  assumes "vary_names ops hname rh fs names = Some fs'" and "vary_matches ops rh fs"
  shows "vary_matches ops rh fs'"
  using assms
  by (induction ops hname rh fs names rule: vary_names.induct)
     (auto simp: vary_matches_def split: if_splits option.splits)

lemma vary_values_matches:
  assumes "vary_values ops hname rh fs vs = Some fs'" and "vary_matches ops rh fs"
  shows "vary_matches ops rh fs'"
  using assms
  by (induction ops hname rh fs vs rule: vary_values.induct)
     (auto dest: vary_names_matches split: option.splits)

lemma vary_capture_matches: "vary_capture ops hname h rh = Some v \<Longrightarrow> vary_matches ops rh v"
  unfolding vary_capture_def by (erule vary_values_matches) (simp add: vary_matches_def)

lemma include_request_header_matches:
  "vary_matches ops rh v \<Longrightarrow> vary_matches ops rh (include_request_header ops n rh v)"
  by (auto simp: vary_matches_def include_request_header_def list_all_iff position_Some_iff split: option.split
      dest!: set_update_subset_insert [THEN subsetD])

lemma tracks_include_request_header: "tracks_request_header n (include_request_header ops n rh v)"
proof (cases "position (\<lambda>f. vf_name f = n) v")
  case None
  then show ?thesis by (simp add: tracks_request_header_def include_request_header_def)
next
  case (Some i)
  then have "i < length v" "vf_name (v ! i) = n" by (auto simp: position_Some_iff)
  then have "(v ! i)\<lparr>vf_values := hm_get_all ops rh n\<rparr> \<in> set (include_request_header ops n rh v)"
    by (simp add: include_request_header_def Some set_update_memI)
  then show ?thesis unfolding tracks_request_header_def list_ex_iff by (rule bexI [rotated]) (simp add: \<open>vf_name (v ! i) = n\<close>)
qed

section \<open>Entries and their origin\<close>

text \<open>
  An entry is sound for the headers of a request: it is a storable response, its flags are those of its
  directives, it matches the request, and it remembers the request's credentials when there were any.
\<close>

definition entry_sound :: "'h header_ops \<Rightarrow> 'h \<Rightarrow> 'h CachedResponse \<Rightarrow> bool" where
  "entry_sound ops rh e \<longleftrightarrow>
     ca_status e = 200 \<and> \<not> contains_key ops (ca_headers e) ''set-cookie'' \<and>
     \<not> cd_no_store (directives_from_headers ops (ca_headers e)) \<and>
     ca_must_validate e = cd_no_cache (directives_from_headers ops (ca_headers e)) \<and>
     ca_must_revalidate e = cd_must_revalidate (directives_from_headers ops (ca_headers e)) \<and>
     vary_matches ops rh (ca_vary e) \<and>
     (contains_key ops rh ''authorization'' \<longrightarrow>
        tracks_request_header ''authorization'' (ca_vary e) \<and>
        response_allows_authorized_storage (directives_from_headers ops (ca_headers e)))"

definition pending_sound :: "'h header_ops \<Rightarrow> (string \<times> 'h) set \<Rightarrow> 'h cache_pending \<Rightarrow> bool" where
  "pending_sound ops H p \<longleftrightarrow>
     rcp_has_authorization (cp_request_policy p) = contains_key ops (cp_request_headers p) ''authorization'' \<and>
     (\<forall>k. cp_cache_key p = Some k \<longrightarrow> (k, cp_request_headers p) \<in> H) \<and>
     (\<forall>e. cp_validation_entry p = Some e \<longrightarrow> matches_request ops (cp_request_policy p) (cp_request_headers p) e)"

definition sound_entries :: "('h, 'c) cache_store_ops \<Rightarrow> 'h header_ops \<Rightarrow> (string \<times> 'h) set \<Rightarrow> 'c \<Rightarrow> bool" where
  "sound_entries so ops H c \<longleftrightarrow>
     (\<forall>k. \<forall>e \<in> set (so_get_candidates so k c). \<exists>rh. (k, rh) \<in> H \<and> entry_sound ops rh e)"

text \<open>
  The states of a cache that started empty: the store, the calls under way, and the keys and headers of
  the requests that were sent on.
\<close>

inductive cache_reachable ::
  "('s, 'h, 'x, 'u) cache_env \<Rightarrow> ('h, 'c) cache_store_ops \<Rightarrow> 'c \<Rightarrow> 'h cache_pending set \<Rightarrow> (string \<times> 'h) set \<Rightarrow> bool"
  for env so where
  cache_empty: "(\<And>k. so_get_candidates so k c = []) \<Longrightarrow> cache_reachable env so c {} {}"
| cache_begin: "cache_reachable env so c P H \<Longrightarrow> cache_before env so r s c = Forward r' p log \<Longrightarrow>
     cache_reachable env so c (insert p P) (insert (cache_key (ce_url env) (rq_uri r), rq_headers r) H)"
| cache_finish: "cache_reachable env so c P H \<Longrightarrow> p \<in> P \<Longrightarrow> cache_after env so p response s c = (result, c', log) \<Longrightarrow>
     cache_reachable env so c' (P - {p}) H"


lemma scan_candidates_Inr:
  assumes "scan_candidates ops now p h es = Inr (Some e)"
  shows "e \<in> set es \<and> matches_request ops p h e"
  using assms by (induction es) (auto split: if_splits)

lemma request_policy_authorization:
  "rcp_has_authorization (request_cache_policy ops r) = contains_key ops (rq_headers r) ''authorization''"
  by (simp add: request_cache_policy_def Let_def)

lemma cache_before_pending:
  assumes "cache_before env so r s c = Forward r' p log"
    and "(cache_key (ce_url env) (rq_uri r), rq_headers r) \<in> H"
  shows "pending_sound (ce_headers env) H p"
proof -
  have fwd: "cache_forward ops now r q = Forward r' p log \<Longrightarrow> p = q" for ops now q
    by (auto simp: cache_forward_def split: option.splits)
  show ?thesis
    using assms
    by (auto simp: cache_before_def Let_def pending_sound_def request_policy_authorization dest!: fwd
        split: if_splits option.splits sum.splits dest: scan_candidates_Inr)
qed

lemma new_with_vary_sound:
  assumes "response_is_storable ops h status directives validators lifetime auth"
    and "directives = directives_from_headers ops h" and "auth = contains_key ops rh ''authorization''"
    and "vary_matches ops rh v" and "auth \<longrightarrow> tracks_request_header ''authorization'' v"
  shows "entry_sound ops rh (new_with_vary env s status version h body lifetime
     \<lparr>cro_vary = v, cro_must_validate = cd_no_cache directives, cro_must_revalidate = cd_must_revalidate directives\<rparr>)"
  using assms by (auto simp: entry_sound_def new_with_vary_def response_is_storable_def)

lemma freshened_sound:
  assumes "freshen_from_not_modified env s vh rh e = (freshened, True)"
    and "contains_key (ce_headers env) rh ''authorization'' \<longrightarrow> tracks_request_header ''authorization'' (ca_vary e)"
  shows "entry_sound (ce_headers env) rh freshened"
proof -
  let ?ops = "ce_headers env"
  let ?h = "merge_304_headers ?ops (ce_keys env) (ca_headers e) vh"
  obtain v0 where v0: "vary_capture ?ops (ce_header_name env) ?h rh = Some v0"
    using assms(1) by (auto simp: freshen_from_not_modified_def Let_def)
  define v where "v = (if tracks_request_header ''authorization'' (ca_vary e)
    then include_request_header ?ops ''authorization'' rh v0 else v0)"
  have "vary_matches ?ops rh v"
    using vary_capture_matches [OF v0] by (simp add: v_def include_request_header_matches)
  moreover have "contains_key ?ops rh ''authorization'' \<longrightarrow> tracks_request_header ''authorization'' v"
    using assms(2) by (simp add: v_def tracks_include_request_header)
  ultimately show ?thesis
    using assms(1) v0 by (auto simp: freshen_from_not_modified_def Let_def v_def [symmetric] unwrap_or_def
        intro!: new_with_vary_sound)
qed

context cache_store
begin

lemma sound_entries_mono:
  assumes "sound_entries so ops H c" and "\<And>k. set (so_get_candidates so k c') \<subseteq> set (so_get_candidates so k c)"
  shows "sound_entries so ops H c'"
  using assms unfolding sound_entries_def by blast

lemma sound_entries_put:
  assumes "sound_entries so ops H c" and "(k, rh) \<in> H" and "entry_sound ops rh e"
  shows "sound_entries so ops H (so_put_candidate so k e c)"
  unfolding sound_entries_def
proof (intro allI ballI)
  fix k' e'
  assume "e' \<in> set (so_get_candidates so k' (so_put_candidate so k e c))"
  then have "k' = k \<and> e' = e \<or> e' \<in> set (so_get_candidates so k' c)" using put [of k' k e c] by (auto split: if_splits)
  then show "\<exists>rh. (k', rh) \<in> H \<and> entry_sound ops rh e'" using assms unfolding sound_entries_def by blast
qed

lemma store_response_sound:
  assumes "cache_store_response env so k p response s c = (result, c')"
    and "sound_entries so (ce_headers env) H c" and "pending_sound (ce_headers env) H p" and "cp_cache_key p = Some k"
  shows "sound_entries so (ce_headers env) H c'"
proof -
  let ?ops = "ce_headers env" and ?rh = "cp_request_headers p"
  have drop: "sound_entries so ?ops H (remove_unusable_candidate ?ops so k p c)"
    by (rule sound_entries_mono [OF assms(2) remove_unusable])
  have H: "(k, ?rh) \<in> H" and auth: "rcp_has_authorization (cp_request_policy p) = contains_key ?ops ?rh ''authorization''"
    using assms(3,4) by (auto simp: pending_sound_def)
  show ?thesis
    using assms(1,2) drop
    by (auto simp: cache_store_response_def Let_def auth vary_capture_matches include_request_header_matches
        tracks_include_request_header split: if_splits option.splits sum.splits
        intro!: sound_entries_put [OF _ H] new_with_vary_sound)
qed

lemma after_sound:
  assumes "cache_after env so p response s c = (result, c', log)"
    and "sound_entries so (ce_headers env) H c" and p: "pending_sound (ce_headers env) H p"
  shows "sound_entries so (ce_headers env) H c'"
proof -
  let ?c = "cache_invalidate env so p response c"
  have c: "sound_entries so (ce_headers env) H ?c" by (rule sound_entries_mono [OF assms(2) invalidate])
  have rem: "sound_entries so (ce_headers env) H (so_remove_candidate so k e ?c)" for k e
    by (rule sound_entries_mono [OF c remove_candidate])
  have put: "sound_entries so (ce_headers env) H (so_put_candidate so k f ?c)"
    if k: "cp_cache_key p = Some k" and e: "cp_validation_entry p = Some e"
      and f: "freshen_from_not_modified env s (rsp_headers response) (cp_request_headers p) e = (f, True)" for k e f
  proof (rule sound_entries_put [OF c])
    show "(k, cp_request_headers p) \<in> H" using p k by (simp add: pending_sound_def)
    show "entry_sound (ce_headers env) (cp_request_headers p) f"
      using p e by (intro freshened_sound [OF f]) (auto simp: pending_sound_def matches_request_def)
  qed
  show ?thesis
    using assms(1) c
    by (auto simp: cache_after_def Let_def intro: put rem store_response_sound [OF _ c p]
        split: option.splits if_splits prod.splits sum.splits)
qed

lemma reachable_sound:
  assumes "cache_reachable env so c P H"
  shows "sound_entries so (ce_headers env) H c \<and> (\<forall>p \<in> P. pending_sound (ce_headers env) H p)"
  using assms
proof induction
  case (cache_begin c P H r s r' p log)
  let ?H = "insert (cache_key (ce_url env) (rq_uri r), rq_headers r) H"
  have "pending_sound (ce_headers env) ?H p" by (rule cache_before_pending [OF cache_begin(2)]) simp
  moreover have "pending_sound (ce_headers env) ?H q" if "q \<in> P" for q
    using cache_begin(3) that by (auto simp: pending_sound_def)
  moreover have "sound_entries so (ce_headers env) ?H c" using cache_begin(3) unfolding sound_entries_def by blast
  ultimately show ?case by blast
next
  case (cache_finish c P H p response s result c' log)
  have "pending_sound (ce_headers env) H p" using cache_finish(2,4) by blast
  with after_sound [OF cache_finish(3)] cache_finish(4) show ?case by blast
qed (simp add: sound_entries_def)

end


section \<open>Properties\<close>



text \<open>
  A write invalidates: when a request whose method is not safe is answered with success or with a
  redirection, no response for its URI is left in the store, nor for a URI on the same host that the answer
  names in \<open>Location\<close> or \<open>Content-Location\<close>, and the answer is passed on as it is.
\<close>

theorem unsafe_request_invalidates:
  assumes "request_method_invalidates_cache (rq_method r)" and "ce_next env r s = (Inr response, s')"
    and "response_status_invalidates_cache (rsp_status response)"
    and "cache_intercept env (memory_ops pick) r s c = (result, t, c', log)"
    and "k \<in> set (invalidation_keys (ce_headers env) (ce_url env) (ce_uri_parse env) (rq_uri r) (rsp_headers response))"
  shows "memory_get_candidates k c' = [] \<and> result = Inr response"
proof -
  have m: "rq_method r \<noteq> GET" using assms(1) by (auto simp: request_method_invalidates_cache_def)
  obtain p where p: "cache_before env (memory_ops pick) r s c = Forward r p []" "cp_cache_key p = None"
      "cp_invalidation_target p = Some (rq_uri r)"
    using assms(1) m by (auto simp: cache_before_def Let_def request_cache_policy_def cache_forward_def)
  let ?keys = "invalidation_keys (ce_headers env) (ce_url env) (ce_uri_parse env) (rq_uri r) (rsp_headers response)"
  have "c' = fold (so_remove (memory_ops pick)) ?keys c" "result = Inr response"
    using assms(2-4) p by (simp_all add: cache_intercept_def cache_after_def Let_def cache_invalidate_def)
  moreover have "so_get_candidates (memory_ops pick) k (fold (so_remove (memory_ops pick)) ?keys c) = []"
    using assms(5) by (simp add: memory.fold_remove)
  ultimately show ?thesis by (simp add: memory_ops_def)
qed

text \<open>
  A validated entry is put back whatever the request's \<open>no-store\<close> says: the code looks at the policy only
  after this branch.
\<close>

lemma not_modified_stored_despite_no_store:
  assumes "cp_cache_key p = Some k" and "cp_validation_entry p = Some e" and "cp_invalidation_target p = None"
    and "rsp_status response = 304" and "collect_body (rsp_body response) = Inr b"
    and "freshen_from_not_modified env s (rsp_headers response) (cp_request_headers p) e = (f, True)"
    and "\<not> rcp_store_response (cp_request_policy p)"
  shows "fst (snd (cache_after env so p response s c)) = so_put_candidate so k f c"
  using assms by (simp add: cache_after_def Let_def cache_invalidate_def)

lemma target_key_invalidated:
  "cache_key uo u \<in> set (invalidation_keys ops uo uparse u h)"
proof -
  have grow: "k \<in> set keys \<Longrightarrow> k \<in> set (fold (\<lambda>value keys.
             case same_host_invalidation_uri uo uparse u value of
               None \<Rightarrow> keys
             | Some u \<Rightarrow> let key = cache_key uo u in if key \<in> set keys then keys else keys @ [key]) vs keys)" for k keys vs
    by (induction vs arbitrary: keys) (auto simp: Let_def split: option.split)
  show ?thesis by (auto simp: invalidation_keys_def intro!: grow)
qed

section \<open>An example\<close>

text \<open>
  A chain that answers every request with a response that may be stored for a minute.  The state is the
  time in nanoseconds.
\<close>

definition cx_env :: "(nat, (header_name \<times> header_value) list, unit, unit) cache_env" where
  "cx_env =
     \<lparr>ce_headers = assoc_headers, ce_keys = map fst, ce_empty_headers = [], ce_header_name = Some,
      ce_parse_http_date = (\<lambda>t. None), ce_uri_parse = (\<lambda>t. None),
      ce_url = \<lparr>uo_parse = (\<lambda>t. None), uo_join = (\<lambda>u t. None), uo_host_str = (\<lambda>u. None), uo_set_host = (\<lambda>h u. u),
        uo_scheme = (\<lambda>u. []), uo_port = (\<lambda>u. None), uo_set_port_none = id, uo_path = (\<lambda>u. []),
        uo_set_path = (\<lambda>p u. u), uo_as_str = (\<lambda>u. [])\<rparr>,
      ce_instant = id, ce_system_time = id,
      ce_next = (\<lambda>r s. (Inr (build_response 200 HTTP_11
        [(''cache-control'', str_bytes ''max-age=60''), (''vary'', str_bytes ''accept'')] [1, 2]), s))\<rparr>"

definition cx_request :: "http_method \<Rightarrow> ((header_name \<times> header_value) list, unit) request" where
  "cx_request method =
     \<lparr>rq_method = method, rq_uri = ex_uri, rq_version = HTTP_11, rq_headers = [(''accept'', str_bytes ''*'')],
      rq_extensions = \<lparr>ext_policy_trace = None, ext_request_config = None, ext_call_options = None,
        ext_cached_addresses = None, ext_selected_proxy = None, ext_dispatcher_queued = False,
        ext_no_coalesced_connections = False, ext_websocket_marker = None,
        ext_tls_alpn_preference = None, ext_route_preference = None, ext_other = ()\<rparr>,
      rq_body = body_absent\<rparr>"

definition cx_ops :: "((header_name \<times> header_value) list, (header_name \<times> header_value) list MemoryCacheStore) cache_store_ops" where
  "cx_ops = memory_ops (\<lambda>es. 0)"

definition cx_pending :: "(header_name \<times> header_value) list cache_pending" where
  "cx_pending = (case cache_before cx_env cx_ops (cx_request GET) 0 (with_limits 4 100) of Forward r p log \<Rightarrow> p)"

definition cx_store :: "(header_name \<times> header_value) list MemoryCacheStore" where
  "cx_store = fst (snd (cache_after cx_env cx_ops cx_pending (projr (fst (ce_next cx_env (cx_request GET) 0))) 0
     (with_limits 4 100)))"



theorem unsafe_request_invalidates_witness:
  "memory_get_candidates (uri_text ex_uri) (fst (snd (snd (cache_intercept cx_env cx_ops (cx_request POST) 0 cx_store)))) = []"
proof -
  obtain result t c' log where
    i: "cache_intercept cx_env (memory_ops (\<lambda>es. 0)) (cx_request POST) 0 cx_store = (result, t, c', log)"
    by (rule prod_cases4)
  obtain response s' where n: "ce_next cx_env (cx_request POST) 0 = (Inr response, s')" "rsp_status response = 200"
    by (simp add: cx_env_def build_response_def)
  have "request_method_invalidates_cache (rq_method (cx_request POST))" "response_status_invalidates_cache 200"
    by (simp_all add: request_method_invalidates_cache_def response_status_invalidates_cache_def cx_request_def)
  with unsafe_request_invalidates [OF this(1) n(1) _ i target_key_invalidated] n(2)
  have "memory_get_candidates (cache_key (ce_url cx_env) (rq_uri (cx_request POST))) c' = []" by simp
  moreover have "cache_key (ce_url cx_env) (rq_uri (cx_request POST)) = uri_text ex_uri"
    by (simp add: cache_key_def normalize_cache_uri_def cx_env_def cx_request_def)
  ultimately show ?thesis by (simp add: cx_ops_def i)
qed

end
