(* ===== verification/Proxy_Tunnel.thy ===== *)
theory Proxy_Tunnel
  imports Auth_Challenge WS_Codec
begin

text \<open>
  Tunnels through proxies (\<^verbatim>\<open>openwire/src/transport/connect.rs\<close>): the HTTP \<^verbatim>\<open>CONNECT\<close> request with its
  authentication loop, the SOCKS5 handshake, and the stream that hands out bytes read too early.

  A stream to a proxy is what the peer will send, in the pieces a read returns, what has been written, and
  the faults the operations meet, in order.  A fault \<open>TimedOut\<close> matters only to an operation that has a
  timeout.  The text of a response is its bytes as characters; white space is that of Unicode, in UTF-8.
  The texts of the underlying errors of the UTF-8 and header parsers are fixed strings.
\<close>

section \<open>Streams\<close>

datatype io_fault = NoFault | IoFault string | TimedOut

record tunnel_stream =
  ts_in :: "bytes list"
  ts_out :: bytes
  ts_faults :: "io_fault list"

definition next_fault :: "tunnel_stream \<Rightarrow> io_fault \<times> tunnel_stream" where
  "next_fault st = (case ts_faults st of [] \<Rightarrow> (NoFault, st) | f # fs \<Rightarrow> (f, st\<lparr>ts_faults := fs\<rparr>))"

text \<open>
  An operation under an optional timeout: the error on expiry is \<open>late\<close>, that on a failed operation \<open>failed\<close>.
\<close>

definition io_step ::
  "WireError option \<Rightarrow> (string \<Rightarrow> WireError) \<Rightarrow> (tunnel_stream \<Rightarrow> (WireError, 'a) result \<times> tunnel_stream) \<Rightarrow>
     tunnel_stream \<Rightarrow> (WireError, 'a) result \<times> tunnel_stream" where
  "io_step late failed run st =
     (case next_fault st of
        (NoFault, st') \<Rightarrow> run st'
      | (IoFault e, st') \<Rightarrow> (Inl (failed e), st')
      | (TimedOut, st') \<Rightarrow> (case late of Some err \<Rightarrow> (Inl err, st') | None \<Rightarrow> run st'))"

definition write_all :: "bytes \<Rightarrow> tunnel_stream \<Rightarrow> (WireError, unit) result \<times> tunnel_stream" where
  "write_all data st = (Inr (), st\<lparr>ts_out := ts_out st @ data\<rparr>)"

definition flush :: "tunnel_stream \<Rightarrow> (WireError, unit) result \<times> tunnel_stream" where
  "flush st = (Inr (), st)"

definition write_and_flush ::
  "WireError option \<Rightarrow> string \<Rightarrow> string \<Rightarrow> bytes \<Rightarrow> tunnel_stream \<Rightarrow> (WireError, unit) result \<times> tunnel_stream" where
  "write_and_flush late what_write what_flush data st =
     (case io_step late (err_proxy_tunnel what_write) (write_all data) st of
        (Inl e, st') \<Rightarrow> (Inl e, st')
      | (Inr _, st') \<Rightarrow> io_step late (err_proxy_tunnel what_flush) flush st')"

text \<open>\<^verbatim>\<open>read\<close> into a buffer of a given size; nothing at the end of the stream.\<close>

definition io_read :: "nat \<Rightarrow> tunnel_stream \<Rightarrow> bytes \<times> tunnel_stream" where
  "io_read n st =
     (case ts_in st of
        [] \<Rightarrow> ([], st)
      | c # cs \<Rightarrow> (take n c, st\<lparr>ts_in := (if length c \<le> n then cs else drop n c # cs)\<rparr>))"

fun drop_bytes :: "nat \<Rightarrow> bytes list \<Rightarrow> bytes list" where
  "drop_bytes n [] = []"
| "drop_bytes n (c # cs) =
     (if n = 0 then c # cs else if length c \<le> n then drop_bytes (n - length c) cs else drop n c # cs)"

text \<open>\<^verbatim>\<open>read_exact\<close>.\<close>

definition read_exact ::
  "WireError option \<Rightarrow> string \<Rightarrow> nat \<Rightarrow> tunnel_stream \<Rightarrow> (WireError, bytes) result \<times> tunnel_stream" where
  "read_exact late what n st =
     io_step late (err_proxy_tunnel what)
       (\<lambda>st. let input = concat (ts_in st) in
          if n \<le> length input then (Inr (take n input), st\<lparr>ts_in := drop_bytes n (ts_in st)\<rparr>)
          else (Inl (err_proxy_tunnel what ''failed to fill whole buffer''), st\<lparr>ts_in := []\<rparr>)) st"

section \<open>Budgets\<close>

record ConnectBudget =
  cb_started_at :: instant
  cb_connect_timeout :: "duration option"
  cb_call_deadline :: "instant option"

definition budget_remaining :: "instant \<Rightarrow> ConnectBudget \<Rightarrow> duration option" where
  "budget_remaining now b =
     (case (map_option (\<lambda>timeout. timeout - elapsed now (cb_started_at b)) (cb_connect_timeout b),
            map_option (\<lambda>deadline. deadline - now) (cb_call_deadline b)) of
        (Some x, Some y) \<Rightarrow> Some (min x y)
      | (x, y) \<Rightarrow> opt_or x y)"

text \<open>The error of an expired step; printing a duration is the parameter \<open>dbg\<close>.\<close>

definition tunnel_timeout_error :: "(duration \<Rightarrow> string) \<Rightarrow> string \<Rightarrow> duration \<Rightarrow> WireError" where
  "tunnel_timeout_error dbg what timeout =
     with_connect_timeout (with_establishment EProxyTunnel True (with_phase PProxyTunnel
       (wire_error_new KTimeout (what @ '' timed out after '' @ dbg timeout))))"

section \<open>SOCKS5\<close>

datatype Socks5AuthMethod = NoAuth | UsernamePassword

definition socks5_late :: "(duration \<Rightarrow> string) \<Rightarrow> duration option \<Rightarrow> WireError option" where
  "socks5_late dbg timeout = map_option (tunnel_timeout_error dbg ''SOCKS5 handshake'') timeout"

definition socks5_write_client_greeting ::
  "WireError option \<Rightarrow> bool \<Rightarrow> tunnel_stream \<Rightarrow> (WireError, unit) result \<times> tunnel_stream" where
  "socks5_write_client_greeting late allow_username_password st =
     (let methods = (if allow_username_password then [0x00, 0x02] else [0x00]) in
      write_and_flush late ''failed to write SOCKS5 greeting'' ''failed to flush SOCKS5 greeting''
        (0x05 # of_nat (length methods) # methods) st)"

definition hex_digit :: "nat \<Rightarrow> char" where
  "hex_digit n = (if n < 10 then char_of (48 + n) else char_of (87 + n))"

text \<open>The format \<^verbatim>\<open>{:#04x}\<close> of a byte.\<close>

definition show_hex_byte :: "byte \<Rightarrow> string" where
  "show_hex_byte b = ''0x'' @ [hex_digit (unat b div 16), hex_digit (unat b mod 16)]"

definition socks5_read_server_choice ::
  "WireError option \<Rightarrow> bool \<Rightarrow> tunnel_stream \<Rightarrow> (WireError, Socks5AuthMethod) result \<times> tunnel_stream" where
  "socks5_read_server_choice late offered_username_password st =
     (case read_exact late ''failed to read SOCKS5 greeting response'' 2 st of
        (Inl e, st') \<Rightarrow> (Inl e, st')
      | (Inr response, st') \<Rightarrow>
          (let version = response ! 0; method = response ! 1 in
           if version \<noteq> 0x05 then
             Inl (err_proxy_tunnel_non_retryable (''SOCKS5 proxy returned unsupported version '' @ show_nat (unat version)))
           else if method = 0x00 then Inr NoAuth
           else if method = 0x02 then Inr UsernamePassword
           else if method = 0xff \<and> offered_username_password then
             Inl (err_proxy_tunnel_non_retryable
                    ''SOCKS5 proxy did not accept no-auth or username/password authentication'')
           else if method = 0xff then
             Inl (err_proxy_tunnel_non_retryable ''SOCKS5 proxy does not support no-auth authentication'')
           else Inl (err_proxy_tunnel_non_retryable
                  (''SOCKS5 proxy selected unsupported authentication method '' @ show_hex_byte method)),
           st'))"

definition socks5_write_password_auth_request ::
  "WireError option \<Rightarrow> ProxyCredentials \<Rightarrow> tunnel_stream \<Rightarrow> (WireError, unit) result \<times> tunnel_stream" where
  "socks5_write_password_auth_request late credentials st =
     (let username = str_bytes (cred_username credentials); password = str_bytes (cred_password credentials) in
      if length username > 255 then (Inl (err_invalid_request ''SOCKS5 proxy username exceeds 255 bytes''), st)
      else if length password > 255 then (Inl (err_invalid_request ''SOCKS5 proxy password exceeds 255 bytes''), st)
      else write_and_flush late ''failed to write SOCKS5 username/password request''
             ''failed to flush SOCKS5 username/password request''
             (0x01 # of_nat (length username) # username @ of_nat (length password) # password) st)"

definition socks5_read_password_auth_response ::
  "WireError option \<Rightarrow> tunnel_stream \<Rightarrow> (WireError, unit) result \<times> tunnel_stream" where
  "socks5_read_password_auth_response late st =
     (case read_exact late ''failed to read SOCKS5 username/password response'' 2 st of
        (Inl e, st') \<Rightarrow> (Inl e, st')
      | (Inr response, st') \<Rightarrow>
          (if response ! 0 \<noteq> 0x01 then
             Inl (err_proxy_tunnel_non_retryable
               (''SOCKS5 username/password auth returned unsupported version '' @ show_nat (unat (response ! 0))))
           else if response ! 1 \<noteq> 0x00 then
             Inl (err_proxy_tunnel_non_retryable ''SOCKS5 username/password authentication failed'')
           else Inr (),
           st'))"

text \<open>\<^verbatim>\<open>octets\<close> of an address are its bytes, high byte first.\<close>

definition socks5_write_connect_request ::
  "(string \<Rightarrow> ip_addr option) \<Rightarrow> WireError option \<Rightarrow> string \<Rightarrow> u16 \<Rightarrow> tunnel_stream \<Rightarrow>
     (WireError, unit) result \<times> tunnel_stream" where
  "socks5_write_connect_request parse_ip late host port st =
     (case (case parse_ip host of
              Some (IpV4 ip) \<Rightarrow> Inr (0x01 # be_bytes 4 (unat ip))
            | Some (IpV6 ip) \<Rightarrow> Inr (0x04 # be_bytes 16 (unat ip))
            | None \<Rightarrow>
                if length (str_bytes host) > 255 then Inl (err_invalid_request ''SOCKS5 target host exceeds 255 bytes'')
                else Inr (0x03 # of_nat (length (str_bytes host)) # str_bytes host)) of
        Inl e \<Rightarrow> (Inl e, st)
      | Inr target \<Rightarrow>
          write_and_flush late ''failed to write SOCKS5 connect request'' ''failed to flush SOCKS5 connect request''
            ([0x05, 0x01, 0x00] @ target @ be_bytes 2 (unat port)) st)"

definition socks5_reply_reason :: "byte \<Rightarrow> string" where
  "socks5_reply_reason code =
     (if code = 0x01 then ''general SOCKS server failure''
      else if code = 0x02 then ''connection not allowed by ruleset''
      else if code = 0x03 then ''network unreachable''
      else if code = 0x04 then ''host unreachable''
      else if code = 0x05 then ''connection refused''
      else if code = 0x06 then ''TTL expired''
      else if code = 0x07 then ''command not supported''
      else if code = 0x08 then ''address type not supported''
      else ''unknown failure'')"

definition socks5_read_connect_response ::
  "WireError option \<Rightarrow> tunnel_stream \<Rightarrow> (WireError, unit) result \<times> tunnel_stream" where
  "socks5_read_connect_response late st =
     (case read_exact late ''failed to read SOCKS5 connect response'' 4 st of
        (Inl e, st') \<Rightarrow> (Inl e, st')
      | (Inr head, st') \<Rightarrow>
          if head ! 0 \<noteq> 0x05 then
            (Inl (err_proxy_tunnel_non_retryable
               (''SOCKS5 proxy returned unsupported version '' @ show_nat (unat (head ! 0)))), st')
          else if head ! 1 \<noteq> 0x00 then
            (Inl (err_proxy_tunnel_non_retryable (''SOCKS5 connect failed: '' @ socks5_reply_reason (head ! 1))), st')
          else if head ! 3 = 0x01 then
            map_prod (map_sum id (\<lambda>_. ())) id (read_exact late ''failed to read SOCKS5 IPv4 bind address'' 6 st')
          else if head ! 3 = 0x03 then
            (case read_exact late ''failed to read SOCKS5 bind host length'' 1 st' of
               (Inl e, st'') \<Rightarrow> (Inl e, st'')
             | (Inr len, st'') \<Rightarrow>
                 map_prod (map_sum id (\<lambda>_. ())) id
                   (read_exact late ''failed to read SOCKS5 bind host'' (unat (len ! 0) + 2) st''))
          else if head ! 3 = 0x04 then
            map_prod (map_sum id (\<lambda>_. ())) id (read_exact late ''failed to read SOCKS5 IPv6 bind address'' 18 st')
          else (Inl (err_proxy_tunnel_non_retryable
                  (''SOCKS5 proxy returned unknown address type '' @ show_nat (unat (head ! 3)))), st'))"

text \<open>
  The handshake.  \<open>now i\<close> is the time at which the code asks for the budget left for its step \<open>i\<close>.
\<close>

definition socks5_target :: "uri \<Rightarrow> (WireError, string \<times> u16) result" where
  "socks5_target target_uri =
     (case uri_host target_uri of
        None \<Rightarrow> Inl (err_invalid_request ''request URI is missing a host'')
      | Some host \<Rightarrow>
          Inr (host, case uri_port_u16 target_uri of
                       Some port \<Rightarrow> port
                     | None \<Rightarrow> if uri_scheme_str target_uri = Some ''https'' then 443 else 80))"

definition socks5_authenticate ::
  "(nat \<Rightarrow> WireError option) \<Rightarrow> ProxyCredentials option \<Rightarrow> Socks5AuthMethod \<Rightarrow> tunnel_stream \<Rightarrow>
     (WireError, unit) result \<times> tunnel_stream" where
  "socks5_authenticate late credentials method st =
     (case method of
        NoAuth \<Rightarrow> (Inr (), st)
      | UsernamePassword \<Rightarrow>
          (case credentials of
             None \<Rightarrow> (Inl (err_proxy_tunnel_non_retryable
                (''SOCKS5 proxy requested username/password authentication but no credentials were configured'')), st)
           | Some c \<Rightarrow>
               (case socks5_write_password_auth_request (late 2) c st of
                  (Inl e, st') \<Rightarrow> (Inl e, st')
                | (Inr _, st') \<Rightarrow> socks5_read_password_auth_response (late 3) st')))"

definition establish_socks5_tunnel ::
  "(string \<Rightarrow> ip_addr option) \<Rightarrow> (duration \<Rightarrow> string) \<Rightarrow> (nat \<Rightarrow> instant) \<Rightarrow> uri \<Rightarrow> ConnectBudget \<Rightarrow>
     ProxyCredentials option \<Rightarrow> tunnel_stream \<Rightarrow> (WireError, unit) result \<times> tunnel_stream" where
  "establish_socks5_tunnel parse_ip dbg now target_uri budget credentials st =
     (let late = (\<lambda>i. socks5_late dbg (budget_remaining (now i) budget)) in
      case socks5_target target_uri of
        Inl e \<Rightarrow> (Inl e, st)
      | Inr (host, port) \<Rightarrow>
          (case socks5_write_client_greeting (late 0) (credentials \<noteq> None) st of
             (Inl e, st1) \<Rightarrow> (Inl e, st1)
           | (Inr _, st1) \<Rightarrow>
               (case socks5_read_server_choice (late 1) (credentials \<noteq> None) st1 of
                  (Inl e, st2) \<Rightarrow> (Inl e, st2)
                | (Inr method, st2) \<Rightarrow>
                    (case socks5_authenticate late credentials method st2 of
                       (Inl e, st3) \<Rightarrow> (Inl e, st3)
                     | (Inr _, st3) \<Rightarrow>
                         (case socks5_write_connect_request parse_ip (late 4) host port st3 of
                            (Inl e, st4) \<Rightarrow> (Inl e, st4)
                          | (Inr _, st4) \<Rightarrow> socks5_read_connect_response (late 5) st4)))))"

section \<open>CONNECT requests\<close>

definition validate_connect_token :: "bytes \<Rightarrow> string \<Rightarrow> (WireError, unit) result" where
  "validate_connect_token value what =
     (if list_ex (\<lambda>b. b = 13 \<or> b = 10 \<or> b = 0) value
      then Inl (err_invalid_request (what @ '' must not contain CR, LF, or NUL'')) else Inr ())"

definition CRLF :: bytes where
  "CRLF = [13, 10]"

fun connect_header_lines :: "(header_name \<times> header_value) list \<Rightarrow> bytes \<Rightarrow> (WireError, bytes) result" where
  "connect_header_lines [] request = Inr request"
| "connect_header_lines ((name, value) # hs) request =
     (if name = ''host'' then connect_header_lines hs request
      else case to_str value of
        None \<Rightarrow> Inl (err_invalid_request
          (''CONNECT header '' @ name @ '' is not valid ASCII: failed to convert header to a str''))
      | Some _ \<Rightarrow>
          (case validate_connect_token value ''proxy CONNECT header value'' of
             Inl e \<Rightarrow> Inl e
           | Inr _ \<Rightarrow> connect_header_lines hs (request @ str_bytes name @ str_bytes '': '' @ value @ CRLF)))"

definition build_connect_request ::
  "string \<Rightarrow> (header_name \<times> header_value) list \<Rightarrow> (WireError, bytes) result" where
  "build_connect_request authority headers =
     (case validate_connect_token (str_bytes authority) ''proxy CONNECT authority'' of
        Inl e \<Rightarrow> Inl e
      | Inr _ \<Rightarrow>
          (case connect_header_lines headers
                  (str_bytes ''CONNECT '' @ str_bytes authority @ str_bytes '' HTTP/1.1'' @ CRLF @
                   str_bytes ''Host: '' @ str_bytes authority @ CRLF) of
             Inl e \<Rightarrow> Inl e
           | Inr request \<Rightarrow> Inr (request @ CRLF)))"

section \<open>CONNECT responses\<close>

text \<open>\<^verbatim>\<open>str::trim\<close> and \<^verbatim>\<open>str::split_whitespace\<close>: the white space of Unicode as UTF-8 sequences.\<close>

definition utf8_spaces :: "bytes list" where
  "utf8_spaces =
     [[9], [10], [11], [12], [13], [32], [0xC2, 0x85], [0xC2, 0xA0], [0xE1, 0x9A, 0x80]] @
     map (\<lambda>i. [0xE2, 0x80, of_nat (0x80 + i)]) [0..<11] @
     [[0xE2, 0x80, 0xA8], [0xE2, 0x80, 0xA9], [0xE2, 0x80, 0xAF], [0xE2, 0x81, 0x9F], [0xE3, 0x80, 0x80]]"

definition strip_space :: "bytes list \<Rightarrow> bytes \<Rightarrow> bytes option" where
  "strip_space spaces s =
     (case List.find (\<lambda>w. strip_prefix w s \<noteq> None) spaces of
        None \<Rightarrow> None
      | Some w \<Rightarrow> if w = [] then None else strip_prefix w s)"

lemma strip_space_length: "strip_space spaces s = Some r \<Longrightarrow> length r < length s"
  by (auto simp: strip_space_def strip_prefix_Some_iff split: option.splits if_splits)

function trim_spaces :: "bytes list \<Rightarrow> bytes \<Rightarrow> bytes" where
  "trim_spaces spaces s = (case strip_space spaces s of None \<Rightarrow> s | Some r \<Rightarrow> trim_spaces spaces r)"
  by pat_completeness auto
termination
  by (relation "measure (\<lambda>(_, s). length s)") (auto dest: strip_space_length)

declare trim_spaces.simps [simp del]

definition utf8_trim :: "bytes \<Rightarrow> bytes" where
  "utf8_trim s = rev (trim_spaces (map rev utf8_spaces) (rev (trim_spaces utf8_spaces s)))"

function utf8_words :: "bytes \<Rightarrow> bytes \<Rightarrow> bytes list" where
  "utf8_words word s =
     (case strip_space utf8_spaces s of
        Some r \<Rightarrow> (if word = [] then [] else [word]) @ utf8_words [] r
      | None \<Rightarrow> (case s of [] \<Rightarrow> (if word = [] then [] else [word]) | b # r \<Rightarrow> utf8_words (word @ [b]) r))"
  by pat_completeness auto
termination
  by (relation "measure (\<lambda>(_, s). length s)") (auto dest: strip_space_length)

declare utf8_words.simps [simp del]

fun split_crlf :: "bytes \<Rightarrow> bytes list" where
  "split_crlf [] = [[]]"
| "split_crlf [b] = [[b]]"
| "split_crlf (a # b # r) =
     (if a = 13 \<and> b = 10 then [] # split_crlf r
      else case split_crlf (b # r) of [] \<Rightarrow> [[a]] | p # ps \<Rightarrow> (a # p) # ps)"

definition find_connect_response_end :: "bytes \<Rightarrow> usize option" where
  "find_connect_response_end response =
     map_option (\<lambda>pos. pos + 4)
       (position (\<lambda>i. take 4 (drop i response) = CRLF @ CRLF) [0..<length response - 3])"

definition split_connect_response_head :: "bytes \<Rightarrow> usize \<Rightarrow> bytes \<times> bytes" where
  "split_connect_response_head response head_end = (take head_end response, drop head_end response)"

definition bytes_str :: "bytes \<Rightarrow> string" where
  "bytes_str bs = map byte_char bs"

definition invalid_status_line :: "bytes \<Rightarrow> string \<Rightarrow> WireError" where
  "invalid_status_line status_line =
     err_proxy_tunnel (''proxy CONNECT returned an invalid status line: '' @ bytes_str status_line)"

definition parse_connect_status :: "bytes \<Rightarrow> (WireError, nat) result" where
  "parse_connect_status status_line =
     (let parts = utf8_words [] status_line;
          protocol = (case parts of [] \<Rightarrow> [] | p # _ \<Rightarrow> p)
      in if protocol \<noteq> str_bytes ''HTTP/1.1'' \<and> protocol \<noteq> str_bytes ''HTTP/1.0''
           then Inl (invalid_status_line status_line ''invalid proxy status line'')
         else case tl parts of
           [] \<Rightarrow> Inl (invalid_status_line status_line ''missing proxy status code'')
         | code # _ \<Rightarrow>
             (case parse_uint 65535 (bytes_str code) of
                Inl e \<Rightarrow> Inl (invalid_status_line status_line e)
              | Inr status \<Rightarrow>
                  if 100 \<le> status \<and> status < 1000 then Inr status
                  else Inl (invalid_status_line status_line ''invalid status code'')))"

record 'h ConnectResponseHead =
  crh_status :: nat
  crh_status_line :: bytes
  crh_headers :: 'h
  crh_prefetched :: bytes

fun connect_response_headers ::
  "'h header_ops \<Rightarrow> (string \<Rightarrow> header_name option) \<Rightarrow> bytes list \<Rightarrow> 'h \<Rightarrow> (WireError, 'h) result" where
  "connect_response_headers ops hname [] h = Inr h"
| "connect_response_headers ops hname (line # ls) h =
     (if line = [] then connect_response_headers ops hname ls h
      else if 58 \<notin> set line then
        Inl (err_proxy_tunnel (''invalid proxy CONNECT header line: '' @ bytes_str line) ''malformed proxy header'')
      else let name = takeWhile (\<lambda>b. b \<noteq> 58) line; value = tl (dropWhile (\<lambda>b. b \<noteq> 58) line) in
        case hname (bytes_str (utf8_trim name)) of
          None \<Rightarrow> Inl (err_proxy_tunnel (''invalid proxy CONNECT header name '' @ CHR 34 # bytes_str name @ [CHR 34]) ''invalid HTTP header name'')
        | Some n \<Rightarrow>
            (case header_value_from_str (utf8_trim value) of
               None \<Rightarrow> Inl (err_proxy_tunnel (''invalid proxy CONNECT header value for '' @ n) ''failed to parse header value'')
             | Some v \<Rightarrow> connect_response_headers ops hname ls (hm_append ops n v h)))"

definition parse_connect_response_head ::
  "'h header_ops \<Rightarrow> (string \<Rightarrow> header_name option) \<Rightarrow> 'h \<Rightarrow> bytes \<Rightarrow> bytes \<Rightarrow> (WireError, 'h ConnectResponseHead) result" where
  "parse_connect_response_head ops hname no_headers head0 prefetched =
     (if \<not> utf8_valid head0
        then Inl (err_proxy_tunnel ''proxy CONNECT response was not valid UTF-8'' ''invalid utf-8 sequence'')
      else let head = (case find_connect_response_end head0 of Some e \<Rightarrow> take (e - 4) head0 | None \<Rightarrow> head0) in
        case split_crlf head of
          [] \<Rightarrow> Inl (err_proxy_tunnel ''proxy returned an empty CONNECT response'' ''empty proxy response'')
        | status_line # ls \<Rightarrow>
            (case parse_connect_status status_line of
               Inl e \<Rightarrow> Inl e
             | Inr status \<Rightarrow>
                 (case connect_response_headers ops hname ls no_headers of
                    Inl e \<Rightarrow> Inl e
                  | Inr headers \<Rightarrow>
                      Inr \<lparr>crh_status = status, crh_status_line = status_line, crh_headers = headers,
                           crh_prefetched = prefetched\<rparr>)))"

text \<open>The reading loop: pieces of at most 512 bytes until the head is complete.\<close>

function read_connect_head ::
  "WireError option \<Rightarrow> bytes \<Rightarrow> tunnel_stream \<Rightarrow> (WireError, bytes \<times> usize) result \<times> tunnel_stream" where
  "read_connect_head late response st =
     (case io_step late (err_proxy_tunnel ''failed to read proxy CONNECT response'') (\<lambda>st. (Inr (), st)) st of
        (Inl e, st0) \<Rightarrow> (Inl e, st0)
      | (Inr _, st0) \<Rightarrow>
          (case io_read 512 st0 of
             (buf, st1) \<Rightarrow>
               if buf = [] then
                 (Inl (err_proxy_tunnel ''proxy closed connection during CONNECT'' ''proxy closed connection''), st1)
               else let response' = response @ buf in
                 case find_connect_response_end response' of
                   Some split_at \<Rightarrow> (Inr (response', split_at), st1)
                 | None \<Rightarrow>
                     if length response' > 8192 then
                       (Inl (err_proxy_tunnel ''proxy CONNECT response headers exceeded 8KiB''
                               ''proxy response too large''), st1)
                     else read_connect_head late response' st1))"
  by pat_completeness auto
termination
proof (relation "measure (\<lambda>(_, _, st). length (concat (ts_in st)))", goal_cases)
  case 1
  then show ?case by simp
next
  case (2 late response st x st0 y z st1 response')
  then show ?case
    by (auto simp: io_step_def next_fault_def io_read_def split: list.splits io_fault.splits option.splits if_splits)
qed

definition read_connect_response_inner ::
  "'h header_ops \<Rightarrow> (string \<Rightarrow> header_name option) \<Rightarrow> 'h \<Rightarrow> WireError option \<Rightarrow> tunnel_stream \<Rightarrow>
     (WireError, 'h ConnectResponseHead) result \<times> tunnel_stream" where
  "read_connect_response_inner ops hname no_headers late st =
     (case read_connect_head late [] st of
        (Inl e, st') \<Rightarrow> (Inl e, st')
      | (Inr (response, head_end), st') \<Rightarrow>
          (case split_connect_response_head response head_end of
             (head, prefetched) \<Rightarrow> (parse_connect_response_head ops hname no_headers head prefetched, st')))"

definition read_connect_response ::
  "'h header_ops \<Rightarrow> (string \<Rightarrow> header_name option) \<Rightarrow> 'h \<Rightarrow> (duration \<Rightarrow> string) \<Rightarrow> duration option \<Rightarrow> tunnel_stream \<Rightarrow>
     (WireError, 'h ConnectResponseHead) result \<times> tunnel_stream" where
  "read_connect_response ops hname no_headers dbg connect_timeout st =
     read_connect_response_inner ops hname no_headers
       (map_option (tunnel_timeout_error dbg ''proxy CONNECT'') connect_timeout) st"

section \<open>Bytes read too early\<close>

record PrefetchedTunnelBytes =
  ptb_inner :: tunnel_stream
  ptb_prefetched :: "bytes option"

definition prefetched_new :: "tunnel_stream \<Rightarrow> bytes \<Rightarrow> PrefetchedTunnelBytes" where
  "prefetched_new inner prefetched =
     \<lparr>ptb_inner = inner, ptb_prefetched = (if prefetched \<noteq> [] then Some prefetched else None)\<rparr>"

text \<open>A read into a buffer with room for \<open>n\<close> bytes.\<close>

definition prefetched_poll_read :: "nat \<Rightarrow> PrefetchedTunnelBytes \<Rightarrow> bytes \<times> PrefetchedTunnelBytes" where
  "prefetched_poll_read n p =
     (case ptb_prefetched p of
        Some prefetched \<Rightarrow>
          let copy_len = min (length prefetched) n; rest = drop copy_len prefetched in
          (take copy_len prefetched, p\<lparr>ptb_prefetched := (if rest \<noteq> [] then Some rest else None)\<rparr>)
      | None \<Rightarrow> (case io_read n (ptb_inner p) of (buf, inner) \<Rightarrow> (buf, p\<lparr>ptb_inner := inner\<rparr>)))"

section \<open>The tunnel\<close>

datatype 'h ConnectTunnelOutcome = Established PrefetchedTunnelBytes | TunnelResponse "'h ConnectResponseHead"

text \<open>
  What the tunnel takes from outside: header maps, the Basic header of credentials, the connector, the
  clock, the authenticator.
\<close>

record ('s, 'h, 'x) tunnel_env =
  te_headers :: "'h header_ops"
  te_new_headers :: 'h
  te_iter :: "'h \<Rightarrow> (header_name \<times> header_value) list"
  te_header_name :: "string \<Rightarrow> header_name option"
  te_basic_auth_header_value :: "ProxyCredentials \<Rightarrow> bytes"
  te_connect :: "socket_addr \<Rightarrow> duration option \<Rightarrow> 's \<Rightarrow> (WireError, tunnel_stream) result \<times> 's"
  te_now :: "'s \<Rightarrow> instant"
  te_debug_duration :: "duration \<Rightarrow> string"
  te_new_extensions :: "'x Extensions"

definition send_connect_request ::
  "('s, 'h, 'x) tunnel_env \<Rightarrow> string \<Rightarrow> 'h \<Rightarrow> duration option \<Rightarrow> tunnel_stream \<Rightarrow>
     (WireError, 'h ConnectTunnelOutcome) result" where
  "send_connect_request env authority headers connect_timeout st =
     (case build_connect_request authority (te_iter env headers) of
        Inl e \<Rightarrow> Inl e
      | Inr connect_request \<Rightarrow>
          (case write_and_flush None ''failed to write proxy CONNECT request'' ''failed to flush proxy CONNECT request''
                  connect_request st of
             (Inl e, st1) \<Rightarrow> Inl e
           | (Inr _, st1) \<Rightarrow>
               (case read_connect_response (te_headers env) (te_header_name env) (te_new_headers env)
                       (te_debug_duration env) connect_timeout st1 of
                  (Inl e, st2) \<Rightarrow> Inl e
                | (Inr head, st2) \<Rightarrow>
                    if crh_status head = 200 then Inr (Established (prefetched_new st2 (crh_prefetched head)))
                    else Inr (TunnelResponse head))))"

definition sanitize_connect_headers :: "'h header_ops \<Rightarrow> 'h \<Rightarrow> 'h \<Rightarrow> 'h" where
  "sanitize_connect_headers ops no_headers headers =
     fold (hm_append ops ''proxy-authorization'') (hm_get_all ops headers ''proxy-authorization'') no_headers"

definition connect_request_headers ::
  "'h header_ops \<Rightarrow> 'h \<Rightarrow> string \<Rightarrow> 'h \<Rightarrow> (WireError, 'h) result" where
  "connect_request_headers ops no_headers authority headers =
     (case header_value_from_str (str_bytes authority) of
        None \<Rightarrow> Inl (err_invalid_request
          ''proxy CONNECT authority is not a valid Host header: failed to parse header value'')
      | Some host \<Rightarrow> Inr (hm_insert ops ''host'' host (sanitize_connect_headers ops no_headers headers)))"

definition proxy_connect_status_error :: "bytes \<Rightarrow> WireError" where
  "proxy_connect_status_error status_line =
     err_proxy_tunnel_non_retryable (''proxy CONNECT failed: '' @ bytes_str status_line)"

record ('s, 'h, 'x) ConnectTunnelParams =
  ctp_proxy_addr :: socket_addr
  ctp_target_uri :: uri
  ctp_auth_attempts :: AuthAttemptState
  ctp_initial_proxy_credentials :: "ProxyCredentials option"
  ctp_proxy_authenticator :: "('s, 'h, 'x) Authenticator option"
  ctp_max_proxy_auth_attempts :: usize
  ctp_budget :: ConnectBudget

record ('s, 'h) tunnel_state =
  tst_stream :: tunnel_stream
  tst_headers :: 'h
  tst_auth_count :: u32
  tst_env :: 's

datatype ('s, 'h) tunnel_outcome =
    TunnelReturn "(WireError, PrefetchedTunnelBytes) result" 's
  | TunnelContinue "('s, 'h) tunnel_state"

definition tunnel_remaining :: "('s, 'h, 'x) tunnel_env \<Rightarrow> ('s, 'h, 'x) ConnectTunnelParams \<Rightarrow> 's \<Rightarrow> duration option" where
  "tunnel_remaining env params s = budget_remaining (te_now env s) (ctp_budget params)"

text \<open>An answer other than success: authenticate and dial again, or give up.\<close>

definition tunnel_challenge ::
  "('s, 'h, 'x) tunnel_env \<Rightarrow> ('s, 'h, 'x) ConnectTunnelParams \<Rightarrow> string \<Rightarrow> 'h ConnectResponseHead \<Rightarrow>
     ('s, 'h) tunnel_state \<Rightarrow> ('s, 'h) tunnel_outcome" where
  "tunnel_challenge env params authority head t =
     (let refused = TunnelReturn (Inl (proxy_connect_status_error (crh_status_line head))) (tst_env t);
          attempts = ctp_auth_attempts params;
          effective_auth_count = saturating_add U32_MAX (aas_auth_count attempts) (tst_auth_count t)
      in if crh_status head \<noteq> 407 then refused
         else case ctp_proxy_authenticator params of
           None \<Rightarrow> refused
         | Some authenticator \<Rightarrow>
             if effective_auth_count \<ge> ctp_max_proxy_auth_attempts params then refused
             else (case connect_request_headers (te_headers env) (te_new_headers env) authority (tst_headers t) of
                     Inl e \<Rightarrow> TunnelReturn (Inl e) (tst_env t)
                   | Inr request_headers \<Rightarrow>
                       (case authenticator (build_auth_context AuthProxy
                               \<lparr>ars_method = CONNECT, ars_uri = ctp_target_uri params, ars_version = HTTP_11,
                                ars_headers = request_headers, ars_extensions = te_new_extensions env,
                                ars_body = Some body_absent\<rparr>
                               \<lparr>arp_status = crh_status head, arp_headers = crh_headers head\<rparr>
                               (attempts\<lparr>aas_auth_count := effective_auth_count\<rparr>)) (tst_env t) of
                          (Inl e, s1) \<Rightarrow>
                            TunnelReturn (Inl (with_proxy_addr (ctp_proxy_addr params)
                                                 (with_response_status (crh_status head) e))) s1
                        | (Inr None, s1) \<Rightarrow>
                            TunnelReturn (Inl (proxy_connect_status_error (crh_status_line head))) s1
                        | (Inr (Some request), s1) \<Rightarrow>
                            (case te_connect env (ctp_proxy_addr params) (tunnel_remaining env params s1) s1 of
                               (Inl e, s2) \<Rightarrow> TunnelReturn (Inl e) s2
                             | (Inr stream, s2) \<Rightarrow>
                                 TunnelContinue \<lparr>tst_stream = stream,
                                   tst_headers = sanitize_connect_headers (te_headers env) (te_new_headers env)
                                                   (rq_headers request),
                                   tst_auth_count = tst_auth_count t + 1, tst_env = s2\<rparr>))))"

definition tunnel_step ::
  "('s, 'h, 'x) tunnel_env \<Rightarrow> ('s, 'h, 'x) ConnectTunnelParams \<Rightarrow> string \<Rightarrow> ('s, 'h) tunnel_state \<Rightarrow>
     ('s, 'h) tunnel_outcome" where
  "tunnel_step env params authority t =
     (case send_connect_request env authority (tst_headers t) (tunnel_remaining env params (tst_env t)) (tst_stream t) of
        Inl e \<Rightarrow> TunnelReturn (Inl e) (tst_env t)
      | Inr (Established stream) \<Rightarrow> TunnelReturn (Inr stream) (tst_env t)
      | Inr (TunnelResponse head) \<Rightarrow> tunnel_challenge env params authority head t)"

partial_function (option) tunnel_loop ::
  "('s, 'h, 'x) tunnel_env \<Rightarrow> ('s, 'h, 'x) ConnectTunnelParams \<Rightarrow> string \<Rightarrow> ('s, 'h) tunnel_state \<Rightarrow>
     ((WireError, PrefetchedTunnelBytes) result \<times> 's) option" where
  "tunnel_loop env params authority t =
     (case tunnel_step env params authority t of
        TunnelReturn r s \<Rightarrow> Some (r, s)
      | TunnelContinue t' \<Rightarrow> tunnel_loop env params authority t')"

definition tunnel_initial_headers ::
  "('s, 'h, 'x) tunnel_env \<Rightarrow> ('s, 'h, 'x) ConnectTunnelParams \<Rightarrow> (WireError, 'h) result" where
  "tunnel_initial_headers env params =
     (case ctp_initial_proxy_credentials params of
        None \<Rightarrow> Inr (te_new_headers env)
      | Some credentials \<Rightarrow>
          (case header_value_from_str (te_basic_auth_header_value env credentials) of
             None \<Rightarrow> Inl (with_proxy_addr (ctp_proxy_addr params)
               (with_source KInvalidRequest ''proxy basic auth header is not valid ASCII''
                  ''failed to parse header value''))
           | Some value \<Rightarrow>
               Inr (hm_insert (te_headers env) ''proxy-authorization'' value (te_new_headers env))))"

definition establish_connect_tunnel ::
  "('s, 'h, 'x) tunnel_env \<Rightarrow> ('s, 'h, 'x) ConnectTunnelParams \<Rightarrow> tunnel_stream \<Rightarrow> 's \<Rightarrow>
     ((WireError, PrefetchedTunnelBytes) result \<times> 's) option" where
  "establish_connect_tunnel env params stream s =
     (case uri_authority (ctp_target_uri params) of
        None \<Rightarrow> Some (Inl (err_invalid_request ''request URI is missing an authority''), s)
      | Some authority \<Rightarrow>
          (case tunnel_initial_headers env params of
             Inl e \<Rightarrow> Some (Inl e, s)
           | Inr headers \<Rightarrow>
               tunnel_loop env params authority
                 \<lparr>tst_stream = stream, tst_headers = headers, tst_auth_count = 0, tst_env = s\<rparr>))"

end
