(* ===== verification/Proxy_Tunnel_Props.thy ===== *)
theory Proxy_Tunnel_Props
  imports Proxy_Tunnel "HOL-Library.Code_Target_Nat"
begin

text \<open>
  What a tunnel guarantees: a handshake that succeeds has read exactly the proxy's part of it, so that the
  tunnelled bytes that follow are all there and nothing else is; what it wrote is what the protocols
  prescribe; the authentication loop ends.
\<close>

section \<open>Streams\<close>

lemma io_step_Inr:
  assumes "io_step late failed run st = (Inr x, st')"
  shows "\<exists>fs. run (st\<lparr>ts_faults := fs\<rparr>) = (Inr x, st')"
proof (cases "ts_faults st")
  case Nil
  then have eq: "st\<lparr>ts_faults := []\<rparr> = st" by (cases st) simp
  have "run st = (Inr x, st')" using assms Nil by (simp add: io_step_def next_fault_def)
  then have "run (st\<lparr>ts_faults := []\<rparr>) = (Inr x, st')" unfolding eq .
  then show ?thesis ..
next
  case (Cons f fs)
  then have "run (st\<lparr>ts_faults := fs\<rparr>) = (Inr x, st')"
    using assms by (cases f) (simp_all add: io_step_def next_fault_def split: option.splits)
  then show ?thesis ..
qed

lemma concat_drop_bytes: "concat (drop_bytes n cs) = drop n (concat cs)"
  by (induction n cs rule: drop_bytes.induct) auto

lemma read_exact_Inr:
  assumes "read_exact late what n st = (Inr bs, st')"
  shows "concat (ts_in st) = bs @ concat (ts_in st') \<and> length bs = n \<and> ts_out st' = ts_out st"
proof -
  obtain fs where
    "(let st = st\<lparr>ts_faults := fs\<rparr>; input = concat (ts_in st) in
      if n \<le> length input then (Inr (take n input), st\<lparr>ts_in := drop_bytes n (ts_in st)\<rparr>)
      else (Inl (err_proxy_tunnel what ''failed to fill whole buffer''), st\<lparr>ts_in := []\<rparr>)) = (Inr bs, st')"
    using io_step_Inr [OF assms [unfolded read_exact_def]] unfolding Let_def by blast
  then show ?thesis by (auto simp: Let_def concat_drop_bytes split: if_splits)
qed

lemma write_and_flush_Inr:
  assumes "write_and_flush late a b data st = (Inr x, st')"
  shows "ts_out st' = ts_out st @ data \<and> ts_in st' = ts_in st"
proof -
  obtain r st1 where w: "io_step late (err_proxy_tunnel a) (write_all data) st = (r, st1)"
    by (rule prod.exhaust)
  then have r: "r = Inr ()" and f: "io_step late (err_proxy_tunnel b) flush st1 = (Inr x, st')"
    using assms by (auto simp: write_and_flush_def split: sum.splits)
  have "ts_out st1 = ts_out st @ data \<and> ts_in st1 = ts_in st"
    using io_step_Inr [OF w [unfolded r]] by (auto simp: write_all_def)
  moreover have "ts_out st' = ts_out st1 \<and> ts_in st' = ts_in st1"
    using io_step_Inr [OF f] by (auto simp: flush_def)
  ultimately show ?thesis by simp
qed

section \<open>SOCKS5\<close>

text \<open>
  The messages of RFC 1928 and RFC 1929 as a server reads them: the target of a request, and a reply with
  the length its address type gives.
\<close>

datatype socks_target = TargetV4 "32 word" | TargetV6 "128 word" | TargetName bytes

fun socks5_decode_request :: "bytes \<Rightarrow> (socks_target \<times> nat) option" where
  "socks5_decode_request (v # c # r # atyp # rest) =
     (if v \<noteq> 5 \<or> c \<noteq> 1 \<or> r \<noteq> 0 then None
      else if atyp = 1 \<and> length rest = 6 then Some (TargetV4 (of_nat (from_be_bytes (take 4 rest))), from_be_bytes (drop 4 rest))
      else if atyp = 4 \<and> length rest = 18 then Some (TargetV6 (of_nat (from_be_bytes (take 16 rest))), from_be_bytes (drop 16 rest))
      else if atyp = 3 \<and> rest \<noteq> [] \<and> length rest = unat (hd rest) + 3 then
        Some (TargetName (take (unat (hd rest)) (tl rest)), from_be_bytes (drop (unat (hd rest)) (tl rest)))
      else None)"
| "socks5_decode_request _ = None"

fun socks5_success_reply :: "bytes \<Rightarrow> bool" where
  "socks5_success_reply (v # c # r # atyp # rest) \<longleftrightarrow>
     v = 5 \<and> c = 0 \<and>
     (atyp = 1 \<and> length rest = 6 \<or> atyp = 4 \<and> length rest = 18 \<or>
      atyp = 3 \<and> rest \<noteq> [] \<and> length rest = unat (hd rest) + 3)"
| "socks5_success_reply _ \<longleftrightarrow> False"

definition socks5_auth_message :: "ProxyCredentials \<Rightarrow> bytes" where
  "socks5_auth_message c =
     (let u = str_bytes (cred_username c); p = str_bytes (cred_password c)
      in 1 # of_nat (length u) # u @ of_nat (length p) # p)"

definition socks5_requested :: "(string \<Rightarrow> ip_addr option) \<Rightarrow> string \<Rightarrow> socks_target" where
  "socks5_requested parse_ip host =
     (case parse_ip host of
        Some (IpV4 ip) \<Rightarrow> TargetV4 ip | Some (IpV6 ip) \<Rightarrow> TargetV6 ip | None \<Rightarrow> TargetName (str_bytes host))"

lemma socks5_write_connect_request_Inr:
  assumes "socks5_write_connect_request parse_ip late host port st = (Inr x, st')"
  shows "\<exists>request. ts_out st' = ts_out st @ request \<and> ts_in st' = ts_in st \<and>
    socks5_decode_request request = Some (socks5_requested parse_ip host, unat port)"
proof -
  have "unat port < 256 ^ 2" using unsigned_less [of port] by simp
  then have port: "from_be_bytes (be_bytes 2 (unat port)) = unat port" by (simp add: from_be_be_bytes)
  have v4: "of_nat (from_be_bytes (be_bytes 4 (unat ip))) = ip" for ip :: "32 word"
  proof -
    have "unat ip < 256 ^ 4" using unsigned_less [of ip] by simp
    then show ?thesis by (simp add: from_be_be_bytes)
  qed
  have v6: "of_nat (from_be_bytes (be_bytes 16 (unat ip))) = ip" for ip :: "128 word"
  proof -
    have "unat ip < 256 ^ 16" using unsigned_less [of ip] by simp
    then show ?thesis by (simp add: from_be_be_bytes)
  qed
  have len: "unat (of_nat n :: byte) = n" if "n \<le> 255" for n
    using that by (simp add: unat_of_nat take_bit_nat_def)
  let ?target = "case parse_ip host of
      Some (IpV4 ip) \<Rightarrow> 0x01 # be_bytes 4 (unat ip)
    | Some (IpV6 ip) \<Rightarrow> 0x04 # be_bytes 16 (unat ip)
    | None \<Rightarrow> 0x03 # of_nat (length (str_bytes host)) # str_bytes host"
  let ?request = "[0x05, 0x01, 0x00] @ ?target @ be_bytes 2 (unat port)"
  have short: "parse_ip host = None \<Longrightarrow> length (str_bytes host) \<le> 255" and
    w: "\<exists>a b. write_and_flush late a b ?request st = (Inr x, st')"
    using assms by (auto simp: socks5_write_connect_request_def split: option.splits ip_addr.splits if_splits)
  have "socks5_decode_request ?request = Some (socks5_requested parse_ip host, unat port)"
    using short by (auto simp: socks5_requested_def port v4 v6 len simp del: be_bytes.simps
        split: option.split ip_addr.split)
  then show ?thesis using w write_and_flush_Inr by metis
qed

lemma list_len_2: "length xs = 2 \<Longrightarrow> xs = [xs ! 0, xs ! 1]"
  by (cases xs; cases "tl xs") auto

lemma socks5_read_server_choice_Inr:
  assumes "socks5_read_server_choice late offered st = (Inr chosen, st')"
  shows "concat (ts_in st) = [5, if chosen = NoAuth then 0 else 2] @ concat (ts_in st') \<and> ts_out st' = ts_out st"
proof -
  obtain r st1 where r: "read_exact late ''failed to read SOCKS5 greeting response'' 2 st = (r, st1)" by (rule prod.exhaust)
  then obtain bs where bs: "r = Inr bs" using assms by (cases r) (auto simp: socks5_read_server_choice_def)
  note x = read_exact_Inr [OF r [unfolded bs]]
  have "st' = st1" "bs ! 0 = 5" "bs ! 1 = (if chosen = NoAuth then 0 else 2)"
    using assms r bs by (auto simp: socks5_read_server_choice_def Let_def split: if_splits)
  then show ?thesis using x list_len_2 [of bs] by auto
qed

lemma socks5_read_password_auth_response_Inr:
  assumes "socks5_read_password_auth_response late st = (Inr u, st')"
  shows "concat (ts_in st) = [1, 0] @ concat (ts_in st') \<and> ts_out st' = ts_out st"
proof -
  obtain r st1 where r: "read_exact late ''failed to read SOCKS5 username/password response'' 2 st = (r, st1)"
    by (rule prod.exhaust)
  then obtain bs where bs: "r = Inr bs" using assms by (cases r) (auto simp: socks5_read_password_auth_response_def)
  note x = read_exact_Inr [OF r [unfolded bs]]
  have "st' = st1" "bs ! 0 = 1" "bs ! 1 = 0"
    using assms r bs by (auto simp: socks5_read_password_auth_response_def split: if_splits)
  then show ?thesis using x list_len_2 [of bs] by auto
qed

lemma read_exact_unit_Inr:
  assumes "map_prod (map_sum id (\<lambda>_. ())) id (read_exact late what n st) = (Inr u, st')"
  shows "\<exists>bs. concat (ts_in st) = bs @ concat (ts_in st') \<and> length bs = n \<and> ts_out st' = ts_out st"
proof -
  obtain r st1 where r: "read_exact late what n st = (r, st1)" by (rule prod.exhaust)
  then obtain bs where bs: "r = Inr bs" "st1 = st'" using assms by (cases r) auto
  show ?thesis using read_exact_Inr [OF r [unfolded bs]] by blast
qed

lemma list_len_4: "length xs = 4 \<Longrightarrow> xs = [xs ! 0, xs ! 1, xs ! 2, xs ! 3]"
  by (cases xs; cases "tl xs"; cases "tl (tl xs)"; cases "tl (tl (tl xs))") (auto simp: numeral_2_eq_2 numeral_3_eq_3)

lemma socks5_read_connect_response_Inr:
  assumes "socks5_read_connect_response late st = (Inr u, st')"
  shows "\<exists>reply. socks5_success_reply reply \<and> concat (ts_in st) = reply @ concat (ts_in st') \<and> ts_out st' = ts_out st"
proof -
  obtain r st1 where r: "read_exact late ''failed to read SOCKS5 connect response'' 4 st = (r, st1)" by (rule prod.exhaust)
  then obtain hd where hd: "r = Inr hd" using assms by (cases r) (auto simp: socks5_read_connect_response_def)
  note x = read_exact_Inr [OF r [unfolded hd]]
  note step = assms [unfolded socks5_read_connect_response_def r prod.case hd sum.case]
  have ok: "hd ! 0 = 5" "hd ! 1 = 0" using step by (auto split: if_splits)
  have "\<exists>rest. socks5_success_reply (hd @ rest) \<and> concat (ts_in st1) = rest @ concat (ts_in st') \<and> ts_out st' = ts_out st1"
  proof -
    have hd4: "hd = [5, 0, hd ! 2, hd ! 3]" using x list_len_4 [of hd] ok by auto
    consider "hd ! 3 = 1" | "hd ! 3 = 3" | "hd ! 3 = 4" using step ok by (auto split: if_splits)
    then show ?thesis
    proof cases
      case 1
      then have "map_prod (map_sum id (\<lambda>_. ())) id (read_exact late ''failed to read SOCKS5 IPv4 bind address'' 6 st1) = (Inr u, st')"
        using step ok by simp
      from read_exact_unit_Inr [OF this] 1 show ?thesis by (subst hd4) auto
    next
      case 3
      then have "map_prod (map_sum id (\<lambda>_. ())) id (read_exact late ''failed to read SOCKS5 IPv6 bind address'' 18 st1) = (Inr u, st')"
        using step ok by simp
      from read_exact_unit_Inr [OF this] 3 show ?thesis by (subst hd4) auto
    next
      case 2
      obtain q st2 where q: "read_exact late ''failed to read SOCKS5 bind host length'' 1 st1 = (q, st2)" by (rule prod.exhaust)
      then obtain len where len: "q = Inr len" using step ok 2 by (cases q) auto
      have "map_prod (map_sum id (\<lambda>_. ())) id
          (read_exact late ''failed to read SOCKS5 bind host'' (unat (len ! 0) + 2) st2) = (Inr u, st')"
        using step ok 2 q len by simp
      from read_exact_unit_Inr [OF this] obtain bs where bs: "concat (ts_in st2) = bs @ concat (ts_in st')"
        "length bs = unat (len ! 0) + 2" "ts_out st' = ts_out st2" by blast
      have "len = [len ! 0]" using read_exact_Inr [OF q [unfolded len]] by (cases len) auto
      then have "socks5_success_reply (hd @ len @ bs)" using bs 2 by (subst hd4) (metis append_Cons append_Nil
          length_Cons list.sel(1) list.simps(3) socks5_success_reply.simps(1) add_Suc_right numeral_3_eq_3 numeral_2_eq_2)
      then show ?thesis using read_exact_Inr [OF q [unfolded len]] bs by (intro exI [of _ "len @ bs"]) simp
    qed
  qed
  then show ?thesis using x by (metis append.assoc)
qed

lemma socks5_authenticate_Inr:
  assumes "socks5_authenticate late credentials chosen st = (Inr u, st')"
  shows "\<exists>auth_in auth_out. concat (ts_in st) = auth_in @ concat (ts_in st') \<and> ts_out st' = ts_out st @ auth_out \<and>
    (chosen = NoAuth \<and> auth_in = [] \<and> auth_out = [] \<or>
     chosen = UsernamePassword \<and> auth_in = [1, 0] \<and> (\<exists>c. credentials = Some c \<and> auth_out = socks5_auth_message c))"
proof (cases chosen)
  case NoAuth
  then show ?thesis using assms by (simp add: socks5_authenticate_def)
next
  case UsernamePassword
  then obtain c where c: "credentials = Some c"
    using assms by (cases credentials) (auto simp: socks5_authenticate_def)
  obtain r st1 where w: "socks5_write_password_auth_request (late 2) c st = (r, st1)" by (rule prod.exhaust)
  then have r: "r = Inr ()" and rd: "socks5_read_password_auth_response (late 3) st1 = (Inr u, st')"
    using assms c UsernamePassword by (auto simp: socks5_authenticate_def split: sum.splits)
  have "ts_out st1 = ts_out st @ socks5_auth_message c \<and> ts_in st1 = ts_in st"
    using w [unfolded r] by (auto simp: socks5_write_password_auth_request_def Let_def socks5_auth_message_def
        split: if_splits dest!: write_and_flush_Inr)
  then show ?thesis using socks5_read_password_auth_response_Inr [OF rd] UsernamePassword c by auto
qed

text \<open>
  C25.  The SOCKS5 handshake.  When it succeeds, whatever pieces the proxy's bytes came in: the client has
  written the greeting that offers what it can do, the credentials if the proxy chose them, and one request
  that a SOCKS5 server reads as the URI's host and port; and it has read the proxy's choice, the answer to
  the credentials and one complete success reply, and not a byte more, so the tunnelled bytes start with
  the next one.
\<close>

theorem socks5_handshake_exact:
  assumes "establish_socks5_tunnel parse_ip dbg now target_uri budget credentials st = (Inr x, st')"
  shows "\<exists>host port chosen request reply auth_in auth_out.
    socks5_target target_uri = Inr (host, port) \<and>
    ts_out st' = ts_out st @ (if credentials = None then [5, 1, 0] else [5, 2, 0, 2]) @ auth_out @ request \<and>
    concat (ts_in st) = [5, if chosen = NoAuth then 0 else 2] @ auth_in @ reply @ concat (ts_in st') \<and>
    (chosen = NoAuth \<and> auth_in = [] \<and> auth_out = [] \<or>
     chosen = UsernamePassword \<and> auth_in = [1, 0] \<and>
       (\<exists>c. credentials = Some c \<and> auth_out = socks5_auth_message c)) \<and>
    socks5_decode_request request = Some (socks5_requested parse_ip host, unat port) \<and>
    socks5_success_reply reply"
proof -
  define late where "late i = socks5_late dbg (budget_remaining (now i) budget)" for i
  obtain host port where t: "socks5_target target_uri = Inr (host, port)"
    using assms by (cases "socks5_target target_uri") (auto simp: establish_socks5_tunnel_def Let_def)
  note e = assms [unfolded establish_socks5_tunnel_def Let_def late_def [symmetric] t sum.case prod.case]
  obtain r0 st1 where g: "socks5_write_client_greeting (late 0) (credentials \<noteq> None) st = (r0, st1)" by (rule prod.exhaust)
  then have r0: "r0 = Inr ()" using e by (cases r0) auto
  note e = e [unfolded g r0 prod.case sum.case]
  obtain r1 st2 where c: "socks5_read_server_choice (late 1) (credentials \<noteq> None) st1 = (r1, st2)" by (rule prod.exhaust)
  then obtain chosen where r1: "r1 = Inr chosen" using e by (cases r1) auto
  note e = e [unfolded c r1 prod.case sum.case]
  obtain r2 st3 where a: "socks5_authenticate late credentials chosen st2 = (r2, st3)" by (rule prod.exhaust)
  then have r2: "r2 = Inr ()" using e by (cases r2) auto
  note e = e [unfolded a r2 prod.case sum.case]
  obtain r3 st4 where w: "socks5_write_connect_request parse_ip (late 4) host port st3 = (r3, st4)" by (rule prod.exhaust)
  then have r3: "r3 = Inr ()" using e by (cases r3) auto
  note e = e [unfolded w r3 prod.case sum.case]
  have 0: "ts_out st1 = ts_out st @ (if credentials = None then [5, 1, 0] else [5, 2, 0, 2]) \<and> ts_in st1 = ts_in st"
    using write_and_flush_Inr [OF g [unfolded r0 socks5_write_client_greeting_def Let_def]] by auto
  note 1 = socks5_read_server_choice_Inr [OF c [unfolded r1]]
  obtain auth_in auth_out where 2: "concat (ts_in st2) = auth_in @ concat (ts_in st3)" "ts_out st3 = ts_out st2 @ auth_out"
    "chosen = NoAuth \<and> auth_in = [] \<and> auth_out = [] \<or> chosen = UsernamePassword \<and> auth_in = [1, 0] \<and>
       (\<exists>c. credentials = Some c \<and> auth_out = socks5_auth_message c)"
    using socks5_authenticate_Inr [OF a [unfolded r2]] by blast
  obtain request where 3: "ts_out st4 = ts_out st3 @ request" "ts_in st4 = ts_in st3"
    "socks5_decode_request request = Some (socks5_requested parse_ip host, unat port)"
    using socks5_write_connect_request_Inr [OF w [unfolded r3]] by blast
  obtain reply where 4: "socks5_success_reply reply" "concat (ts_in st4) = reply @ concat (ts_in st')" "ts_out st' = ts_out st4"
    using socks5_read_connect_response_Inr [OF e] by blast
  have "ts_out st' = ts_out st @ (if credentials = None then [5, 1, 0] else [5, 2, 0, 2]) @ auth_out @ request"
    using 0 1 2(2) 3(1) 4(3) by simp
  moreover have "concat (ts_in st) = [5, if chosen = NoAuth then 0 else 2] @ auth_in @ reply @ concat (ts_in st')"
    using 0 1 2(1) 3(2) 4(2) by simp
  ultimately show ?thesis using t 2(3) 3(3) 4(1) by blast
qed

definition sx_stream :: tunnel_stream where
  "sx_stream = \<lparr>ts_in = [[5], [2, 1, 0, 5], [0, 0, 1, 127, 0, 0, 1, 0, 80, 42]], ts_out = [], ts_faults = []\<rparr>"

theorem socks5_handshake_exact_witness:
  "\<exists>st'. establish_socks5_tunnel (\<lambda>h. None) (\<lambda>d. []) (\<lambda>i. 0) ex_uri
       \<lparr>cb_started_at = 0, cb_connect_timeout = None, cb_call_deadline = None\<rparr>
       (Some \<lparr>cred_username = ''u'', cred_password = ''p''\<rparr>) sx_stream = (Inr (), st') \<and>
     concat (ts_in st') = [42] \<and>
     (\<exists>host port chosen request reply auth_in auth_out.
        socks5_target ex_uri = Inr (host, port) \<and>
        socks5_decode_request request = Some (socks5_requested (\<lambda>h. None) host, unat port) \<and>
        concat (ts_in sx_stream) = [5, if chosen = NoAuth then 0 else 2] @ auth_in @ reply @ concat (ts_in st'))"
proof -
  let ?run = "establish_socks5_tunnel (\<lambda>h. None) (\<lambda>d. []) (\<lambda>i. 0) ex_uri
       \<lparr>cb_started_at = 0, cb_connect_timeout = None, cb_call_deadline = None\<rparr>
       (Some \<lparr>cred_username = ''u'', cred_password = ''p''\<rparr>) sx_stream"
  have "fst ?run = Inr () \<and> concat (ts_in (snd ?run)) = [42]" by code_simp
  then have r: "?run = (Inr (), snd ?run)" "concat (ts_in (snd ?run)) = [42]" by (simp_all add: prod_eq_iff)
  from socks5_handshake_exact [OF r(1)] r show ?thesis by blast
qed

section \<open>CONNECT\<close>

text \<open>The bytes a tunnel still has to deliver.\<close>

definition unread :: "PrefetchedTunnelBytes \<Rightarrow> bytes" where
  "unread p = (case ptb_prefetched p of Some b \<Rightarrow> b | None \<Rightarrow> []) @ concat (ts_in (ptb_inner p))"

lemma io_read_concat:
  assumes "io_read n st = (buf, st')"
  shows "concat (ts_in st) = buf @ concat (ts_in st') \<and> ts_out st' = ts_out st"
  using assms by (auto simp: io_read_def split: list.splits if_splits)

lemma prefetched_poll_read_unread:
  "unread p = fst (prefetched_poll_read n p) @ unread (snd (prefetched_poll_read n p))"
proof (cases "ptb_prefetched p")
  case None
  obtain buf st where r: "io_read n (ptb_inner p) = (buf, st)" by (rule prod.exhaust)
  then show ?thesis using None io_read_concat [OF r] by (simp add: unread_def prefetched_poll_read_def)
next
  case (Some b)
  have "take (min (length b) n) b @ drop (min (length b) n) b = b" by simp
  then show ?thesis using Some by (auto simp: unread_def prefetched_poll_read_def Let_def)
qed

lemma find_connect_response_end_Some:
  assumes "find_connect_response_end r = Some e"
  shows "\<exists>h. take e r = h @ CRLF @ CRLF \<and> e \<le> length r \<and>
    (\<forall>i < length h. take 4 (drop i r) \<noteq> CRLF @ CRLF)"
proof -
  obtain i where i: "position (\<lambda>i. take 4 (drop i r) = CRLF @ CRLF) [0..<length r - 3] = Some i" "e = i + 4"
    using assms by (auto simp: find_connect_response_end_def)
  then have "i < length r - 3" "take 4 (drop i r) = CRLF @ CRLF" "\<forall>j < i. take 4 (drop j r) \<noteq> CRLF @ CRLF"
    by (auto simp: position_Some_iff)
  moreover have "take (i + 4) r = take i r @ take 4 (drop i r)" by (simp add: take_add)
  ultimately show ?thesis using i(2) by (intro exI [of _ "take i r"]) auto
qed

lemma read_connect_head_Inr:
  assumes "read_connect_head late acc st = (Inr (response, e), st')"
  shows "acc @ concat (ts_in st) = response @ concat (ts_in st') \<and> find_connect_response_end response = Some e \<and>
    ts_out st' = ts_out st"
  using assms
proof (induction late acc st rule: read_connect_head.induct)
  case (1 late acc st)
  obtain r0 st0 where a: "io_step late (err_proxy_tunnel ''failed to read proxy CONNECT response'') (\<lambda>st. (Inr (), st)) st = (r0, st0)"
    by (rule prod.exhaust)
  have r0: "r0 = Inr ()" using "1.prems" a by (cases r0) (simp_all add: read_connect_head.simps [of late acc st])
  obtain buf st1 where b: "io_read 512 st0 = (buf, st1)" by (rule prod.exhaust)
  have st0: "ts_in st0 = ts_in st \<and> ts_out st0 = ts_out st" using io_step_Inr [OF a [unfolded r0]] by auto
  note unf = "1.prems" [unfolded read_connect_head.simps [of late acc st] a r0 b prod.case sum.case Let_def]
  have ne: "buf \<noteq> []" using unf by auto
  show ?case
  proof (cases "find_connect_response_end (acc @ buf)")
    case None
    then have "\<not> 8192 < length (acc @ buf)" "read_connect_head late (acc @ buf) st1 = (Inr (response, e), st')"
      using unf ne by (auto split: if_splits)
    from "1.IH" [OF a [symmetric] r0 b [symmetric] ne refl None this] show ?thesis
      using io_read_concat [OF b] st0 by simp
  next
    case (Some i)
    then show ?thesis using unf ne io_read_concat [OF b] st0 by auto
  qed
qed

text \<open>The lines of a CONNECT request.\<close>

definition connect_header_line :: "header_name \<times> header_value \<Rightarrow> bytes" where
  "connect_header_line h = str_bytes (fst h) @ str_bytes '': '' @ snd h"

definition connect_request_lines :: "string \<Rightarrow> (header_name \<times> header_value) list \<Rightarrow> bytes list" where
  "connect_request_lines authority hs =
     (str_bytes ''CONNECT '' @ str_bytes authority @ str_bytes '' HTTP/1.1'') #
     (str_bytes ''Host: '' @ str_bytes authority) #
     map connect_header_line (filter (\<lambda>h. fst h \<noteq> ''host'') hs)"

lemma split_crlf_line: "13 \<notin> set a \<Longrightarrow> split_crlf (a @ CRLF @ r) = a # split_crlf r"
proof (induction a)
  case (Cons x a)
  have "split_crlf (x # y # ys) = (case split_crlf (y # ys) of [] \<Rightarrow> [[x]] | p # ps \<Rightarrow> (x # p) # ps)" for y ys
    using Cons.prems by auto
  moreover obtain y ys where "a @ CRLF @ r = y # ys" by (cases "a @ CRLF @ r") (auto simp: CRLF_def)
  ultimately show ?case using Cons by simp
qed (simp add: CRLF_def)

lemma split_crlf_lines:
  assumes "\<forall>l \<in> set ls. 13 \<notin> set l"
  shows "split_crlf (concat (map (\<lambda>l. l @ CRLF) ls) @ r) = ls @ split_crlf r"
  using assms by (induction ls) (auto simp: split_crlf_line)

lemma connect_header_lines_Inr:
  assumes "connect_header_lines hs acc = Inr request"
  shows "request = acc @ concat (map (\<lambda>l. l @ CRLF) (map connect_header_line (filter (\<lambda>h. fst h \<noteq> ''host'') hs))) \<and>
    (\<forall>h \<in> set hs. fst h \<noteq> ''host'' \<longrightarrow> 13 \<notin> set (snd h) \<and> 10 \<notin> set (snd h))"
  using assms
  by (induction hs acc rule: connect_header_lines.induct)
     (auto simp: connect_header_line_def validate_connect_token_def list_ex_iff split: if_splits option.splits sum.splits)

lemma str_bytes_append [simp]: "str_bytes (a @ b) = str_bytes a @ str_bytes b"
  by (simp add: str_bytes_def)

lemma connect_request_lines_exact:
  assumes "build_connect_request authority hs = Inr request" and "\<forall>h \<in> set hs. 13 \<notin> set (str_bytes (fst h))"
  shows "split_crlf request = connect_request_lines authority hs @ [[], []]"
proof -
  let ?hs = "map connect_header_line (filter (\<lambda>h. fst h \<noteq> ''host'') hs)"
  let ?ls = "connect_request_lines authority hs"
  obtain lines where ok: "13 \<notin> set (str_bytes authority)" and request: "request = lines @ CRLF" and
    lines: "connect_header_lines hs (str_bytes ''CONNECT '' @ str_bytes authority @ str_bytes '' HTTP/1.1'' @ CRLF @
         str_bytes ''Host: '' @ str_bytes authority @ CRLF) = Inr lines"
    using assms(1) by (auto simp: build_connect_request_def validate_connect_token_def list_ex_iff
        split: sum.splits if_splits)
  note L = connect_header_lines_Inr [OF lines]
  have "request = concat (map (\<lambda>l. l @ CRLF) ?ls) @ CRLF"
    using L request by (simp add: connect_request_lines_def)
  moreover have "\<forall>l \<in> set ?ls. 13 \<notin> set l"
  proof -
    have "13 \<notin> set (str_bytes ''CONNECT '')" "13 \<notin> set (str_bytes '' HTTP/1.1'')" "13 \<notin> set (str_bytes ''Host: '')"
      "13 \<notin> set (str_bytes '': '')" by code_simp+
    then show ?thesis using L assms(2) ok by (auto simp: connect_request_lines_def connect_header_line_def)
  qed
  ultimately show ?thesis using split_crlf_lines [of ?ls CRLF] by (simp add: CRLF_def)
qed

lemma find_connect_response_end_take:
  assumes "find_connect_response_end r = Some e"
  shows "find_connect_response_end (take e r) = Some e"
proof -
  obtain i where i: "position (\<lambda>i. take 4 (drop i r) = CRLF @ CRLF) [0..<length r - 3] = Some i" "e = i + 4"
    using assms by (auto simp: find_connect_response_end_def)
  have "take 4 (drop j (take e r)) = take 4 (drop j r)" if "j \<le> i" for j
    using that i(2) by (simp add: drop_take)
  then have "position (\<lambda>i. take 4 (drop i (take e r)) = CRLF @ CRLF) [0..<length (take e r) - 3] = Some i"
    using i by (auto simp: position_Some_iff nth_append drop_take)
  then show ?thesis using i(2) by (simp add: find_connect_response_end_def)
qed

lemma parse_connect_response_head_Inr:
  assumes "parse_connect_response_head ops hname no_headers head0 prefetched = Inr crh"
    and "find_connect_response_end head0 = Some (length head0)"
  shows "crh_prefetched crh = prefetched \<and>
    (\<exists>status_line rest. split_crlf (take (length head0 - 4) head0) = status_line # rest \<and>
       parse_connect_status status_line = Inr (crh_status crh))"
  using assms by (auto simp: parse_connect_response_head_def Let_def split: if_splits list.splits sum.splits)

text \<open>
  C12.  A CONNECT tunnel.  When the proxy accepts, the client has written exactly one request, whose lines
  are the request line, the host and the given headers: no value can add a line.  What was read is one
  response head, up to its first blank line and with status 200, and the bytes that follow it are all
  delivered by the tunnel, in order, those read along with the head first.
\<close>

theorem connect_tunnel_exact:
  assumes "send_connect_request env authority headers timeout st = Inr (Established p)"
    and "\<forall>h \<in> set (te_iter env headers). 13 \<notin> set (str_bytes (fst h))"
  shows "\<exists>request head status_line rest.
    ts_out (ptb_inner p) = ts_out st @ request \<and>
    split_crlf request = connect_request_lines authority (te_iter env headers) @ [[], []] \<and>
    concat (ts_in st) = head @ CRLF @ CRLF @ unread p \<and>
    (\<forall>i < length head. take 4 (drop i (concat (ts_in st))) \<noteq> CRLF @ CRLF) \<and>
    split_crlf head = status_line # rest \<and> parse_connect_status status_line = Inr 200 \<and>
    (\<forall>n. unread p = fst (prefetched_poll_read n p) @ unread (snd (prefetched_poll_read n p)))"
proof -
  obtain request where rq: "build_connect_request authority (te_iter env headers) = Inr request"
    using assms(1) by (cases "build_connect_request authority (te_iter env headers)") (auto simp: send_connect_request_def)
  obtain r1 st1 where w: "write_and_flush None ''failed to write proxy CONNECT request''
      ''failed to flush proxy CONNECT request'' request st = (r1, st1)" by (rule prod.exhaust)
  note e = assms(1) [unfolded send_connect_request_def rq sum.case w prod.case read_connect_response_def
      read_connect_response_inner_def]
  have r1: "r1 = Inr ()" using e by (cases r1) auto
  note W = write_and_flush_Inr [OF w [unfolded r1]] and e = e [unfolded r1 sum.case]
  let ?late = "map_option (tunnel_timeout_error (te_debug_duration env) ''proxy CONNECT'') timeout"
  obtain r2 st2 where h: "read_connect_head ?late [] st1 = (r2, st2)" by (rule prod.exhaust)
  obtain response n where r2: "r2 = Inr (response, n)" using e h by (cases r2) auto
  note H = read_connect_head_Inr [OF h [unfolded r2]]
  obtain crh where parse: "parse_connect_response_head (te_headers env) (te_header_name env) (te_new_headers env)
        (take n response) (drop n response) = Inr crh" and status: "crh_status crh = 200" and
      p: "p = prefetched_new st2 (crh_prefetched crh)"
    using e [unfolded h r2] by (auto simp: split_connect_response_head_def split: sum.splits if_splits)
  obtain hd where hd: "take n response = hd @ CRLF @ CRLF" "n \<le> length response"
      "\<forall>i < length hd. take 4 (drop i response) \<noteq> CRLF @ CRLF"
    using find_connect_response_end_Some H by blast
  have input: "concat (ts_in st) = response @ concat (ts_in st2)" using H W by simp
  have resp: "response = hd @ CRLF @ CRLF @ drop n response" by (metis append.assoc append_take_drop_id hd(1))
  have n: "n = length hd + 4" using hd(1,2) by (metis CRLF_def append_Cons append_Nil length_append length_take min.absorb2
        list.size(3,4) One_nat_def Suc_eq_plus1 numeral_Bit0 one_plus_numeral numeral_One add.commute)
  have first: "take 4 (drop i (concat (ts_in st))) \<noteq> CRLF @ CRLF" if "i < length hd" for i
    using hd(2,3) n that by (simp add: input)
  have "find_connect_response_end (take n response) = Some (length (take n response))"
    using find_connect_response_end_take H hd(2) by simp
  note P = parse_connect_response_head_Inr [OF parse this]
  have "take (length (take n response) - 4) (take n response) = hd" using hd(1) n by (simp add: CRLF_def)
  then obtain status_line rest where "split_crlf hd = status_line # rest" "parse_connect_status status_line = Inr 200"
    using P status by auto
  moreover have "concat (ts_in st) = hd @ CRLF @ CRLF @ unread p"
  proof -
    have "unread p = drop n response @ concat (ts_in st2)"
      using P p by (simp add: unread_def prefetched_new_def)
    then have "hd @ CRLF @ CRLF @ unread p = (hd @ CRLF @ CRLF @ drop n response) @ concat (ts_in st2)" by simp
    then have "hd @ CRLF @ CRLF @ unread p = response @ concat (ts_in st2)" by (simp only: resp [symmetric])
    then show ?thesis by (simp only: input)
  qed
  moreover have "ts_out (ptb_inner p) = ts_out st @ request" using H W p by (simp add: prefetched_new_def)
  ultimately show ?thesis
    using connect_request_lines_exact [OF rq assms(2)] first prefetched_poll_read_unread [of p] by blast
qed

definition ct_env :: "(nat, (header_name \<times> header_value) list, unit) tunnel_env" where
  "ct_env =
     \<lparr>te_headers = assoc_headers, te_new_headers = [], te_iter = (\<lambda>h. h), te_header_name = Some,
      te_basic_auth_header_value = (\<lambda>c. str_bytes ''Basic x''),
      te_connect = (\<lambda>a t s. (Inr \<lparr>ts_in = [str_bytes ''HTTP/1.1 200 '' @ CRLF @ CRLF], ts_out = [], ts_faults = []\<rparr>, Suc s)),
      te_now = (\<lambda>s. s), te_debug_duration = (\<lambda>d. []), 
      te_new_extensions = \<lparr>ext_policy_trace = None, ext_request_config = None, ext_call_options = None,
        ext_cached_addresses = None, ext_selected_proxy = None, ext_dispatcher_queued = False,
        ext_no_coalesced_connections = False, ext_websocket_marker = None,
        ext_tls_alpn_preference = None, ext_route_preference = None, ext_other = ()\<rparr>\<rparr>"

definition ct_stream :: tunnel_stream where
  "ct_stream = \<lparr>ts_in = [str_bytes ''HTTP/1.1 20'', str_bytes ''0 OK'' @ CRLF @ CRLF @ [22, 3]], ts_out = [], ts_faults = []\<rparr>"

theorem connect_tunnel_exact_witness:
  "\<exists>p. send_connect_request ct_env ''a.t:443'' [(''proxy-authorization'', str_bytes ''x'')] None ct_stream =
       Inr (Established p) \<and> unread p = [22, 3] \<and>
     (\<exists>request. ts_out (ptb_inner p) = ts_out ct_stream @ request \<and>
        split_crlf request =
          connect_request_lines ''a.t:443'' [(''proxy-authorization'', str_bytes ''x'')] @ [[], []])"
proof -
  let ?hs = "[(''proxy-authorization'', str_bytes ''x'')]"
  let ?run = "send_connect_request ct_env ''a.t:443'' ?hs None ct_stream"
  have "case ?run of Inr (Established p) \<Rightarrow> unread p = [22, 3] | _ \<Rightarrow> False" by code_simp
  then obtain p where p: "?run = Inr (Established p)" "unread p = [22, 3]"
    by (auto split: sum.splits ConnectTunnelOutcome.splits)
  have iter: "te_iter ct_env ?hs = ?hs" by (simp add: ct_env_def)
  have "\<forall>h \<in> set (te_iter ct_env ?hs). 13 \<notin> set (str_bytes (fst h))" unfolding iter by code_simp
  from connect_tunnel_exact [OF p(1) this] p show ?thesis unfolding iter by blast
qed

section \<open>Proxy authentication\<close>











end
