(* ===== verification/Fast_Fallback.thy ===== *)
theory Fast_Fallback
  imports Planning
begin

text \<open>
  Connecting along a route plan: a model of \<^verbatim>\<open>openwire/src/connection/fast_fallback.rs\<close>.  One task per route
  waits for its turn, connects and reports over a channel; the dialer takes the first success and aborts the
  other tasks.  The dialer's state is a record and each of its reactions a function; the tasks, the channel
  and the executor form a step relation, so that every interleaving is covered.  Connecting and finishing
  a connection are other components: their results are arguments of the steps.
\<close>

section \<open>Data\<close>

record FastFallbackOutcome =
  ffo_race_id :: u64
  ffo_route_count :: usize
  ffo_winner_index :: usize
  ffo_fast_fallback_enabled :: bool

datatype 'c FastFallbackMessage =
    Started u64 usize usize string
  | Finished usize "(WireError, 'c) result"

text \<open>The calls to the event listener.\<close>

datatype race_event =
    RoutePlanned usize bool
  | RaceStart u64 usize usize string
  | RaceWon u64 usize usize
  | RaceLost u64 usize usize string

fun route_family_label :: "RouteFamily \<Rightarrow> string" where
  "route_family_label Ipv4 = ''ipv4''"
| "route_family_label Ipv6 = ''ipv6''"

definition failure_stage :: "WireError \<Rightarrow> ConnectFailureStage" where
  "failure_stage e =
     (case establishment_stage e of
        Some ETls \<Rightarrow> FailTls
      | Some EProtocolBinding \<Rightarrow> FailProtocolBinding
      | Some EProxyTunnel \<Rightarrow> FailProxyTunnel
      | _ \<Rightarrow> FailTcp)"

fun loss_reason :: "ConnectFailureStage \<Rightarrow> string" where
  "loss_reason FailTcp = ''connect_failed''"
| "loss_reason FailTls = ''tls_failed''"
| "loss_reason FailProtocolBinding = ''protocol_failed''"
| "loss_reason FailProxyTunnel = ''proxy_failed''"

section \<open>The dialer\<close>

text \<open>
  The local variables of \<^verbatim>\<open>dial_route_plan\<close>.  A task is known to the dialer by its abort handle, of which the
  model keeps whether it has been used.
\<close>

record 'c dialer =
  fd_race_id :: u64
  fd_route_count :: usize
  fd_plan :: ConnectPlan
  fd_aborted :: "bool list"
  fd_events :: "race_event list"
  fd_last_error :: "WireError option"
  fd_result :: "(WireError, 'c \<times> FastFallbackOutcome) result option"

definition emit :: "race_event \<Rightarrow> 'c dialer \<Rightarrow> 'c dialer" where
  "emit e d = d\<lparr>fd_events := fd_events d @ [e]\<rparr>"

definition abort_all :: "'c dialer \<Rightarrow> 'c dialer" where
  "abort_all d = d\<lparr>fd_aborted := map (\<lambda>_. True) (fd_aborted d)\<rparr>"

definition cp_attempt :: "usize \<Rightarrow> ConnectPlan \<Rightarrow> ConnectAttempt option" where
  "cp_attempt index cp = (if index < length (cp_attempts cp) then Some (cp_attempts cp ! index) else None)"

definition dial_start :: "u64 \<Rightarrow> RoutePlan \<Rightarrow> 'c dialer" where
  "dial_start race_id rp =
     (let route_count = length (rp_routes rp) in
      \<lparr>fd_race_id = race_id, fd_route_count = route_count, fd_plan = connect_plan_from_route_plan rp,
       fd_aborted = [], fd_events = [RoutePlanned route_count (route_count > 1)], fd_last_error = None,
       fd_result = (if rp_routes rp = [] then Some (Inl (err_route_exhausted ''route plan produced no routes''))
                    else None)\<rparr>)"

text \<open>One turn of the loop that spawns the tasks, with the executor's answer.\<close>

definition spawn_route :: "(WireError, unit) result \<Rightarrow> 'c dialer \<Rightarrow> 'c dialer" where
  "spawn_route answer d =
     (case cp_attempt (length (fd_aborted d)) (fd_plan d) of
        None \<Rightarrow> d\<lparr>fd_result := Some (Inl (err_internal ''connect plan missing route attempt''
                                             ''connect plan missing attempt''))\<rparr>
      | Some attempt \<Rightarrow>
          (case answer of
             Inl e \<Rightarrow> (abort_all d)\<lparr>fd_result := Some (Inl e)\<rparr>
           | Inr _ \<Rightarrow> d\<lparr>fd_aborted := fd_aborted d @ [False]\<rparr>))"

definition emit_canceled_loss_if_needed ::
  "usize \<Rightarrow> usize \<Rightarrow> 'c dialer \<times> bool list \<Rightarrow> 'c dialer \<times> bool list" where
  "emit_canceled_loss_if_needed winner_index route_index dc =
     (case dc of (d, canceled_routes) \<Rightarrow>
        if route_index = winner_index \<or> route_index < length canceled_routes \<and> canceled_routes ! route_index then (d, canceled_routes)
        else
          (case (case map_option ca_state (cp_attempt route_index (fd_plan d)) of
                   Some Pending \<Rightarrow> (True, d\<lparr>fd_plan := snd (mark_lost route_index winner_index (fd_plan d))\<rparr>)
                 | Some Running \<Rightarrow> (True, d\<lparr>fd_plan := snd (mark_lost route_index winner_index (fd_plan d))\<rparr>)
                 | Some (Lost current_winner) \<Rightarrow> (current_winner = winner_index, d)
                 | _ \<Rightarrow> (False, d)) of
             (should_emit, d') \<Rightarrow>
               if should_emit
               then (emit (RaceLost (fd_race_id d) route_index (fd_route_count d) ''canceled'') d',
                     canceled_routes[route_index := True])
               else (d', canceled_routes)))"

definition cleanup_losers :: "usize \<Rightarrow> 'c dialer \<Rightarrow> 'c dialer" where
  "cleanup_losers winner_index d =
     fst (fold (emit_canceled_loss_if_needed winner_index) [0..<fd_route_count d]
            (d\<lparr>fd_aborted := map (\<lambda>(index, a). a \<or> index \<noteq> winner_index) (List.enumerate 0 (fd_aborted d))\<rparr>,
             replicate (fd_route_count d) False))"

definition dial_won :: "usize \<Rightarrow> 'c \<Rightarrow> 'c dialer \<Rightarrow> 'c dialer" where
  "dial_won route_index stream d =
     (let d1 = d\<lparr>fd_plan := snd (promote_winner route_index (fd_plan d))\<rparr>;
          d2 = emit (RaceWon (fd_race_id d) route_index (fd_route_count d)) d1
      in (cleanup_losers route_index d2)\<lparr>fd_result := Some (Inr (stream,
           \<lparr>ffo_race_id = fd_race_id d, ffo_route_count = fd_route_count d, ffo_winner_index = route_index,
            ffo_fast_fallback_enabled = (fd_route_count d > 1)\<rparr>))\<rparr>)"

definition dial_lost :: "usize \<Rightarrow> WireError \<Rightarrow> 'c dialer \<Rightarrow> 'c dialer" where
  "dial_lost route_index error d =
     (let stage = failure_stage error;
          d1 = d\<lparr>fd_plan := snd (mark_failed route_index \<lparr>cf_stage = stage, cf_message = we_message error\<rparr> (fd_plan d))\<rparr>;
          d2 = emit (RaceLost (fd_race_id d) route_index (fd_route_count d) (loss_reason stage)) d1
      in if \<not> is_retryable_establishment error then (abort_all d2)\<lparr>fd_result := Some (Inl error)\<rparr>
         else d2\<lparr>fd_last_error := Some error\<rparr>)"

text \<open>One turn of the loop over the messages.\<close>

fun handle_message :: "'c FastFallbackMessage \<Rightarrow> 'c dialer \<Rightarrow> 'c dialer" where
  "handle_message (Started race_id route_index route_count route_family) d =
     emit (RaceStart race_id route_index route_count route_family)
       (d\<lparr>fd_plan := snd (mark_running route_index (fd_plan d))\<rparr>)"
| "handle_message (Finished route_index (Inr stream)) d = dial_won route_index stream d"
| "handle_message (Finished route_index (Inl error)) d = dial_lost route_index error d"

text \<open>All senders are gone.\<close>

definition dial_exhausted :: "'c dialer \<Rightarrow> 'c dialer" where
  "dial_exhausted d =
     (abort_all d)\<lparr>fd_result := Some (Inl
        (case fd_last_error d of Some e \<Rightarrow> e
         | None \<Rightarrow> err_route_exhausted ''no fast-fallback route could be connected''))\<rparr>"

section \<open>Tasks\<close>

datatype route_stage = Scheduled | Delay | Connecting | Finalizing

datatype task_end = Reported | ReceiverClosed | TaskAborted | TaskDropped

text \<open>\<^verbatim>\<open>RouteTaskLifecycle\<close>: the stage of a task, and how it ended.\<close>

record route_task =
  rt_stage :: route_stage
  rt_outcome :: "task_end option"

text \<open>
  The whole race: the dialer, the channel and the tasks spawned so far; \<open>ra_handled\<close> is the history of the
  messages the dialer has taken from the channel.
\<close>

record 'c race =
  ra_dialer :: "'c dialer"
  ra_channel :: "'c FastFallbackMessage list"
  ra_tasks :: "route_task list"
  ra_handled :: "'c FastFallbackMessage list"

definition race_start :: "u64 \<Rightarrow> RoutePlan \<Rightarrow> 'c race" where
  "race_start race_id rp = \<lparr>ra_dialer = dial_start race_id rp, ra_channel = [], ra_tasks = [], ra_handled = []\<rparr>"

text \<open>Sending succeeds while the dialer, and with it the receiver, is there.\<close>

definition receiver_open :: "'c race \<Rightarrow> bool" where
  "receiver_open r \<longleftrightarrow> fd_result (ra_dialer r) = None"

definition send_message :: "'c FastFallbackMessage \<Rightarrow> 'c race \<Rightarrow> 'c race" where
  "send_message m r = (if receiver_open r then r\<lparr>ra_channel := ra_channel r @ [m]\<rparr> else r)"

definition set_task :: "usize \<Rightarrow> route_task \<Rightarrow> 'c race \<Rightarrow> 'c race" where
  "set_task i t r = r\<lparr>ra_tasks := (ra_tasks r)[i := t]\<rparr>"

definition task_live :: "'c race \<Rightarrow> usize \<Rightarrow> bool" where
  "task_live r i \<longleftrightarrow> i < length (ra_tasks r) \<and> rt_outcome (ra_tasks r ! i) = None"

definition task_attempt :: "'c race \<Rightarrow> usize \<Rightarrow> ConnectAttempt" where
  "task_attempt r i = cp_attempts (fd_plan (ra_dialer r)) ! i"

definition task_begin :: "usize \<Rightarrow> 'c race \<Rightarrow> 'c race" where
  "task_begin i r =
     set_task i \<lparr>rt_stage = Connecting, rt_outcome = None\<rparr>
       (send_message (Started (fd_race_id (ra_dialer r)) i (fd_route_count (ra_dialer r))
          (route_family_label (rt_family (ca_route (task_attempt r i))))) r)"

definition task_report :: "usize \<Rightarrow> (WireError, 'c) result \<Rightarrow> 'c race \<Rightarrow> 'c race" where
  "task_report i result r =
     set_task i \<lparr>rt_stage = rt_stage (ra_tasks r ! i),
                 rt_outcome = Some (if receiver_open r then Reported else ReceiverClosed)\<rparr>
       (send_message (Finished i result) r)"

definition end_task :: "usize \<Rightarrow> task_end \<Rightarrow> 'c race \<Rightarrow> 'c race" where
  "end_task i outcome r = set_task i ((ra_tasks r ! i)\<lparr>rt_outcome := Some outcome\<rparr>) r"

text \<open>
  The steps of a race.  A task may be ended by its abort handle or dropped by the executor at any
  time, and an aborted task that is already being polled may still finish that poll.
\<close>

inductive race_step :: "'c race \<Rightarrow> 'c race \<Rightarrow> bool" where
  step_spawn: "receiver_open r \<Longrightarrow> length (ra_tasks r) < fd_route_count (ra_dialer r) \<Longrightarrow>
     d = spawn_route answer (ra_dialer r) \<Longrightarrow>
     race_step r (r\<lparr>ra_dialer := d,
       ra_tasks := (if fd_result d = None then ra_tasks r @ [\<lparr>rt_stage = Scheduled, rt_outcome = None\<rparr>] else ra_tasks r)\<rparr>)"
| step_delay: "task_live r i \<Longrightarrow> rt_stage (ra_tasks r ! i) = Scheduled \<Longrightarrow> ca_scheduled_after (task_attempt r i) > 0 \<Longrightarrow>
     race_step r (set_task i \<lparr>rt_stage = Delay, rt_outcome = None\<rparr> r)"
| step_begin: "task_live r i \<Longrightarrow>
     rt_stage (ra_tasks r ! i) = Delay \<or>
       rt_stage (ra_tasks r ! i) = Scheduled \<and> ca_scheduled_after (task_attempt r i) = 0 \<Longrightarrow>
     race_step r (task_begin i r)"
| step_connected: "task_live r i \<Longrightarrow> rt_stage (ra_tasks r ! i) = Connecting \<Longrightarrow>
     race_step r (set_task i \<lparr>rt_stage = Finalizing, rt_outcome = None\<rparr> r)"
| step_connect_failed: "task_live r i \<Longrightarrow> rt_stage (ra_tasks r ! i) = Connecting \<Longrightarrow>
     race_step r (task_report i (Inl error) r)"
| step_finalized: "task_live r i \<Longrightarrow> rt_stage (ra_tasks r ! i) = Finalizing \<Longrightarrow>
     race_step r (task_report i result r)"
| step_aborted: "task_live r i \<Longrightarrow> fd_aborted (ra_dialer r) ! i \<Longrightarrow> race_step r (end_task i TaskAborted r)"
| step_dropped: "task_live r i \<Longrightarrow> race_step r (end_task i TaskDropped r)"
| step_receive: "receiver_open r \<Longrightarrow> length (ra_tasks r) = fd_route_count (ra_dialer r) \<Longrightarrow> ra_channel r = m # ms \<Longrightarrow>
     race_step r (r\<lparr>ra_dialer := handle_message m (ra_dialer r), ra_channel := ms, ra_handled := ra_handled r @ [m]\<rparr>)"
| step_exhausted: "receiver_open r \<Longrightarrow> length (ra_tasks r) = fd_route_count (ra_dialer r) \<Longrightarrow> ra_channel r = [] \<Longrightarrow>
     (\<forall>i. \<not> task_live r i) \<Longrightarrow> race_step r (r\<lparr>ra_dialer := dial_exhausted (ra_dialer r)\<rparr>)"

inductive_cases race_stepE: "race_step r r'"

inductive race_reachable :: "u64 \<Rightarrow> RoutePlan \<Rightarrow> 'c race \<Rightarrow> bool" for race_id rp where
  race_init: "race_reachable race_id rp (race_start race_id rp)"
| race_next: "race_reachable race_id rp r \<Longrightarrow> race_step r r' \<Longrightarrow> race_reachable race_id rp r'"

section \<open>Direct connections\<close>

text \<open>
  The closures of \<^verbatim>\<open>dial_direct\<close>.  \<open>tcp\<close> and \<open>tls\<close> are the answers of the connectors, \<open>late\<close> says that the
  timer fires before the answer.
\<close>

definition with_connect_timeout_future ::
  "(duration \<Rightarrow> string) \<Rightarrow> duration option \<Rightarrow> (WireError, 'a) result \<Rightarrow> bool \<Rightarrow> string \<Rightarrow> (WireError, 'a) result" where
  "with_connect_timeout_future dbg connect_timeout future late stage =
     (case connect_timeout of
        None \<Rightarrow> future
      | Some timeout \<Rightarrow>
          if timeout = 0 then Inl (err_connect_timeout (''connect timed out before '' @ stage))
          else if \<not> late then future
          else Inl (err_connect_timeout (''connect timed out after '' @ dbg timeout @ '' during '' @ stage)))"

definition direct_connect ::
  "(RouteKind \<Rightarrow> string) \<Rightarrow> (socket_addr \<Rightarrow> (WireError, 'i) result) \<Rightarrow> Route \<Rightarrow> (WireError, 'i) result" where
  "direct_connect dbg tcp route =
     (case rt_kind route of
        DirectRoute target \<Rightarrow> tcp target
      | other \<Rightarrow> Inl (err_internal (''unexpected non-direct route in direct dialer: '' @ dbg other)
                        ''unexpected non-direct route''))"

definition finalize_direct_connection ::
  "(duration \<Rightarrow> string) \<Rightarrow> uri \<Rightarrow> 'c \<Rightarrow> ('c \<Rightarrow> (WireError, 'c) result) option \<Rightarrow> bool \<Rightarrow> duration option \<Rightarrow>
     (WireError, 'c) result" where
  "finalize_direct_connection dbg uri stream tls_connector late connect_timeout =
     (if \<not> (case uri_scheme_str uri of None \<Rightarrow> False | Some scheme \<Rightarrow> eq_ignore_ascii_case scheme ''https'')
      then Inr stream
      else case tls_connector of
        None \<Rightarrow> Inl (err_tls ''HTTPS requested but no TLS connector is configured'' ''missing TLS connector'')
      | Some tls \<Rightarrow> with_connect_timeout_future dbg connect_timeout (tls stream) late ''TLS handshake'')"

end
