(* ===== verification/Fast_Fallback_Props.thy ===== *)
theory Fast_Fallback_Props
  imports Fast_Fallback "HOL-Library.Code_Target_Nat"
begin

text \<open>
  What a race guarantees, for every interleaving of its tasks: a connection that is returned is the one its
  route reported, the other tasks are told to stop and each lost route is announced once; an error is returned at
  once when it is permanent and otherwise only when no route is left; and every race ends.
\<close>

section \<open>Histories\<close>

fun msg_index :: "'c FastFallbackMessage \<Rightarrow> usize" where
  "msg_index (Started race_id i n f) = i"
| "msg_index (Finished i res) = i"

fun is_finished :: "'c FastFallbackMessage \<Rightarrow> bool" where
  "is_finished (Finished i res) = True"
| "is_finished m = False"

definition msgs_of :: "usize \<Rightarrow> 'c FastFallbackMessage list \<Rightarrow> 'c FastFallbackMessage list" where
  "msgs_of i ms = filter (\<lambda>m. msg_index m = i) ms"

lemma msgs_of_append [simp]: "msgs_of i (a @ b) = msgs_of i a @ msgs_of i b"
  by (simp add: msgs_of_def)

lemma msgs_of_Nil [simp]: "msgs_of i [] = []"
  by (simp add: msgs_of_def)

lemma msgs_of_Cons: "msgs_of i (m # ms) = (if msg_index m = i then m # msgs_of i ms else msgs_of i ms)"
  by (simp add: msgs_of_def)

lemma msgs_of_index: "m \<in> set (msgs_of i ms) \<longleftrightarrow> m \<in> set ms \<and> msg_index m = i"
  by (auto simp: msgs_of_def)

lemma msgs_of_empty: "\<forall>m \<in> set ms. msg_index m < n \<Longrightarrow> msgs_of n ms = []"
  by (auto simp: msgs_of_def filter_empty_conv)

fun reported_error :: "'c FastFallbackMessage \<Rightarrow> WireError option" where
  "reported_error (Finished i (Inl e)) = Some e"
| "reported_error m = None"

definition reported_errors :: "'c FastFallbackMessage list \<Rightarrow> WireError list" where
  "reported_errors ms = List.map_filter reported_error ms"

lemma reported_errors_append [simp]: "reported_errors (a @ b) = reported_errors a @ reported_errors b"
  by (induction a) (auto simp: reported_errors_def List.map_filter_def)

lemma reported_errors_Cons [simp]:
  "reported_errors [] = []"
  "reported_errors [m] = (case reported_error m of None \<Rightarrow> [] | Some e \<Rightarrow> [e])"
  by (simp_all add: reported_errors_def List.map_filter_def split: option.split)

lemma set_reported_errors: "e \<in> set (reported_errors ms) \<longleftrightarrow> (\<exists>i. Finished i (Inl e) \<in> set ms)"
proof -
  have "reported_error m = Some e \<longleftrightarrow> (\<exists>i. m = Finished i (Inl e))" for m :: "'a FastFallbackMessage"
    by (cases m rule: reported_error.cases) auto
  then show ?thesis by (auto simp: reported_errors_def List.map_filter_def image_iff)
       (metis option.sel)
qed

text \<open>The messages a task has sent, by its stage and outcome.\<close>

definition trace_ok :: "usize \<Rightarrow> route_task \<Rightarrow> 'c FastFallbackMessage list \<Rightarrow> bool" where
  "trace_ok i t ms \<longleftrightarrow>
     (rt_outcome t = None \<or> rt_outcome t = Some Reported \<or> rt_outcome t = Some TaskDropped) \<and>
     (if rt_stage t = Scheduled \<or> rt_stage t = Delay then ms = [] \<and> rt_outcome t \<noteq> Some Reported
      else if rt_outcome t = Some Reported then \<exists>s res. ms = [s, Finished i res] \<and> \<not> is_finished s
      else \<exists>s. ms = [s] \<and> \<not> is_finished s)"

text \<open>The state of an attempt, by the messages about it.\<close>

definition state_of :: "'c FastFallbackMessage list \<Rightarrow> ConnectAttemptState" where
  "state_of ms =
     (if ms = [] then Pending
      else case last ms of
        Finished i (Inl e) \<Rightarrow> Failed \<lparr>cf_stage = failure_stage e, cf_message = we_message e\<rparr>
      | Finished i (Inr c) \<Rightarrow> Won
      | _ \<Rightarrow> Running)"

fun is_lost :: "usize \<Rightarrow> race_event \<Rightarrow> bool" where
  "is_lost i (RaceLost race_id j n reason) = (i = j)"
| "is_lost i e = False"

fun is_won :: "race_event \<Rightarrow> bool" where
  "is_won (RaceWon race_id j n) = True"
| "is_won e = False"

definition plan_state :: "'c dialer \<Rightarrow> usize \<Rightarrow> ConnectAttemptState" where
  "plan_state d i = ca_state (cp_attempts (fd_plan d) ! i)"

section \<open>The dialer's reactions\<close>

lemma length_cp_transition [simp]: "length (cp_attempts (snd (cp_transition i st cp))) = length (cp_attempts cp)"
  by (simp add: cp_transition_def)

lemma state_cp_transition:
  "j < length (cp_attempts cp) \<Longrightarrow>
   ca_state (cp_attempts (snd (cp_transition i st cp)) ! j) = (if i = j then st else ca_state (cp_attempts cp ! j))"
  by (simp add: cp_transition_def nth_list_update)

lemma emit_simps [simp]:
  "fd_plan (emit e d) = fd_plan d" "fd_aborted (emit e d) = fd_aborted d" "fd_result (emit e d) = fd_result d"
  "fd_events (emit e d) = fd_events d @ [e]" "fd_route_count (emit e d) = fd_route_count d"
  "fd_race_id (emit e d) = fd_race_id d" "fd_last_error (emit e d) = fd_last_error d"
  by (simp_all add: emit_def)

lemma abort_all_simps [simp]:
  "fd_plan (abort_all d) = fd_plan d" "fd_aborted (abort_all d) = map (\<lambda>_. True) (fd_aborted d)"
  "fd_result (abort_all d) = fd_result d" "fd_events (abort_all d) = fd_events d"
  "fd_route_count (abort_all d) = fd_route_count d" "fd_race_id (abort_all d) = fd_race_id d"
  "fd_last_error (abort_all d) = fd_last_error d"
  by (simp_all add: abort_all_def)

text \<open>The losses announced after a win.\<close>

definition canceled_losses :: "usize \<Rightarrow> 'c dialer \<Rightarrow> usize \<Rightarrow> race_event list" where
  "canceled_losses w d k =
     map (\<lambda>j. RaceLost (fd_race_id d) j (fd_route_count d) ''canceled'')
       (filter (\<lambda>j. j \<noteq> w \<and> plan_state d j = Lost w) [0..<k])"

lemma fold_canceled:
  assumes "k \<le> length (cp_attempts (fd_plan d))"
    and "\<forall>j < k. j \<noteq> w \<longrightarrow> plan_state d j \<noteq> Pending \<and> plan_state d j \<noteq> Running"
  shows "\<exists>cs. fold (emit_canceled_loss_if_needed w) [0..<k] (d, replicate n False) =
    (d\<lparr>fd_events := fd_events d @ canceled_losses w d k\<rparr>, cs) \<and> length cs = n \<and> (\<forall>j < n. k \<le> j \<longrightarrow> \<not> cs ! j)"
  using assms
proof (induction k)
  case 0
  then show ?case by (simp add: canceled_losses_def)
next
  case (Suc k)
  then obtain cs where cs: "fold (emit_canceled_loss_if_needed w) [0..<k] (d, replicate n False) =
    (d\<lparr>fd_events := fd_events d @ canceled_losses w d k\<rparr>, cs)" "length cs = n" "\<forall>j < n. k \<le> j \<longrightarrow> \<not> cs ! j" by auto
  have "k < length (cp_attempts (fd_plan d))" using Suc.prems by simp
  moreover have "k \<noteq> w \<Longrightarrow> plan_state d k \<noteq> Pending \<and> plan_state d k \<noteq> Running" using Suc.prems by simp
  ultimately have "\<exists>cs'. emit_canceled_loss_if_needed w k (d\<lparr>fd_events := fd_events d @ canceled_losses w d k\<rparr>, cs) =
      (d\<lparr>fd_events := fd_events d @ canceled_losses w d (Suc k)\<rparr>, cs') \<and> length cs' = n \<and>
      (\<forall>j < n. Suc k \<le> j \<longrightarrow> \<not> cs' ! j)"
    using cs(2,3) by (cases "k = w"; cases "plan_state d k")
      (auto simp: emit_canceled_loss_if_needed_def cp_attempt_def canceled_losses_def plan_state_def emit_def)
  then show ?case by (simp add: cs(1))
qed

lemma cleanup_losers_eq:
  assumes "fd_route_count d = length (cp_attempts (fd_plan d))"
    and "\<forall>j < fd_route_count d. j \<noteq> w \<longrightarrow> plan_state d j \<noteq> Pending \<and> plan_state d j \<noteq> Running"
  shows "cleanup_losers w d =
    d\<lparr>fd_aborted := map (\<lambda>(j, a). a \<or> j \<noteq> w) (List.enumerate 0 (fd_aborted d)),
      fd_events := fd_events d @ canceled_losses w d (fd_route_count d)\<rparr>"
proof -
  let ?d = "d\<lparr>fd_aborted := map (\<lambda>(j, a). a \<or> j \<noteq> w) (List.enumerate 0 (fd_aborted d))\<rparr>"
  have same: "plan_state ?d = plan_state d" "canceled_losses w ?d k = canceled_losses w d k" for k
    by (auto simp: plan_state_def canceled_losses_def)
  from fold_canceled [of "fd_route_count d" ?d w "fd_route_count d"] assms
  show ?thesis by (auto simp: cleanup_losers_def same)
qed

lemma lost_canceled_losses:
  "length (filter (is_lost i) (canceled_losses w d k)) = (if i < k \<and> i \<noteq> w \<and> plan_state d i = Lost w then 1 else 0)"
  by (induction k) (auto simp: canceled_losses_def)

lemma won_canceled_losses [simp]: "filter is_won (canceled_losses w d k) = []"
  by (auto simp: canceled_losses_def filter_empty_conv)

section \<open>The invariant of a running race\<close>

definition dialer_inv :: "RoutePlan \<Rightarrow> 'c FastFallbackMessage list \<Rightarrow> 'c dialer \<Rightarrow> bool" where
  "dialer_inv rp handled d \<longleftrightarrow>
     fd_route_count d = length (rp_routes rp) \<and> length (cp_attempts (fd_plan d)) = fd_route_count d \<and>
     True \<notin> set (fd_aborted d) \<and>
     (\<forall>i < fd_route_count d. plan_state d i = state_of (msgs_of i handled)) \<and>
     (\<forall>i < fd_route_count d. length (filter (is_lost i) (fd_events d)) = length (filter is_finished (msgs_of i handled))) \<and>
     filter is_won (fd_events d) = [] \<and>
     (\<forall>i c. Finished i (Inr c) \<notin> set handled) \<and>
     (\<forall>e \<in> set (reported_errors handled). is_retryable_establishment e) \<and>
     fd_last_error d = (if reported_errors handled = [] then None else Some (last (reported_errors handled)))"

definition tasks_inv :: "'c race \<Rightarrow> bool" where
  "tasks_inv r \<longleftrightarrow>
     length (fd_aborted (ra_dialer r)) = length (ra_tasks r) \<and> length (ra_tasks r) \<le> fd_route_count (ra_dialer r) \<and>
     (\<forall>m \<in> set (ra_handled r @ ra_channel r). msg_index m < length (ra_tasks r)) \<and>
     (\<forall>i < length (ra_tasks r). trace_ok i (ra_tasks r ! i) (msgs_of i (ra_handled r @ ra_channel r))) \<and>
     (length (ra_tasks r) < fd_route_count (ra_dialer r) \<longrightarrow> ra_handled r = [])"

definition open_inv :: "RoutePlan \<Rightarrow> 'c race \<Rightarrow> bool" where
  "open_inv rp r \<longleftrightarrow> dialer_inv rp (ra_handled r) (ra_dialer r) \<and> tasks_inv r"

lemma state_of_snoc [simp]:
  "state_of (ms @ [Started race_id i n f]) = Running"
  "state_of (ms @ [Finished i (Inl e)]) = Failed \<lparr>cf_stage = failure_stage e, cf_message = we_message e\<rparr>"
  by (simp_all add: state_of_def)

lemma open_inv_start: "open_inv rp (race_start race_id rp)"
  by (simp add: open_inv_def dialer_inv_def tasks_inv_def race_start_def dial_start_def connect_plan_from_route_plan_def
      plan_state_def state_of_def Let_def nth_enumerate_eq)

lemma dialer_inv_started:
  assumes "dialer_inv rp handled d" and "i < fd_route_count d"
  shows "dialer_inv rp (handled @ [Started race_id i n f]) (handle_message (Started race_id i n f) d)"
  using assms
  by (auto simp: dialer_inv_def mark_running_def plan_state_def state_cp_transition msgs_of_Cons)

lemma dialer_inv_failed:
  assumes "dialer_inv rp handled d" and "i < fd_route_count d" and "is_retryable_establishment e"
  shows "dialer_inv rp (handled @ [Finished i (Inl e)]) (handle_message (Finished i (Inl e)) d)"
  using assms
  by (auto simp: dialer_inv_def dial_lost_def mark_failed_def plan_state_def state_cp_transition msgs_of_Cons Let_def)

text \<open>Changing one live task and what it sends.\<close>

lemma tasks_inv_set_task:
  assumes "tasks_inv r" and "i < length (ra_tasks r)" and "\<forall>m \<in> set ms. msg_index m = i"
    and "trace_ok i t (msgs_of i (ra_handled r @ ra_channel r) @ ms)"
  shows "tasks_inv (set_task i t (r\<lparr>ra_channel := ra_channel r @ ms\<rparr>))"
proof -
  have "msgs_of i ms = ms" "j \<noteq> i \<Longrightarrow> msgs_of j ms = []" for j
    using assms(3) by (auto simp: msgs_of_def filter_empty_conv)
  then show ?thesis using assms by (auto simp: tasks_inv_def set_task_def nth_list_update)
qed

lemma tasks_inv_keep:
  assumes "tasks_inv r" and "i < length (ra_tasks r)" and "trace_ok i t (msgs_of i (ra_handled r @ ra_channel r))"
  shows "tasks_inv (set_task i t r)"
  using tasks_inv_set_task [OF assms(1,2), of "[]" t] assms(3) by simp

lemma open_inv_step:
  assumes "open_inv rp r" and "receiver_open r" and "race_step r r'" and "receiver_open r'"
  shows "open_inv rp r'"
proof -
  have D: "dialer_inv rp (ra_handled r) (ra_dialer r)" and T: "tasks_inv r" using assms(1) by (simp_all add: open_inv_def)
  have tr: "trace_ok i (ra_tasks r ! i) (msgs_of i (ra_handled r @ ra_channel r))" if "task_live r i" for i
    using T that by (simp add: tasks_inv_def task_live_def)
  note same = open_inv_def D set_task_def
  show ?thesis using assms(3)
  proof cases
    case (step_spawn d answer)
    then show ?thesis using D T assms(4)
      by (auto simp: open_inv_def dialer_inv_def tasks_inv_def receiver_open_def spawn_route_def cp_attempt_def nth_append
          plan_state_def trace_ok_def msgs_of_empty less_Suc_eq split: option.splits sum.splits if_splits)
  next
    case (step_delay i)
    then have "tasks_inv r'" using T tr by (auto intro!: tasks_inv_keep simp: task_live_def trace_ok_def)
    then show ?thesis using step_delay by (simp add: same)
  next
    case (step_begin i)
    then have "tasks_inv r'" using T tr [of i] assms(2)
      by (auto intro!: tasks_inv_set_task simp: task_begin_def send_message_def task_live_def trace_ok_def)
    then show ?thesis using step_begin assms(2) by (simp add: same task_begin_def send_message_def)
  next
    case (step_connected i)
    then have "tasks_inv r'" using T tr [of i] by (auto intro!: tasks_inv_keep simp: task_live_def trace_ok_def)
    then show ?thesis using step_connected by (simp add: same)
  next
    case (step_connect_failed i e)
    then have "tasks_inv r'" using T tr [of i] assms(2)
      by (auto intro!: tasks_inv_set_task simp: task_report_def send_message_def task_live_def trace_ok_def)
    then show ?thesis using step_connect_failed assms(2) by (simp add: same task_report_def send_message_def)
  next
    case (step_finalized i res)
    then have "tasks_inv r'" using T tr [of i] assms(2)
      by (auto intro!: tasks_inv_set_task simp: task_report_def send_message_def task_live_def trace_ok_def)
    then show ?thesis using step_finalized assms(2) by (simp add: same task_report_def send_message_def)
  next
    case (step_aborted i)
    then show ?thesis using D T nth_mem [of i "fd_aborted (ra_dialer r)"]
      by (auto simp: dialer_inv_def tasks_inv_def task_live_def)
  next
    case (step_dropped i)
    then have "tasks_inv r'" using T tr [of i] by (auto intro!: tasks_inv_keep simp: end_task_def task_live_def trace_ok_def)
    then show ?thesis using step_dropped by (simp add: same end_task_def)
  next
    case (step_receive m ms)
    then have i: "msg_index m < fd_route_count (ra_dialer r)" using T by (auto simp: tasks_inv_def)
    have "dialer_inv rp (ra_handled r @ [m]) (handle_message m (ra_dialer r))"
    proof (cases "(m, ra_dialer r)" rule: handle_message.cases)
      case (3 j e d)
      then have "is_retryable_establishment e" using assms(4) step_receive
        by (auto simp: receiver_open_def dial_lost_def Let_def split: if_splits)
      then show ?thesis using dialer_inv_failed [OF D] i 3 by simp
    qed (use dialer_inv_started [OF D] i assms(4) step_receive in \<open>auto simp: receiver_open_def dial_won_def Let_def\<close>)
    moreover have "length (fd_aborted (handle_message m (ra_dialer r))) = length (fd_aborted (ra_dialer r)) \<and>
        fd_route_count (handle_message m (ra_dialer r)) = fd_route_count (ra_dialer r)"
      using assms(4) step_receive
      by (cases "(m, ra_dialer r)" rule: handle_message.cases)
         (auto simp: receiver_open_def dial_won_def dial_lost_def Let_def)
    then have "tasks_inv r'" using step_receive T by (auto simp: tasks_inv_def)
    ultimately show ?thesis using step_receive by (simp add: open_inv_def)
  next
    case step_exhausted
    then show ?thesis using assms(4) by (simp add: receiver_open_def dial_exhausted_def)
  qed
qed

section \<open>How a race ends\<close>

definition race_won :: "usize \<Rightarrow> 'c \<Rightarrow> 'c race \<Rightarrow> bool" where
  "race_won w c r \<longleftrightarrow>
     (let d = ra_dialer r; n = fd_route_count d in
      w < n \<and> length (ra_tasks r) = n \<and> length (fd_aborted d) = n \<and>
      ra_handled r \<noteq> [] \<and> last (ra_handled r) = Finished w (Inr c) \<and> rt_outcome (ra_tasks r ! w) = Some Reported \<and>
      plan_state d w = Won \<and> length (filter is_won (fd_events d)) = 1 \<and> filter (is_lost w) (fd_events d) = [] \<and>
      (\<forall>j < n. j \<noteq> w \<longrightarrow> fd_aborted d ! j \<and> length (filter (is_lost j) (fd_events d)) = 1 \<and>
         (plan_state d j = Lost w \<or>
          (\<exists>e. Finished j (Inl e) \<in> set (ra_handled r) \<and>
             plan_state d j = Failed \<lparr>cf_stage = failure_stage e, cf_message = we_message e\<rparr>))))"

definition race_failed :: "RoutePlan \<Rightarrow> WireError \<Rightarrow> 'c race \<Rightarrow> bool" where
  "race_failed rp e r \<longleftrightarrow>
     (let d = ra_dialer r; n = length (rp_routes rp); errors = reported_errors (ra_handled r) in
      length (fd_aborted d) = length (ra_tasks r) \<and> False \<notin> set (fd_aborted d) \<and>
      (\<forall>i c. Finished i (Inr c) \<notin> set (ra_handled r)) \<and>
      (errors \<noteq> [] \<and> last errors = e \<and> \<not> is_retryable_establishment e \<or>
       length (ra_tasks r) = n \<and>
         (\<forall>j < n. rt_outcome (ra_tasks r ! j) = Some TaskDropped \<or>
            (\<exists>e'. Finished j (Inl e') \<in> set (ra_handled r) \<and> is_retryable_establishment e')) \<and>
         e = (if errors = [] then err_route_exhausted ''no fast-fallback route could be connected'' else last errors) \<or>
       length (ra_tasks r) < n \<and> errors = [] \<or>
       n = 0 \<and> e = err_route_exhausted ''route plan produced no routes''))"

fun race_result_ok :: "RoutePlan \<Rightarrow> 'c race \<Rightarrow> (WireError, 'c \<times> FastFallbackOutcome) result option \<Rightarrow> bool" where
  "race_result_ok rp r None = True"
| "race_result_ok rp r (Some (Inl e)) = race_failed rp e r"
| "race_result_ok rp r (Some (Inr (c, outcome))) =
     (race_won (ffo_winner_index outcome) c r \<and> ffo_race_id outcome = fd_race_id (ra_dialer r) \<and>
      ffo_route_count outcome = length (rp_routes rp) \<and>
      ffo_fast_fallback_enabled outcome = (length (rp_routes rp) > 1))"

lemma closed_step:
  assumes "\<not> receiver_open r" and "race_step r r'"
  shows "ra_dialer r' = ra_dialer r \<and> ra_handled r' = ra_handled r \<and> length (ra_tasks r') = length (ra_tasks r) \<and>
    (\<forall>i < length (ra_tasks r). rt_outcome (ra_tasks r ! i) \<noteq> None \<longrightarrow> ra_tasks r' ! i = ra_tasks r ! i)"
  using assms(2,1)
  by cases (auto simp: set_task_def task_begin_def task_report_def end_task_def send_message_def task_live_def nth_list_update)

lemma closed_result_ok:
  assumes "\<not> receiver_open r" and "race_step r r'" and "race_result_ok rp r res"
  shows "race_result_ok rp r' res"
proof -
  note S = closed_step [OF assms(1,2)]
  have "race_won w c r'" if "race_won w c r" for w c
    using that S by (auto simp: race_won_def Let_def)
  moreover have "race_failed rp e r'" if "race_failed rp e r" for e
    using that S by (auto simp: race_failed_def Let_def)
  ultimately show ?thesis using assms(3) S by (cases "(rp, r, res)" rule: race_result_ok.cases) auto
qed

lemma state_of_open:
  assumes "dialer_inv rp handled d" and "j < fd_route_count d"
  shows "plan_state d j = Pending \<or> plan_state d j = Running \<or>
    (\<exists>e. Finished j (Inl e) \<in> set handled \<and> plan_state d j = Failed \<lparr>cf_stage = failure_stage e, cf_message = we_message e\<rparr>)"
proof (cases "msgs_of j handled = []")
  case True
  then show ?thesis using assms by (simp add: dialer_inv_def state_of_def)
next
  case False
  then have "last (msgs_of j handled) \<in> set handled" "msg_index (last (msgs_of j handled)) = j"
    using last_in_set msgs_of_index by blast+
  moreover have "plan_state d j = state_of (msgs_of j handled)" using assms by (simp add: dialer_inv_def)
  moreover have "Finished i (Inr c) \<notin> set handled" for i c using assms(1) by (simp add: dialer_inv_def)
  ultimately show ?thesis using False
    by (auto simp: state_of_def split: FastFallbackMessage.splits sum.splits)
qed

text \<open>At most one result per task, and none before the start message.\<close>

lemma finished_count:
  assumes "tasks_inv r" and "dialer_inv rp (ra_handled r) (ra_dialer r)" and "j < fd_route_count (ra_dialer r)"
  shows "length (filter is_finished (msgs_of j (ra_handled r))) =
    (if plan_state (ra_dialer r) j = Pending \<or> plan_state (ra_dialer r) j = Running then 0 else 1)"
proof (cases "j < length (ra_tasks r)")
  case True
  then have "trace_ok j (ra_tasks r ! j) (msgs_of j (ra_handled r) @ msgs_of j (ra_channel r))"
    using assms(1) by (simp add: tasks_inv_def)
  moreover have "plan_state (ra_dialer r) j = state_of (msgs_of j (ra_handled r))"
    using assms(2,3) by (simp add: dialer_inv_def)
  ultimately show ?thesis
    by (cases "msgs_of j (ra_handled r)")
       (auto simp: trace_ok_def state_of_def append_eq_Cons_conv split: if_splits FastFallbackMessage.splits sum.splits)
next
  case False
  then have "msgs_of j (ra_handled r) = []"
    using assms(1) by (auto simp: tasks_inv_def msgs_of_def filter_empty_conv)
  then show ?thesis using assms(2,3) by (simp add: dialer_inv_def state_of_def)
qed

lemma promoted_state:
  assumes "dialer_inv rp handled d" and "w < fd_route_count d" and "j < fd_route_count d"
  shows "ca_state (cp_attempts (snd (promote_winner w (fd_plan d))) ! j) =
    (if j = w then Won else if plan_state d j = Pending \<or> plan_state d j = Running then Lost w else plan_state d j)"
  using assms state_of_open [OF assms(1,3)]
  by (auto simp: dialer_inv_def plan_state_def promote_winner_state)

lemma dial_won_eq:
  assumes "dialer_inv rp handled d" and "w < fd_route_count d"
  defines "d1 \<equiv> emit (RaceWon (fd_race_id d) w (fd_route_count d)) (d\<lparr>fd_plan := snd (promote_winner w (fd_plan d))\<rparr>)"
  shows "cleanup_losers w d1 =
    d1\<lparr>fd_aborted := map (\<lambda>(j, a). a \<or> j \<noteq> w) (List.enumerate 0 (fd_aborted d)),
       fd_events := fd_events d @ [RaceWon (fd_race_id d) w (fd_route_count d)] @ canceled_losses w d1 (fd_route_count d)\<rparr>"
proof -
  have n: "fd_route_count d1 = length (cp_attempts (fd_plan d1))" "fd_route_count d1 = fd_route_count d"
    using assms(1) by (simp_all add: d1_def dialer_inv_def length_promote_winner)
  have "plan_state d1 j \<noteq> Pending \<and> plan_state d1 j \<noteq> Running" if "j < fd_route_count d1" "j \<noteq> w" for j
    using promoted_state [OF assms(1,2), of j] that n by (auto simp: plan_state_def d1_def)
  then show ?thesis using cleanup_losers_eq [OF n(1), of w] n by (simp add: d1_def)
qed

definition unfinished :: "'c dialer \<Rightarrow> usize \<Rightarrow> bool" where
  "unfinished d j \<longleftrightarrow> plan_state d j = Pending \<or> plan_state d j = Running"

lemma dial_won_facts:
  fixes d :: "'c dialer" and c :: 'c
  assumes "dialer_inv rp handled d" and "w < fd_route_count d"
  defines "d' \<equiv> dial_won w c d"
  shows "fd_route_count d' = fd_route_count d" and "fd_race_id d' = fd_race_id d"
    and "fd_aborted d' = map (\<lambda>(j, a). a \<or> j \<noteq> w) (List.enumerate 0 (fd_aborted d))"
    and "j < fd_route_count d \<Longrightarrow> plan_state d' j = (if j = w then Won else if unfinished d j then Lost w else plan_state d j)"
    and "j < fd_route_count d \<Longrightarrow> length (filter (is_lost j) (fd_events d')) =
      length (filter (is_lost j) (fd_events d)) + (if j \<noteq> w \<and> unfinished d j then 1 else 0)"
    and "filter is_won (fd_events d') = filter is_won (fd_events d) @ [RaceWon (fd_race_id d) w (fd_route_count d)]"
proof -
  note eq = dial_won_eq [OF assms(1,2)]
  show "fd_route_count d' = fd_route_count d" "fd_race_id d' = fd_race_id d"
    "fd_aborted d' = map (\<lambda>(j, a). a \<or> j \<noteq> w) (List.enumerate 0 (fd_aborted d))"
    "filter is_won (fd_events d') = filter is_won (fd_events d) @ [RaceWon (fd_race_id d) w (fd_route_count d)]"
    by (simp_all add: d'_def dial_won_def Let_def eq)
  show st: "plan_state d' j = (if j = w then Won else if unfinished d j then Lost w else plan_state d j)"
    if "j < fd_route_count d"
    using promoted_state [OF assms(1,2) that] by (simp add: d'_def dial_won_def Let_def eq plan_state_def unfinished_def)
  show "length (filter (is_lost j) (fd_events d')) =
      length (filter (is_lost j) (fd_events d)) + (if j \<noteq> w \<and> unfinished d j then 1 else 0)" if j: "j < fd_route_count d"
    using j promoted_state [OF assms(1,2) j] state_of_open [OF assms(1) j]
    by (auto simp: d'_def dial_won_def Let_def eq lost_canceled_losses plan_state_def unfinished_def)
qed

lemma receive_won:
  assumes "open_inv rp r" and "ra_channel r = Finished w (Inr c) # ms" and "length (ra_tasks r) = fd_route_count (ra_dialer r)"
  shows "race_won w c (r\<lparr>ra_dialer := dial_won w c (ra_dialer r), ra_channel := ms, ra_handled := ra_handled r @ [Finished w (Inr c)]\<rparr>)"
proof -
  let ?d = "ra_dialer r"
  have D: "dialer_inv rp (ra_handled r) ?d" and T: "tasks_inv r" using assms(1) by (simp_all add: open_inv_def)
  have w: "w < fd_route_count ?d" using T assms by (simp add: tasks_inv_def)
  have "trace_ok w (ra_tasks r ! w) (msgs_of w (ra_handled r @ ra_channel r))"
    using T w assms(3) by (simp add: tasks_inv_def)
  then have rep: "rt_outcome (ra_tasks r ! w) = Some Reported" and "\<exists>s. msgs_of w (ra_handled r) = [s] \<and> \<not> is_finished s"
    using assms(2) by (auto simp: trace_ok_def msgs_of_Cons append_eq_Cons_conv Cons_eq_append_conv split: if_splits)
  then have w0: "filter (is_lost w) (fd_events ?d) = []" using D w by (auto simp: dialer_inv_def)
  note F = dial_won_facts [OF D w, where c = c]
  have len: "length (fd_aborted ?d) = fd_route_count ?d" using T assms(3) by (simp add: tasks_inv_def)
  have "length (filter (is_lost w) (fd_events (dial_won w c ?d))) = 0" using F(5) [OF w] w0 by simp
  moreover have "length (filter is_won (fd_events (dial_won w c ?d))) = 1" using F(6) D by (simp add: dialer_inv_def)
  moreover have "fd_aborted (dial_won w c ?d) ! j \<and> length (filter (is_lost j) (fd_events (dial_won w c ?d))) = 1 \<and>
      (plan_state (dial_won w c ?d) j = Lost w \<or> (\<exists>e. Finished j (Inl e) \<in> set (ra_handled r) \<and>
        plan_state (dial_won w c ?d) j = Failed \<lparr>cf_stage = failure_stage e, cf_message = we_message e\<rparr>))"
    if j: "j < fd_route_count ?d" "j \<noteq> w" for j
  proof -
    have "length (filter (is_lost j) (fd_events ?d)) = length (filter is_finished (msgs_of j (ra_handled r)))"
      using D j by (simp add: dialer_inv_def)
    then show ?thesis using j F(3) F(4,5) [OF j(1)] len finished_count [OF T D j(1)] state_of_open [OF D j(1)]
      by (auto simp: unfinished_def nth_enumerate_eq)
  qed
  ultimately show ?thesis using w rep assms(3) F(1,3,4) len by (simp add: race_won_def Let_def)
qed

lemma race_closes:
  assumes "open_inv rp r" and "receiver_open r" and "race_step r r'" and "fd_result (ra_dialer r') = Some res"
  shows "race_result_ok rp r' (Some res)"
  using assms(3)
proof cases
  case (step_receive m ms)
  have D: "dialer_inv rp (ra_handled r) (ra_dialer r)" and T: "tasks_inv r" using assms(1) by (simp_all add: open_inv_def)
  show ?thesis
  proof (cases "(m, ra_dialer r)" rule: handle_message.cases)
    case (1 a b c f d)
    then show ?thesis using step_receive assms(2,4) by (simp add: receiver_open_def)
  next
    case (2 w c d)
    then have "w < fd_route_count (ra_dialer r)" using T step_receive by (simp add: tasks_inv_def)
    then show ?thesis using 2 step_receive receive_won [OF assms(1), of w c ms] assms(4) dial_won_facts (1,2) [OF D, where w = w and c = c] D
      by (auto simp: dial_won_def Let_def dialer_inv_def)
  next
    case (3 w e d)
    then show ?thesis using step_receive assms(2,4) D T
      by (auto simp: receiver_open_def dial_lost_def Let_def race_failed_def dialer_inv_def tasks_inv_def split: if_splits)
  qed
next
  case step_exhausted
  have D: "dialer_inv rp (ra_handled r) (ra_dialer r)" and T: "tasks_inv r" using assms(1) by (simp_all add: open_inv_def)
  have "rt_outcome (ra_tasks r ! j) = Some TaskDropped \<or>
      (\<exists>e'. Finished j (Inl e') \<in> set (ra_handled r) \<and> is_retryable_establishment e')" if j: "j < length (ra_tasks r)" for j
  proof (cases "rt_outcome (ra_tasks r ! j) = Some TaskDropped")
    case False
    have "trace_ok j (ra_tasks r ! j) (msgs_of j (ra_handled r))"
      using T j step_exhausted by (auto simp: tasks_inv_def)
    then obtain s res' where "msgs_of j (ra_handled r) = [s, Finished j res']"
      using False j step_exhausted by (auto simp: trace_ok_def task_live_def split: if_splits)
    then have f: "Finished j res' \<in> set (ra_handled r)"
      using msgs_of_index [of "Finished j res'" j "ra_handled r"] by simp
    then obtain e' where "res' = Inl e'" using D by (cases res') (auto simp: dialer_inv_def)
    then show ?thesis using f D by (auto simp: dialer_inv_def set_reported_errors)
  qed simp
  then show ?thesis using step_exhausted assms(4) D T
    by (auto simp: dial_exhausted_def race_failed_def Let_def dialer_inv_def tasks_inv_def)
next
  case (step_spawn d answer)
  then show ?thesis using assms
    by (auto simp: open_inv_def tasks_inv_def dialer_inv_def race_failed_def Let_def receiver_open_def spawn_route_def
        cp_attempt_def split: option.splits sum.splits if_splits)
qed (use assms(2,4) in \<open>auto simp: receiver_open_def set_task_def task_begin_def task_report_def end_task_def send_message_def\<close>)

lemma race_invariant:
  assumes "race_reachable race_id rp r"
  shows "(receiver_open r \<longrightarrow> open_inv rp r) \<and> race_result_ok rp r (fd_result (ra_dialer r))"
  using assms
proof (induction rule: race_reachable.induct)
  case race_init
  show ?case using open_inv_start [of rp race_id]
    by (auto simp: race_start_def dial_start_def race_failed_def Let_def)
next
  case (race_next r r')
  show ?case
  proof (cases "receiver_open r")
    case True
    then have inv: "open_inv rp r" using race_next.IH by simp
    show ?thesis
    proof (cases "fd_result (ra_dialer r')")
      case None
      then show ?thesis using open_inv_step [OF inv True race_next.hyps(2)] by (simp add: receiver_open_def)
    next
      case (Some res)
      then show ?thesis using race_closes [OF inv True race_next.hyps(2)] by (simp add: receiver_open_def)
    qed
  next
    case False
    then show ?thesis using closed_result_ok [OF False race_next.hyps(2)] closed_step [OF False race_next.hyps(2)] race_next.IH False
      by (auto simp: receiver_open_def)
  qed
qed

text \<open>
  C7.  The outcome of a race, for every interleaving of the tasks with the dialer.  A returned connection is the one
  the winning route reported; that route is won and announced once; every other task has been told to stop, and
  every other route is lost or failed and its loss announced exactly once.  A returned error is a permanent
  failure of a route, or all routes have failed with retryable errors (or their tasks were dropped by the executor)
  and it is the last one, or the executor refused a task, or there was no route; no task is left
  running unaborted, and no success was ignored.
\<close>

theorem race_outcome:
  assumes "race_reachable race_id rp r" and "fd_result (ra_dialer r) = Some res"
  shows "case res of
      Inr (c, outcome) \<Rightarrow> race_won (ffo_winner_index outcome) c r \<and> ffo_race_id outcome = fd_race_id (ra_dialer r) \<and>
        ffo_route_count outcome = length (rp_routes rp) \<and> ffo_fast_fallback_enabled outcome = (length (rp_routes rp) > 1)
    | Inl e \<Rightarrow> race_failed rp e r"
  using race_invariant [OF assms(1)] assms(2) by (auto split: sum.split prod.split)

section \<open>Every race ends\<close>

definition task_weight :: "route_task \<Rightarrow> nat" where
  "task_weight t =
     (if rt_outcome t \<noteq> None then 0
      else case rt_stage t of Scheduled \<Rightarrow> 7 | Delay \<Rightarrow> 6 | Connecting \<Rightarrow> 4 | Finalizing \<Rightarrow> 3)"

definition race_weight :: "RoutePlan \<Rightarrow> 'c race \<Rightarrow> nat" where
  "race_weight rp r =
     (length (rp_routes rp) - length (ra_tasks r)) * 8 + sum_list (map task_weight (ra_tasks r)) +
     (if receiver_open r then Suc (length (ra_channel r)) else 0)"

lemma set_task_weight:
  assumes "i < length (ra_tasks r)"
  shows "race_weight rp (set_task i t r) + task_weight (ra_tasks r ! i) = race_weight rp r + task_weight t"
proof -
  have "sum_list (map task_weight ((ra_tasks r)[i := t])) + task_weight (ra_tasks r ! i) =
      sum_list (map task_weight (ra_tasks r)) + task_weight t"
    using assms member_le_sum_list [of "task_weight (ra_tasks r ! i)" "map task_weight (ra_tasks r)"]
    by (simp add: map_update sum_list_update)
  then show ?thesis using assms by (simp add: race_weight_def set_task_def receiver_open_def)
qed

lemma send_message_weight: "race_weight rp (send_message m r) \<le> Suc (race_weight rp r)"
  by (auto simp: race_weight_def send_message_def receiver_open_def)

lemma race_weight_decreases:
  assumes "race_step r r'" and "receiver_open r \<longrightarrow> open_inv rp r"
  shows "race_weight rp r' < race_weight rp r"
  using assms(1)
proof cases
  case (step_spawn d answer)
  then have "length (ra_tasks r) < length (rp_routes rp)" using assms(2) by (simp add: open_inv_def dialer_inv_def)
  then show ?thesis using step_spawn
    by (auto simp: race_weight_def receiver_open_def task_weight_def)
next
  case (step_delay i)
  then show ?thesis using set_task_weight [of i r rp "\<lparr>rt_stage = Delay, rt_outcome = None\<rparr>"]
    by (simp add: task_live_def task_weight_def)
next
  case (step_begin i)
  let ?m = "Started (fd_race_id (ra_dialer r)) i (fd_route_count (ra_dialer r)) (route_family_label (rt_family (ca_route (task_attempt r i))))"
  show ?thesis using step_begin send_message_weight [of rp ?m r]
      set_task_weight [of i "send_message ?m r" rp "\<lparr>rt_stage = Connecting, rt_outcome = None\<rparr>"]
    by (auto simp: task_live_def task_weight_def task_begin_def send_message_def split: if_splits)
next
  case (step_connected i)
  then show ?thesis using set_task_weight [of i r rp "\<lparr>rt_stage = Finalizing, rt_outcome = None\<rparr>"]
    by (simp add: task_live_def task_weight_def)
next
  case (step_connect_failed i e)
  then show ?thesis using send_message_weight [of rp "Finished i (Inl e)" r]
      set_task_weight [of i "send_message (Finished i (Inl e)) r" rp
        "\<lparr>rt_stage = Connecting, rt_outcome = Some (if receiver_open r then Reported else ReceiverClosed)\<rparr>"]
    by (auto simp: task_live_def task_weight_def task_report_def send_message_def split: if_splits)
next
  case (step_finalized i res)
  then show ?thesis using send_message_weight [of rp "Finished i res" r]
      set_task_weight [of i "send_message (Finished i res) r" rp
        "\<lparr>rt_stage = Finalizing, rt_outcome = Some (if receiver_open r then Reported else ReceiverClosed)\<rparr>"]
    by (auto simp: task_live_def task_weight_def task_report_def send_message_def split: if_splits)
next
  case (step_aborted i)
  then show ?thesis using set_task_weight [of i r rp "(ra_tasks r ! i)\<lparr>rt_outcome := Some TaskAborted\<rparr>"]
    by (cases "rt_stage (ra_tasks r ! i)") (auto simp: end_task_def task_live_def task_weight_def)
next
  case (step_dropped i)
  then show ?thesis using set_task_weight [of i r rp "(ra_tasks r ! i)\<lparr>rt_outcome := Some TaskDropped\<rparr>"]
    by (cases "rt_stage (ra_tasks r ! i)") (auto simp: end_task_def task_live_def task_weight_def)
qed (auto simp: race_weight_def receiver_open_def dial_exhausted_def)

text \<open>
  C28.  Every race ends: no race goes on for ever, and when nothing more can happen the dialer has
  returned and every task has ended.
\<close>

theorem race_ends:
  assumes "race_reachable race_id rp r"
  shows "(\<nexists>f. f 0 = r \<and> (\<forall>k. race_step (f k) (f (Suc k)))) \<and>
    ((\<forall>r'. \<not> race_step r r') \<longrightarrow> fd_result (ra_dialer r) \<noteq> None \<and> (\<forall>i. \<not> task_live r i))"
proof (intro conjI notI impI)
  assume "\<exists>f. f 0 = r \<and> (\<forall>k. race_step (f k) (f (Suc k)))"
  then obtain f where f: "f 0 = r" "\<And>k. race_step (f k) (f (Suc k))" by blast
  have "race_reachable race_id rp (f k)" for k
    by (induction k) (use assms f(1) in simp, use race_next f(2) in blast)
  then have "race_weight rp (f (Suc k)) < race_weight rp (f k)" for k
    using race_weight_decreases [OF f(2)] race_invariant by blast
  then show False using wf_no_infinite_down_chainE [OF wf_measure [of "\<lambda>k. race_weight rp (f k)"], of "\<lambda>k. k"] by simp
next
  assume stuck: "\<forall>r'. \<not> race_step r r'"
  then show ended: "\<forall>i. \<not> task_live r i" using step_dropped by blast
  show False if none: "fd_result (ra_dialer r) = None"
  proof -
    have "fd_result (ra_dialer r) = None" by (rule none)
    then have o: "receiver_open r" by (simp add: receiver_open_def)
    then have "open_inv rp r" using race_invariant [OF assms] by simp
    then have "length (ra_tasks r) < fd_route_count (ra_dialer r) \<or> length (ra_tasks r) = fd_route_count (ra_dialer r)"
      by (auto simp: open_inv_def tasks_inv_def)
    moreover have "\<not> length (ra_tasks r) < fd_route_count (ra_dialer r)" using stuck step_spawn [OF o] by blast
    ultimately show False using stuck step_receive [OF o] step_exhausted [OF o] ended by (cases "ra_channel r") blast+
  qed
qed

definition rx_plan :: RoutePlan where
  "rx_plan = \<lparr>rp_routes = map (route_direct (ex_address ''a.t'')) [SockV4 1 80, SockV4 2 80], rp_fast_fallback_stagger = 0\<rparr>"

definition rx_spawn :: "nat race \<Rightarrow> nat race" where
  "rx_spawn r = r\<lparr>ra_dialer := spawn_route (Inr ()) (ra_dialer r), ra_tasks := ra_tasks r @ [\<lparr>rt_stage = Scheduled, rt_outcome = None\<rparr>]\<rparr>"

definition rx_receive :: "nat race \<Rightarrow> nat race" where
  "rx_receive r = r\<lparr>ra_dialer := handle_message (hd (ra_channel r)) (ra_dialer r), ra_channel := tl (ra_channel r),
     ra_handled := ra_handled r @ [hd (ra_channel r)]\<rparr>"

definition rx_race :: "nat race" where
  "rx_race = task_report 0 (Inr 42) (set_task 0 \<lparr>rt_stage = Finalizing, rt_outcome = None\<rparr>
     (task_begin 0 (rx_spawn (rx_spawn (race_start 1 rx_plan)))))"

lemma rx_spawn_reachable:
  assumes "race_reachable race_id rp r" and "receiver_open r \<and> length (ra_tasks r) < fd_route_count (ra_dialer r)"
    and "fd_result (spawn_route (Inr ()) (ra_dialer r)) = None"
  shows "race_reachable race_id rp (rx_spawn r)"
  using race_next [OF assms(1) step_spawn [of r, OF _ _ refl, of "Inr ()"]] assms(2,3) by (auto simp: rx_spawn_def)

lemma rx_receive_reachable:
  assumes "race_reachable race_id rp r"
    and "receiver_open r \<and> length (ra_tasks r) = fd_route_count (ra_dialer r) \<and> ra_channel r \<noteq> []"
  shows "race_reachable race_id rp (rx_receive r)"
  using race_next [OF assms(1) step_receive [of r "hd (ra_channel r)" "tl (ra_channel r)"]] assms(2) by (auto simp: rx_receive_def)

lemma rx_race_reachable: "race_reachable 1 rx_plan rx_race"
proof -
  let ?r = "rx_spawn (rx_spawn (race_start 1 rx_plan))"
  have 1: "race_reachable 1 rx_plan ?r" by (intro rx_spawn_reachable race_init) code_simp+
  have 2: "race_reachable 1 rx_plan (task_begin 0 ?r)" by (rule race_next [OF 1 step_begin]) code_simp+
  have "race_reachable 1 rx_plan (set_task 0 \<lparr>rt_stage = Finalizing, rt_outcome = None\<rparr> (task_begin 0 ?r))"
    by (rule race_next [OF 2 step_connected]) code_simp+
  then show ?thesis unfolding rx_race_def by (rule race_next [OF _ step_finalized]) code_simp+
qed

theorem race_outcome_witness:
  "\<exists>r outcome. race_reachable 1 rx_plan r \<and> fd_result (ra_dialer r) = Some (Inr (42 :: nat, outcome)) \<and>
     race_won (ffo_winner_index outcome) 42 r"
proof -
  let ?r = "rx_receive (rx_receive rx_race)"
  have 1: "race_reachable 1 rx_plan ?r" by (intro rx_receive_reachable rx_race_reachable) code_simp+
  have "fd_result (ra_dialer ?r) = Some (Inr (42, \<lparr>ffo_race_id = 1, ffo_route_count = 2, ffo_winner_index = 0,
      ffo_fast_fallback_enabled = True\<rparr>))" by code_simp
  from race_outcome [OF 1 this] 1 this show ?thesis by auto
qed

theorem race_ends_witness:
  "race_reachable 1 rx_plan rx_race \<and> fd_result (ra_dialer rx_race) = None \<and>
   (\<nexists>f. f 0 = rx_race \<and> (\<forall>k. race_step (f k) (f (Suc k))))"
proof -
  have "fd_result (ra_dialer rx_race) = None" by code_simp
  then show ?thesis using race_ends [OF rx_race_reachable] rx_race_reachable by blast
qed

end
