(* ===== verification/WS_Handshake.thy ===== *)
theory WS_Handshake
  imports Call_Types
begin

text \<open>
  The opening handshake of a WebSocket, a model of \<^verbatim>\<open>openwire/src/websocket/handshake.rs\<close>: the headers that
  turn a request into an upgrade request, and the checks on the response.  SHA-1, base64, the random source and
  the rebuilding of a URI with another scheme are the fields of an environment.
\<close>

section \<open>The request\<close>

record 'h ws_env =
  wse_headers :: "'h header_ops"
  wse_sha1 :: "bytes \<Rightarrow> bytes"
  wse_base64 :: "bytes \<Rightarrow> string"
  wse_random :: "(string, bytes) result"
  wse_with_scheme :: "string \<Rightarrow> uri \<Rightarrow> (string, uri) result"
  wse_debug :: "string \<Rightarrow> string"

text \<open>What is relied on of the URI library: a URI rebuilt with another scheme is the same but for the scheme.\<close>

definition with_scheme_laws :: "(string \<Rightarrow> uri \<Rightarrow> (string, uri) result) \<Rightarrow> bool" where
  "with_scheme_laws with_scheme \<longleftrightarrow>
     (\<forall>s u u'. with_scheme s u = Inr u' \<longrightarrow>
        uri_scheme_str u' = Some s \<and> uri_host u' = uri_host u \<and> uri_port_u16 u' = uri_port_u16 u \<and>
        uri_authority u' = uri_authority u)"

definition HANDSHAKE_MAGIC :: string where
  "HANDSHAKE_MAGIC = ''258EAFA5-E914-47DA-95CA-C5AB0DC85B11''"

definition derive_accept :: "'h ws_env \<Rightarrow> string \<Rightarrow> string" where
  "derive_accept env client_key = wse_base64 env (wse_sha1 env (str_bytes client_key @ str_bytes HANDSHAKE_MAGIC))"

definition generate_client_key :: "'h ws_env \<Rightarrow> (WireError, string) result" where
  "generate_client_key env =
     (case wse_random env of
        Inl e \<Rightarrow> Inl (err_internal ''failed to generate WebSocket client key'' e)
      | Inr bs \<Rightarrow> Inr (wse_base64 env bs))"

definition is_http_token_byte :: "byte \<Rightarrow> bool" where
  "is_http_token_byte b \<longleftrightarrow>
     0x21 \<le> b \<and> b \<le> 0x7e \<and>
     b \<notin> set (str_bytes [CHR ''('', CHR '')'', CHR ''<'', CHR ''>'', CHR ''@'', CHR '','', CHR '';'', CHR '':'',
       CHR 0x5C, CHR 0x22, CHR ''/'', CHR ''['', CHR '']'', CHR ''?'', CHR ''='', CHR ''{'', CHR ''}''])"

definition is_subprotocol_token :: "string \<Rightarrow> bool" where
  "is_subprotocol_token protocol \<longleftrightarrow> protocol \<noteq> [] \<and> list_all is_http_token_byte (str_bytes protocol)"

fun validate_subprotocols :: "(string \<Rightarrow> string) \<Rightarrow> string list \<Rightarrow> string list \<Rightarrow> (WireError, unit) result" where
  "validate_subprotocols dbg seen [] = Inr ()"
| "validate_subprotocols dbg seen (protocol # protocols) =
     (if \<not> is_subprotocol_token protocol then
        Inl (err_invalid_request (''WebSocket subprotocol must be a non-empty RFC 6455 token: '' @ dbg protocol))
      else if protocol \<in> set seen then
        Inl (err_invalid_request (''WebSocket subprotocol appears more than once: '' @ dbg protocol))
      else validate_subprotocols dbg (protocol # seen) protocols)"

definition request_must_be_get :: "('h, 'x) request \<Rightarrow> (WireError, unit) result" where
  "request_must_be_get request =
     (if rq_method request \<noteq> GET then Inl (err_invalid_request ''WebSocket request must use the GET method'') else Inr ())"

definition rewrite_scheme :: "'h ws_env \<Rightarrow> ('h, 'x) request \<Rightarrow> (WireError, ('h, 'x) request) result" where
  "rewrite_scheme env request =
     (let rebuild = (\<lambda>scheme. case wse_with_scheme env scheme (rq_uri request) of
            Inl e \<Rightarrow> Inl (err_invalid_request e)
          | Inr u \<Rightarrow> Inr (request\<lparr>rq_uri := u\<rparr>))
      in case uri_scheme_str (rq_uri request) of
           None \<Rightarrow> Inl (err_invalid_request ''WebSocket URI must include a scheme (ws/wss)'')
         | Some scheme \<Rightarrow>
             if scheme = ''ws'' then rebuild ''http''
             else if scheme = ''wss'' then rebuild ''https''
             else if scheme = ''http'' \<or> scheme = ''https'' then Inr request
             else Inl (err_invalid_request (''WebSocket URI must use ws/wss/http/https, got '' @ scheme)))"

definition insert_header_str :: "'h header_ops \<Rightarrow> header_name \<Rightarrow> string \<Rightarrow> 'h \<Rightarrow> (WireError, 'h) result" where
  "insert_header_str ops name value h =
     (case header_value_from_str (str_bytes value) of
        None \<Rightarrow> Inl (err_invalid_request ''failed to parse header value'')
      | Some v \<Rightarrow> Inr (hm_insert ops name v h))"

text \<open>The caller has found the marker in the extensions of the request.\<close>

definition inject_handshake ::
  "'h ws_env \<Rightarrow> WebSocketRequestMarker \<Rightarrow> ('h, 'x) request \<Rightarrow> (WireError, ('h, 'x) request) result" where
  "inject_handshake env marker request =
     (let ops = wse_headers env in
      case validate_subprotocols (wse_debug env) [] (wsm_subprotocols marker) of Inl e \<Rightarrow> Inl e | Inr _ \<Rightarrow>
      (case request_must_be_get request of Inl e \<Rightarrow> Inl e | Inr _ \<Rightarrow>
      (case rewrite_scheme env request of Inl e \<Rightarrow> Inl e | Inr request1 \<Rightarrow>
      (let h1 = hm_insert ops ''upgrade'' (str_bytes ''websocket'') (rq_headers request1);
           h2 = hm_insert ops ''connection'' (str_bytes ''Upgrade'') h1;
           h3 = hm_insert ops ''sec-websocket-version'' (str_bytes ''13'') h2
       in case generate_client_key env of Inl e \<Rightarrow> Inl e | Inr key \<Rightarrow>
      (case insert_header_str ops ''sec-websocket-key'' key h3 of Inl e \<Rightarrow> Inl e | Inr h4 \<Rightarrow>
      (case (if wsm_subprotocols marker \<noteq> []
             then insert_header_str ops ''sec-websocket-protocol'' (join_comma (wsm_subprotocols marker)) h4
             else Inr h4) of Inl e \<Rightarrow> Inl e | Inr h5 \<Rightarrow>
         Inr (request1\<lparr>rq_headers := h5, rq_version := HTTP_11,
           rq_extensions := (rq_extensions request1)
             \<lparr>ext_websocket_marker := Some (marker\<lparr>wsm_expected_accept := derive_accept env key\<rparr>),
              ext_tls_alpn_preference := Some AlpnHttp1Only,
              ext_route_preference := Some PreferHttp1Only\<rparr>\<rparr>)))))))"

section \<open>The response\<close>

datatype HandshakeFailure =
    UnexpectedStatus
  | MissingUpgrade
  | MissingConnection
  | InvalidAccept
  | SubprotocolMismatch "string list" string
  | UnsupportedExtension string
  | OtherFailure string

record ValidatedHandshake =
  vh_subprotocol :: "string option"
  vh_extensions :: "string list"

definition header_value_has_token :: "string \<Rightarrow> header_value \<Rightarrow> bool" where
  "header_value_has_token expected value =
     (case to_str value of
        None \<Rightarrow> False
      | Some raw \<Rightarrow> list_ex (\<lambda>token. eq_ignore_ascii_case (trim token) expected) (split_on (CHR '','') raw))"

definition connection_has_upgrade :: "'h header_ops \<Rightarrow> 'h \<Rightarrow> bool" where
  "connection_has_upgrade ops headers = list_ex (header_value_has_token ''upgrade'') (hm_get_all ops headers ''connection'')"

definition upgrade_has_websocket :: "'h header_ops \<Rightarrow> 'h \<Rightarrow> bool" where
  "upgrade_has_websocket ops headers = list_ex (header_value_has_token ''websocket'') (hm_get_all ops headers ''upgrade'')"

definition validate_accept_header :: "'h header_ops \<Rightarrow> 'h \<Rightarrow> string \<Rightarrow> (HandshakeFailure, unit) result" where
  "validate_accept_header ops headers expected_accept =
     (case hm_get_all ops headers ''sec-websocket-accept'' of
        [] \<Rightarrow> Inl InvalidAccept
      | value # rest \<Rightarrow>
          if rest \<noteq> [] then Inl InvalidAccept
          else (case to_str value of
                  None \<Rightarrow> Inl InvalidAccept
                | Some accept \<Rightarrow> if accept \<noteq> expected_accept then Inl InvalidAccept else Inr ()))"

fun select_subprotocol :: "header_value list \<Rightarrow> string option \<Rightarrow> (HandshakeFailure, string option) result" where
  "select_subprotocol [] selected = Inr selected"
| "select_subprotocol (value # vs) selected =
     (case to_str value of
        None \<Rightarrow> Inl (OtherFailure ''invalid subprotocol header'')
      | Some token \<Rightarrow>
          if CHR '','' \<in> set token \<or> selected \<noteq> None then Inl (OtherFailure ''multiple subprotocols returned'')
          else select_subprotocol vs (Some token))"

definition validate_selected_subprotocol ::
  "'h header_ops \<Rightarrow> 'h \<Rightarrow> string list \<Rightarrow> (HandshakeFailure, string option) result" where
  "validate_selected_subprotocol ops headers offered_subprotocols =
     (case select_subprotocol (hm_get_all ops headers ''sec-websocket-protocol'') None of
        Inl e \<Rightarrow> Inl e
      | Inr None \<Rightarrow> Inr None
      | Inr (Some token) \<Rightarrow>
          if token \<notin> set offered_subprotocols then Inl (SubprotocolMismatch offered_subprotocols token)
          else Inr (Some token))"

fun reject_extension_values :: "header_value list \<Rightarrow> (HandshakeFailure, unit) result" where
  "reject_extension_values [] = Inr ()"
| "reject_extension_values (value # vs) =
     (case to_str value of
        None \<Rightarrow> Inl (UnsupportedExtension ''<invalid>'')
      | Some raw \<Rightarrow>
          (case List.find (\<lambda>extension. extension \<noteq> []) (map trim (split_on (CHR '','') raw)) of
             Some extension \<Rightarrow> Inl (UnsupportedExtension extension)
           | None \<Rightarrow> reject_extension_values vs))"

definition reject_unrequested_extensions :: "'h header_ops \<Rightarrow> 'h \<Rightarrow> (HandshakeFailure, unit) result" where
  "reject_unrequested_extensions ops headers =
     reject_extension_values (hm_get_all ops headers ''sec-websocket-extensions'')"

definition validate_handshake_response ::
  "'h header_ops \<Rightarrow> nat \<Rightarrow> 'h \<Rightarrow> string \<Rightarrow> string list \<Rightarrow> (HandshakeFailure, ValidatedHandshake) result" where
  "validate_handshake_response ops status headers expected_accept offered_subprotocols =
     (if status \<noteq> 101 then Inl UnexpectedStatus
      else if \<not> upgrade_has_websocket ops headers then Inl MissingUpgrade
      else if \<not> connection_has_upgrade ops headers then Inl MissingConnection
      else case validate_accept_header ops headers expected_accept of
        Inl e \<Rightarrow> Inl e
      | Inr _ \<Rightarrow>
          (case validate_selected_subprotocol ops headers offered_subprotocols of
             Inl e \<Rightarrow> Inl e
           | Inr subprotocol \<Rightarrow>
               (case reject_unrequested_extensions ops headers of
                  Inl e \<Rightarrow> Inl e
                | Inr _ \<Rightarrow> Inr \<lparr>vh_subprotocol = subprotocol, vh_extensions = []\<rparr>)))"

section \<open>Specification\<close>

text \<open>The members of a header whose values are comma separated lists.\<close>

definition header_tokens :: "'h header_ops \<Rightarrow> 'h \<Rightarrow> header_name \<Rightarrow> string list" where
  "header_tokens ops headers name =
     concat (map (\<lambda>v. case to_str v of None \<Rightarrow> [] | Some raw \<Rightarrow> map trim (split_on (CHR '','') raw))
       (hm_get_all ops headers name))"

text \<open>
  A server's answer to a request with the given key and offer, as RFC 6455 section 4.2.2 asks for it: the upgrade
  is confirmed, the accept value is derived from the key, at most one offered subprotocol is selected and, as
  none was offered, no extension is.
\<close>

definition rfc6455_answer ::
  "'h ws_env \<Rightarrow> string \<Rightarrow> string list \<Rightarrow> nat \<Rightarrow> 'h \<Rightarrow> string option \<Rightarrow> bool" where
  "rfc6455_answer env key offered status headers selected \<longleftrightarrow>
     (let ops = wse_headers env in
      status = 101 \<and>
      ''websocket'' \<in> to_ascii_lowercase ` set (header_tokens ops headers ''upgrade'') \<and>
      ''upgrade'' \<in> to_ascii_lowercase ` set (header_tokens ops headers ''connection'') \<and>
      map to_str (hm_get_all ops headers ''sec-websocket-accept'') = [Some (derive_accept env key)] \<and>
      (case selected of
         None \<Rightarrow> hm_get_all ops headers ''sec-websocket-protocol'' = []
       | Some p \<Rightarrow> p \<in> set offered \<and> map to_str (hm_get_all ops headers ''sec-websocket-protocol'') = [Some p]) \<and>
      None \<notin> to_str ` set (hm_get_all ops headers ''sec-websocket-extensions'') \<and>
      set (header_tokens ops headers ''sec-websocket-extensions'') \<subseteq> {[]})"

section \<open>Lemmas\<close>

lemma to_str_str_bytes: "header_value_from_str (str_bytes s) = Some v \<Longrightarrow> v = str_bytes s \<and> to_str v = Some s"
  by (auto simp: header_value_from_str_def to_str_def str_bytes_def comp_def split: if_splits)

lemma subprotocol_token_chars:
  assumes "is_subprotocol_token p" and "c \<in> set p"
  shows "c \<noteq> CHR '','' \<and> \<not> is_whitespace c"
proof -
  have "is_http_token_byte (char_byte c)" using assms by (auto simp: is_subprotocol_token_def str_bytes_def list_all_iff)
  then have b: "33 \<le> unat (char_byte c)" "char_byte c \<noteq> char_byte (CHR '','')"
    by (auto simp: is_http_token_byte_def str_bytes_def word_le_nat_alt)
  have "unat (char_byte c) = of_char c" by (simp add: char_byte_def unat_of_nat take_bit_nat_def of_char_mod_256)
  with b show ?thesis by (auto simp: is_whitespace_def)
qed

lemma token_plain:
  assumes "is_subprotocol_token p"
  shows "CHR '','' \<notin> set p"
  using subprotocol_token_chars [OF assms] by blast

lemma split_join_tokens:
  assumes "ps \<noteq> []" and "\<forall>p \<in> set ps. is_subprotocol_token p"
  shows "map trim (split_on (CHR '','') (join_comma ps)) = ps"
  using assms subprotocol_token_chars by (intro split_join_comma) blast+

lemma validate_subprotocols_ok:
  "validate_subprotocols dbg seen ps = Inr () \<Longrightarrow> (\<forall>p \<in> set ps. is_subprotocol_token p) \<and> distinct ps"
proof -
  have "validate_subprotocols dbg seen ps = Inr () \<Longrightarrow>
      (\<forall>p \<in> set ps. is_subprotocol_token p) \<and> distinct ps \<and> set ps \<inter> set seen = {}"
    by (induction dbg seen ps rule: validate_subprotocols.induct) (auto split: if_splits)
  then show "validate_subprotocols dbg seen ps = Inr () \<Longrightarrow> (\<forall>p \<in> set ps. is_subprotocol_token p) \<and> distinct ps" by simp
qed

lemma has_token_iff:
  "list_ex (header_value_has_token e) (hm_get_all ops headers name) \<longleftrightarrow>
   to_ascii_lowercase e \<in> to_ascii_lowercase ` set (header_tokens ops headers name)"
proof -
  have "header_value_has_token e v \<longleftrightarrow>
      to_ascii_lowercase e \<in> to_ascii_lowercase ` set (case to_str v of None \<Rightarrow> [] | Some raw \<Rightarrow> map trim (split_on (CHR '','') raw))" for v
    by (cases "to_str v") (auto simp: header_value_has_token_def list_ex_iff eq_ignore_ascii_case_def image_iff, metis+)
  then show ?thesis by (simp add: list_ex_iff header_tokens_def image_UN)
qed

lemma select_subprotocol_iff:
  "select_subprotocol vs None = Inr selected \<longleftrightarrow>
   (case selected of None \<Rightarrow> vs = [] | Some p \<Rightarrow> map to_str vs = [Some p] \<and> CHR '','' \<notin> set p)"
proof -
  have some: "select_subprotocol ws (Some t) = Inr s \<longleftrightarrow> ws = [] \<and> s = Some t" for ws t s
    by (cases ws) (auto split: option.split)
  show ?thesis by (cases vs) (auto simp: some split: option.split)
qed

lemma reject_extension_values_iff:
  "reject_extension_values vs = Inr () \<longleftrightarrow>
   None \<notin> to_str ` set vs \<and>
   (\<forall>v \<in> set vs. \<forall>raw. to_str v = Some raw \<longrightarrow> set (map trim (split_on (CHR '','') raw)) \<subseteq> {[]})"
  by (induction vs rule: reject_extension_values.induct)
     (auto split: option.splits simp: find_None_iff image_iff image_subset_iff dest!: find_SomeD)

lemma reject_extensions_iff:
  "reject_unrequested_extensions ops headers = Inr () \<longleftrightarrow>
   None \<notin> to_str ` set (hm_get_all ops headers ''sec-websocket-extensions'') \<and>
   set (header_tokens ops headers ''sec-websocket-extensions'') \<subseteq> {[]}"
proof -
  have "(set (case to_str v of None \<Rightarrow> [] | Some raw \<Rightarrow> map trim (split_on (CHR '','') raw)) \<subseteq> {[]}) \<longleftrightarrow>
      (\<forall>raw. to_str v = Some raw \<longrightarrow> set (map trim (split_on (CHR '','') raw)) \<subseteq> {[]})" for v
    by (cases "to_str v") auto
  then show ?thesis
    by (simp add: reject_unrequested_extensions_def reject_extension_values_iff header_tokens_def UN_subset_iff)
qed

lemma validate_handshake_iff:
  assumes "\<forall>p \<in> set offered. is_subprotocol_token p"
  shows "validate_handshake_response (wse_headers env) status headers (derive_accept env key) offered = Inr v \<longleftrightarrow>
    vh_extensions v = [] \<and> rfc6455_answer env key offered status headers (vh_subprotocol v)"
proof -
  let ?ops = "wse_headers env"
  have accept: "validate_accept_header ?ops headers a = Inr () \<longleftrightarrow>
      map to_str (hm_get_all ?ops headers ''sec-websocket-accept'') = [Some a]" for a
    by (auto simp: validate_accept_header_def split: list.split option.split)
  have protocol: "validate_selected_subprotocol ?ops headers offered = Inr sel \<longleftrightarrow>
      (case sel of None \<Rightarrow> hm_get_all ?ops headers ''sec-websocket-protocol'' = []
       | Some p \<Rightarrow> p \<in> set offered \<and> map to_str (hm_get_all ?ops headers ''sec-websocket-protocol'') = [Some p])" for sel
    using select_subprotocol_iff [of "hm_get_all ?ops headers ''sec-websocket-protocol''"] assms token_plain
    by (auto simp: validate_selected_subprotocol_def split: sum.splits option.splits if_splits)
  have "to_ascii_lowercase ''websocket'' = ''websocket''" "to_ascii_lowercase ''upgrade'' = ''upgrade''" by code_simp+
  then have "upgrade_has_websocket ?ops headers \<longleftrightarrow> ''websocket'' \<in> to_ascii_lowercase ` set (header_tokens ?ops headers ''upgrade'')"
    "connection_has_upgrade ?ops headers \<longleftrightarrow> ''upgrade'' \<in> to_ascii_lowercase ` set (header_tokens ?ops headers ''connection'')"
    by (simp_all add: upgrade_has_websocket_def connection_has_upgrade_def has_token_iff)
  moreover have "validate_handshake_response ?ops status headers a offered = Inr v \<longleftrightarrow>
      status = 101 \<and> upgrade_has_websocket ?ops headers \<and> connection_has_upgrade ?ops headers \<and>
      validate_accept_header ?ops headers a = Inr () \<and>
      validate_selected_subprotocol ?ops headers offered = Inr (vh_subprotocol v) \<and>
      reject_unrequested_extensions ?ops headers = Inr () \<and> vh_extensions v = []" for a
    by (cases v) (auto simp: validate_handshake_response_def split: sum.split)
  ultimately show ?thesis
    by (simp only: accept protocol reject_extensions_iff rfc6455_answer_def Let_def) blast
qed

lemma rewrite_scheme_Inr:
  assumes "rewrite_scheme env request = Inr r" and "with_scheme_laws (wse_with_scheme env)"
  shows "rq_method r = rq_method request \<and> rq_headers r = rq_headers request \<and> rq_extensions r = rq_extensions request \<and>
    rq_body r = rq_body request \<and> uri_scheme_str (rq_uri r) \<in> {Some ''http'', Some ''https''} \<and>
    uri_host (rq_uri r) = uri_host (rq_uri request) \<and> uri_authority (rq_uri r) = uri_authority (rq_uri request)"
  using assms by (auto simp: rewrite_scheme_def with_scheme_laws_def Let_def split: option.splits sum.splits if_splits)

lemma insert_header_str_Inr:
  assumes "header_map_laws ops" and "insert_header_str ops n value h = Inr h'"
  shows "hm_get_all ops h' m = (if m = n then [str_bytes value] else hm_get_all ops h m)" and "to_str (str_bytes value) = Some value"
  using assms(2) to_str_str_bytes
  by (auto simp: insert_header_str_def hm_get_all_insert [OF assms(1)] split: option.splits)

text \<open>
  C29.  The WebSocket handshake.  An upgrade request is a GET over HTTP/1.1 to the host of the call with a fresh key,
  whose offer a server reads back as exactly the given subprotocols; and the response is
  accepted exactly when it is an answer to that key and offer in the sense of RFC 6455.
\<close>

theorem websocket_handshake_agreed:
  assumes "header_map_laws (wse_headers env)" and "with_scheme_laws (wse_with_scheme env)"
    and "inject_handshake env marker request = Inr r"
  shows "\<exists>key accept. rq_method r = GET \<and> rq_version r = HTTP_11 \<and> rq_body r = rq_body request \<and>
    uri_host (rq_uri r) = uri_host (rq_uri request) \<and> uri_scheme_str (rq_uri r) \<in> {Some ''http'', Some ''https''} \<and>
    hm_get_all (wse_headers env) (rq_headers r) ''upgrade'' = [str_bytes ''websocket''] \<and>
    hm_get_all (wse_headers env) (rq_headers r) ''connection'' = [str_bytes ''Upgrade''] \<and>
    hm_get_all (wse_headers env) (rq_headers r) ''sec-websocket-version'' = [str_bytes ''13''] \<and>
    hm_get_all (wse_headers env) (rq_headers r) ''sec-websocket-key'' = [str_bytes key] \<and>
    (wsm_subprotocols marker \<noteq> [] \<longrightarrow>
       header_tokens (wse_headers env) (rq_headers r) ''sec-websocket-protocol'' = wsm_subprotocols marker) \<and>
    map_option wsm_expected_accept (ext_websocket_marker (rq_extensions r)) = Some accept \<and>
    (\<forall>status headers v.
       validate_handshake_response (wse_headers env) status headers accept (wsm_subprotocols marker) = Inr v \<longleftrightarrow>
       vh_extensions v = [] \<and> rfc6455_answer env key (wsm_subprotocols marker) status headers (vh_subprotocol v))"
proof -
  let ?ops = "wse_headers env"
  note e = assms(3) [unfolded inject_handshake_def Let_def]
  have v: "validate_subprotocols (wse_debug env) [] (wsm_subprotocols marker) = Inr ()"
    using e by (cases "validate_subprotocols (wse_debug env) [] (wsm_subprotocols marker)") auto
  note tokens = validate_subprotocols_ok [OF v]
  have get: "rq_method request = GET" using e v by (auto simp: request_must_be_get_def split: if_splits)
  obtain r1 where r1: "rewrite_scheme env request = Inr r1"
    using e v get by (cases "rewrite_scheme env request") (auto simp: request_must_be_get_def)
  note R = rewrite_scheme_Inr [OF r1 assms(2)]
  obtain key where key: "generate_client_key env = Inr key"
    using e v get r1 by (cases "generate_client_key env") (auto simp: request_must_be_get_def)
  let ?h = "hm_insert ?ops ''sec-websocket-version'' (str_bytes ''13'') (hm_insert ?ops ''connection'' (str_bytes ''Upgrade'')
      (hm_insert ?ops ''upgrade'' (str_bytes ''websocket'') (rq_headers r1)))"
  note e = e [unfolded v r1 key sum.case request_must_be_get_def get, simplified]
  obtain h4 where h4: "insert_header_str ?ops ''sec-websocket-key'' key ?h = Inr h4"
    using e by (cases "insert_header_str ?ops ''sec-websocket-key'' key ?h") auto
  obtain h5 where h5: "(if wsm_subprotocols marker \<noteq> []
      then insert_header_str ?ops ''sec-websocket-protocol'' (join_comma (wsm_subprotocols marker)) h4 else Inr h4) = Inr h5"
    and r: "r = r1\<lparr>rq_headers := h5, rq_version := HTTP_11, rq_extensions := (rq_extensions r1)
             \<lparr>ext_websocket_marker := Some (marker\<lparr>wsm_expected_accept := derive_accept env key\<rparr>),
              ext_tls_alpn_preference := Some AlpnHttp1Only, ext_route_preference := Some PreferHttp1Only\<rparr>\<rparr>"
    using e [unfolded h4 sum.case] by (auto split: sum.splits if_splits)
  have protocol: "header_tokens ?ops h5 ''sec-websocket-protocol'' = wsm_subprotocols marker"
    if "wsm_subprotocols marker \<noteq> []"
    using h5 that tokens split_join_tokens [of "wsm_subprotocols marker"] insert_header_str_Inr [OF assms(1)]
    by (simp add: header_tokens_def)
  have other: "hm_get_all ?ops h5 m = hm_get_all ?ops h4 m" if "m \<noteq> ''sec-websocket-protocol''" for m
    using h5 insert_header_str_Inr(1) [OF assms(1)] that by (auto split: if_splits)
  have "hm_get_all ?ops h5 ''upgrade'' = [str_bytes ''websocket'']" "hm_get_all ?ops h5 ''connection'' = [str_bytes ''Upgrade'']"
    "hm_get_all ?ops h5 ''sec-websocket-version'' = [str_bytes ''13'']" "hm_get_all ?ops h5 ''sec-websocket-key'' = [str_bytes key]"
    by (simp_all add: other insert_header_str_Inr(1) [OF assms(1) h4] hm_get_all_insert [OF assms(1)])
  then show ?thesis
    using R get protocol validate_handshake_iff [of "wsm_subprotocols marker" env] tokens
    by (intro exI [of _ key] exI [of _ "derive_accept env key"]) (simp add: r)
qed

definition wx_env :: "(header_name \<times> header_value) list ws_env" where
  "wx_env = \<lparr>wse_headers = assoc_headers, wse_sha1 = (\<lambda>bs. rev bs), wse_base64 = (\<lambda>bs. show_nat (length bs)),
     wse_random = Inr (replicate 16 7), wse_with_scheme = (\<lambda>s u. Inr (u\<lparr>uri_scheme_str := Some s\<rparr>)), wse_debug = (\<lambda>s. s)\<rparr>"

definition wx_request :: "((header_name \<times> header_value) list, unit) request" where
  "wx_request = \<lparr>rq_method = GET, rq_uri = ex_uri\<lparr>uri_scheme_str := Some ''ws''\<rparr>, rq_version = HTTP_11, rq_headers = [],
     rq_extensions = \<lparr>ext_policy_trace = None, ext_request_config = None, ext_call_options = None,
        ext_cached_addresses = None, ext_selected_proxy = None, ext_dispatcher_queued = False,
        ext_no_coalesced_connections = False, ext_websocket_marker = None,
        ext_tls_alpn_preference = None, ext_route_preference = None, ext_other = ()\<rparr>,
     rq_body = body_absent\<rparr>"

definition wx_answer :: "(header_name \<times> header_value) list" where
  "wx_answer = [(''upgrade'', str_bytes ''h2c, WebSocket''), (''connection'', str_bytes ''upgrade''),
     (''sec-websocket-accept'', str_bytes ''38''), (''sec-websocket-protocol'', str_bytes ''v2'')]"

theorem websocket_handshake_agreed_witness:
  "\<exists>r accept. inject_handshake wx_env (websocket_marker_new [''chat'', ''v2'']) wx_request = Inr r \<and>
     header_tokens assoc_headers (rq_headers r) ''sec-websocket-protocol'' = [''chat'', ''v2''] \<and>
     map_option wsm_expected_accept (ext_websocket_marker (rq_extensions r)) = Some accept \<and>
     validate_handshake_response assoc_headers 101 wx_answer accept [''chat'', ''v2''] =
       Inr \<lparr>vh_subprotocol = Some ''v2'', vh_extensions = []\<rparr> \<and>
     (\<exists>key. rfc6455_answer wx_env key [''chat'', ''v2''] 101 wx_answer (Some ''v2''))"
proof -
  let ?m = "websocket_marker_new [''chat'', ''v2'']"
  have env: "wse_headers wx_env = assoc_headers" "header_map_laws (wse_headers wx_env)" "with_scheme_laws (wse_with_scheme wx_env)"
    by (simp_all add: wx_env_def assoc_headers_laws with_scheme_laws_def)
  have "case inject_handshake wx_env ?m wx_request of Inr r \<Rightarrow>
      map_option wsm_expected_accept (ext_websocket_marker (rq_extensions r)) = Some ''38'' | _ \<Rightarrow> False" by code_simp
  then obtain r where r: "inject_handshake wx_env ?m wx_request = Inr r"
      "map_option wsm_expected_accept (ext_websocket_marker (rq_extensions r)) = Some ''38''"
    by (auto split: sum.splits)
  have v: "validate_handshake_response assoc_headers 101 wx_answer ''38'' [''chat'', ''v2''] =
      Inr \<lparr>vh_subprotocol = Some ''v2'', vh_extensions = []\<rparr>" by code_simp
  from websocket_handshake_agreed [OF env(2,3) r(1)] r v show ?thesis
    by (auto simp: env(1) websocket_marker_new_def)
qed

end
