(* ===== verification/Compression.thy ===== *)
theory Compression
  imports Call_Types "HOL-Library.Sublist" "HOL-Library.Code_Target_Nat"
begin

text \<open>
  Transparent response decompression, a model of \<^verbatim>\<open>openwire/src/compression.rs\<close>.  Which codecs are built in
  is the parameter \<open>features\<close>; the decoders themselves are third-party code and the parameter \<open>codec\<close>, from streams
  to streams.  A stream is what a reader gets from it until its end: the bytes, and the error that
  ends it, if any.
\<close>

section \<open>Negotiation\<close>

datatype ResponseEncoding = Brotli | Gzip | Deflate | Zstd

type_synonym features = "ResponseEncoding \<Rightarrow> bool"

fun encoding_as_str :: "ResponseEncoding \<Rightarrow> string" where
  "encoding_as_str Brotli = ''br''"
| "encoding_as_str Gzip = ''gzip''"
| "encoding_as_str Deflate = ''deflate''"
| "encoding_as_str Zstd = ''zstd''"

definition accepted_encodings :: "features \<Rightarrow> header_value option" where
  "accepted_encodings features =
     (let tokens = map encoding_as_str (filter features [Brotli, Gzip, Deflate, Zstd]) in
      if tokens = [] then None else Some (str_bytes (join_comma tokens)))"

definition encoding_parse :: "features \<Rightarrow> string \<Rightarrow> ResponseEncoding option" where
  "encoding_parse features value =
     (if features Brotli \<and> eq_ignore_ascii_case value ''br'' then Some Brotli
      else if features Gzip \<and> (eq_ignore_ascii_case value ''gzip'' \<or> eq_ignore_ascii_case value ''x-gzip'') then Some Gzip
      else if features Deflate \<and> eq_ignore_ascii_case value ''deflate'' then Some Deflate
      else if features Zstd \<and> eq_ignore_ascii_case value ''zstd'' then Some Zstd
      else None)"

definition should_skip_transparent_compression :: "'h header_ops \<Rightarrow> ('h, 'x) request \<Rightarrow> bool" where
  "should_skip_transparent_compression ops request \<longleftrightarrow>
     ext_websocket_marker (rq_extensions request) \<noteq> None \<or>
     contains_key ops (rq_headers request) ''accept-encoding'' \<or> contains_key ops (rq_headers request) ''range''"

definition compression_normalize_request ::
  "features \<Rightarrow> 'h header_ops \<Rightarrow> ('h, 'x) request \<Rightarrow> bool \<times> ('h, 'x) request" where
  "compression_normalize_request features ops request =
     (if should_skip_transparent_compression ops request then (False, request)
      else case accepted_encodings features of
        None \<Rightarrow> (False, request)
      | Some accepted \<Rightarrow>
          (True, request\<lparr>rq_headers := hm_insert ops ''accept-encoding'' accepted (rq_headers request)\<rparr>))"

definition response_can_have_body :: "http_method \<Rightarrow> nat \<Rightarrow> bool" where
  "response_can_have_body method status \<longleftrightarrow>
     method \<noteq> HEAD \<and> \<not> (100 \<le> status \<and> status < 200) \<and> status \<noteq> 204 \<and> status \<noteq> 304 \<and> status \<noteq> 101"

fun content_encoding_parts :: "features \<Rightarrow> string list \<Rightarrow> ResponseEncoding list \<Rightarrow> ResponseEncoding list option" where
  "content_encoding_parts features [] encodings = Some encodings"
| "content_encoding_parts features (part # parts) encodings =
     (let normalized = trim part in
      if normalized = [] then content_encoding_parts features parts encodings
      else if eq_ignore_ascii_case normalized ''identity'' then content_encoding_parts features parts encodings
      else case encoding_parse features normalized of
        None \<Rightarrow> None
      | Some e \<Rightarrow> content_encoding_parts features parts (encodings @ [e]))"

fun content_encoding_values :: "features \<Rightarrow> header_value list \<Rightarrow> ResponseEncoding list \<Rightarrow> ResponseEncoding list option" where
  "content_encoding_values features [] encodings = Some encodings"
| "content_encoding_values features (value # vs) encodings =
     (case to_str value of
        None \<Rightarrow> None
      | Some s \<Rightarrow>
          (case content_encoding_parts features (split_on (CHR '','') s) encodings of
             None \<Rightarrow> None
           | Some encodings' \<Rightarrow> content_encoding_values features vs encodings'))"

definition supported_content_encodings :: "features \<Rightarrow> 'h header_ops \<Rightarrow> 'h \<Rightarrow> ResponseEncoding list option" where
  "supported_content_encodings features ops headers =
     content_encoding_values features (hm_get_all ops headers ''content-encoding'') []"

section \<open>Decoding\<close>

datatype io_error = IoWire WireError | IoOther string

record byte_stream =
  bs_data :: bytes
  bs_error :: "io_error option"

datatype decoder = BrotliDecoder | GzipDecoder | ZlibDecoder | DeflateDecoder | ZstdDecoder

type_synonym codec = "decoder \<Rightarrow> byte_stream \<Rightarrow> byte_stream"

definition looks_like_zlib_header :: "bytes \<Rightarrow> bool" where
  "looks_like_zlib_header header =
     (if length header < 2 then True
      else unat (header ! 0) mod 16 = 8 \<and> (unat (header ! 0) * 256 + unat (header ! 1)) mod 31 = 0)"

text \<open>The reader that replays the peeked bytes; the reader below it hands out its bytes in chunks.\<close>

record PrefixedReader =
  pr_prefix :: bytes
  pr_prefix_len :: usize
  pr_prefix_pos :: usize
  pr_inner :: "bytes list"

definition inner_read :: "usize \<Rightarrow> bytes list \<Rightarrow> bytes \<times> bytes list" where
  "inner_read n inner =
     (case inner of [] \<Rightarrow> ([], []) | c # cs \<Rightarrow> (take n c, if length c \<le> n then cs else drop n c # cs))"

definition inner_consume :: "usize \<Rightarrow> bytes list \<Rightarrow> bytes list" where
  "inner_consume amt inner = (case inner of [] \<Rightarrow> [] | c # cs \<Rightarrow> if length c \<le> amt then cs else drop amt c # cs)"

definition prefixed_read :: "usize \<Rightarrow> PrefixedReader \<Rightarrow> bytes \<times> PrefixedReader" where
  "prefixed_read n p =
     (if pr_prefix_pos p < pr_prefix_len p then
        let available = pr_prefix_len p - pr_prefix_pos p; copy = min available n in
        (take copy (drop (pr_prefix_pos p) (pr_prefix p)), p\<lparr>pr_prefix_pos := pr_prefix_pos p + copy\<rparr>)
      else case inner_read n (pr_inner p) of (buf, inner) \<Rightarrow> (buf, p\<lparr>pr_inner := inner\<rparr>))"

definition prefixed_fill_buf :: "PrefixedReader \<Rightarrow> bytes" where
  "prefixed_fill_buf p =
     (if pr_prefix_pos p < pr_prefix_len p then drop (pr_prefix_pos p) (take (pr_prefix_len p) (pr_prefix p))
      else case pr_inner p of [] \<Rightarrow> [] | c # cs \<Rightarrow> c)"

definition prefixed_consume :: "usize \<Rightarrow> PrefixedReader \<Rightarrow> PrefixedReader" where
  "prefixed_consume amt p =
     (if pr_prefix_pos p < pr_prefix_len p then
        let available = pr_prefix_len p - pr_prefix_pos p;
            taken = min amt available;
            p' = p\<lparr>pr_prefix_pos := pr_prefix_pos p + taken\<rparr>;
            remaining = amt - taken
        in if remaining > 0 then p'\<lparr>pr_inner := inner_consume remaining (pr_inner p)\<rparr> else p'
      else p\<lparr>pr_inner := inner_consume amt (pr_inner p)\<rparr>)"

text \<open>All that a prefixed reader will deliver.\<close>

definition prefixed_bytes :: "PrefixedReader \<Rightarrow> bytes" where
  "prefixed_bytes p = drop (pr_prefix_pos p) (take (pr_prefix_len p) (pr_prefix p)) @ concat (pr_inner p)"

text \<open>
  \<^verbatim>\<open>DeflateAutoDecoder\<close>: up to two bytes are peeked one by one, an error before that is passed on, and the
  format they announce is decoded from the prefixed reader.
\<close>

definition finish_peek :: "codec \<Rightarrow> bytes \<Rightarrow> byte_stream \<Rightarrow> byte_stream" where
  "finish_peek codec peeked rest =
     (let use_zlib = looks_like_zlib_header peeked;
          prefixed = \<lparr>pr_prefix = peeked @ replicate (2 - length peeked) 0, pr_prefix_len = length peeked,
                      pr_prefix_pos = 0, pr_inner = [bs_data rest]\<rparr>
      in codec (if use_zlib then ZlibDecoder else DeflateDecoder)
           \<lparr>bs_data = prefixed_bytes prefixed, bs_error = bs_error rest\<rparr>)"

function deflate_peek :: "codec \<Rightarrow> bytes \<Rightarrow> byte_stream \<Rightarrow> byte_stream" where
  "deflate_peek codec peeked s =
     (if length peeked < 2 then
        (case bs_data s of
           [] \<Rightarrow> (case bs_error s of None \<Rightarrow> finish_peek codec peeked s | Some e \<Rightarrow> \<lparr>bs_data = [], bs_error = Some e\<rparr>)
         | b # bs \<Rightarrow> deflate_peek codec (peeked @ [b]) (s\<lparr>bs_data := bs\<rparr>))
      else finish_peek codec peeked s)"
  by pat_completeness auto
termination
  by (relation "measure (\<lambda>(_, peeked, _). 2 - length peeked)") auto

declare deflate_peek.simps [simp del]

fun decode_layer :: "codec \<Rightarrow> ResponseEncoding \<Rightarrow> byte_stream \<Rightarrow> byte_stream" where
  "decode_layer codec Brotli s = codec BrotliDecoder s"
| "decode_layer codec Gzip s = codec GzipDecoder s"
| "decode_layer codec Deflate s = deflate_peek codec [] s"
| "decode_layer codec Zstd s = codec ZstdDecoder s"

definition DECODE_BUFFER_SIZE :: usize where
  "DECODE_BUFFER_SIZE = 8 * 1024"

definition DEFAULT_MAX_DECOMPRESSED_BODY_BYTES :: usize where
  "DEFAULT_MAX_DECOMPRESSED_BODY_BYTES = 128 * 1024 * 1024"

text \<open>The body; the flag of the call context it sets is its last field.\<close>

record DecodedResponseBody =
  db_reader :: byte_stream
  db_label :: string
  db_max_decompressed_body_bytes :: usize
  db_decoded_bytes :: usize
  db_force_discard :: bool

definition decoded_body_new ::
  "codec \<Rightarrow> byte_stream \<Rightarrow> ResponseEncoding list \<Rightarrow> string \<Rightarrow> usize \<Rightarrow> DecodedResponseBody" where
  "decoded_body_new codec body encodings label max_decompressed_body_bytes =
     \<lparr>db_reader = fold (decode_layer codec) (rev encodings) body, db_label = label,
      db_max_decompressed_body_bytes = max_decompressed_body_bytes, db_decoded_bytes = 0, db_force_discard = False\<rparr>"

definition io_error_to_wire :: "io_error \<Rightarrow> string \<Rightarrow> WireError" where
  "io_error_to_wire error label =
     (case error of
        IoWire e \<Rightarrow> e
      | IoOther source \<Rightarrow> err_body (''failed to decode '' @ label @ '' response body'') source)"

definition limit_error :: "DecodedResponseBody \<Rightarrow> WireError" where
  "limit_error b =
     err_body (''decompressed '' @ db_label b @ '' response exceeded size limit '' @ show_nat (db_max_decompressed_body_bytes b))
       ''decompressed body too large''"

text \<open>One poll; the reader hands out \<open>Suc k\<close> bytes if it has them, and never more than the buffer holds.\<close>

definition decoded_poll_frame :: "nat \<Rightarrow> DecodedResponseBody \<Rightarrow> (WireError, bytes) result option \<times> DecodedResponseBody" where
  "decoded_poll_frame k b =
     (if bs_data (db_reader b) = [] then
        (case bs_error (db_reader b) of
           None \<Rightarrow> (None, b)
         | Some e \<Rightarrow> (Some (Inl (io_error_to_wire e (db_label b))), b\<lparr>db_force_discard := True\<rparr>))
      else
        let n = min (Suc k) DECODE_BUFFER_SIZE; buf = take n (bs_data (db_reader b));
            b1 = b\<lparr>db_reader := (db_reader b)\<lparr>bs_data := drop n (bs_data (db_reader b))\<rparr>\<rparr>
        in case checked_add USIZE_MAX (db_decoded_bytes b) (length buf) of
             None \<Rightarrow> (Some (Inl (limit_error b)), b1\<lparr>db_force_discard := True\<rparr>)
           | Some new_total \<Rightarrow>
               if new_total > db_max_decompressed_body_bytes b
               then (Some (Inl (limit_error b)), b1\<lparr>db_force_discard := True\<rparr>)
               else (Some (Inr buf), b1\<lparr>db_decoded_bytes := new_total\<rparr>))"

definition decode_response ::
  "features \<Rightarrow> codec \<Rightarrow> 'h header_ops \<Rightarrow> 'h response \<Rightarrow> byte_stream \<Rightarrow> http_method \<Rightarrow> usize \<Rightarrow>
     'h response \<times> DecodedResponseBody option" where
  "decode_response features codec ops response body request_method max_decompressed_body_bytes =
     (if \<not> response_can_have_body request_method (rsp_status response) then (response, None)
      else case supported_content_encodings features ops (rsp_headers response) of
        None \<Rightarrow> (response, None)
      | Some encodings \<Rightarrow>
          if encodings = [] then (response, None)
          else (response\<lparr>rsp_headers := hm_remove ops ''content-length'' (hm_remove ops ''content-encoding'' (rsp_headers response))\<rparr>,
                Some (decoded_body_new codec body encodings (join_comma (map encoding_as_str encodings))
                        max_decompressed_body_bytes)))"

section \<open>Specification\<close>

abbreviation plain_stream :: "bytes \<Rightarrow> byte_stream" where
  "plain_stream d \<equiv> \<lparr>bs_data = d, bs_error = None\<rparr>"

text \<open>
  What is relied on of the codecs: each decoder undoes the encoding of its name, and a \<^verbatim>\<open>deflate\<close> body
  is in the zlib format, which starts with the header of RFC 1950.
\<close>

definition codec_laws :: "(ResponseEncoding \<Rightarrow> bytes \<Rightarrow> bytes) \<Rightarrow> codec \<Rightarrow> bool" where
  "codec_laws enc codec \<longleftrightarrow>
     (\<forall>d. codec BrotliDecoder (plain_stream (enc Brotli d)) = plain_stream d \<and>
          codec GzipDecoder (plain_stream (enc Gzip d)) = plain_stream d \<and>
          codec ZlibDecoder (plain_stream (enc Deflate d)) = plain_stream d \<and>
          codec ZstdDecoder (plain_stream (enc Zstd d)) = plain_stream d \<and>
          looks_like_zlib_header (take 2 (enc Deflate d)))"

text \<open>The bodies a reader meets, with the bytes it has got so far.\<close>

inductive decoded_reads :: "DecodedResponseBody \<Rightarrow> bytes \<Rightarrow> DecodedResponseBody \<Rightarrow> bool" for b0 where
  reads_start: "decoded_reads b0 [] b0"
| reads_frame: "decoded_reads b0 out b \<Longrightarrow> decoded_poll_frame k b = (Some (Inr buf), b') \<Longrightarrow> decoded_reads b0 (out @ buf) b'"

section \<open>Lemmas\<close>

lemma encoding_parse_as_str: "features e \<Longrightarrow> encoding_parse features (encoding_as_str e) = Some e"
  by (cases e) (simp_all add: encoding_parse_def eq_ignore_ascii_case_def to_ascii_lowercase_def ascii_lower_def)

lemma encoding_as_str_plain:
  "encoding_as_str e \<noteq> []" "\<not> eq_ignore_ascii_case (encoding_as_str e) ''identity''"
  "c \<in> set (encoding_as_str e) \<Longrightarrow> c \<noteq> CHR '','' \<and> \<not> is_whitespace c"
  by (cases e; force simp: eq_ignore_ascii_case_def to_ascii_lowercase_def is_whitespace_def)+

lemma content_encoding_parts_names:
  assumes "map trim parts = map encoding_as_str es" and "\<forall>e \<in> set es. features e"
  shows "content_encoding_parts features parts acc = Some (acc @ es)"
  using assms
proof (induction parts arbitrary: es acc)
  case (Cons part parts)
  then obtain e es' where "es = e # es'" by (cases es) auto
  then show ?case using Cons encoding_as_str_plain encoding_parse_as_str [of features e] by simp
qed simp

lemma supported_content_encodings_names:
  assumes "hm_get_all ops headers ''content-encoding'' = [value]" and "to_str value = Some (join_comma (map encoding_as_str es))"
    and "es \<noteq> []" and "\<forall>e \<in> set es. features e"
  shows "supported_content_encodings features ops headers = Some es"
proof -
  have "map trim (split_on (CHR '','') (join_comma (map encoding_as_str es))) = map encoding_as_str es"
    using assms(3) encoding_as_str_plain(3) by (intro split_join_comma) auto
  from content_encoding_parts_names [OF this assms(4), of "[]"] show ?thesis
    by (simp add: supported_content_encodings_def assms(1,2))
qed

text \<open>The prefixed reader delivers the peeked bytes and then the rest, through both of its interfaces.\<close>

definition prefixed_wf :: "PrefixedReader \<Rightarrow> bool" where
  "prefixed_wf p \<longleftrightarrow> pr_prefix_pos p \<le> pr_prefix_len p \<and> pr_prefix_len p \<le> length (pr_prefix p)"

lemma prefixed_read_bytes:
  assumes "prefixed_wf p"
  shows "prefixed_bytes p = fst (prefixed_read n p) @ prefixed_bytes (snd (prefixed_read n p))"
    and "prefixed_wf (snd (prefixed_read n p))"
proof -
  have "take c (drop i (prefix :: bytes)) @ drop (i + c) (take l prefix) = drop i (take l prefix)"
    if "c \<le> l - i" "i < l" for c i l prefix
    using that take_add [of c "l - i - c" "drop i prefix"] by (simp add: drop_take add.commute)
  then show "prefixed_bytes p = fst (prefixed_read n p) @ prefixed_bytes (snd (prefixed_read n p))"
    by (auto simp: prefixed_bytes_def prefixed_read_def inner_read_def Let_def split: list.split)
  show "prefixed_wf (snd (prefixed_read n p))"
    using assms by (auto simp: prefixed_wf_def prefixed_read_def Let_def split: prod.split)
qed

lemma prefixed_consume_bytes:
  assumes "prefixed_wf p" and "amt \<le> length (prefixed_fill_buf p)"
  shows "prefixed_bytes p = take amt (prefixed_fill_buf p) @ prefixed_bytes (prefixed_consume amt p)"
proof (cases "pr_prefix_pos p < pr_prefix_len p")
  case True
  have split: "take amt (drop i ys) @ drop (i + amt) ys = drop i (ys :: bytes)" for i ys
    by (metis add.commute append_take_drop_id drop_drop)
  have "amt \<le> pr_prefix_len p - pr_prefix_pos p"
    using assms True by (simp add: prefixed_wf_def prefixed_fill_buf_def)
  then show ?thesis using True split [of "pr_prefix_pos p" "take (pr_prefix_len p) (pr_prefix p)"]
    by (simp add: prefixed_bytes_def prefixed_fill_buf_def prefixed_consume_def Let_def flip: append.assoc)
next
  case False
  then show ?thesis using assms
    by (auto simp: prefixed_bytes_def prefixed_fill_buf_def prefixed_consume_def inner_consume_def split: list.split)
qed

lemma deflate_peek_whole:
  "deflate_peek codec [] s =
     (if length (bs_data s) < 2 \<and> bs_error s \<noteq> None then \<lparr>bs_data = [], bs_error = bs_error s\<rparr>
      else codec (if looks_like_zlib_header (take 2 (bs_data s)) then ZlibDecoder else DeflateDecoder)
             \<lparr>bs_data = bs_data s, bs_error = bs_error s\<rparr>)"
  by (cases "bs_data s" rule: remdups_adj.cases)
     (simp_all add: deflate_peek.simps [of codec] finish_peek_def prefixed_bytes_def split: option.split)

lemma decode_layers_inverse:
  assumes "codec_laws enc codec"
  shows "fold (decode_layer codec) (rev es) (plain_stream (fold enc es d)) = plain_stream d"
proof (induction es arbitrary: d)
  case (Cons e es)
  have "decode_layer codec e (plain_stream (enc e d)) = plain_stream d"
    using assms by (cases e) (simp_all add: codec_laws_def deflate_peek_whole)
  then show ?case using Cons [of "enc e d"] by simp
qed simp

lemma decoded_reads_inv:
  assumes "decoded_reads b0 out b"
  shows "bs_data (db_reader b0) = out @ bs_data (db_reader b) \<and> bs_error (db_reader b) = bs_error (db_reader b0) \<and>
    db_decoded_bytes b = db_decoded_bytes b0 + length out \<and> db_label b = db_label b0 \<and>
    db_max_decompressed_body_bytes b = db_max_decompressed_body_bytes b0 \<and>
    (out = [] \<or> db_decoded_bytes b0 + length out \<le> db_max_decompressed_body_bytes b0)"
  using assms
proof (induction rule: decoded_reads.induct)
  case (reads_frame out b k buf b')
  from reads_frame.hyps(2) have
    "buf = take (min (Suc k) DECODE_BUFFER_SIZE) (bs_data (db_reader b)) \<and>
     bs_data (db_reader b') = drop (min (Suc k) DECODE_BUFFER_SIZE) (bs_data (db_reader b)) \<and>
     bs_error (db_reader b') = bs_error (db_reader b) \<and> db_label b' = db_label b \<and>
     db_max_decompressed_body_bytes b' = db_max_decompressed_body_bytes b \<and>
     db_decoded_bytes b' = db_decoded_bytes b + length buf \<and> db_decoded_bytes b' \<le> db_max_decompressed_body_bytes b"
    by (auto simp: decoded_poll_frame_def Let_def split: if_splits option.splits)
  then show ?case using reads_frame.IH by auto
qed simp

text \<open>
  C30.  Transparent decompression.  A response whose body the server encoded with the codings it names, in that order, is
  delivered decoded and without the headers of the encoded form: whatever the sizes of the reads, the frames are
  a prefix of the original data, never more than the limit in total; the body ends exactly when all of
  the data has been delivered, and it fails only if the data is larger than the limit, and then the
  connection is marked to be discarded.
\<close>

theorem decoded_response_correct:
  assumes "header_map_laws ops" and "codec_laws enc codec"
    and "es \<noteq> []" and "\<forall>e \<in> set es. features e"
    and "hm_get_all ops (rsp_headers response) ''content-encoding'' = [value]"
    and "to_str value = Some (join_comma (map encoding_as_str es))"
    and "response_can_have_body request_method (rsp_status response)" and "mx \<le> USIZE_MAX"
  shows "\<exists>r b0. decode_response features codec ops response (plain_stream (fold enc es d)) request_method mx = (r, Some b0) \<and>
    (\<forall>n. hm_get_all ops (rsp_headers r) n =
       (if n = ''content-encoding'' \<or> n = ''content-length'' then [] else hm_get_all ops (rsp_headers response) n)) \<and>
    (\<forall>out b k. decoded_reads b0 out b \<longrightarrow> prefix out d \<and> length out \<le> mx \<and>
       (case decoded_poll_frame k b of
          (None, b') \<Rightarrow> out = d
        | (Some (Inr buf), b') \<Rightarrow> buf \<noteq> [] \<and> out \<noteq> d
        | (Some (Inl e), b') \<Rightarrow> mx < length d \<and> db_force_discard b'))"
proof -
  let ?b = "decoded_body_new codec (plain_stream (fold enc es d)) es (join_comma (map encoding_as_str es)) mx"
  have b: "db_reader ?b = plain_stream d" "db_decoded_bytes ?b = 0" "db_max_decompressed_body_bytes ?b = mx"
    by (simp_all add: decoded_body_new_def decode_layers_inverse [OF assms(2)])
  have "prefix out d \<and> length out \<le> mx \<and>
       (case decoded_poll_frame k b of
          (None, b') \<Rightarrow> out = d
        | (Some (Inr buf), b') \<Rightarrow> buf \<noteq> [] \<and> out \<noteq> d
        | (Some (Inl e), b') \<Rightarrow> mx < length d \<and> db_force_discard b')" if r: "decoded_reads ?b out b" for out b k
  proof -
    have I: "d = out @ bs_data (db_reader b)" "bs_error (db_reader b) = None" "db_decoded_bytes b = length out"
      "db_max_decompressed_body_bytes b = mx" "length out \<le> mx"
      using decoded_reads_inv [OF r] b by auto
    then show ?thesis using assms(8)
      by (auto simp: decoded_poll_frame_def Let_def DECODE_BUFFER_SIZE_def min_def split: option.split)
  qed
  then show ?thesis
    using assms(7) supported_content_encodings_names [OF assms(5,6,3,4)] assms(3)
    by (simp add: decode_response_def hm_get_all_remove [OF assms(1)])
qed

definition zx_enc :: "ResponseEncoding \<Rightarrow> bytes \<Rightarrow> bytes" where
  "zx_enc e d = (if e = Deflate then [120, 156] else [31, 139]) @ d"

definition zx_codec :: codec where
  "zx_codec decoder s = s\<lparr>bs_data := drop 2 (bs_data s)\<rparr>"

definition zx_response :: "(header_name \<times> header_value) list response" where
  "zx_response = \<lparr>rsp_status = 200, rsp_version = HTTP_11,
     rsp_headers = [(''content-encoding'', str_bytes ''deflate, gzip''), (''content-length'', str_bytes ''7'')],
     rsp_selected_proxy = None, rsp_coalesced_connection_retryable = False, rsp_body = []\<rparr>"

lemma zx_laws: "codec_laws zx_enc zx_codec"
  by (simp add: codec_laws_def zx_enc_def zx_codec_def looks_like_zlib_header_def)

theorem decoded_response_correct_witness:
  "codec_laws zx_enc zx_codec \<and>
   (\<exists>r b0. decode_response (\<lambda>e. True) zx_codec assoc_headers zx_response
       (plain_stream (fold zx_enc [Deflate, Gzip] [1, 2, 3])) GET 2 = (r, Some b0) \<and>
     rsp_headers r = [] \<and> fst (decoded_poll_frame 1 b0) = Some (Inr [1, 2]) \<and>
     (\<forall>out b. decoded_reads b0 out b \<longrightarrow> length out \<le> 2))"
proof -
  let ?es = "[Deflate, Gzip]" and ?d = "[1, 2, 3] :: bytes"
  let ?r = "decode_response (\<lambda>e. True) zx_codec assoc_headers zx_response (plain_stream (fold zx_enc ?es ?d)) GET 2"
  have pre: "hm_get_all assoc_headers (rsp_headers zx_response) ''content-encoding'' = [str_bytes ''deflate, gzip'']"
    "to_str (str_bytes ''deflate, gzip'') = Some (join_comma (map encoding_as_str ?es))"
    "response_can_have_body GET (rsp_status zx_response)" "(2 :: nat) \<le> USIZE_MAX"
    by code_simp+
  have run: "rsp_headers (fst ?r) = [] \<and> map_option (\<lambda>b. fst (decoded_poll_frame 1 b)) (snd ?r) = Some (Some (Inr [1, 2]))"
    by code_simp
  have es: "?es \<noteq> []" "\<forall>e \<in> set ?es. True" by simp_all
  from decoded_response_correct [OF assoc_headers_laws zx_laws es pre, of ?d]
  obtain r b0 where r: "?r = (r, Some b0)" "\<forall>out b. decoded_reads b0 out b \<longrightarrow> length out \<le> 2" by blast
  then show ?thesis using run zx_laws by auto
qed

end
