(* ===== verification/Bridge.thy ===== *)
theory Bridge
  imports WS_Handshake Compression
begin

text \<open>
  The bridge from calls to wire requests, a model of \<^verbatim>\<open>openwire/src/bridge.rs\<close>: it completes the headers of a request
  from its URI and body, injects the WebSocket handshake, asks for compression, and decodes the response.
\<close>

section \<open>Model\<close>

record 'h bridge_env =
  be_websocket :: "'h ws_env"
  be_features :: features
  be_codec :: codec
  be_version :: string

definition DEFAULT_USER_AGENT :: "'h bridge_env \<Rightarrow> string" where
  "DEFAULT_USER_AGENT env = ''openwire/'' @ be_version env"

definition is_default_port :: "string option \<Rightarrow> u16 \<Rightarrow> bool" where
  "is_default_port scheme port =
     (case scheme of
        None \<Rightarrow> False
      | Some scheme \<Rightarrow>
          eq_ignore_ascii_case scheme ''http'' \<and> port = 80 \<or> eq_ignore_ascii_case scheme ''https'' \<and> port = 443)"

definition synthesized_host_header :: "uri \<Rightarrow> (WireError, header_value) result" where
  "synthesized_host_header uri =
     (case uri_authority uri of
        None \<Rightarrow> Inl (err_invalid_request ''request URI is missing an authority'')
      | Some authority \<Rightarrow>
          (case uri_host uri of
             None \<Rightarrow> Inl (err_invalid_request ''request URI is missing a host'')
           | Some host \<Rightarrow>
               let authority' = (case uri_port_u16 uri of
                     Some port \<Rightarrow> if \<not> is_default_port (uri_scheme_str uri) port then authority else host
                   | None \<Rightarrow> host)
               in case header_value_from_str (str_bytes authority') of
                    None \<Rightarrow> Inl (err_invalid_request
                      ''request URI authority is not a valid Host header: failed to parse header value'')
                  | Some v \<Rightarrow> Inr v))"

definition normalize_host_header ::
  "'h bridge_env \<Rightarrow> bool \<Rightarrow> ('h, 'x) request \<Rightarrow> (WireError, ('h, 'x) request) result" where
  "normalize_host_header env strict_host_header request =
     (let ops = wse_headers (be_websocket env) in
      case synthesized_host_header (rq_uri request) of
        Inl e \<Rightarrow> Inl e
      | Inr expected \<Rightarrow>
          (case header_get ops (rq_headers request) ''host'' of
             Some existing \<Rightarrow>
               if strict_host_header then
                 (case to_str existing of
                    None \<Rightarrow> Inl (err_invalid_request
                      ''Host header is not valid ASCII: failed to convert header to a str'')
                  | Some existing \<Rightarrow>
                      (case to_str expected of
                         None \<Rightarrow> Inl (err_invalid_request
                           ''synthesized Host header is not valid ASCII: failed to convert header to a str'')
                       | Some expected \<Rightarrow>
                           if \<not> eq_ignore_ascii_case existing expected
                           then Inl (err_invalid_request
                             (''Host header '' @ wse_debug (be_websocket env) existing @ '' does not match request URI authority''))
                           else Inr request))
               else Inr request
           | None \<Rightarrow> Inr (request\<lparr>rq_headers := hm_insert ops ''host'' expected (rq_headers request)\<rparr>)))"

definition normalize_user_agent_header :: "'h bridge_env \<Rightarrow> ('h, 'x) request \<Rightarrow> ('h, 'x) request" where
  "normalize_user_agent_header env request =
     (let ops = wse_headers (be_websocket env) in
      if \<not> contains_key ops (rq_headers request) ''user-agent''
      then request\<lparr>rq_headers := hm_insert ops ''user-agent'' (str_bytes (DEFAULT_USER_AGENT env)) (rq_headers request)\<rparr>
      else request)"

definition uses_chunked_transfer_encoding :: "http_version \<Rightarrow> bool" where
  "uses_chunked_transfer_encoding version \<longleftrightarrow> version = HTTP_11"

definition normalize_body_headers :: "'h header_ops \<Rightarrow> ('h, 'x) request \<Rightarrow> ('h, 'x) request" where
  "normalize_body_headers ops request =
     (let headers = rq_headers request in
      request\<lparr>rq_headers :=
        (if body_is_absent (rq_body request)
         then hm_remove ops ''transfer-encoding'' (hm_remove ops ''content-length'' headers)
         else case rb_replayable_len (rq_body request) of
           Some len \<Rightarrow> hm_remove ops ''transfer-encoding'' (hm_insert ops ''content-length'' (str_bytes (show_nat len)) headers)
         | None \<Rightarrow>
             let headers' = hm_remove ops ''content-length'' headers in
             if uses_chunked_transfer_encoding (rq_version request)
             then hm_insert ops ''transfer-encoding'' (str_bytes ''chunked'') headers'
             else hm_remove ops ''transfer-encoding'' headers')\<rparr>)"

definition normalize_request ::
  "'h bridge_env \<Rightarrow> bool \<Rightarrow> ('h, 'x) request \<Rightarrow> (WireError, bool \<times> ('h, 'x) request) result" where
  "normalize_request env strict_host_header request =
     (let ops = wse_headers (be_websocket env) in
      case (case ext_websocket_marker (rq_extensions request) of
              Some marker \<Rightarrow> inject_handshake (be_websocket env) marker request
            | None \<Rightarrow> Inr request) of
        Inl e \<Rightarrow> Inl e
      | Inr request1 \<Rightarrow>
          (case normalize_host_header env strict_host_header request1 of
             Inl e \<Rightarrow> Inl e
           | Inr request2 \<Rightarrow>
               Inr (compression_normalize_request (be_features env) ops
                      (normalize_body_headers ops (normalize_user_agent_header env request2)))))"

text \<open>The interceptor; the rest of the chain answers the normalized request with a response and its body.\<close>

definition bridge_intercept ::
  "'h bridge_env \<Rightarrow> usize \<Rightarrow> bool \<Rightarrow> (('h, 'x) request \<Rightarrow> (WireError, 'h response \<times> byte_stream) result) \<Rightarrow>
     ('h, 'x) request \<Rightarrow> (WireError, 'h response \<times> byte_stream \<times> DecodedResponseBody option) result" where
  "bridge_intercept env max_decompressed_body_bytes strict_host_header next request =
     (case normalize_request env strict_host_header request of
        Inl e \<Rightarrow> Inl e
      | Inr (transparent_compression, request') \<Rightarrow>
          (case next request' of
             Inl e \<Rightarrow> Inl e
           | Inr (response, body) \<Rightarrow>
               if transparent_compression
               then (case decode_response (be_features env) (be_codec env) (wse_headers (be_websocket env)) response body
                            (rq_method request) max_decompressed_body_bytes of
                       (response', decoded) \<Rightarrow> Inr (response', body, decoded))
               else Inr (response, body, None)))"

section \<open>Properties\<close>

definition ws_header_names :: "header_name list" where
  "ws_header_names = [''upgrade'', ''connection'', ''sec-websocket-version'', ''sec-websocket-key'', ''sec-websocket-protocol'']"

definition bridge_header_names :: "header_name list" where
  "bridge_header_names = [''host'', ''user-agent'', ''content-length'', ''transfer-encoding'', ''accept-encoding'']"

lemma inject_handshake_frame:
  assumes "header_map_laws (wse_headers env)" and "with_scheme_laws (wse_with_scheme env)"
    and "inject_handshake env marker request = Inr r"
  shows "rq_body r = rq_body request" and "rq_method r = rq_method request"
    and "n \<notin> set ws_header_names \<Longrightarrow> hm_get_all (wse_headers env) (rq_headers r) n = hm_get_all (wse_headers env) (rq_headers request) n"
proof -
  obtain r1 where r1: "rewrite_scheme env request = Inr r1"
    using assms(3) by (auto simp: inject_handshake_def Let_def split: sum.splits)
  note R = rewrite_scheme_Inr [OF r1 assms(2)]
  show "rq_body r = rq_body request" "rq_method r = rq_method request"
    using assms(3) R by (auto simp: inject_handshake_def Let_def r1 split: sum.splits)
  show "hm_get_all (wse_headers env) (rq_headers r) n = hm_get_all (wse_headers env) (rq_headers request) n"
    if n: "n \<notin> set ws_header_names"
    using assms(3) R n
    by (auto simp: inject_handshake_def Let_def r1 ws_header_names_def insert_header_str_def hm_get_all_insert [OF assms(1)]
        split: sum.splits option.splits if_splits)
qed

text \<open>The frame of the steps after the handshake.\<close>

lemma normalize_host_header_Inr:
  assumes "header_map_laws (wse_headers (be_websocket env))" and "normalize_host_header env strict request = Inr r"
  shows "\<exists>expected. synthesized_host_header (rq_uri request) = Inr expected \<and>
    r = request\<lparr>rq_headers := rq_headers r\<rparr> \<and>
    (\<forall>n. hm_get_all (wse_headers (be_websocket env)) (rq_headers r) n =
       (if n = ''host'' \<and> hm_get_all (wse_headers (be_websocket env)) (rq_headers request) ''host'' = [] then [expected]
        else hm_get_all (wse_headers (be_websocket env)) (rq_headers request) n)) \<and>
    (strict \<longrightarrow> (\<exists>v vs a b. hm_get_all (wse_headers (be_websocket env)) (rq_headers r) ''host'' = v # vs \<and>
       to_str v = Some a \<and> to_str expected = Some b \<and> eq_ignore_ascii_case a b))"
proof -
  have to: "to_str v = Some (map byte_char v)" if "synthesized_host_header u = Inr v" for u v
    using that by (auto simp: synthesized_host_header_def header_value_from_str_def to_str_def Let_def
        split: option.splits if_splits)
  show ?thesis using assms(2)
    by (auto simp: normalize_host_header_def Let_def header_get_def hm_get_all_insert [OF assms(1)] eq_ignore_ascii_case_def
        split: sum.splits option.splits list.splits if_splits dest: to)
qed

lemma normalize_user_agent_get:
  assumes "header_map_laws (wse_headers (be_websocket env))"
  shows "hm_get_all (wse_headers (be_websocket env)) (rq_headers (normalize_user_agent_header env request)) n =
    (if n = ''user-agent'' \<and> hm_get_all (wse_headers (be_websocket env)) (rq_headers request) n = []
     then [str_bytes (DEFAULT_USER_AGENT env)] else hm_get_all (wse_headers (be_websocket env)) (rq_headers request) n)"
  by (auto simp: normalize_user_agent_header_def Let_def contains_key_def hm_get_all_insert [OF assms])

lemma normalize_body_get:
  assumes "header_map_laws ops"
  shows "hm_get_all ops (rq_headers (normalize_body_headers ops request)) n =
    (if n = ''content-length'' then
       (if body_is_absent (rq_body request) then []
        else case rb_replayable_len (rq_body request) of Some len \<Rightarrow> [str_bytes (show_nat len)] | None \<Rightarrow> [])
     else if n = ''transfer-encoding'' then
       (if \<not> body_is_absent (rq_body request) \<and> rb_replayable_len (rq_body request) = None \<and> rq_version request = HTTP_11
        then [str_bytes ''chunked''] else [])
     else hm_get_all ops (rq_headers request) n)"
  by (auto simp: normalize_body_headers_def Let_def uses_chunked_transfer_encoding_def hm_get_all_insert [OF assms]
      hm_get_all_remove [OF assms] split: option.split)

lemma compression_normalize_get:
  assumes "header_map_laws ops" and "compression_normalize_request features ops request = (compress, r)"
  shows "rq_body r = rq_body request \<and> rq_method r = rq_method request \<and> rq_uri r = rq_uri request \<and> rq_version r = rq_version request \<and>
    (n \<noteq> ''accept-encoding'' \<longrightarrow> hm_get_all ops (rq_headers r) n = hm_get_all ops (rq_headers request) n)"
  using assms(2)
  by (auto simp: compression_normalize_request_def hm_get_all_insert [OF assms(1)] split: if_splits option.splits)

definition normalized_header ::
  "'h bridge_env \<Rightarrow> ('h, 'x) request \<Rightarrow> (header_name \<Rightarrow> header_value list) \<Rightarrow> header_value \<Rightarrow> header_name \<Rightarrow> header_value list" where
  "normalized_header env r get host n =
     (if n = ''content-length'' then (if body_is_absent (rq_body r) then []
          else case rb_replayable_len (rq_body r) of Some len \<Rightarrow> [str_bytes (show_nat len)] | None \<Rightarrow> [])
      else if n = ''transfer-encoding'' then
        (if \<not> body_is_absent (rq_body r) \<and> rb_replayable_len (rq_body r) = None \<and> rq_version r = HTTP_11
         then [str_bytes ''chunked''] else [])
      else if n = ''user-agent'' \<and> get n = [] then [str_bytes (DEFAULT_USER_AGENT env)]
      else if n = ''host'' \<and> get n = [] then [host]
      else get n)"

lemma normalize_request_frame:
  fixes request :: "('h, 'x) request"
  assumes "header_map_laws (wse_headers (be_websocket env))" and "with_scheme_laws (wse_with_scheme (be_websocket env))"
    and "normalize_request env strict request = Inr (compress, r)"
  obtains h host where "rq_body r = rq_body request" and "rq_method r = rq_method request"
    and "synthesized_host_header (rq_uri r) = Inr host"
    and "\<And>n. ext_websocket_marker (rq_extensions request) = None \<or> n \<notin> set ws_header_names \<Longrightarrow>
      hm_get_all (wse_headers (be_websocket env)) h n = hm_get_all (wse_headers (be_websocket env)) (rq_headers request) n"
    and "\<And>n. n \<noteq> ''accept-encoding'' \<Longrightarrow> hm_get_all (wse_headers (be_websocket env)) (rq_headers r) n =
      normalized_header env r (hm_get_all (wse_headers (be_websocket env)) h) host n"
    and "strict \<Longrightarrow> \<exists>v vs a b. hm_get_all (wse_headers (be_websocket env)) (rq_headers r) ''host'' = v # vs \<and>
      to_str v = Some a \<and> to_str host = Some b \<and> eq_ignore_ascii_case a b"
proof -
  let ?ops = "wse_headers (be_websocket env)"
  let ?get = "hm_get_all ?ops"
  obtain r1 where r1: "(case ext_websocket_marker (rq_extensions request) of
        Some marker \<Rightarrow> inject_handshake (be_websocket env) marker request | None \<Rightarrow> Inr request) = Inr r1"
    using assms(3) by (auto simp: normalize_request_def Let_def split: sum.splits)
  have b1: "rq_body r1 = rq_body request \<and> rq_method r1 = rq_method request \<and>
      (\<forall>n. ext_websocket_marker (rq_extensions request) = None \<or> n \<notin> set ws_header_names \<longrightarrow>
        ?get (rq_headers r1) n = ?get (rq_headers request) n)"
    using r1 inject_handshake_frame [OF assms(1,2)] by (auto split: option.splits)
  obtain r2 where r2: "normalize_host_header env strict r1 = Inr r2"
    and c: "compression_normalize_request (be_features env) ?ops
      (normalize_body_headers ?ops (normalize_user_agent_header env r2)) = (compress, r)"
    using assms(3) r1 by (auto simp: normalize_request_def Let_def split: sum.splits)
  obtain host where h: "synthesized_host_header (rq_uri r1) = Inr host" "r2 = r1\<lparr>rq_headers := rq_headers r2\<rparr>"
    "\<And>n. ?get (rq_headers r2) n = (if n = ''host'' \<and> ?get (rq_headers r1) ''host'' = [] then [host] else ?get (rq_headers r1) n)"
    "strict \<longrightarrow> (\<exists>v vs a b. ?get (rq_headers r2) ''host'' = v # vs \<and> to_str v = Some a \<and> to_str host = Some b \<and> eq_ignore_ascii_case a b)"
    using normalize_host_header_Inr [OF assms(1) r2] by blast
  have same: "rq_body r2 = rq_body r1" "rq_method r2 = rq_method r1" "rq_uri r2 = rq_uri r1" "rq_version r2 = rq_version r1"
    using h(2) by (metis request.select_convs request.surjective request.update_convs(4))+
  have ua: "rq_body (normalize_user_agent_header env q) = rq_body q" "rq_method (normalize_user_agent_header env q) = rq_method q"
    "rq_uri (normalize_user_agent_header env q) = rq_uri q" "rq_version (normalize_user_agent_header env q) = rq_version q"
    "rq_body (normalize_body_headers ?ops q) = rq_body q" "rq_method (normalize_body_headers ?ops q) = rq_method q"
    "rq_uri (normalize_body_headers ?ops q) = rq_uri q" "rq_version (normalize_body_headers ?ops q) = rq_version q" for q :: "('h, 'x) request"
    by (simp_all add: normalize_user_agent_header_def normalize_body_headers_def Let_def)
  note C = compression_normalize_get [OF assms(1) c]
  have G: "?get (rq_headers r) n = normalized_header env r (?get (rq_headers r1)) host n" if "n \<noteq> ''accept-encoding''" for n
    using that C [of n] h(3)
    by (auto simp: normalized_header_def normalize_body_get [OF assms(1)] normalize_user_agent_get [OF assms(1)] ua)
  have "?get (rq_headers r) ''host'' = ?get (rq_headers r2) ''host''" by (simp add: G h(3) normalized_header_def)
  then have strict: "\<exists>v vs a b. ?get (rq_headers r) ''host'' = v # vs \<and> to_str v = Some a \<and> to_str host = Some b \<and> eq_ignore_ascii_case a b"
    if strict using h(4) that by simp
  have "rq_body r = rq_body request" "rq_method r = rq_method request" "rq_uri r = rq_uri r1"
    using C b1 same ua by simp_all
  then show ?thesis using h(1) b1 G strict by (intro that [of host "rq_headers r1"]) auto
qed

text \<open>The bytes of a body that has not been read yet.\<close>

definition body_data :: "RequestBody \<Rightarrow> bytes" where
  "body_data b = concat (map (\<lambda>f. case f of Inr bs \<Rightarrow> bs | Inl _ \<Rightarrow> []) (body_frames b))"

definition body_unread :: "RequestBody \<Rightarrow> bool" where
  "body_unread b \<longleftrightarrow> (\<forall>bs emitted. rb_inner b = Replayable bs emitted \<longrightarrow> \<not> emitted)"

lemma body_data_length:
  assumes "body_wf b" and "body_unread b" and "rb_replayable_len b = Some n"
  shows "length (body_data b) = n"
  using assms
  by (cases "rb_inner b")
     (auto simp: body_wf_def body_unread_def body_data_def body_frames_inner body_frames_replayable)

text \<open>
  C31.  Request framing.  A normalized request announces its body in exactly one way: by a length, which is the
  number of bytes the body will send, by the chunked coding of HTTP/1.1 when the length is not known, or,
  when there is no body, not at all; headers of the application that say otherwise are replaced.  It has a host,
  the given one or that of the URI, which in strict mode agree.  No other header changes but those of the handshake
  and of the negotiation.
\<close>

theorem bridge_framing:
  assumes "header_map_laws (wse_headers (be_websocket env))" and "with_scheme_laws (wse_with_scheme (be_websocket env))"
    and "normalize_request env strict request = Inr (compress, r)"
    and "body_wf (rq_body request)" and "body_unread (rq_body request)"
  shows "let get = hm_get_all (wse_headers (be_websocket env)) (rq_headers r) in
    rq_body r = rq_body request \<and> rq_method r = rq_method request \<and>
    (get ''content-length'', get ''transfer-encoding'') =
      (if body_is_absent (rq_body r) then ([], [])
       else if rb_replayable_len (rq_body r) \<noteq> None then ([str_bytes (show_nat (length (body_data (rq_body r))))], [])
       else ([], if rq_version r = HTTP_11 then [str_bytes ''chunked''] else [])) \<and>
    (\<exists>host. synthesized_host_header (rq_uri r) = Inr host \<and>
       get ''host'' = (case hm_get_all (wse_headers (be_websocket env)) (rq_headers request) ''host'' of [] \<Rightarrow> [host] | vs \<Rightarrow> vs) \<and>
       (strict \<longrightarrow> (\<exists>v vs a b. get ''host'' = v # vs \<and> to_str v = Some a \<and> to_str host = Some b \<and> eq_ignore_ascii_case a b))) \<and>
    get ''user-agent'' \<noteq> [] \<and>
    (\<forall>n. n \<notin> set bridge_header_names \<and> (ext_websocket_marker (rq_extensions request) = None \<or> n \<notin> set ws_header_names) \<longrightarrow>
       get n = hm_get_all (wse_headers (be_websocket env)) (rq_headers request) n)"
proof -
  let ?get = "hm_get_all (wse_headers (be_websocket env))"
  obtain h host where body: "rq_body r = rq_body request" "rq_method r = rq_method request"
    and host: "synthesized_host_header (rq_uri r) = Inr host"
    and h: "\<And>n. ext_websocket_marker (rq_extensions request) = None \<or> n \<notin> set ws_header_names \<Longrightarrow>
      ?get h n = ?get (rq_headers request) n"
    and G: "\<And>n. n \<noteq> ''accept-encoding'' \<Longrightarrow> ?get (rq_headers r) n = normalized_header env r (?get h) host n"
    and strict: "strict \<Longrightarrow> \<exists>v vs a b. ?get (rq_headers r) ''host'' = v # vs \<and> to_str v = Some a \<and>
      to_str host = Some b \<and> eq_ignore_ascii_case a b"
    by (rule normalize_request_frame [OF assms(1-3)]) (rule that; simp)
  have len: "rb_replayable_len (rq_body r) = Some len \<Longrightarrow> len = length (body_data (rq_body r))" for len
    using body_data_length [OF assms(4,5)] body by simp
  have "''host'' \<notin> set ws_header_names" by code_simp
  then have "?get (rq_headers r) ''host'' = (case ?get (rq_headers request) ''host'' of [] \<Rightarrow> [host] | vs \<Rightarrow> vs)"
    by (simp add: G h normalized_header_def split: list.split)
  moreover have "?get (rq_headers r) n = ?get (rq_headers request) n"
    if "n \<notin> set bridge_header_names" "ext_websocket_marker (rq_extensions request) = None \<or> n \<notin> set ws_header_names" for n
    using that h [of n] G [of n] by (auto simp: bridge_header_names_def normalized_header_def)
  moreover have "(?get (rq_headers r) ''content-length'', ?get (rq_headers r) ''transfer-encoding'') =
      (if body_is_absent (rq_body r) then ([], [])
       else if rb_replayable_len (rq_body r) \<noteq> None then ([str_bytes (show_nat (length (body_data (rq_body r))))], [])
       else ([], if rq_version r = HTTP_11 then [str_bytes ''chunked''] else []))"
    using len by (auto simp: G normalized_header_def split: option.split)
  moreover have "?get (rq_headers r) ''user-agent'' \<noteq> []" by (simp add: G normalized_header_def)
  ultimately show ?thesis unfolding Let_def using body host strict by auto
qed

definition bx_env :: "(header_name \<times> header_value) list bridge_env" where
  "bx_env = \<lparr>be_websocket = wx_env, be_features = (\<lambda>e. e = Gzip), be_codec = zx_codec, be_version = ''1''\<rparr>"

theorem bridge_framing_witness:
  "\<exists>r. normalize_request bx_env True (wx_request\<lparr>rq_uri := ex_uri, rq_body := body_from_bytes [1, 2],
         rq_headers := [(''transfer-encoding'', str_bytes ''chunked''), (''host'', str_bytes ''A.t'')]\<rparr>) = Inr (True, r) \<and>
     hm_get_all assoc_headers (rq_headers r) ''content-length'' = [str_bytes ''2''] \<and>
     hm_get_all assoc_headers (rq_headers r) ''transfer-encoding'' = []"
proof -
  let ?q = "wx_request\<lparr>rq_uri := ex_uri, rq_body := body_from_bytes [1, 2],
         rq_headers := [(''transfer-encoding'', str_bytes ''chunked''), (''host'', str_bytes ''A.t'')]\<rparr>"
  have env: "wse_headers (be_websocket bx_env) = assoc_headers" "header_map_laws (wse_headers (be_websocket bx_env))"
    "with_scheme_laws (wse_with_scheme (be_websocket bx_env))"
    by (simp_all add: bx_env_def wx_env_def assoc_headers_laws with_scheme_laws_def)
  have body: "rq_body ?q = body_from_bytes [1, 2]" "body_wf (rq_body ?q)" "body_unread (rq_body ?q)"
    by (simp_all add: body_unread_def body_from_bytes_def body_wf_def)
  have data: "length (body_data (body_from_bytes [1, 2])) = 2"
    by (rule body_data_length) (simp_all add: body_wf_def body_unread_def body_from_bytes_def)
  have two: "show_nat 2 = ''2''" "\<not> body_is_absent (body_from_bytes [1, 2])" "rb_replayable_len (body_from_bytes [1, 2]) \<noteq> None"
    by code_simp+
  have "case normalize_request bx_env True ?q of Inr (c, r) \<Rightarrow> c | _ \<Rightarrow> False" by code_simp
  then obtain r where r: "normalize_request bx_env True ?q = Inr (True, r)" by (auto split: sum.splits prod.splits)
  from bridge_framing [OF env(2,3) r body(2,3)] show ?thesis
    using r two by (auto simp: Let_def env(1) body(1) data)
qed

end
