(* ===== verification/WS_Writer.thy ===== *)
theory WS_Writer
  imports WS_Handshake WS_Codec
begin

text \<open>
  An open WebSocket: a model of \<^verbatim>\<open>openwire/src/websocket/writer.rs\<close>, \<^verbatim>\<open>public.rs\<close> and \<^verbatim>\<open>instrumented.rs\<close>.  A
  writer, a reader and a heartbeat task share four flags and three bounded channels with the two handles of the
  user.  Each task is a program, a list of the actions it still has to carry out; an action is one access to the
  shared state, so that the step relation at the end of the theory has every interleaving of the tasks.  What the
  engine's stream yields, what its sink answers and when a timer fires are free in every step.
\<close>

section \<open>Data\<close>

datatype TimeoutKind = TimeoutHandshake | TimeoutClose | TimeoutPing

datatype WebSocketError =
    HandshakeError "nat option" HandshakeFailure
  | EngineError WebSocketEngineError
  | ClosedByPeer u16 bytes
  | TimeoutError TimeoutKind
  | IoError WireError
  | LocalCancelled

datatype CloseInitiator = InitiatedLocal | InitiatedRemote

text \<open>The acknowledgement channel of a close command belongs to the only call that can send the command.\<close>

datatype WriterCommand =
    CmdPong bytes
  | CmdPing bytes
  | CmdClose u16 bytes
  | CmdCloseAck u16 bytes
  | CmdPingTimeout
  | CmdCancel

definition CONTROL_LANE_CAPACITY :: usize where
  "CONTROL_LANE_CAPACITY = 8"

record HeartbeatConfig =
  hc_interval :: duration
  hc_pong_timeout :: duration

text \<open>
  The context and the listener are optional; of each only its presence matters.  \<open>sc_display\<close> is the text of an
  error, which the derive macro of the error crate produces.
\<close>

record SessionConfig =
  sc_queue_size :: usize
  sc_deliver_control_frames :: bool
  sc_heartbeat :: "HeartbeatConfig option"
  sc_ctx :: bool
  sc_listener :: bool
  sc_display :: "WebSocketError \<Rightarrow> string"

text \<open>The calls to the event listener.\<close>

datatype session_event =
    MessageSent MessageKind usize
  | PingSent
  | MessageReceived MessageKind usize
  | PongReceived
  | Closing u16 bytes CloseInitiator
  | Closed u16 bytes
  | SocketFailed WebSocketError
  | CallFailed WireError
  | CallEnd

record SessionState =
  local_close_started :: bool
  remote_close_started :: bool
  closed_emitted :: bool
  call_terminal_emitted :: bool

definition session_state_default :: SessionState where
  "session_state_default = \<lparr>local_close_started = False, remote_close_started = False, closed_emitted = False,
     call_terminal_emitted = False\<rparr>"

definition mark_local_close_started :: "SessionState \<Rightarrow> SessionState" where
  "mark_local_close_started st = st\<lparr>local_close_started := True\<rparr>"

definition mark_remote_close_started :: "SessionState \<Rightarrow> SessionState" where
  "mark_remote_close_started st = st\<lparr>remote_close_started := True\<rparr>"

definition try_mark_closed :: "SessionState \<Rightarrow> bool \<times> SessionState" where
  "try_mark_closed st = (\<not> closed_emitted st, st\<lparr>closed_emitted := True\<rparr>)"

definition try_mark_call_terminal :: "SessionState \<Rightarrow> bool \<times> SessionState" where
  "try_mark_call_terminal st = (\<not> call_terminal_emitted st, st\<lparr>call_terminal_emitted := True\<rparr>)"

fun map_engine_error :: "WebSocketEngineError \<Rightarrow> WebSocketError" where
  "map_engine_error (EngineIo io) = IoError io"
| "map_engine_error other = EngineError other"

fun websocket_error_as_wire_error :: "(WebSocketError \<Rightarrow> string) \<Rightarrow> WebSocketError \<Rightarrow> WireError" where
  "websocket_error_as_wire_error display (IoError error) = error"
| "websocket_error_as_wire_error display (TimeoutError k) = err_timeout (display (TimeoutError k))"
| "websocket_error_as_wire_error display LocalCancelled = wire_error_new KCanceled ''websocket call cancelled''"
| "websocket_error_as_wire_error display error = wire_error_new KProtocol (display error)"

definition DURATION_MAX :: duration where
  "DURATION_MAX = U64_MAX * 1000000000 + 999999999"

definition validate_runtime_config ::
  "usize \<Rightarrow> duration option \<Rightarrow> duration option \<Rightarrow> (WireError, HeartbeatConfig option) result" where
  "validate_runtime_config send_queue_size ping_interval pong_timeout =
     (if send_queue_size = 0 then Inl (err_invalid_request ''WebSocket send_queue_size must be greater than 0'')
      else case ping_interval of None \<Rightarrow> Inr None
      | Some interval \<Rightarrow>
          if interval = 0 then Inl (err_invalid_request ''WebSocket ping_interval must be greater than 0'')
          else case pong_timeout of
              Some t \<Rightarrow>
                if t = 0 then Inl (err_invalid_request
                  ''WebSocket pong_timeout must be greater than 0 when ping_interval is enabled'')
                else Inr (Some \<lparr>hc_interval = interval, hc_pong_timeout = t\<rparr>)
            | None \<Rightarrow>
                if interval * 2 > DURATION_MAX then Inl (err_invalid_request
                  ''WebSocket pong_timeout default would overflow for the configured ping_interval'')
                else Inr (Some \<lparr>hc_interval = interval, hc_pong_timeout = interval * 2\<rparr>))"

section \<open>The session\<close>

type_synonym inbound = "(WebSocketError, Message) result"

text \<open>
  \<open>AwaitClose\<close> is the wait for the end of the close handshake, \<open>Sink f\<close> sends a frame and ignores the
  result, \<open>SinkOrFail f\<close> ends the task when sending fails, and \<open>SinkData m\<close> does so for a message of the data
  lane.  \<open>LoadClose\<close> and \<open>LoadEof\<close> are the two places where the reader looks at the flag of the local close.
\<close>

datatype task_action =
    SendData Message
  | SinkData Message
  | Drain
  | OneData
  | SinkOrFail EngineFrame
  | Sink EngineFrame
  | Flush
  | MarkLocal
  | MarkRemote
  | MarkPong
  | EmitClosing u16 bytes
  | AwaitClose
  | TryClosed u16 bytes
  | EmitCallEnd
  | Fail WebSocketError
  | Out inbound
  | Control WriterCommand
  | Ack
  | LoadClose u16 bytes
  | LoadEof
  | Stop

datatype heartbeat_state =
    HbWait
  | HbPing u64
  | HbAwait u64
  | HbTimeout
  | HbDone

text \<open>
  A task that has returned is \<^const>\<open>None\<close>; one that waits in its loop has the empty program.  \<open>sn_notified\<close>
  says that the shutdown notification has reached the writer's wait.  \<open>sn_accepted\<close>, \<open>sn_sent\<close>,
  \<open>sn_sent_data\<close>, \<open>sn_dropped\<close>, \<open>sn_received\<close> and \<open>sn_delivered\<close> are histories: the messages that entered
  the data lane, the frames given to the engine, the messages of the data lane among them, the messages taken from
  the lane and not sent, the frames the stream yielded and the messages handed to the user's channel.
\<close>

record ws_session =
  sn_state :: SessionState
  sn_control :: "WriterCommand list"
  sn_data :: "Message list"
  sn_data_open :: bool
  sn_out :: "inbound list"
  sn_writer :: "task_action list option"
  sn_reader :: "task_action list option"
  sn_heartbeat :: heartbeat_state
  sn_generation :: u64
  sn_sender_alive :: bool
  sn_sender_closed :: bool
  sn_close_call :: "(u16 \<times> bytes) option"
  sn_receiver_alive :: bool
  sn_notified :: bool
  sn_acked :: bool
  sn_events :: "session_event list"
  sn_accepted :: "Message list"
  sn_sent :: "EngineFrame list"
  sn_sent_data :: "Message list"
  sn_dropped :: "Message list"
  sn_received :: "EngineFrame list"
  sn_delivered :: "Message list"

definition spawn_session :: "SessionConfig \<Rightarrow> ws_session" where
  "spawn_session cfg = \<lparr>sn_state = session_state_default, sn_control = [], sn_data = [], sn_data_open = True,
     sn_out = [], sn_writer = Some [], sn_reader = Some [],
     sn_heartbeat = (if sc_heartbeat cfg = None then HbDone else HbWait), sn_generation = 0,
     sn_sender_alive = True, sn_sender_closed = False, sn_close_call = None, sn_receiver_alive = True,
     sn_notified = False, sn_acked = False, sn_events = [], sn_accepted = [], sn_sent = [], sn_sent_data = [],
     sn_dropped = [], sn_received = [], sn_delivered = []\<rparr>"

definition lane_capacity :: "SessionConfig \<Rightarrow> usize" where
  "lane_capacity cfg = max (sc_queue_size cfg) 1"

definition emit :: "session_event list \<Rightarrow> ws_session \<Rightarrow> ws_session" where
  "emit evs s = s\<lparr>sn_events := sn_events s @ evs\<rparr>"

definition observed :: "SessionConfig \<Rightarrow> session_event list \<Rightarrow> session_event list" where
  "observed cfg evs = (if sc_ctx cfg \<and> sc_listener cfg then evs else [])"

definition emit_terminal_failure :: "SessionConfig \<Rightarrow> WebSocketError \<Rightarrow> ws_session \<Rightarrow> ws_session" where
  "emit_terminal_failure cfg error s =
     (if \<not> sc_ctx cfg then s
      else let (first, st) = try_mark_call_terminal (sn_state s); s = s\<lparr>sn_state := st\<rparr> in
        if \<not> first then s
        else emit ((if sc_listener cfg then [SocketFailed error] else []) @
                   [CallFailed (websocket_error_as_wire_error (sc_display cfg) error)]) s)"

definition emit_call_end :: "SessionConfig \<Rightarrow> ws_session \<Rightarrow> ws_session" where
  "emit_call_end cfg s =
     (if \<not> sc_ctx cfg then s
      else let (first, st) = try_mark_call_terminal (sn_state s); s = s\<lparr>sn_state := st\<rparr> in
        if first then emit [CallEnd] s else s)"

section \<open>Programs\<close>

definition shutdown_program :: "task_action list" where
  "shutdown_program = [Drain, Flush, Fail LocalCancelled, Stop]"

definition control_closed_program :: "task_action list" where
  "control_closed_program = [Drain, Stop]"

definition send_failed_program :: "WebSocketEngineError \<Rightarrow> task_action list \<Rightarrow> task_action list" where
  "send_failed_program error rest =
     [Fail (map_engine_error error), Out (Inl (map_engine_error error))] @
     (if Ack \<in> set rest then [Ack] else []) @ [Stop]"

text \<open>The argument is the flag of the remote close when the command is taken from the lane.\<close>

fun handle_control_command :: "bool \<Rightarrow> WriterCommand \<Rightarrow> task_action list" where
  "handle_control_command remote (CmdPing payload) = (if remote then [] else [SinkOrFail (FPing payload), OneData])"
| "handle_control_command remote (CmdPong payload) = (if remote then [] else [SinkOrFail (FPong payload), OneData])"
| "handle_control_command remote (CmdClose code reason) =
     (if remote then [Ack]
      else [MarkLocal, EmitClosing code reason, Drain, Sink (FClose code reason), Flush, AwaitClose,
            TryClosed code reason, Ack, Stop])"
| "handle_control_command remote (CmdCloseAck code reason) = [Sink (FClose code reason), Flush, Stop]"
| "handle_control_command remote CmdPingTimeout =
     (if remote then []
      else [MarkLocal, Fail (TimeoutError TimeoutPing), Out (Inl (TimeoutError TimeoutPing)),
            Sink (FClose 1011 (str_bytes ''ping timeout'')), Flush, Stop])"
| "handle_control_command remote CmdCancel = [Drain, Flush, Fail LocalCancelled, Stop]"

fun reader_program :: "SessionConfig \<Rightarrow> (WebSocketEngineError, EngineFrame) result option \<Rightarrow> task_action list" where
  "reader_program cfg (Some (Inr (FPing payload))) =
     Control (CmdPong payload) # (if sc_deliver_control_frames cfg then [Out (Inr (MPing payload))] else [])"
| "reader_program cfg (Some (Inr (FPong payload))) =
     (if sc_heartbeat cfg \<noteq> None then [MarkPong] else []) @
     (if sc_deliver_control_frames cfg then [Out (Inr (MPong payload))] else [])"
| "reader_program cfg (Some (Inr (FClose code reason))) = [LoadClose code reason]"
| "reader_program cfg (Some (Inr (FText t))) = [Out (Inr (MText t))]"
| "reader_program cfg (Some (Inr (FBinary b))) = [Out (Inr (MBinary b))]"
| "reader_program cfg (Some (Inl error)) =
     [Fail (map_engine_error error), Out (Inl (map_engine_error error)), Control CmdCancel, Stop]"
| "reader_program cfg None = [LoadEof]"

definition remote_close_program :: "bool \<Rightarrow> u16 \<Rightarrow> bytes \<Rightarrow> task_action list" where
  "remote_close_program local code reason =
     MarkRemote # (if local then [] else [TryClosed code reason]) @
     [Out (Inl (ClosedByPeer code reason)), Control (if local then CmdCancel else CmdCloseAck code reason), Stop]"

definition eof_program :: "bool \<Rightarrow> task_action list" where
  "eof_program local =
     (if local then [Control CmdCancel, Stop]
      else let error = EngineError (InvalidFrame ''websocket stream ended before close frame'') in
        [Fail error, Out (Inl error), Control CmdCancel, Stop])"

text \<open>The actions that touch only the flags and the listener, with the actions they put in their place.\<close>

fun effect :: "SessionConfig \<Rightarrow> task_action \<Rightarrow> ws_session \<Rightarrow> (ws_session \<times> task_action list) option" where
  "effect cfg MarkLocal s = Some (s\<lparr>sn_state := mark_local_close_started (sn_state s)\<rparr>, [])"
| "effect cfg MarkRemote s = Some (s\<lparr>sn_state := mark_remote_close_started (sn_state s)\<rparr>, [])"
| "effect cfg MarkPong s = Some (s\<lparr>sn_generation := (sn_generation s + 1) mod 2 ^ 64\<rparr>, [])"
| "effect cfg (EmitClosing code reason) s = Some (emit (observed cfg [Closing code reason InitiatedLocal]) s, [])"
| "effect cfg (TryClosed code reason) s =
     (let (first, st) = try_mark_closed (sn_state s); s = s\<lparr>sn_state := st\<rparr> in
      Some (if first then (emit (observed cfg [Closed code reason]) s, [EmitCallEnd]) else (s, [])))"
| "effect cfg EmitCallEnd s = Some (emit_call_end cfg s, [])"
| "effect cfg (Fail error) s = Some (emit_terminal_failure cfg error s, [])"
| "effect cfg Ack s = Some (s\<lparr>sn_acked := True\<rparr>, [])"
| "effect cfg (LoadClose code reason) s =
     Some (s, remote_close_program (local_close_started (sn_state s)) code reason)"
| "effect cfg LoadEof s = Some (s, eof_program (local_close_started (sn_state s)))"
| "effect cfg Flush s = Some (s, [])"
| "effect cfg (SendData m) s =
     Some (if remote_close_started (sn_state s) then (s\<lparr>sn_dropped := sn_dropped s @ [m]\<rparr>, []) else (s, [SinkData m]))"
| "effect cfg Drain s =
     Some (case sn_data s of [] \<Rightarrow> (s, []) | m # ms \<Rightarrow> (s\<lparr>sn_data := ms\<rparr>, [SendData m, Drain]))"
| "effect cfg OneData s =
     Some (if \<not> sn_data_open s then (s, [])
           else case sn_data s of
               [] \<Rightarrow> (s\<lparr>sn_data_open := sn_sender_alive s\<rparr>, [])
             | m # ms \<Rightarrow> (s\<lparr>sn_data := ms\<rparr>, [SendData m]))"
| "effect cfg _ s = None"

section \<open>Channels and the engine\<close>

text \<open>
  Sending on a bounded channel waits for room and fails once the receiver is gone; the tasks ignore the failure.
\<close>

definition out_ready :: "SessionConfig \<Rightarrow> ws_session \<Rightarrow> bool" where
  "out_ready cfg s \<longleftrightarrow> \<not> sn_receiver_alive s \<or> length (sn_out s) < lane_capacity cfg"

definition push_out :: "inbound \<Rightarrow> ws_session \<Rightarrow> ws_session" where
  "push_out item s =
     (if sn_receiver_alive s
      then s\<lparr>sn_out := sn_out s @ [item],
             sn_delivered := sn_delivered s @ (case item of Inr m \<Rightarrow> [m] | Inl _ \<Rightarrow> [])\<rparr>
      else s)"

definition control_ready :: "ws_session \<Rightarrow> bool" where
  "control_ready s \<longleftrightarrow> sn_writer s = None \<or> length (sn_control s) < CONTROL_LANE_CAPACITY"

definition push_control :: "WriterCommand \<Rightarrow> ws_session \<Rightarrow> ws_session" where
  "push_control cmd s = (if sn_writer s = None then s else s\<lparr>sn_control := sn_control s @ [cmd]\<rparr>)"

text \<open>The channel is closed when the user, the reader and the heartbeat have all let go of it.\<close>

definition control_closed :: "ws_session \<Rightarrow> bool" where
  "control_closed s \<longleftrightarrow> \<not> sn_sender_alive s \<and> sn_reader s = None \<and> sn_heartbeat s = HbDone"

fun sent_event :: "EngineFrame \<Rightarrow> session_event list" where
  "sent_event (FText t) = [MessageSent KindText (length t)]"
| "sent_event (FBinary b) = [MessageSent KindBinary (length b)]"
| "sent_event (FPing _) = [PingSent]"
| "sent_event _ = []"

fun received_event :: "EngineFrame \<Rightarrow> session_event list" where
  "received_event (FText t) = [MessageReceived KindText (length t)]"
| "received_event (FBinary b) = [MessageReceived KindBinary (length b)]"
| "received_event (FPong _) = [PongReceived]"
| "received_event (FClose code reason) = [Closing code reason InitiatedRemote]"
| "received_event (FPing _) = []"

definition sink_accept :: "SessionConfig \<Rightarrow> EngineFrame \<Rightarrow> ws_session \<Rightarrow> ws_session" where
  "sink_accept cfg f s = emit (observed cfg (sent_event f)) (s\<lparr>sn_sent := sn_sent s @ [f]\<rparr>)"

text \<open>A sink that fails may do so before or after the frame has been announced to the listener.\<close>

definition sink_reject :: "SessionConfig \<Rightarrow> bool \<Rightarrow> EngineFrame \<Rightarrow> ws_session \<Rightarrow> ws_session" where
  "sink_reject cfg announced f s = emit (if announced then observed cfg (sent_event f) else []) s"

definition stream_yield ::
  "SessionConfig \<Rightarrow> (WebSocketEngineError, EngineFrame) result option \<Rightarrow> ws_session \<Rightarrow> ws_session" where
  "stream_yield cfg item s =
     (case item of
        Some (Inr f) \<Rightarrow> emit (observed cfg (received_event f)) (s\<lparr>sn_received := sn_received s @ [f]\<rparr>)
      | _ \<Rightarrow> s)"

section \<open>The handles of the user\<close>

definition sender_send_check :: "bool \<Rightarrow> Message \<Rightarrow> (WebSocketError, unit) result" where
  "sender_send_check closed message =
     (if closed then Inl LocalCancelled
      else case validate_outbound_message message of Inl e \<Rightarrow> Inl (EngineError e) | Inr () \<Rightarrow> Inr ())"

definition sender_send :: "Message \<Rightarrow> ws_session \<Rightarrow> ws_session" where
  "sender_send message s = s\<lparr>sn_data := sn_data s @ [message], sn_accepted := sn_accepted s @ [message]\<rparr>"

text \<open>
  The first call with a frame that may be sent wins and goes on to queue the command; the others return.
\<close>

definition sender_close :: "u16 \<Rightarrow> bytes \<Rightarrow> ws_session \<Rightarrow> (WebSocketError, ws_session) result" where
  "sender_close code reason s =
     (if sn_sender_closed s then Inr s
      else case validate_close_frame code reason of
          Inl e \<Rightarrow> Inl (EngineError e)
        | Inr () \<Rightarrow> Inr (s\<lparr>sn_sender_closed := True, sn_close_call := Some (code, reason)\<rparr>))"

definition sender_queue_size :: "SessionConfig \<Rightarrow> ws_session \<Rightarrow> usize" where
  "sender_queue_size cfg s = lane_capacity cfg - (lane_capacity cfg - length (sn_data s))"

definition sender_is_closed :: "ws_session \<Rightarrow> bool" where
  "sender_is_closed s \<longleftrightarrow> sn_sender_closed s \<or> sn_writer s = None"

text \<open>
  The last handle goes away: \<^verbatim>\<open>try_send\<close> of a cancel command, which a full lane refuses, and
  \<^verbatim>\<open>notify_waiters\<close>, which reaches the writer only if it is waiting at that moment (\<open>woken\<close>).
\<close>

definition sender_drop :: "bool \<Rightarrow> ws_session \<Rightarrow> ws_session" where
  "sender_drop woken s =
     (let s = (if sn_writer s \<noteq> None \<and> length (sn_control s) < CONTROL_LANE_CAPACITY
               then s\<lparr>sn_control := sn_control s @ [CmdCancel]\<rparr> else s) in
      s\<lparr>sn_sender_alive := False, sn_close_call := None, sn_notified := woken\<rparr>)"

section \<open>The interleaving of the tasks\<close>

definition run_writer_step :: "task_action list option \<Rightarrow> ws_session \<Rightarrow> ws_session" where
  "run_writer_step p s = s\<lparr>sn_writer := p\<rparr>"

definition run_reader_step :: "task_action list option \<Rightarrow> ws_session \<Rightarrow> ws_session" where
  "run_reader_step p s = s\<lparr>sn_reader := p\<rparr>"

text \<open>
  The writer's loop prefers the shutdown, then the control lane, then the data lane.  The wait for the end of the
  close handshake throws away what it finds on either lane.
\<close>

inductive writer_step :: "SessionConfig \<Rightarrow> ws_session \<Rightarrow> ws_session \<Rightarrow> bool" for cfg s where
  writer_shutdown: "sn_writer s = Some [] \<Longrightarrow> sn_notified s \<Longrightarrow>
     writer_step cfg s (run_writer_step (Some shutdown_program) s)"
| writer_control: "sn_writer s = Some [] \<Longrightarrow> \<not> sn_notified s \<Longrightarrow> sn_control s = cmd # cmds \<Longrightarrow>
     writer_step cfg s (run_writer_step (Some (handle_control_command (remote_close_started (sn_state s)) cmd))
       (s\<lparr>sn_control := cmds\<rparr>))"
| writer_control_closed: "sn_writer s = Some [] \<Longrightarrow> \<not> sn_notified s \<Longrightarrow> sn_control s = [] \<Longrightarrow> control_closed s \<Longrightarrow>
     writer_step cfg s (run_writer_step (Some control_closed_program) s)"
| writer_data: "sn_writer s = Some [] \<Longrightarrow> \<not> sn_notified s \<Longrightarrow> sn_control s = [] \<Longrightarrow> \<not> control_closed s \<Longrightarrow>
     sn_data_open s \<Longrightarrow> sn_data s = m # ms \<Longrightarrow>
     writer_step cfg s (run_writer_step (Some [SendData m]) (s\<lparr>sn_data := ms\<rparr>))"
| writer_data_closed: "sn_writer s = Some [] \<Longrightarrow> \<not> sn_notified s \<Longrightarrow> sn_control s = [] \<Longrightarrow> \<not> control_closed s \<Longrightarrow>
     sn_data_open s \<Longrightarrow> sn_data s = [] \<Longrightarrow> \<not> sn_sender_alive s \<Longrightarrow>
     writer_step cfg s (s\<lparr>sn_data_open := False\<rparr>)"
| writer_effect: "sn_writer s = Some (a # rest) \<Longrightarrow> effect cfg a s = Some (s', acts) \<Longrightarrow>
     writer_step cfg s (run_writer_step (Some (acts @ rest)) s')"
| writer_data_sent: "sn_writer s = Some (SinkData m # rest) \<Longrightarrow>
     writer_step cfg s (run_writer_step (Some rest)
       (sink_accept cfg (frame_of_message m) (s\<lparr>sn_sent_data := sn_sent_data s @ [m]\<rparr>)))"
| writer_data_failed: "sn_writer s = Some (SinkData m # rest) \<Longrightarrow>
     writer_step cfg s (run_writer_step (Some (send_failed_program error rest))
       (sink_reject cfg announced (frame_of_message m) (s\<lparr>sn_dropped := sn_dropped s @ [m]\<rparr>)))"
| writer_sent: "sn_writer s = Some (a # rest) \<Longrightarrow> a = Sink f \<or> a = SinkOrFail f \<Longrightarrow>
     writer_step cfg s (run_writer_step (Some rest) (sink_accept cfg f s))"
| writer_send_ignored: "sn_writer s = Some (Sink f # rest) \<Longrightarrow>
     writer_step cfg s (run_writer_step (Some rest) (sink_reject cfg announced f s))"
| writer_send_failed: "sn_writer s = Some (SinkOrFail f # rest) \<Longrightarrow>
     writer_step cfg s (run_writer_step (Some (send_failed_program error rest)) (sink_reject cfg announced f s))"
| writer_await_over: "sn_writer s = Some (AwaitClose # rest) \<Longrightarrow> sn_control s = CmdCancel # cmds \<Longrightarrow>
     writer_step cfg s (run_writer_step (Some rest) (s\<lparr>sn_control := cmds\<rparr>))"
| writer_await_ignored: "sn_writer s = Some (AwaitClose # rest) \<Longrightarrow> sn_control s = cmd # cmds \<Longrightarrow> cmd \<noteq> CmdCancel \<Longrightarrow>
     writer_step cfg s (s\<lparr>sn_control := cmds\<rparr>)"
| writer_await_closed: "sn_writer s = Some (AwaitClose # rest) \<Longrightarrow> sn_control s = [] \<Longrightarrow> control_closed s \<Longrightarrow>
     writer_step cfg s (run_writer_step (Some rest) s)"
| writer_await_data: "sn_writer s = Some (AwaitClose # rest) \<Longrightarrow> sn_control s = [] \<Longrightarrow> \<not> control_closed s \<Longrightarrow>
     sn_data_open s \<Longrightarrow> sn_data s = m # ms \<Longrightarrow>
     writer_step cfg s (s\<lparr>sn_data := ms, sn_dropped := sn_dropped s @ [m]\<rparr>)"
| writer_await_data_closed: "sn_writer s = Some (AwaitClose # rest) \<Longrightarrow> sn_control s = [] \<Longrightarrow> \<not> control_closed s \<Longrightarrow>
     sn_data_open s \<Longrightarrow> sn_data s = [] \<Longrightarrow> \<not> sn_sender_alive s \<Longrightarrow>
     writer_step cfg s (s\<lparr>sn_data_open := False\<rparr>)"
| writer_await_timeout: "sn_writer s = Some (AwaitClose # rest) \<Longrightarrow>
     writer_step cfg s (run_writer_step (Some rest) s)"
| writer_out: "sn_writer s = Some (Out item # rest) \<Longrightarrow> out_ready cfg s \<Longrightarrow>
     writer_step cfg s (run_writer_step (Some rest) (push_out item s))"
| writer_stop: "sn_writer s = Some (Stop # rest) \<Longrightarrow>
     writer_step cfg s (run_writer_step None s)"

inductive reader_step :: "SessionConfig \<Rightarrow> ws_session \<Rightarrow> ws_session \<Rightarrow> bool" for cfg s where
  reader_next: "sn_reader s = Some [] \<Longrightarrow>
     reader_step cfg s (run_reader_step (Some (reader_program cfg item)) (stream_yield cfg item s))"
| reader_effect: "sn_reader s = Some (a # rest) \<Longrightarrow> effect cfg a s = Some (s', acts) \<Longrightarrow>
     reader_step cfg s (run_reader_step (Some (acts @ rest)) s')"
| reader_out: "sn_reader s = Some (Out item # rest) \<Longrightarrow> out_ready cfg s \<Longrightarrow>
     reader_step cfg s (run_reader_step (Some rest) (push_out item s))"
| reader_control: "sn_reader s = Some (Control cmd # rest) \<Longrightarrow> control_ready s \<Longrightarrow>
     reader_step cfg s (run_reader_step (Some rest) (push_control cmd s))"
| reader_stop: "sn_reader s = Some (Stop # rest) \<Longrightarrow> reader_step cfg s (run_reader_step None s)"

inductive heartbeat_step :: "ws_session \<Rightarrow> ws_session \<Rightarrow> bool" for s where
  hb_tick: "sn_heartbeat s = HbWait \<Longrightarrow> heartbeat_step s (s\<lparr>sn_heartbeat := HbPing (sn_generation s)\<rparr>)"
| hb_ping: "sn_heartbeat s = HbPing g \<Longrightarrow> control_ready s \<Longrightarrow>
     heartbeat_step s ((push_control (CmdPing []) s)
       \<lparr>sn_heartbeat := (if sn_writer s = None then HbDone else HbAwait g)\<rparr>)"
| hb_pong: "sn_heartbeat s = HbAwait g \<Longrightarrow> sn_generation s \<noteq> g \<Longrightarrow> heartbeat_step s (s\<lparr>sn_heartbeat := HbWait\<rparr>)"
| hb_timeout: "sn_heartbeat s = HbAwait g \<Longrightarrow>
     heartbeat_step s (s\<lparr>sn_heartbeat := (if sn_generation s = g then HbTimeout else HbWait)\<rparr>)"
| hb_closed: "sn_heartbeat s = HbAwait g \<Longrightarrow> sn_writer s = None \<Longrightarrow> heartbeat_step s (s\<lparr>sn_heartbeat := HbDone\<rparr>)"
| hb_report: "sn_heartbeat s = HbTimeout \<Longrightarrow> control_ready s \<Longrightarrow>
     heartbeat_step s ((push_control CmdPingTimeout s)\<lparr>sn_heartbeat := HbDone\<rparr>)"

text \<open>
  A send enters the lane some time after its check, when the lane has room; the close flag may have been set in
  between.  Nothing can be sent on a lane whose writer has returned.
\<close>

inductive user_step :: "SessionConfig \<Rightarrow> ws_session \<Rightarrow> ws_session \<Rightarrow> bool" for cfg s where
  user_send: "sn_sender_alive s \<Longrightarrow> sn_writer s \<noteq> None \<Longrightarrow> length (sn_data s) < lane_capacity cfg \<Longrightarrow>
     sender_send_check False m = Inr () \<Longrightarrow> user_step cfg s (sender_send m s)"
| user_close: "sn_sender_alive s \<Longrightarrow> sender_close code reason s = Inr s' \<Longrightarrow> user_step cfg s s'"
| user_close_queued: "sn_close_call s = Some (code, reason) \<Longrightarrow> control_ready s \<Longrightarrow>
     user_step cfg s ((push_control (CmdClose code reason) s)\<lparr>sn_close_call := None\<rparr>)"
| user_drop: "sn_sender_alive s \<Longrightarrow> woken \<longrightarrow> sn_writer s = Some [] \<Longrightarrow> user_step cfg s (sender_drop woken s)"
| user_receive: "sn_receiver_alive s \<Longrightarrow> sn_out s = item # items \<Longrightarrow> user_step cfg s (s\<lparr>sn_out := items\<rparr>)"
| user_drop_receiver: "sn_receiver_alive s \<Longrightarrow> user_step cfg s (s\<lparr>sn_receiver_alive := False, sn_out := []\<rparr>)"

inductive session_step :: "SessionConfig \<Rightarrow> ws_session \<Rightarrow> ws_session \<Rightarrow> bool" for cfg s s' where
  by_writer: "writer_step cfg s s' \<Longrightarrow> session_step cfg s s'"
| by_reader: "reader_step cfg s s' \<Longrightarrow> session_step cfg s s'"
| by_heartbeat: "heartbeat_step s s' \<Longrightarrow> session_step cfg s s'"
| by_user: "user_step cfg s s' \<Longrightarrow> session_step cfg s s'"

inductive session_reachable :: "SessionConfig \<Rightarrow> ws_session \<Rightarrow> bool" for cfg where
  session_init: "session_reachable cfg (spawn_session cfg)"
| session_next: "session_reachable cfg s \<Longrightarrow> session_step cfg s s' \<Longrightarrow> session_reachable cfg s'"

end
