(* ===== verification/WS_Writer_Inv.thy ===== *)
theory WS_Writer_Inv
  imports WS_Writer
begin

text \<open>
  The end of a WebSocket call under every interleaving of its tasks: the call ends with at most one event, and when
  the writer and the reader have returned it has ended.
\<close>

lemmas plumbing_defs = run_writer_step_def run_reader_step_def sink_accept_def sink_reject_def push_out_def
  push_control_def emit_def sender_send_def sender_drop_def

lemma sender_close_frame:
  assumes "sender_close code reason s = Inr s'"
  shows "s' = s \<or> s' = s\<lparr>sn_sender_closed := True, sn_close_call := Some (code, reason)\<rparr>"
  using assms by (auto simp: sender_close_def split: if_splits sum.splits unit.splits)

section \<open>One end of the call\<close>

fun terminal_event :: "session_event \<Rightarrow> bool" where
  "terminal_event (CallFailed _) = True"
| "terminal_event CallEnd = True"
| "terminal_event _ = False"

fun closed_event :: "session_event \<Rightarrow> bool" where
  "closed_event (Closed _ _) = True"
| "closed_event _ = False"

definition once :: "ws_session \<Rightarrow> bool" where
  "once s \<longleftrightarrow>
     length (filter terminal_event (sn_events s)) = (if call_terminal_emitted (sn_state s) then 1 else 0) \<and>
     length (filter closed_event (sn_events s)) \<le> (if closed_emitted (sn_state s) then 1 else 0)"

lemma once_frame: "sn_state s' = sn_state s \<Longrightarrow> sn_events s' = sn_events s @ evs \<Longrightarrow>
    filter terminal_event evs = [] \<Longrightarrow> filter closed_event evs = [] \<Longrightarrow> once s \<Longrightarrow> once s'"
  by (simp add: once_def)

lemma quiet_events [simp]:
  "filter terminal_event (observed cfg (sent_event f)) = []"
  "filter closed_event (observed cfg (sent_event f)) = []"
  "filter terminal_event (observed cfg (received_event f)) = []"
  "filter closed_event (observed cfg (received_event f)) = []"
  by (cases f; simp add: observed_def)+

lemma once_emit_terminal_failure: "once s \<Longrightarrow> once (emit_terminal_failure cfg e s)"
  by (cases "sc_ctx cfg"; cases "call_terminal_emitted (sn_state s)")
    (simp_all add: once_def emit_terminal_failure_def try_mark_call_terminal_def emit_def Let_def)

lemma once_emit_call_end: "once s \<Longrightarrow> once (emit_call_end cfg s)"
  by (cases "sc_ctx cfg"; cases "call_terminal_emitted (sn_state s)")
    (simp_all add: once_def emit_call_end_def try_mark_call_terminal_def emit_def Let_def)

lemma once_effect:
  assumes "effect cfg a s = Some (s', acts)" and "once s"
  shows "once s'"
proof (cases a)
  case (TryClosed c r)
  then show ?thesis using assms
    by (cases "closed_emitted (sn_state s)") (auto simp: once_def try_mark_closed_def emit_def observed_def Let_def)
next
  case (EmitClosing c r)
  then show ?thesis using assms by (auto simp: once_def emit_def observed_def)
next
  case Drain
  then show ?thesis using assms by (cases "sn_data s") (auto simp: once_def)
next
  case OneData
  then show ?thesis using assms by (cases "sn_data s"; cases "sn_data_open s") (auto simp: once_def)
next
  case (SendData m)
  then show ?thesis using assms by (cases "remote_close_started (sn_state s)") (auto simp: once_def)
next
  case MarkLocal
  then show ?thesis using assms by (auto simp: once_def mark_local_close_started_def)
next
  case MarkRemote
  then show ?thesis using assms by (auto simp: once_def mark_remote_close_started_def)
next
  case MarkPong
  then show ?thesis using assms by (auto simp: once_def)
next
  case Ack
  then show ?thesis using assms by (auto simp: once_def)
qed (use assms in \<open>auto intro: once_emit_terminal_failure once_emit_call_end\<close>)

lemma once_updates [simp]:
  "once (run_writer_step p s) = once s" "once (run_reader_step p s) = once s"
  "once (push_out item s) = once s" "once (push_control cmd s) = once s"
  "once (sender_send m s) = once s" "once (sender_drop w s) = once s"
  "once (sink_accept cfg f s) = once s" "once (sink_reject cfg b f s) = once s"
  "once (stream_yield cfg yielded s) = once s"
  by (simp_all add: once_def plumbing_defs Let_def stream_yield_def split: option.split sum.split)

lemma once_fields [simp]:
  "once (s\<lparr>sn_control := c\<rparr>) = once s" "once (s\<lparr>sn_data := d\<rparr>) = once s" "once (s\<lparr>sn_data_open := b\<rparr>) = once s"
  "once (s\<lparr>sn_sent_data := d\<rparr>) = once s" "once (s\<lparr>sn_dropped := d\<rparr>) = once s" "once (s\<lparr>sn_heartbeat := h\<rparr>) = once s"
  "once (s\<lparr>sn_out := os\<rparr>) = once s" "once (s\<lparr>sn_receiver_alive := b\<rparr>) = once s" "once (s\<lparr>sn_close_call := x\<rparr>) = once s"
  "once (s\<lparr>sn_sender_closed := b\<rparr>) = once s"
  by (simp_all add: once_def)

lemma once_step:
  assumes "session_step cfg s s'" and "once s"
  shows "once s'"
  using assms(1)
proof cases
  case by_writer
  then show ?thesis using assms(2) by cases (simp_all add: once_effect)
next
  case by_reader
  then show ?thesis using assms(2) by cases (simp_all add: once_effect)
next
  case by_heartbeat
  then show ?thesis using assms(2) by cases simp_all
next
  case by_user
  then show ?thesis using assms(2) by cases (auto dest: sender_close_frame)
qed

lemma once_reachable: "session_reachable cfg s \<Longrightarrow> once s"
  by (induction rule: session_reachable.induct)
    (simp_all add: once_step, simp add: once_def spawn_session_def session_state_default_def)

section \<open>The call does end\<close>

text \<open>
  The obligation to end the call moves between the tasks.  It is met once one of the two flags is set, and until then
  some program still has an action that sets one: a task may return, and the reader may ask for the answer to a close
  frame, only when the call has been taken care of.
\<close>

definition handled :: "SessionState \<Rightarrow> bool" where
  "handled st \<longleftrightarrow> closed_emitted st \<or> call_terminal_emitted st"

fun settles :: "task_action \<Rightarrow> bool" where
  "settles (TryClosed _ _) = True"
| "settles EmitCallEnd = True"
| "settles (Fail _) = True"
| "settles _ = False"

fun permitted :: "bool \<Rightarrow> bool \<Rightarrow> task_action \<Rightarrow> bool" where
  "permitted h l (Control (CmdCloseAck _ _)) = h"
| "permitted h l Stop = (h \<or> l)"
| "permitted h l _ = True"

primrec covers :: "bool \<Rightarrow> bool \<Rightarrow> task_action list \<Rightarrow> bool" where
  "covers h l [] = True"
| "covers h l (a # p) = (permitted h l a \<and> covers (h \<or> settles a) l p)"

lemma permitted_mono: "permitted h l a \<Longrightarrow> h \<le> h' \<Longrightarrow> l \<le> l' \<Longrightarrow> permitted h' l' a"
  by (cases "(h, l, a)" rule: permitted.cases) auto

lemma covers_mono: "covers h l p \<Longrightarrow> h \<le> h' \<Longrightarrow> l \<le> l' \<Longrightarrow> covers h' l' p"
proof (induction p arbitrary: h h')
  case (Cons a p)
  then have "covers (h' \<or> settles a) l' p" by (intro Cons.IH [of "h \<or> settles a"]) auto
  moreover have "permitted h' l' a" by (rule permitted_mono [of h l]) (use Cons.prems in simp_all)
  ultimately show ?case by simp
qed simp

lemma covers_append: "covers h l (xs @ ys) \<longleftrightarrow> covers h l xs \<and> covers (h \<or> (\<exists>a \<in> set xs. settles a)) l ys"
  by (induction xs arbitrary: h) (auto simp: disj_assoc)

text \<open>What a program of each task looks like.\<close>

fun writer_action :: "task_action \<Rightarrow> bool" where
  "writer_action MarkRemote = False"
| "writer_action MarkPong = False"
| "writer_action (Out (Inr _)) = False"
| "writer_action (Control _) = False"
| "writer_action (LoadClose _ _) = False"
| "writer_action LoadEof = False"
| "writer_action _ = True"

fun reader_action :: "task_action \<Rightarrow> bool" where
  "reader_action MarkRemote = True"
| "reader_action MarkPong = True"
| "reader_action (TryClosed _ _) = True"
| "reader_action EmitCallEnd = True"
| "reader_action (Fail _) = True"
| "reader_action (Out _) = True"
| "reader_action (Control _) = True"
| "reader_action (LoadClose _ _) = True"
| "reader_action LoadEof = True"
| "reader_action Stop = True"
| "reader_action _ = False"

fun first_only :: "task_action \<Rightarrow> bool" where
  "first_only (SendData _) = True"
| "first_only (SinkData _) = True"
| "first_only EmitCallEnd = True"
| "first_only _ = False"

fun sending :: "task_action \<Rightarrow> bool" where
  "sending (SendData _) = True"
| "sending (SinkData _) = True"
| "sending Drain = True"
| "sending OneData = True"
| "sending (SinkOrFail _) = True"
| "sending (Sink _) = True"
| "sending _ = False"

definition last_phase :: "task_action list \<Rightarrow> bool" where
  "last_phase p \<longleftrightarrow> Stop \<in> set p \<and> (\<forall>a \<in> set p. \<not> sending a)"

fun well_placed :: "task_action \<Rightarrow> task_action list \<Rightarrow> bool" where
  "well_placed (Sink f) rest = last_phase rest"
| "well_placed AwaitClose rest = last_phase rest"
| "well_placed MarkLocal rest = (Stop \<in> set rest)"
| "well_placed (SinkOrFail f) rest = (case f of FClose _ _ \<Rightarrow> False | _ \<Rightarrow> True)"
| "well_placed _ rest = True"

primrec writer_program_ok :: "task_action list \<Rightarrow> bool" where
  "writer_program_ok [] = True"
| "writer_program_ok (a # rest) =
     (writer_action a \<and> well_placed a rest \<and> (\<forall>b \<in> set rest. \<not> first_only b) \<and> writer_program_ok rest)"

fun final_action :: "task_action \<Rightarrow> bool" where
  "final_action (LoadClose _ _) = True"
| "final_action LoadEof = True"
| "final_action Stop = True"
| "final_action _ = False"

primrec reader_program_ok :: "task_action list \<Rightarrow> bool" where
  "reader_program_ok [] = True"
| "reader_program_ok (a # rest) =
     (reader_action a \<and> (final_action a \<longrightarrow> rest = []) \<and> (\<forall>b \<in> set rest. \<not> first_only b) \<and> reader_program_ok rest)"

lemma handle_control_command_ok: "writer_program_ok (handle_control_command remote cmd)"
  by (cases cmd) (simp_all add: last_phase_def)

lemma reader_program_ok: "reader_program_ok (reader_program cfg item)"
  by (cases "(cfg, item)" rule: reader_program.cases) simp_all

lemma send_failed_program_ok: "writer_program_ok (send_failed_program error rest)"
  by (simp add: send_failed_program_def)

lemma fixed_programs_ok:
  "writer_program_ok shutdown_program" "writer_program_ok control_closed_program"
  "reader_program_ok (remote_close_program l code reason)" "reader_program_ok (eof_program l)"
  by (simp_all add: shutdown_program_def control_closed_program_def remote_close_program_def eof_program_def Let_def)

lemma send_failed_last_phase: "last_phase (send_failed_program error rest)"
  by (simp add: send_failed_program_def last_phase_def)

section \<open>What an action changes\<close>

lemma effect_frame:
  assumes "effect cfg a s = Some (s', acts)"
  shows "sn_writer s' = sn_writer s" "sn_reader s' = sn_reader s" "sn_control s' = sn_control s"
    "sn_out s' = sn_out s" "sn_receiver_alive s' = sn_receiver_alive s" "sn_sender_alive s' = sn_sender_alive s"
    "sn_accepted s' = sn_accepted s" "sn_sent s' = sn_sent s" "sn_sent_data s' = sn_sent_data s"
    "sn_received s' = sn_received s" "sn_delivered s' = sn_delivered s"
  using assms
  by (cases a; auto simp: Let_def emit_def emit_call_end_def emit_terminal_failure_def try_mark_closed_def
      try_mark_call_terminal_def split: if_splits list.splits)+

lemma effect_flags:
  assumes "effect cfg a s = Some (s', acts)" and "sc_ctx cfg"
  shows "sn_state s' = (sn_state s)
    \<lparr>local_close_started := local_close_started (sn_state s) \<or> a = MarkLocal,
     remote_close_started := remote_close_started (sn_state s) \<or> a = MarkRemote,
     closed_emitted := closed_emitted (sn_state s) \<or> (\<exists>c r. a = TryClosed c r),
     call_terminal_emitted := call_terminal_emitted (sn_state s) \<or> a = EmitCallEnd \<or> (\<exists>e. a = Fail e)\<rparr>"
  using assms
  by (cases a; auto simp: Let_def emit_def emit_call_end_def emit_terminal_failure_def try_mark_closed_def
      try_mark_call_terminal_def mark_local_close_started_def mark_remote_close_started_def
      split: if_splits list.splits)

lemma effect_writer_program:
  assumes "effect cfg a s = Some (s', acts)" and "writer_program_ok (a # rest)"
  shows "writer_program_ok (acts @ rest)"
  using assms by (cases a) (auto simp: Let_def try_mark_closed_def split: if_splits list.splits)

lemma effect_reader_program:
  assumes "effect cfg a s = Some (s', acts)" and "reader_program_ok (a # rest)"
  shows "reader_program_ok (acts @ rest)"
  using assms fixed_programs_ok by (cases a) (auto simp: Let_def try_mark_closed_def split: if_splits list.splits)

end
