(* ===== verification/WS_Writer_Props.thy ===== *)
theory WS_Writer_Props
  imports WS_Writer_Inv "HOL-Library.Sublist"
begin

text \<open>
  What an open WebSocket guarantees under every interleaving of its tasks: the call ends with exactly one event,
  messages leave in the order in which they were queued and arrive in the order in which the peer sent them, and
  a close frame is the last frame.
\<close>

section \<open>The programs of the tasks\<close>

definition programs_ok :: "ws_session \<Rightarrow> bool" where
  "programs_ok s \<longleftrightarrow> pred_option writer_program_ok (sn_writer s) \<and> pred_option reader_program_ok (sn_reader s)"

lemmas step_frames = run_writer_step_def run_reader_step_def sink_accept_def sink_reject_def push_out_def
  push_control_def emit_def sender_send_def sender_drop_def stream_yield_def

lemma programs_ok_step:
  assumes "session_step cfg s s'" and "programs_ok s"
  shows "programs_ok s'"
  using assms(1)
proof cases
  case by_writer
  then show ?thesis
    using assms(2) handle_control_command_ok fixed_programs_ok send_failed_program_ok
    by cases (auto simp: programs_ok_def step_frames effect_frame dest: effect_writer_program)
next
  case by_reader
  then show ?thesis
  proof cases
    case (reader_effect a rest s1 acts)
    have "reader_program_ok (acts @ rest)"
      by (rule effect_reader_program [OF reader_effect(3)]) (use assms(2) reader_effect in \<open>simp add: programs_ok_def\<close>)
    then show ?thesis using assms(2) reader_effect by (simp add: programs_ok_def step_frames effect_frame)
  qed (use assms(2) reader_program_ok in \<open>auto simp: programs_ok_def step_frames split: option.split sum.split\<close>)
next
  case by_heartbeat
  then show ?thesis using assms(2) by cases (auto simp: programs_ok_def step_frames)
next
  case by_user
  then show ?thesis using assms(2)
    by cases (auto simp: programs_ok_def step_frames Let_def dest!: sender_close_frame)
qed

lemma programs_ok_reachable: "session_reachable cfg s \<Longrightarrow> programs_ok s"
  by (induction rule: session_reachable.induct)
    (simp_all add: programs_ok_step, simp add: programs_ok_def spawn_session_def)

section \<open>The end of the call\<close>

definition closes_ack :: "WriterCommand \<Rightarrow> bool" where
  "closes_ack cmd \<longleftrightarrow> (\<exists>c r. cmd = CmdCloseAck c r)"

definition ends_call :: "task_action list option \<Rightarrow> bool" where
  "ends_call p \<longleftrightarrow> (\<exists>q. p = Some q \<and> EmitCallEnd \<in> set q)"

definition writer_settled :: "SessionState \<Rightarrow> task_action list option \<Rightarrow> bool" where
  "writer_settled st w =
     (case w of None \<Rightarrow> handled st | Some p \<Rightarrow> covers (handled st) False p \<and> (local_close_started st \<longrightarrow> Stop \<in> set p))"

definition reader_settled :: "SessionState \<Rightarrow> task_action list option \<Rightarrow> bool" where
  "reader_settled st r =
     (case r of None \<Rightarrow> handled st \<or> local_close_started st | Some p \<Rightarrow> covers (handled st) (local_close_started st) p)"

definition settled ::
  "SessionState \<Rightarrow> WriterCommand list \<Rightarrow> task_action list option \<Rightarrow> task_action list option \<Rightarrow> bool" where
  "settled st control w r \<longleftrightarrow> writer_settled st w \<and> reader_settled st r \<and>
     ((\<exists>cmd \<in> set control. closes_ack cmd) \<longrightarrow> handled st) \<and>
     (closed_emitted st \<longrightarrow> call_terminal_emitted st \<or> ends_call w \<or> ends_call r)"

text \<open>The flags are only ever set.\<close>

definition later_flags :: "SessionState \<Rightarrow> SessionState \<Rightarrow> bool" where
  "later_flags st st' \<longleftrightarrow> local_close_started st \<le> local_close_started st' \<and> handled st \<le> handled st'"

lemma reader_settled_later: "reader_settled st r \<Longrightarrow> later_flags st st' \<Longrightarrow> reader_settled st' r"
  by (auto simp: reader_settled_def later_flags_def elim: covers_mono split: option.splits)

lemma writer_settled_later:
  "writer_settled st w \<Longrightarrow> later_flags st st' \<Longrightarrow> local_close_started st' = local_close_started st \<Longrightarrow> writer_settled st' w"
  by (auto simp: writer_settled_def later_flags_def elim: covers_mono split: option.splits)

lemma covers_handle_control_command:
  "(closes_ack cmd \<longrightarrow> h) \<Longrightarrow> covers h False (handle_control_command remote cmd)"
  by (cases cmd) (simp_all add: closes_ack_def)

lemma covers_send_failed: "covers h False (send_failed_program error rest)"
  by (simp add: send_failed_program_def)

lemma covers_reader_program: "covers h l (reader_program cfg item)"
  by (cases "(cfg, item)" rule: reader_program.cases) simp_all

lemma ends_call_None [simp]: "\<not> ends_call None" "ends_call (Some p) \<longleftrightarrow> EmitCallEnd \<in> set p"
  by (simp_all add: ends_call_def)

lemma first_only_tail:
  assumes "writer_program_ok (a # rest) \<or> reader_program_ok (a # rest)"
  shows "EmitCallEnd \<notin> set rest"
  using assms by auto

text \<open>An action of either task keeps the obligation.\<close>

lemma effect_acts_end_call:
  assumes "effect cfg a s = Some (s', acts)" and "closed_emitted (sn_state s')" and "\<not> closed_emitted (sn_state s)"
    and "sc_ctx cfg"
  shows "EmitCallEnd \<in> set acts"
proof -
  obtain c r where "a = TryClosed c r" using assms(2,3) by (auto simp: effect_flags [OF assms(1,4)])
  then show ?thesis using assms(1,3) by (auto simp: try_mark_closed_def)
qed

lemma effect_handled:
  assumes "effect cfg a s = Some (s', acts)" and "sc_ctx cfg"
  shows "handled (sn_state s') \<longleftrightarrow> handled (sn_state s) \<or> settles a"
  unfolding effect_flags [OF assms] handled_def by (cases a) simp_all

lemma effect_local:
  assumes "effect cfg a s = Some (s', acts)" and "sc_ctx cfg"
  shows "local_close_started (sn_state s') \<longleftrightarrow> local_close_started (sn_state s) \<or> a = MarkLocal"
  unfolding effect_flags [OF assms] by simp

lemma effect_later:
  assumes "effect cfg a s = Some (s', acts)" and "sc_ctx cfg"
  shows "later_flags (sn_state s) (sn_state s')"
  using effect_handled [OF assms] effect_local [OF assms] by (simp add: later_flags_def)

lemma effect_covers_writer:
  assumes "effect cfg a s = Some (s', acts)" and "writer_action a"
  shows "covers h False acts \<and> (Stop \<notin> set acts)"
  using assms by (cases a) (auto simp: Let_def try_mark_closed_def split: if_splits list.splits)

lemma effect_covers_reader:
  assumes "effect cfg a s = Some (s', acts)" and "reader_action a"
  shows "covers h (local_close_started (sn_state s)) acts"
  using assms
  by (cases a) (auto simp: Let_def try_mark_closed_def remote_close_program_def eof_program_def split: if_splits list.splits)

lemma settled_writer_effect:
  assumes "effect cfg a s = Some (s', acts)" and "sc_ctx cfg" and "writer_program_ok (a # rest)"
    and "settled (sn_state s) c (Some (a # rest)) r"
  shows "settled (sn_state s') c (Some (acts @ rest)) r"
proof -
  let ?h = "handled (sn_state s')"
  have a: "writer_action a" "a \<noteq> Stop" "a = MarkLocal \<longrightarrow> Stop \<in> set rest" "EmitCallEnd \<notin> set rest"
    using assms(1,3) by auto
  have w: "covers ?h False rest" "local_close_started (sn_state s) \<longrightarrow> Stop \<in> set rest"
    using assms(4) a(2) effect_handled [OF assms(1,2)] by (simp_all add: settled_def writer_settled_def)
  have "covers ?h False (acts @ rest)"
    unfolding covers_append using effect_covers_writer [OF assms(1) a(1)] w(1) by (auto elim: covers_mono)
  then have "writer_settled (sn_state s') (Some (acts @ rest))"
    using w(2) a(3) effect_local [OF assms(1,2)] by (auto simp: writer_settled_def)
  moreover have "reader_settled (sn_state s') r"
    using assms(4) by (auto simp: settled_def intro: reader_settled_later [OF _ effect_later [OF assms(1,2)]])
  moreover have "call_terminal_emitted (sn_state s') \<or> ends_call (Some (acts @ rest)) \<or> ends_call r"
    if "closed_emitted (sn_state s')"
  proof (cases "closed_emitted (sn_state s)")
    case True
    then have "call_terminal_emitted (sn_state s) \<or> a = EmitCallEnd \<or> ends_call r"
      using assms(4) a(4) by (auto simp: settled_def)
    then show ?thesis by (auto simp: effect_flags [OF assms(1,2)])
  qed (use effect_acts_end_call [OF assms(1) that _ assms(2)] in simp)
  ultimately show ?thesis
    using assms(4) effect_handled [OF assms(1,2)] by (auto simp: settled_def)
qed

lemma settled_reader_effect:
  assumes "effect cfg a s = Some (s', acts)" and "sc_ctx cfg" and "reader_program_ok (a # rest)"
    and "settled (sn_state s) c w (Some (a # rest))"
  shows "settled (sn_state s') c w (Some (acts @ rest))"
proof -
  let ?h = "handled (sn_state s')" and ?l = "local_close_started (sn_state s)"
  have a: "reader_action a" "EmitCallEnd \<notin> set rest" using assms(3) by auto
  have l: "local_close_started (sn_state s') = ?l" using a(1) by (auto simp: effect_local [OF assms(1,2)])
  have "covers ?h ?l rest"
    using assms(4) effect_handled [OF assms(1,2)] by (simp add: settled_def reader_settled_def)
  then have "covers ?h ?l (acts @ rest)"
    unfolding covers_append using effect_covers_reader [OF assms(1) a(1)] by (auto elim: covers_mono)
  then have "reader_settled (sn_state s') (Some (acts @ rest))" by (simp add: reader_settled_def l)
  moreover have "writer_settled (sn_state s') w"
    using assms(4) by (auto simp: settled_def l intro: writer_settled_later [OF _ effect_later [OF assms(1,2)]])
  moreover have "call_terminal_emitted (sn_state s') \<or> ends_call w \<or> ends_call (Some (acts @ rest))"
    if "closed_emitted (sn_state s')"
  proof (cases "closed_emitted (sn_state s)")
    case True
    then have "call_terminal_emitted (sn_state s) \<or> a = EmitCallEnd \<or> ends_call w"
      using assms(4) a(2) by (auto simp: settled_def)
    then show ?thesis by (auto simp: effect_flags [OF assms(1,2)])
  qed (use effect_acts_end_call [OF assms(1) that _ assms(2)] in simp)
  ultimately show ?thesis
    using assms(4) effect_handled [OF assms(1,2)] by (auto simp: settled_def)
qed

text \<open>Actions that do not touch the flags: the writer goes on with the rest, or with another program.\<close>

lemma settled_writer_rest:
  "settled st c (Some (a # rest)) r \<Longrightarrow> \<not> settles a \<Longrightarrow> a \<noteq> Stop \<Longrightarrow> settled st c (Some rest) r"
  by (auto simp: settled_def writer_settled_def)

lemma settled_writer_replace:
  assumes "settled st c (Some p) r" and "EmitCallEnd \<notin> set p" and "covers (handled st) False q"
    and "Stop \<in> set p \<longrightarrow> Stop \<in> set q"
  shows "settled st c (Some q) r"
  using assms by (auto simp: settled_def writer_settled_def)

lemma settled_send_failed:
  assumes "settled st c (Some (a # rest)) r" and "writer_program_ok (a # rest)" and "a \<noteq> EmitCallEnd"
  shows "settled st c (Some (send_failed_program error rest)) r"
proof (rule settled_writer_replace [OF assms(1)])
  show "EmitCallEnd \<notin> set (a # rest)" using assms(3) first_only_tail [OF disjI1 [OF assms(2)]] by simp
qed (simp_all add: covers_send_failed, simp add: send_failed_program_def)

lemma settled_reader_rest:
  "settled st c w (Some (a # rest)) \<Longrightarrow> \<not> settles a \<Longrightarrow> settled st c w (Some rest)"
  by (auto simp: settled_def reader_settled_def)

lemma settled_less_control: "settled st (cmd # c) w r \<Longrightarrow> settled st c w r"
  by (auto simp: settled_def)

lemma settled_more_control: "settled st c w r \<Longrightarrow> \<not> closes_ack cmd \<or> handled st \<Longrightarrow> settled st (c @ [cmd]) w r"
  by (auto simp: settled_def)

definition settled_at :: "ws_session \<Rightarrow> bool" where
  "settled_at s \<longleftrightarrow> settled (sn_state s) (sn_control s) (sn_writer s) (sn_reader s)"

lemma settled_writer_step:
  assumes "writer_step cfg s s'" and "sc_ctx cfg" and "programs_ok s" and "settled_at s"
  shows "settled_at s'"
  using assms(1)
proof cases
  case (writer_control cmd cmds)
  have t: "settled (sn_state s) (cmd # cmds) (Some []) (sn_reader s)"
    using assms(4) writer_control by (simp add: settled_at_def)
  have "covers (handled (sn_state s)) False (handle_control_command b cmd)" for b
    by (rule covers_handle_control_command) (use t in \<open>simp add: settled_def\<close>)
  then have "settled (sn_state s) cmds (Some (handle_control_command b cmd)) (sn_reader s)" for b
    by (rule settled_writer_replace [OF settled_less_control [OF t], rotated]) simp_all
  then show ?thesis using writer_control by (simp add: settled_at_def step_frames)
next
  case (writer_effect a rest s1 acts)
  have "settled (sn_state s1) (sn_control s) (Some (acts @ rest)) (sn_reader s)"
    by (rule settled_writer_effect [OF writer_effect(3) assms(2)])
      (use assms(3,4) writer_effect(2) in \<open>simp_all add: programs_ok_def settled_at_def\<close>)
  then show ?thesis using writer_effect by (simp add: settled_at_def step_frames effect_frame)
next
  case (writer_stop rest)
  then show ?thesis
    using assms(3,4)
    by (auto simp: settled_at_def settled_def writer_settled_def programs_ok_def step_frames)
next
  case writer_control_closed
  then show ?thesis
    using assms(4)
    by (auto simp: settled_at_def settled_def writer_settled_def reader_settled_def control_closed_def
        control_closed_program_def step_frames)
next
  case (writer_data_failed m rest e ann)
  then show ?thesis
    using assms(3,4) by (auto simp del: writer_program_ok.simps simp: settled_at_def programs_ok_def step_frames
        elim!: settled_send_failed)
next
  case (writer_send_failed f rest e ann)
  then show ?thesis
    using assms(3,4) by (auto simp del: writer_program_ok.simps simp: settled_at_def programs_ok_def step_frames
        elim!: settled_send_failed)
next
  case (writer_await_over rest cmds)
  then show ?thesis
    using assms(4) settled_writer_rest [of "sn_state s" cmds AwaitClose rest]
    by (auto simp: settled_at_def step_frames dest: settled_less_control)
next
  case (writer_await_ignored rest cmd cmds)
  then show ?thesis using assms(4) by (auto simp: settled_at_def dest: settled_less_control)
next
  case writer_shutdown
  then show ?thesis
    using assms(4) settled_writer_replace [of _ _ "[]" _ shutdown_program]
    by (auto simp: settled_at_def step_frames shutdown_program_def)
next
  case (writer_data m ms)
  then show ?thesis
    using assms(4) settled_writer_replace [of _ _ "[]" _ "[SendData m]"] by (auto simp: settled_at_def step_frames)
qed (use assms(4) in \<open>auto simp: settled_at_def step_frames elim!: settled_writer_rest\<close>)

lemma settled_reader_step:
  assumes "reader_step cfg s s'" and "sc_ctx cfg" and "programs_ok s" and "settled_at s"
  shows "settled_at s'"
  using assms(1)
proof cases
  case (reader_next item)
  then show ?thesis
    using assms(4) covers_reader_program
    by (auto simp: settled_at_def settled_def reader_settled_def step_frames split: option.split sum.split)
next
  case (reader_effect a rest s1 acts)
  have "settled (sn_state s1) (sn_control s) (sn_writer s) (Some (acts @ rest))"
    by (rule settled_reader_effect [OF reader_effect(3) assms(2)])
      (use assms(3,4) reader_effect(2) in \<open>simp_all add: programs_ok_def settled_at_def\<close>)
  then show ?thesis using reader_effect by (simp add: settled_at_def step_frames effect_frame)
next
  case (reader_control cmd rest)
  have "settled (sn_state s) (sn_control s) (sn_writer s) (Some rest)"
    using assms(4) reader_control by (auto simp: settled_at_def elim!: settled_reader_rest)
  moreover have "closes_ack cmd \<longrightarrow> handled (sn_state s)"
    using assms(4) reader_control by (auto simp: settled_at_def settled_def reader_settled_def closes_ack_def)
  ultimately show ?thesis
    using reader_control by (auto simp: settled_at_def step_frames intro: settled_more_control)
next
  case (reader_stop rest)
  then show ?thesis
    using assms(3,4) by (auto simp: settled_at_def settled_def reader_settled_def programs_ok_def step_frames)
qed (use assms(4) in \<open>auto simp: settled_at_def step_frames elim!: settled_reader_rest\<close>)

lemma settled_step:
  assumes "session_step cfg s s'" and "sc_ctx cfg" and "programs_ok s" and "settled_at s"
  shows "settled_at s'"
  using assms(1)
proof cases
  case by_heartbeat
  then show ?thesis
    using assms(4) by cases (auto simp: settled_at_def step_frames closes_ack_def intro: settled_more_control)
next
  case by_user
  then show ?thesis
    using assms(4)
    by cases (auto simp: settled_at_def step_frames Let_def closes_ack_def intro: settled_more_control
        dest!: sender_close_frame)
qed (use assms settled_writer_step settled_reader_step in blast)+

lemma settled_reachable: "session_reachable cfg s \<Longrightarrow> sc_ctx cfg \<Longrightarrow> settled_at s"
proof (induction rule: session_reachable.induct)
  case session_init
  then show ?case
    by (simp add: settled_at_def settled_def writer_settled_def reader_settled_def spawn_session_def
        session_state_default_def)
next
  case (session_next s s')
  then show ?case using settled_step programs_ok_reachable by blast
qed

section \<open>The order of the messages sent\<close>

fun in_hand :: "task_action list option \<Rightarrow> Message list" where
  "in_hand (Some (SendData m # _)) = [m]"
| "in_hand (Some (SinkData m # _)) = [m]"
| "in_hand _ = []"

fun may_drop :: "bool \<Rightarrow> task_action list option \<Rightarrow> bool" where
  "may_drop remote None = True"
| "may_drop remote (Some p) = (last_phase p \<or> remote \<and> (\<forall>m. SinkData m \<notin> set p))"

definition lane_order :: "ws_session \<Rightarrow> bool" where
  "lane_order s \<longleftrightarrow>
     sn_accepted s = sn_sent_data s @ sn_dropped s @ in_hand (sn_writer s) @ sn_data s \<and>
     (sn_dropped s \<noteq> [] \<longrightarrow> may_drop (remote_close_started (sn_state s)) (sn_writer s))"

lemma effect_remote:
  assumes "effect cfg a s = Some (s', acts)"
  shows "remote_close_started (sn_state s') \<longleftrightarrow> remote_close_started (sn_state s) \<or> a = MarkRemote"
  using assms
  by (cases a; auto simp: Let_def emit_def emit_call_end_def emit_terminal_failure_def try_mark_closed_def
      try_mark_call_terminal_def mark_local_close_started_def mark_remote_close_started_def
      split: if_splits list.splits)

lemma effect_data:
  assumes "effect cfg a s = Some (s', acts)" and "\<not> sending a"
  shows "sn_data s' = sn_data s" "sn_dropped s' = sn_dropped s"
  using assms
  by (cases a; auto simp: Let_def emit_def emit_call_end_def emit_terminal_failure_def try_mark_closed_def
      try_mark_call_terminal_def split: if_splits)+

lemma effect_acts_plain:
  assumes "effect cfg a s = Some (s', acts)" and "writer_action a" and "\<not> sending a"
  shows "acts = [] \<or> acts = [EmitCallEnd]"
  using assms by (cases a) (auto simp: Let_def try_mark_closed_def split: if_splits)

lemma in_hand_rest: "(\<forall>b \<in> set rest. \<not> first_only b) \<Longrightarrow> in_hand (Some rest) = []"
  by (cases "Some rest" rule: in_hand.cases) auto

lemma no_sink_data: "(\<forall>b \<in> set rest. \<not> first_only b) \<Longrightarrow> SinkData m \<notin> set rest"
  by auto

lemma lane_order_effect:
  assumes "effect cfg a s = Some (s', acts)" and "sn_writer s = Some (a # rest)" and "writer_program_ok (a # rest)"
    and "lane_order s"
  shows "lane_order (run_writer_step (Some (acts @ rest)) s')"
proof -
  have r: "in_hand (Some rest) = []" "\<And>m. SinkData m \<notin> set rest" "writer_action a" "a \<noteq> MarkRemote"
    using assms(3) in_hand_rest no_sink_data by auto
  have drop: "sn_dropped s \<noteq> [] \<Longrightarrow> last_phase (a # rest) \<or> remote_close_started (sn_state s)"
    and acc: "sn_accepted s = sn_sent_data s @ sn_dropped s @ in_hand (Some (a # rest)) @ sn_data s"
    using assms(2,4) by (auto simp: lane_order_def)
  show ?thesis
  proof (cases "sending a")
    case True
    then have "\<not> last_phase (a # rest)" by (simp add: last_phase_def)
    then have d: "sn_dropped s = [] \<or> remote_close_started (sn_state s)" using drop by blast
    show ?thesis
    proof (cases a)
      case (SendData m)
      then show ?thesis using assms(1) r acc d
        by (auto simp: lane_order_def run_writer_step_def split: if_splits)
    next
      case Drain
      then show ?thesis using assms(1) r acc d
        by (cases "sn_data s") (auto simp: lane_order_def run_writer_step_def)
    next
      case OneData
      then show ?thesis using assms(1) r acc d
        by (cases "sn_data s"; cases "sn_data_open s") (auto simp: lane_order_def run_writer_step_def)
    qed (use True assms(1) in simp_all)
  next
    case False
    then have acts: "acts = [] \<or> acts = [EmitCallEnd]" using effect_acts_plain [OF assms(1) r(3)] by simp
    have h: "in_hand (Some (a # rest)) = []" "in_hand (Some (acts @ rest)) = []" "\<And>m. SinkData m \<notin> set (acts @ rest)"
      using False acts r(1,2) by (cases a; auto)+
    have "last_phase (a # rest) \<Longrightarrow> last_phase (acts @ rest)" using acts assms(1) by (auto simp: last_phase_def)
    then show ?thesis
      using acc drop h effect_data [OF assms(1) False] effect_frame [OF assms(1)] effect_remote [OF assms(1)] r(4)
      by (auto simp: lane_order_def run_writer_step_def)
  qed
qed

lemma lane_order_writer_step:
  assumes "writer_step cfg s s'" and "programs_ok s" and "lane_order s"
  shows "lane_order s'"
  using assms(1)
proof cases
  case (writer_effect a rest s1 acts)
  then show ?thesis using assms(2,3) lane_order_effect by (simp add: programs_ok_def)
next
  case (writer_control cmd cmds)
  then have "in_hand (Some (handle_control_command b cmd)) = []" "SinkData m \<notin> set (handle_control_command b cmd)" for b m
    by (cases cmd; simp)+
  then show ?thesis using writer_control assms(3) by (auto simp: lane_order_def step_frames last_phase_def)
next
  case (writer_data_failed m rest e ann)
  then show ?thesis
    using assms(3) send_failed_last_phase by (auto simp: lane_order_def step_frames send_failed_program_def last_phase_def)
next
  case (writer_send_failed f rest e ann)
  then show ?thesis
    using assms(3) send_failed_last_phase by (auto simp: lane_order_def step_frames send_failed_program_def last_phase_def)
next
  case (writer_sent a rest f)
  then have "in_hand (Some rest) = []" "\<And>m. SinkData m \<notin> set rest"
    using assms(2) in_hand_rest no_sink_data by (auto simp: programs_ok_def)
  then show ?thesis using writer_sent assms(3) by (auto simp: lane_order_def step_frames last_phase_def)
qed (use assms(2,3) in_hand_rest no_sink_data in
    \<open>auto simp: lane_order_def step_frames programs_ok_def last_phase_def shutdown_program_def control_closed_program_def\<close>)

lemma may_drop_mono: "may_drop r w \<Longrightarrow> r \<le> r' \<Longrightarrow> may_drop r' w"
  by (cases w) auto

lemma reader_action_not_sending: "reader_action a \<Longrightarrow> \<not> sending a"
  by (cases a) simp_all

lemma lane_order_step:
  assumes "session_step cfg s s'" and "programs_ok s" and "lane_order s"
  shows "lane_order s'"
  using assms(1)
proof cases
  case by_writer
  then show ?thesis using assms lane_order_writer_step by blast
next
  case by_reader
  then show ?thesis
  proof cases
    case (reader_effect a rest s1 acts)
    then have "\<not> sending a" using assms(2) reader_action_not_sending by (simp add: programs_ok_def)
    note e = effect_data [OF reader_effect(3) this] effect_frame [OF reader_effect(3)] effect_remote [OF reader_effect(3)]
    show ?thesis using assms(3) reader_effect(1) e by (auto simp: lane_order_def step_frames elim: may_drop_mono)
  qed (use assms(3) in \<open>auto simp: lane_order_def step_frames split: option.split sum.split\<close>)
next
  case by_heartbeat
  then show ?thesis using assms(3) by cases (auto simp: lane_order_def step_frames)
next
  case by_user
  then show ?thesis
    using assms(3) by cases (auto simp: lane_order_def step_frames Let_def dest!: sender_close_frame)
qed

lemma lane_order_reachable: "session_reachable cfg s \<Longrightarrow> lane_order s"
proof (induction rule: session_reachable.induct)
  case (session_next s s')
  then show ?case using lane_order_step programs_ok_reachable by blast
qed (simp add: lane_order_def spawn_session_def)

section \<open>The close frame comes last\<close>

fun close_frame :: "EngineFrame \<Rightarrow> bool" where
  "close_frame (FClose _ _) = True"
| "close_frame _ = False"

definition close_last :: "ws_session \<Rightarrow> bool" where
  "close_last s \<longleftrightarrow> (\<forall>f \<in> set (butlast (sn_sent s)). \<not> close_frame f) \<and>
     ((\<exists>f \<in> set (sn_sent s). close_frame f) \<longrightarrow> pred_option last_phase (sn_writer s))"

definition plain_messages :: "ws_session \<Rightarrow> bool" where
  "plain_messages s \<longleftrightarrow> (\<forall>m \<in> set (sn_accepted s). \<not> close_frame (frame_of_message m))"

lemma close_last_before:
  assumes "close_last s" and "sn_writer s = Some p" and "\<not> last_phase p"
  shows "\<forall>f \<in> set (sn_sent s). \<not> close_frame f"
  using assms by (auto simp: close_last_def)

lemma close_last_accept:
  assumes "\<forall>f \<in> set (sn_sent s). \<not> close_frame f" and "close_frame f \<longrightarrow> last_phase rest"
  shows "close_last (run_writer_step (Some rest) (sink_accept cfg f s))"
  using assms by (auto simp: close_last_def step_frames)

lemma last_phase_rest: "last_phase (a # rest) \<Longrightarrow> a \<noteq> Stop \<Longrightarrow> last_phase rest"
  by (auto simp: last_phase_def)

lemma close_last_idle: "close_last s \<Longrightarrow> sn_writer s = Some [] \<Longrightarrow> \<forall>f \<in> set (sn_sent s). \<not> close_frame f"
  by (rule close_last_before [where p = "[]"]) (simp_all add: last_phase_def)

lemma close_last_writer_step:
  assumes "writer_step cfg s s'" and "programs_ok s" and "lane_order s" and "plain_messages s" and "close_last s"
  shows "close_last s'"
  using assms(1)
proof cases
  case (writer_effect a rest s1 acts)
  have "last_phase (acts @ rest)" if "last_phase (a # rest)"
    using effect_acts_plain [OF writer_effect(3)] that assms(2) writer_effect(2,3)
    by (auto simp: last_phase_def programs_ok_def)
  then show ?thesis
    using assms(5) writer_effect(1,2) effect_frame [OF writer_effect(3)] by (auto simp: close_last_def step_frames)
next
  case (writer_data_sent m rest)
  have "m \<in> set (sn_accepted s)" using assms(3) writer_data_sent by (simp add: lane_order_def)
  then have "\<not> close_frame (frame_of_message m)" using assms(4) by (simp add: plain_messages_def)
  moreover have "\<forall>f \<in> set (sn_sent s). \<not> close_frame f"
    by (rule close_last_before [OF assms(5) writer_data_sent(2)]) (simp add: last_phase_def)
  ultimately show ?thesis using writer_data_sent by (simp add: close_last_accept)
next
  case (writer_sent a rest f)
  have "\<forall>f \<in> set (sn_sent s). \<not> close_frame f"
    by (rule close_last_before [OF assms(5) writer_sent(2)]) (use writer_sent(3) in \<open>auto simp: last_phase_def\<close>)
  moreover have "close_frame f \<longrightarrow> last_phase rest"
    using assms(2) writer_sent(2,3) by (cases f) (auto simp: programs_ok_def)
  ultimately show ?thesis using writer_sent(1) by (simp add: close_last_accept)
next
  case (writer_control cmd cmds)
  then show ?thesis using close_last_idle [OF assms(5)] by (auto simp: close_last_def step_frames dest: in_set_butlastD)
next
  case (writer_data m ms)
  then show ?thesis using close_last_idle [OF assms(5)] by (auto simp: close_last_def step_frames dest: in_set_butlastD)
next
  case writer_shutdown
  then show ?thesis using close_last_idle [OF assms(5)] by (auto simp: close_last_def step_frames dest: in_set_butlastD)
next
  case writer_control_closed
  then show ?thesis using close_last_idle [OF assms(5)] by (auto simp: close_last_def step_frames dest: in_set_butlastD)
qed (use assms(5) send_failed_last_phase in \<open>auto simp: close_last_def step_frames dest: last_phase_rest\<close>)

lemma close_last_step:
  assumes "session_step cfg s s'" and "programs_ok s" and "lane_order s" and "plain_messages s" and "close_last s"
  shows "close_last s'"
  using assms(1)
proof cases
  case by_writer
  then show ?thesis using assms close_last_writer_step by blast
next
  case by_reader
  then show ?thesis
    using assms(5) by cases (auto simp: close_last_def step_frames effect_frame split: option.split sum.split)
next
  case by_heartbeat
  then show ?thesis using assms(5) by cases (auto simp: close_last_def step_frames)
next
  case by_user
  then show ?thesis
    using assms(5) by cases (auto simp: close_last_def step_frames Let_def dest!: sender_close_frame)
qed

lemma accepted_mono:
  assumes "session_step cfg s s'"
  shows "set (sn_accepted s) \<subseteq> set (sn_accepted s')"
  using assms
proof cases
  case by_writer
  then show ?thesis by cases (auto simp: step_frames effect_frame)
next
  case by_reader
  then show ?thesis by cases (auto simp: step_frames effect_frame split: option.split sum.split)
next
  case by_heartbeat
  then show ?thesis by cases (auto simp: step_frames)
next
  case by_user
  then show ?thesis by cases (auto simp: step_frames Let_def dest!: sender_close_frame)
qed

lemma close_last_reachable: "session_reachable cfg s \<Longrightarrow> plain_messages s \<Longrightarrow> close_last s"
proof (induction rule: session_reachable.induct)
  case (session_next s s')
  have "plain_messages s" using session_next accepted_mono by (fastforce simp: plain_messages_def)
  then show ?case
    using session_next close_last_step programs_ok_reachable lane_order_reachable by blast
qed (simp add: close_last_def spawn_session_def)

section \<open>The order of the messages received\<close>

fun deliverable :: "SessionConfig \<Rightarrow> EngineFrame \<Rightarrow> Message list" where
  "deliverable cfg (FText t) = [MText t]"
| "deliverable cfg (FBinary b) = [MBinary b]"
| "deliverable cfg (FPing b) = (if sc_deliver_control_frames cfg then [MPing b] else [])"
| "deliverable cfg (FPong b) = (if sc_deliver_control_frames cfg then [MPong b] else [])"
| "deliverable cfg (FClose _ _) = []"

fun outgoing :: "task_action \<Rightarrow> Message list" where
  "outgoing (Out (Inr m)) = [m]"
| "outgoing _ = []"

definition pending_out :: "task_action list option \<Rightarrow> Message list" where
  "pending_out p = (case p of None \<Rightarrow> [] | Some q \<Rightarrow> concat (map outgoing q))"

lemma pending_out_simps [simp]:
  "pending_out None = []" "pending_out (Some []) = []" "pending_out (Some (a # q)) = outgoing a @ pending_out (Some q)"
  "pending_out (Some (p @ q)) = pending_out (Some p) @ pending_out (Some q)"
  by (simp_all add: pending_out_def)

definition in_order :: "SessionConfig \<Rightarrow> ws_session \<Rightarrow> bool" where
  "in_order cfg s \<longleftrightarrow>
     prefix (sn_delivered s) (concat (map (deliverable cfg) (sn_received s))) \<and>
     (sn_receiver_alive s \<longrightarrow>
        sn_delivered s @ pending_out (sn_reader s) = concat (map (deliverable cfg) (sn_received s)))"

lemma pending_out_reader_program:
  "pending_out (Some (reader_program cfg item)) = (case item of Some (Inr f) \<Rightarrow> deliverable cfg f | _ \<Rightarrow> [])"
  by (cases "(cfg, item)" rule: reader_program.cases) simp_all

lemma effect_pending_out:
  assumes "effect cfg a s = Some (s', acts)"
  shows "outgoing a = [] \<and> pending_out (Some acts) = []"
  using assms
  by (cases a) (auto simp: Let_def try_mark_closed_def remote_close_program_def eof_program_def
      split: if_splits list.splits)

lemma in_order_reader_step:
  assumes "reader_step cfg s s'" and "programs_ok s" and "in_order cfg s"
  shows "in_order cfg s'"
  using assms(1)
proof cases
  case (reader_next item)
  then show ?thesis
    using assms(3) pending_out_reader_program [of cfg item]
    by (auto simp: in_order_def step_frames split: option.splits sum.splits)
next
  case (reader_effect a rest s1 acts)
  then show ?thesis
    using assms(3) effect_pending_out [OF reader_effect(3)] effect_frame [OF reader_effect(3)]
    by (auto simp: in_order_def step_frames)
next
  case (reader_out item rest)
  then show ?thesis
    using assms(3) by (cases item) (auto simp: in_order_def step_frames prefix_def)
next
  case (reader_stop rest)
  then show ?thesis using assms(2,3) by (auto simp: in_order_def step_frames programs_ok_def)
qed (use assms(3) in \<open>auto simp: in_order_def step_frames\<close>)

lemma in_order_step:
  assumes "session_step cfg s s'" and "programs_ok s" and "in_order cfg s"
  shows "in_order cfg s'"
  using assms(1)
proof cases
  case by_writer
  then show ?thesis
  proof cases
    case (writer_out item rest)
    then obtain e where "item = Inl e" using assms(2) by (cases item) (auto simp: programs_ok_def)
    then show ?thesis using assms(3) writer_out by (auto simp: in_order_def step_frames)
  qed (use assms(3) in \<open>auto simp: in_order_def step_frames effect_frame\<close>)
next
  case by_reader
  then show ?thesis using assms in_order_reader_step by blast
next
  case by_heartbeat
  then show ?thesis using assms(3) by cases (auto simp: in_order_def step_frames)
next
  case by_user
  then show ?thesis
    using assms(3) by cases (auto simp: in_order_def step_frames Let_def dest!: sender_close_frame)
qed

lemma in_order_reachable: "session_reachable cfg s \<Longrightarrow> in_order cfg s"
proof (induction rule: session_reachable.induct)
  case (session_next s s')
  then show ?case using in_order_step programs_ok_reachable by blast
qed (simp add: in_order_def spawn_session_def)

section \<open>Running a session\<close>

text \<open>A schedule says which task moves next; the sink accepts every frame.\<close>

datatype choice =
    RunWriter
  | RunReader
  | Yield "(WebSocketEngineError, EngineFrame) result option"
  | SendMessage Message
  | CallClose u16 bytes
  | QueueClose
  | DropSender

definition drive_writer :: "SessionConfig \<Rightarrow> ws_session \<Rightarrow> ws_session option" where
  "drive_writer cfg s =
     (case sn_writer s of
        Some [] \<Rightarrow>
          if sn_notified s then None
          else (case sn_control s of
              cmd # cmds \<Rightarrow> Some (run_writer_step
                (Some (handle_control_command (remote_close_started (sn_state s)) cmd)) (s\<lparr>sn_control := cmds\<rparr>))
            | [] \<Rightarrow>
                if control_closed s \<or> \<not> sn_data_open s then None
                else (case sn_data s of
                    m # ms \<Rightarrow> Some (run_writer_step (Some [SendData m]) (s\<lparr>sn_data := ms\<rparr>))
                  | [] \<Rightarrow> if sn_sender_alive s then None else Some (s\<lparr>sn_data_open := False\<rparr>)))
      | Some (SinkData m # rest) \<Rightarrow> Some (run_writer_step (Some rest)
          (sink_accept cfg (frame_of_message m) (s\<lparr>sn_sent_data := sn_sent_data s @ [m]\<rparr>)))
      | Some (Sink f # rest) \<Rightarrow> Some (run_writer_step (Some rest) (sink_accept cfg f s))
      | Some (SinkOrFail f # rest) \<Rightarrow> Some (run_writer_step (Some rest) (sink_accept cfg f s))
      | Some (AwaitClose # rest) \<Rightarrow> Some (run_writer_step (Some rest) s)
      | Some (Stop # rest) \<Rightarrow> Some (run_writer_step None s)
      | Some (a # rest) \<Rightarrow> map_option (\<lambda>(s', acts). run_writer_step (Some (acts @ rest)) s') (effect cfg a s)
      | None \<Rightarrow> None)"

definition drive_reader :: "SessionConfig \<Rightarrow> ws_session \<Rightarrow> ws_session option" where
  "drive_reader cfg s =
     (case sn_reader s of
        Some (Out item # rest) \<Rightarrow>
          if out_ready cfg s then Some (run_reader_step (Some rest) (push_out item s)) else None
      | Some (Control cmd # rest) \<Rightarrow>
          if control_ready s then Some (run_reader_step (Some rest) (push_control cmd s)) else None
      | Some (Stop # rest) \<Rightarrow> Some (run_reader_step None s)
      | Some (a # rest) \<Rightarrow> map_option (\<lambda>(s', acts). run_reader_step (Some (acts @ rest)) s') (effect cfg a s)
      | _ \<Rightarrow> None)"

fun drive :: "SessionConfig \<Rightarrow> choice \<Rightarrow> ws_session \<Rightarrow> ws_session option" where
  "drive cfg RunWriter s = drive_writer cfg s"
| "drive cfg RunReader s = drive_reader cfg s"
| "drive cfg (Yield item) s =
     (if sn_reader s = Some [] then Some (run_reader_step (Some (reader_program cfg item)) (stream_yield cfg item s))
      else None)"
| "drive cfg (SendMessage m) s =
     (if sn_sender_alive s \<and> sn_writer s \<noteq> None \<and> length (sn_data s) < lane_capacity cfg \<and>
         sender_send_check False m = Inr () then Some (sender_send m s) else None)"
| "drive cfg (CallClose code reason) s =
     (if sn_sender_alive s then (case sender_close code reason s of Inr s' \<Rightarrow> Some s' | Inl _ \<Rightarrow> None) else None)"
| "drive cfg QueueClose s =
     (case sn_close_call s of
        Some (code, reason) \<Rightarrow>
          if control_ready s then Some ((push_control (CmdClose code reason) s)\<lparr>sn_close_call := None\<rparr>) else None
      | None \<Rightarrow> None)"
| "drive cfg DropSender s = (if sn_sender_alive s then Some (sender_drop False s) else None)"

fun drive_all :: "SessionConfig \<Rightarrow> choice list \<Rightarrow> ws_session \<Rightarrow> ws_session option" where
  "drive_all cfg [] s = Some s"
| "drive_all cfg (c # cs) s = (case drive cfg c s of None \<Rightarrow> None | Some s' \<Rightarrow> drive_all cfg cs s')"

lemma drive_writer_step: "drive_writer cfg s = Some s' \<Longrightarrow> writer_step cfg s s'"
  unfolding drive_writer_def
  by (auto simp del: effect.simps split: option.splits list.splits task_action.splits if_splits
      intro: writer_step.intros)

lemma drive_reader_step: "drive_reader cfg s = Some s' \<Longrightarrow> reader_step cfg s s'"
  unfolding drive_reader_def
  by (auto simp del: effect.simps split: option.splits list.splits task_action.splits if_splits
      intro: reader_step.intros)

lemma drive_step:
  assumes "drive cfg c s = Some s'"
  shows "session_step cfg s s'"
proof (cases c)
  case RunWriter
  then show ?thesis using assms drive_writer_step by_writer by simp
next
  case RunReader
  then show ?thesis using assms drive_reader_step by_reader by simp
next
  case (Yield item)
  then show ?thesis using assms by (auto split: if_splits intro: by_reader reader_next)
next
  case (SendMessage m)
  then show ?thesis using assms by (auto split: if_splits intro: by_user user_send)
next
  case (CallClose code reason)
  then show ?thesis using assms by (auto split: if_splits sum.splits intro: by_user user_close)
next
  case QueueClose
  then obtain code reason where "sn_close_call s = Some (code, reason)" "control_ready s"
      "s' = (push_control (CmdClose code reason) s)\<lparr>sn_close_call := None\<rparr>"
    using assms by (auto split: if_splits option.splits)
  then show ?thesis using by_user [OF user_close_queued] by simp
next
  case DropSender
  then show ?thesis using assms by (auto split: if_splits intro: by_user user_drop)
qed

lemma drive_all_reachable: "session_reachable cfg s \<Longrightarrow> drive_all cfg cs s = Some s' \<Longrightarrow> session_reachable cfg s'"
proof (induction cs arbitrary: s)
  case (Cons c cs)
  then obtain s1 where "drive cfg c s = Some s1" "drive_all cfg cs s1 = Some s'" by (auto split: option.splits)
  then show ?case using Cons session_next drive_step by blast
qed simp

definition wx_config :: SessionConfig where
  "wx_config = \<lparr>sc_queue_size = 4, sc_deliver_control_frames = False, sc_heartbeat = None, sc_ctx = True,
     sc_listener = True, sc_display = (\<lambda>_. ''error'')\<rparr>"

definition wx_run :: "choice list \<Rightarrow> ws_session option" where
  "wx_run cs = drive_all wx_config cs (spawn_session wx_config)"

lemma wx_run_reachable: "wx_run cs = Some s \<Longrightarrow> session_reachable wx_config s"
  unfolding wx_run_def by (rule drive_all_reachable [OF session_init])

text \<open>Two messages and a close from the user, then the peer's answer.\<close>

definition wx_closing :: "choice list" where
  "wx_closing = [SendMessage (MText [104, 105]), SendMessage (MBinary [1]), Yield (Some (Inr (FText [111, 107]))), RunReader,
     CallClose 1000 [], QueueClose] @ replicate 12 RunWriter @
    [Yield (Some (Inr (FClose 1000 []))), RunReader, RunReader, RunReader, RunReader, RunReader] @ replicate 5 RunWriter"

section \<open>What a session guarantees\<close>

text \<open>
  C3. Whatever the interleaving of the writer, the reader, the heartbeat and the user, a WebSocket call is reported as
  ended or failed at most once and as closed at most once; and when the writer and the reader have both returned, it
  has been reported exactly once.
\<close>

theorem websocket_call_ends_once:
  assumes "session_reachable cfg s" and "sc_ctx cfg"
  shows "length (filter terminal_event (sn_events s)) \<le> 1 \<and> length (filter closed_event (sn_events s)) \<le> 1 \<and>
    (sn_writer s = None \<and> sn_reader s = None \<longrightarrow> length (filter terminal_event (sn_events s)) = 1)"
proof -
  have "once s" by (rule once_reachable [OF assms(1)])
  moreover have "call_terminal_emitted (sn_state s)" if "sn_writer s = None" "sn_reader s = None"
    using settled_reachable [OF assms] that
    by (auto simp: settled_at_def settled_def writer_settled_def handled_def)
  ultimately show ?thesis by (auto simp: once_def split: if_splits)
qed

theorem websocket_call_ends_once_witness:
  "\<exists>s. session_reachable wx_config s \<and> sn_writer s = None \<and> sn_reader s = None \<and>
     length (filter terminal_event (sn_events s)) = 1"
proof -
  have "case wx_run wx_closing of None \<Rightarrow> False | Some s \<Rightarrow> sn_writer s = None \<and> sn_reader s = None" by code_simp
  then obtain s where s: "wx_run wx_closing = Some s" "sn_writer s = None" "sn_reader s = None"
    by (auto split: option.splits)
  have c: "sc_ctx wx_config" by (simp add: wx_config_def)
  show ?thesis using websocket_call_ends_once [OF wx_run_reachable [OF s(1)] c] wx_run_reachable [OF s(1)] s by blast
qed

text \<open>
  C32. What leaves on the wire from the data lane is, in every interleaving, a prefix of what the user queued: nothing is
  reordered, sent twice or skipped.  As long as the peer has not closed, a writer that waits for work has lost nothing:
  every queued message has been sent or is still in the lane.
\<close>

theorem websocket_sends_in_order:
  assumes "session_reachable cfg s"
  shows "prefix (sn_sent_data s) (sn_accepted s) \<and>
    (sn_writer s = Some [] \<and> \<not> remote_close_started (sn_state s) \<longrightarrow> sn_accepted s = sn_sent_data s @ sn_data s)"
  using lane_order_reachable [OF assms] by (auto simp: lane_order_def last_phase_def)

theorem websocket_sends_in_order_witness:
  "\<exists>s. session_reachable wx_config s \<and> sn_accepted s = [MText [104, 105], MBinary [1]] \<and> sn_data s = [] \<and>
     sn_sent_data s = [MText [104, 105], MBinary [1]]"
proof -
  let ?cs = "[SendMessage (MText [104, 105]), SendMessage (MBinary [1])] @ replicate 6 RunWriter"
  have "case wx_run ?cs of None \<Rightarrow> False
      | Some s \<Rightarrow> sn_accepted s = [MText [104, 105], MBinary [1]] \<and> sn_data s = [] \<and> sn_writer s = Some [] \<and>
          \<not> remote_close_started (sn_state s)"
    by code_simp
  then obtain s where s: "wx_run ?cs = Some s" "sn_accepted s = [MText [104, 105], MBinary [1]]" "sn_data s = []"
      "sn_writer s = Some []" "\<not> remote_close_started (sn_state s)"
    by (auto split: option.splits)
  show ?thesis
    using websocket_sends_in_order [OF wx_run_reachable [OF s(1)]] wx_run_reachable [OF s(1)] s by (intro exI [of _ s]) simp
qed

text \<open>
  C33. What the user's stream is handed is a prefix of what the peer sent, with the control frames left out unless they were
  asked for; while the user keeps the stream, a reader that waits for the next frame has handed over all of it.
\<close>

theorem websocket_receives_in_order:
  assumes "session_reachable cfg s"
  shows "prefix (sn_delivered s) (concat (map (deliverable cfg) (sn_received s))) \<and>
    (sn_receiver_alive s \<and> sn_reader s = Some [] \<longrightarrow>
       sn_delivered s = concat (map (deliverable cfg) (sn_received s)))"
  using in_order_reachable [OF assms] by (auto simp: in_order_def)

theorem websocket_receives_in_order_witness:
  "\<exists>s. session_reachable wx_config s \<and> sn_delivered s = [MText [111, 107], MBinary [2]]"
proof -
  let ?cs = "[Yield (Some (Inr (FText [111, 107]))), RunReader, Yield (Some (Inr (FPing []))), RunReader,
    Yield (Some (Inr (FBinary [2]))), RunReader]"
  have "case wx_run ?cs of None \<Rightarrow> False
      | Some s \<Rightarrow> sn_received s = [FText [111, 107], FPing [], FBinary [2]] \<and> sn_receiver_alive s \<and> sn_reader s = Some []"
    by code_simp
  then obtain s where s: "wx_run ?cs = Some s" "sn_received s = [FText [111, 107], FPing [], FBinary [2]]"
      "sn_receiver_alive s" "sn_reader s = Some []"
    by (auto split: option.splits)
  show ?thesis
    using websocket_receives_in_order [OF wx_run_reachable [OF s(1)]] wx_run_reachable [OF s(1)] s
    by (intro exI [of _ s]) (simp add: wx_config_def)
qed

text \<open>
  C34. If the user queues no close message of their own, a close frame is the last frame given to the engine in every
  interleaving: a local close, the answer to the peer's close and a ping timeout send at most one close frame between
  them, and no message, ping or pong follows it.
\<close>

theorem websocket_close_is_last:
  assumes "session_reachable cfg s" and "\<forall>m \<in> set (sn_accepted s). \<not> close_frame (frame_of_message m)"
  shows "\<forall>f \<in> set (butlast (sn_sent s)). \<not> close_frame f"
  using close_last_reachable [OF assms(1)] assms(2) by (simp add: close_last_def plain_messages_def)

theorem websocket_close_is_last_witness:
  "\<exists>s. session_reachable wx_config s \<and> sn_sent s = [FText [104, 105], FBinary [1], FClose 1000 []] \<and>
     (\<forall>f \<in> set (butlast (sn_sent s)). \<not> close_frame f)"
proof -
  have "case wx_run wx_closing of None \<Rightarrow> False
      | Some s \<Rightarrow> sn_sent s = [FText [104, 105], FBinary [1], FClose 1000 []] \<and>
          (\<forall>m \<in> set (sn_accepted s). \<not> close_frame (frame_of_message m))"
    by code_simp
  then obtain s where s: "wx_run wx_closing = Some s" "sn_sent s = [FText [104, 105], FBinary [1], FClose 1000 []]"
      "\<forall>m \<in> set (sn_accepted s). \<not> close_frame (frame_of_message m)"
    by (auto split: option.splits)
  show ?thesis
    using websocket_close_is_last [OF wx_run_reachable [OF s(1)] s(3)] wx_run_reachable [OF s(1)] s(2) by blast
qed


end
