(* ===== verification/Protocol_Binding.thy ===== *)
theory Protocol_Binding
  imports Call_Types
begin

text \<open>
  What is sent on a connection, a model of \<^verbatim>\<open>openwire/src/transport/protocol.rs\<close> and of the request preparation in
  \<^verbatim>\<open>service.rs\<close> and \<^verbatim>\<open>client.rs\<close>: the choice of the protocol, the headers that HTTP/2 forbids, the credentials of a
  forward proxy, and whether an HTTP/1 connection may carry another exchange.
\<close>

section \<open>Model\<close>

text \<open>
  What is taken from outside: header maps, \<^verbatim>\<open>HeaderName::from_bytes\<close>, the path of a URI and the parsing of one, and
  base64.
\<close>

record 'h protocol_env =
  pr_headers :: "'h header_ops"
  pr_header_name :: "bytes \<Rightarrow> header_name option"
  pr_path_and_query :: "uri \<Rightarrow> string option"
  pr_parse_uri :: "string \<Rightarrow> (string, uri) result"
  pr_base64 :: "bytes \<Rightarrow> string"

definition determine_protocol :: "Address \<Rightarrow> bool \<Rightarrow> ConnectionProtocol" where
  "determine_protocol address negotiated_h2 =
     (if ad_scheme address = SchemeHttp then ConnHttp1 else if negotiated_h2 then ConnHttp2 else ConnHttp1)"

fun push_new :: "'a \<Rightarrow> 'a list \<Rightarrow> 'a list" where
  "push_new x xs = (if x \<in> set xs then xs else xs @ [x])"

definition nominated_by_value :: "'h protocol_env \<Rightarrow> header_value \<Rightarrow> header_name list \<Rightarrow> header_name list" where
  "nominated_by_value env v out =
     (case to_str v of
        None \<Rightarrow> out
      | Some s \<Rightarrow>
          fold (\<lambda>token out. case pr_header_name env (str_bytes token) of None \<Rightarrow> out | Some n \<Rightarrow> push_new n out)
            (filter (\<lambda>token. token \<noteq> []) (map trim (split_on (CHR '','') s))) out)"

definition connection_nominated_headers :: "'h protocol_env \<Rightarrow> 'h \<Rightarrow> header_name list" where
  "connection_nominated_headers env headers =
     fold (nominated_by_value env) (hm_get_all (pr_headers env) headers ''connection'') []"

definition append_http2_te_trailers :: "'h header_ops \<Rightarrow> header_value list \<Rightarrow> 'h \<Rightarrow> 'h" where
  "append_http2_te_trailers ops te_values headers =
     (if list_ex (\<lambda>v. case to_str v of None \<Rightarrow> False
          | Some s \<Rightarrow> list_ex (\<lambda>token. eq_ignore_ascii_case token ''trailers'') (map trim (split_on (CHR '','') s))) te_values
      then hm_insert ops ''te'' (str_bytes ''trailers'') headers else headers)"

definition strip_http2_connection_specific_headers :: "'h protocol_env \<Rightarrow> 'h \<Rightarrow> 'h" where
  "strip_http2_connection_specific_headers env headers =
     (let ops = pr_headers env;
          connection_nominated = connection_nominated_headers env headers;
          te_values = hm_get_all ops headers ''te'';
          headers1 = fold (hm_remove ops)
            [''te'', ''connection'', ''keep-alive'', ''proxy-connection'', ''transfer-encoding'', ''upgrade''] headers;
          te_was_nominated = (''te'' \<in> set connection_nominated);
          headers2 = fold (hm_remove ops) connection_nominated headers1
      in if \<not> te_was_nominated then append_http2_te_trailers ops te_values headers2 else headers2)"

definition prepare_bound_request ::
  "'h protocol_env \<Rightarrow> ConnectionProtocol \<Rightarrow> RouteKind \<Rightarrow> ('h, 'x) request \<Rightarrow> (WireError, ('h, 'x) request) result" where
  "prepare_bound_request env protocol route_kind request =
     (if protocol = ConnHttp2
      then Inr (request\<lparr>rq_headers := strip_http2_connection_specific_headers env (rq_headers request)\<rparr>)
      else if protocol \<noteq> ConnHttp1 \<or> (case route_kind of HttpForwardProxy _ _ \<Rightarrow> True | _ \<Rightarrow> False) then Inr request
      else
        let origin_form = unwrap_or (pr_path_and_query env (rq_uri request)) ''/'' in
        case pr_parse_uri env origin_form of
          Inl e \<Rightarrow> Inl (err_internal ''failed to normalize request URI for direct HTTP/1.1 binding'' e)
        | Inr u \<Rightarrow> Inr (request\<lparr>rq_uri := u\<rparr>))"

definition is_optional_whitespace :: "byte \<Rightarrow> bool" where
  "is_optional_whitespace b \<longleftrightarrow> b = char_byte (CHR '' '') \<or> b = 9"

definition is_tchar :: "byte \<Rightarrow> bool" where
  "is_tchar b \<longleftrightarrow>
     b \<in> set (str_bytes [CHR ''!'', CHR ''#'', CHR ''$'', CHR ''%'', CHR ''&'', CHR 39, CHR ''*'', CHR ''+'', CHR ''-'',
       CHR ''.'', CHR ''^'', CHR ''_'', CHR 96, CHR ''|'', CHR ''~'']) \<or>
     48 \<le> b \<and> b \<le> 57 \<or> 65 \<le> b \<and> b \<le> 90 \<or> 97 \<le> b \<and> b \<le> 122"

text \<open>The scan of a \<^verbatim>\<open>Connection\<close> value from the current index on; \<^const>\<open>Inl\<close> is a malformed value.\<close>

function scan_connection_value :: "string \<Rightarrow> (unit, bool) result" where
  "scan_connection_value s =
     (let s1 = dropWhile (is_optional_whitespace \<circ> char_byte) s in
      case s1 of
        [] \<Rightarrow> Inr False
      | c # r \<Rightarrow>
          if c = CHR '','' then scan_connection_value r
          else
            let token = takeWhile (is_tchar \<circ> char_byte) s1;
                s2 = dropWhile (is_optional_whitespace \<circ> char_byte) (dropWhile (is_tchar \<circ> char_byte) s1)
            in if token = [] then Inl ()
               else case s2 of
                   [] \<Rightarrow> Inr (eq_ignore_ascii_case token ''close'')
                 | c2 # r2 \<Rightarrow>
                     if c2 = CHR '',''
                     then if eq_ignore_ascii_case token ''close'' then Inr True else scan_connection_value r2
                     else Inl ())"
  by pat_completeness auto
termination
proof (relation "measure length", goal_cases)
  case (2 s s1 c r)
  have "length (c # r) \<le> length s" unfolding 2(2) [symmetric] 2(1) by (rule length_dropWhile_le)
  then show ?case by simp
next
  case (3 s s1 c r token s2 c2 r2)
  have "length s2 \<le> length (dropWhile (is_tchar \<circ> char_byte) s1)" unfolding 3(5) by (rule length_dropWhile_le)
  also have "\<dots> \<le> length s1" by (rule length_dropWhile_le)
  also have "\<dots> \<le> length s" unfolding 3(1) by (rule length_dropWhile_le)
  finally show ?case using 3(7) by simp
qed simp

declare scan_connection_value.simps [simp del]

definition connection_header_value_requests_close :: "header_value \<Rightarrow> (unit, bool) result" where
  "connection_header_value_requests_close v =
     (case to_str v of None \<Rightarrow> Inl () | Some s \<Rightarrow> scan_connection_value s)"

definition connection_header_requests_close :: "'h header_ops \<Rightarrow> 'h \<Rightarrow> bool" where
  "connection_header_requests_close ops headers =
     list_ex (\<lambda>v. case connection_header_value_requests_close v of Inl _ \<Rightarrow> True | Inr b \<Rightarrow> b)
       (hm_get_all ops headers ''connection'')"

definition http1_exchange_allows_reuse :: "'h header_ops \<Rightarrow> bool \<Rightarrow> http_version \<Rightarrow> 'h \<Rightarrow> bool" where
  "http1_exchange_allows_reuse ops request_requests_close version headers =
     (if request_requests_close then False
      else if version = HTTP_10 then False
      else \<not> connection_header_requests_close ops headers)"

text \<open>The request preparation of \<^verbatim>\<open>service.rs\<close>.\<close>

definition same_selected_proxy_endpoint :: "SelectedProxy option \<Rightarrow> SelectedProxy option \<Rightarrow> bool" where
  "same_selected_proxy_endpoint l r =
     (case (l, r) of (Some l, Some r) \<Rightarrow> same_endpoint l r | (None, None) \<Rightarrow> True | _ \<Rightarrow> False)"

definition clear_proxy_authorization_if_proxy_changed ::
  "'h header_ops \<Rightarrow> SelectedProxy option \<Rightarrow> ('h, 'x) request \<Rightarrow> ('h, 'x) request" where
  "clear_proxy_authorization_if_proxy_changed ops sp request =
     (let previous = ext_selected_proxy (rq_extensions request) in
      if previous \<noteq> None \<and> \<not> same_selected_proxy_endpoint previous sp
      then request\<lparr>rq_headers := hm_remove ops ''proxy-authorization'' (rq_headers request)\<rparr> else request)"

definition basic_auth_header_value :: "'h protocol_env \<Rightarrow> ProxyCredentials \<Rightarrow> string" where
  "basic_auth_header_value env c =
     ''Basic '' @ pr_base64 env (str_bytes (cred_username c @ CHR '':'' # cred_password c))"

definition apply_forward_proxy_credentials ::
  "'h protocol_env \<Rightarrow> RouteKind \<Rightarrow> ('h, 'x) request \<Rightarrow> (WireError, ('h, 'x) request) result" where
  "apply_forward_proxy_credentials env route_kind request =
     (case route_kind of
        HttpForwardProxy _ (Some credentials) \<Rightarrow>
          if contains_key (pr_headers env) (rq_headers request) ''proxy-authorization'' then Inr request
          else (case header_value_from_str (str_bytes (basic_auth_header_value env credentials)) of
              None \<Rightarrow> Inl (with_source KInvalidRequest ''proxy basic auth header is not valid ASCII'' ''failed to parse header value'')
            | Some v \<Rightarrow>
                Inr (request\<lparr>rq_headers := hm_insert (pr_headers env) ''proxy-authorization'' v (rq_headers request)\<rparr>))
      | _ \<Rightarrow> Inr request)"

definition request_priority_default :: RequestPriority where
  "request_priority_default = \<lparr>urgency = 3\<rparr>"

definition apply_rfc9218_priority :: "'h header_ops \<Rightarrow> ('h, 'x) request \<Rightarrow> ('h, 'x) request" where
  "apply_rfc9218_priority ops request =
     (if contains_key ops (rq_headers request) ''priority'' then request
      else
        let u = (case ext_request_config (rq_extensions request) of
              Some config \<Rightarrow> urgency (erc_priority config) | None \<Rightarrow> urgency request_priority_default) in
        case header_value_from_str (str_bytes (''u='' @ show_nat u)) of
          None \<Rightarrow> request
        | Some v \<Rightarrow> request\<lparr>rq_headers := hm_insert ops ''priority'' v (rq_headers request)\<rparr>)"

definition prepare_request_for_send ::
  "'h protocol_env \<Rightarrow> SelectedProxy option \<Rightarrow> ConnectionProtocol \<Rightarrow> RouteKind \<Rightarrow> ('h, 'x) request \<Rightarrow>
     (WireError, ('h, 'x) request) result" where
  "prepare_request_for_send env sp protocol route_kind request =
     (case apply_forward_proxy_credentials env route_kind
             (clear_proxy_authorization_if_proxy_changed (pr_headers env) sp request) of
        Inl e \<Rightarrow> Inl e
      | Inr request' \<Rightarrow> prepare_bound_request env protocol route_kind (apply_rfc9218_priority (pr_headers env) request'))"

section \<open>The elements of a Connection value\<close>

abbreviation ows :: "char \<Rightarrow> bool" where
  "ows \<equiv> is_optional_whitespace \<circ> char_byte"

abbreviation tchar :: "char \<Rightarrow> bool" where
  "tchar \<equiv> is_tchar \<circ> char_byte"

definition strip_ows :: "string \<Rightarrow> string" where
  "strip_ows s = rev (dropWhile ows (rev (dropWhile ows s)))"

definition connection_options :: "string \<Rightarrow> string list" where
  "connection_options s = map strip_ows (split_on (CHR '','') s)"

definition keeps_alive :: "string \<Rightarrow> bool" where
  "keeps_alive option' \<longleftrightarrow> list_all tchar option' \<and> \<not> eq_ignore_ascii_case option' ''close''"

lemma separators [simp]: "\<not> ows (CHR '','')" "\<not> tchar (CHR '','')"
  by code_simp+

lemma tchar_not_ows: "tchar c \<Longrightarrow> \<not> ows c"
  by (auto simp: is_optional_whitespace_def is_tchar_def str_bytes_def char_byte_def)

lemma strip_ows_lead: "list_all ows a \<Longrightarrow> strip_ows (a @ m) = strip_ows m"
  by (simp add: strip_ows_def list_all_iff dropWhile_append2)

lemma strip_ows_all:
  assumes "list_all ows a"
  shows "strip_ows a = []"
proof -
  have d: "dropWhile ows a = []" using assms by (auto simp: list_all_iff)
  show ?thesis unfolding strip_ows_def d by simp
qed

lemma strip_ows_trail:
  assumes "list_all ows b"
  shows "strip_ows (m @ b) = strip_ows m"
proof -
  have d: "dropWhile ows (rev b @ x) = dropWhile ows x" for x
    by (rule dropWhile_append2) (use assms in \<open>simp add: list_all_iff\<close>)
  show ?thesis
  proof (cases "list_all ows m")
    case True
    then show ?thesis using assms by (simp add: strip_ows_all)
  next
    case False
    then have "dropWhile ows (m @ b) = dropWhile ows m @ b" by (auto simp: list_all_iff intro!: dropWhile_append1)
    then show ?thesis using d by (simp add: strip_ows_def)
  qed
qed

lemma strip_ows_keeps:
  assumes "\<not> ows c" and "x = [] \<or> \<not> ows (hd x)"
  shows "\<exists>y'. strip_ows (x @ c # y) = x @ c # y'"
proof -
  have "dropWhile ows (x @ c # y) = x @ c # y" using assms by (cases x) auto
  moreover have "dropWhile ows (z @ c # rev x) = dropWhile ows z @ c # rev x" for z
    using assms(1) by (induction z) auto
  ultimately show ?thesis by (simp add: strip_ows_def)
qed

lemma strip_ows_token:
  assumes "list_all tchar t"
  shows "strip_ows t = t"
proof (cases t rule: rev_cases)
  case (snoc t' c)
  have "t = [] \<or> \<not> ows (hd t)" using assms tchar_not_ows by (cases t) auto
  then have "t' = [] \<or> \<not> ows (hd t')" using snoc by (cases t') auto
  moreover have "\<not> ows c" using assms snoc tchar_not_ows by (simp add: list_all_iff)
  moreover have "dropWhile ows t = t" using \<open>t = [] \<or> \<not> ows (hd t)\<close> by (cases t) auto
  ultimately show ?thesis using snoc by (simp add: strip_ows_def)
qed (simp add: strip_ows_def)

lemma split_on_prefix:
  "c \<notin> set x \<Longrightarrow> split_on c (x @ y) = (x @ hd (split_on c y)) # tl (split_on c y)"
proof (induction x)
  case Nil
  then show ?case by (cases "split_on c y") auto
qed auto

lemma connection_options_prefix:
  "CHR '','' \<notin> set x \<Longrightarrow> connection_options (x @ y) =
     strip_ows (x @ hd (split_on (CHR '','') y)) # map strip_ows (tl (split_on (CHR '','') y))"
  by (simp add: connection_options_def split_on_prefix)

lemma connection_options_Cons: "connection_options s = strip_ows (hd (split_on (CHR '','') s)) # map strip_ows (tl (split_on (CHR '','') s))"
  using connection_options_prefix [of "[]"] by simp

lemma connection_options_comma:
  assumes "CHR '','' \<notin> set e"
  shows "connection_options (e @ CHR '','' # r) = strip_ows e # connection_options r"
  using assms by (simp add: connection_options_def split_on_append)

lemma ows_no_comma: "list_all ows a \<Longrightarrow> CHR '','' \<notin> set a"
  using separators by (auto simp: list_all_iff)

lemma tchar_no_comma: "list_all tchar a \<Longrightarrow> CHR '','' \<notin> set a"
  using separators by (auto simp: list_all_iff)

lemma connection_options_lead: "list_all ows a \<Longrightarrow> connection_options (a @ s) = connection_options s"
  using ows_no_comma by (simp add: connection_options_prefix connection_options_Cons [of s] strip_ows_lead)

lemma keeps_alive_Nil [simp]: "keeps_alive []"
  unfolding keeps_alive_def by code_simp

lemma takeWhile_all: "list_all P (takeWhile P s)"
  by (induction s) auto

text \<open>A first element with something other than a token in it.\<close>

lemma malformed_first_option:
  assumes "list_all tchar t" and "list_all ows b" and "\<not> ows c" and "\<not> tchar c \<or> b \<noteq> []"
    and "t = [] \<longrightarrow> b = []" and "c \<noteq> CHR '',''"
  shows "\<not> list_all keeps_alive (connection_options (t @ b @ c # r))"
proof -
  let ?x = "t @ b" and ?e = "hd (split_on (CHR '','') r)"
  have x: "?x = [] \<or> \<not> ows (hd ?x)" using assms(1,5) tchar_not_ows by (cases t) auto
  obtain y where y: "strip_ows (?x @ c # ?e) = ?x @ c # y" using strip_ows_keeps [OF assms(3) x] by blast
  have "\<not> list_all tchar (?x @ c # y)"
    using assms(2,4) tchar_not_ows by (cases b) auto
  then have "\<not> keeps_alive (strip_ows (?x @ c # ?e))" by (simp only: y keeps_alive_def) simp
  moreover have "CHR '','' \<notin> set (?x @ [c])"
    using tchar_no_comma [OF assms(1)] ows_no_comma [OF assms(2)] assms(6) by auto
  ultimately show ?thesis using connection_options_prefix [of "?x @ [c]" r] by simp
qed

lemma token_first_option:
  assumes "list_all tchar t" and "list_all ows b"
  shows "connection_options (t @ b) = [t]" "connection_options (t @ b @ CHR '','' # r) = t # connection_options r"
  using assms tchar_no_comma [OF assms(1)] ows_no_comma [OF assms(2)] connection_options_comma [of "t @ b" r]
  by (simp_all add: connection_options_def split_on_plain strip_ows_trail strip_ows_token)

lemma dropWhile_ConsD: "dropWhile P xs = y # ys \<Longrightarrow> \<not> P y"
  by (auto simp: dropWhile_eq_Cons_conv)

text \<open>The scan after the leading white space, at the first character of an element.\<close>

lemma scan_token:
  assumes "dropWhile ows s = c # r" and "c \<noteq> CHR '',''" and "t = takeWhile tchar (c # r)"
    and "s2 = dropWhile ows (dropWhile tchar (c # r))"
  shows "scan_connection_value s =
     (if t = [] then Inl () else case s2 of [] \<Rightarrow> Inr (eq_ignore_ascii_case t ''close'')
      | c2 # r2 \<Rightarrow> if c2 = CHR '','' then if eq_ignore_ascii_case t ''close'' then Inr True else scan_connection_value r2
          else Inl ())"
  unfolding assms(3,4)
  by (subst scan_connection_value.simps) (use assms(1,2) in \<open>simp add: Let_def del: dropWhile.simps takeWhile.simps\<close>)

lemma scan_token_malformed:
  assumes "t = takeWhile tchar s1" and "b = takeWhile ows (dropWhile tchar s1)"
    and "dropWhile ows (dropWhile tchar s1) = c # r" and "c \<noteq> CHR '',''" and "t = [] \<longrightarrow> b = []"
  shows "\<not> list_all keeps_alive (connection_options s1)"
proof -
  have "\<not> tchar c" if "b = []"
    using takeWhile_dropWhile_id [of ows "dropWhile tchar s1"] that assms(2,3) dropWhile_ConsD [of tchar s1 c r] by simp
  then have "\<not> list_all keeps_alive (connection_options (t @ b @ c # r))"
    using assms(1,2,4,5) dropWhile_ConsD [OF assms(3)] by (intro malformed_first_option) (auto simp: takeWhile_all)
  moreover have "t @ b @ c # r = s1" unfolding assms(1,2) assms(3) [symmetric] by simp
  ultimately show ?thesis by simp
qed

lemma scan_connection_value_iff:
  "scan_connection_value s = Inr False \<longleftrightarrow> list_all keeps_alive (connection_options s)"
proof (induction s rule: scan_connection_value.induct)
  case (1 s)
  define s1 where "s1 = dropWhile ows s"
  define t where "t = takeWhile tchar s1"
  define b where "b = takeWhile ows (dropWhile tchar s1)"
  define s2 where "s2 = dropWhile ows (dropWhile tchar s1)"
  have s: "connection_options s = connection_options s1"
    using connection_options_lead [of "takeWhile ows s" s1] takeWhile_all [of ows s] by (simp add: s1_def)
  have s1: "s1 = t @ b @ s2" by (simp add: t_def b_def s2_def)
  have tb: "list_all tchar t" "list_all ows b" by (simp_all add: t_def b_def takeWhile_all)
  show ?case
  proof (cases s1)
    case Nil
    then show ?thesis
      unfolding s by (subst scan_connection_value.simps)
        (simp add: s1_def [symmetric] connection_options_def strip_ows_def)
  next
    case (Cons c r)
    show ?thesis
    proof (cases "c = CHR '',''")
      case True
      have "connection_options s1 = [] # connection_options r"
        using connection_options_comma [of "[]" r] True Cons by (simp add: strip_ows_def)
      then show ?thesis
        using 1(1) [OF s1_def Cons True] Cons True unfolding s
        by (subst scan_connection_value.simps) (simp add: s1_def [symmetric])
    next
      case False
      note step = scan_token [OF Cons [unfolded s1_def] False t_def [unfolded Cons] s2_def [unfolded Cons]]
      show ?thesis
      proof (cases "t = [] \<or> (\<exists>c2 r2. s2 = c2 # r2 \<and> c2 \<noteq> CHR '','')")
        case bad: True
        have "t = [] \<longrightarrow> b = [] \<and> s2 = c # r"
          using dropWhile_ConsD [of ows s c r] Cons by (auto simp: t_def b_def s2_def s1_def [symmetric] split: if_splits)
        then have "\<not> list_all keeps_alive (connection_options s1)"
          using scan_token_malformed [OF t_def b_def] bad False by (auto simp: s2_def)
        then show ?thesis using step bad s by auto
      next
        case good: False
        show ?thesis
        proof (cases s2)
          case Nil
          then have "connection_options s = [t]" using token_first_option(1) [OF tb] s s1 by simp
          then show ?thesis using step good tb(1) Nil by (simp add: keeps_alive_def)
        next
          case s2: (Cons c2 r2)
          then have c2: "c2 = CHR '',''" using good by simp
          have "connection_options s = t # connection_options r2"
            unfolding s by (subst s1) (simp add: s2 c2 token_first_option(2) [OF tb])
          then show ?thesis
            using step good tb(1) s2 c2 1(2) [OF s1_def Cons False t_def s2_def _ s2 c2] by (simp add: keeps_alive_def)
        qed
      qed
    qed
  qed
qed

section \<open>Headers\<close>

lemma hm_get_all_remove_fold:
  assumes "header_map_laws ops"
  shows "hm_get_all ops (fold (hm_remove ops) ns h) m = (if m \<in> set ns then [] else hm_get_all ops h m)"
  by (induction ns arbitrary: h) (auto simp: hm_get_all_remove [OF assms])

definition http2_forbidden :: "header_name list" where
  "http2_forbidden = [''connection'', ''keep-alive'', ''proxy-connection'', ''transfer-encoding'', ''upgrade'']"

lemma strip_http2_get:
  assumes "header_map_laws (pr_headers env)" and "nominated = connection_nominated_headers env h"
  shows "hm_get_all (pr_headers env) (strip_http2_connection_specific_headers env h) n =
    (if n = ''te'' then
       (if hm_get_all (pr_headers env) (append_http2_te_trailers (pr_headers env) (hm_get_all (pr_headers env) h ''te'')
             (hm_remove (pr_headers env) ''te'' h)) ''te'' \<noteq> [] \<and> ''te'' \<notin> set nominated
        then [str_bytes ''trailers''] else [])
     else if n \<in> set http2_forbidden \<or> n \<in> set nominated then [] else hm_get_all (pr_headers env) h n)"
  unfolding assms(2)
  by (auto simp: strip_http2_connection_specific_headers_def Let_def append_http2_te_trailers_def http2_forbidden_def
      hm_get_all_remove_fold [OF assms(1)] header_map_lawsD [OF assms(1)])

lemma apply_forward_proxy_credentials_get:
  assumes "header_map_laws (pr_headers env)" and "apply_forward_proxy_credentials env route_kind request = Inr r"
  shows "n \<noteq> ''proxy-authorization'' \<Longrightarrow> hm_get_all (pr_headers env) (rq_headers r) n = hm_get_all (pr_headers env) (rq_headers request) n"
    and "hm_get_all (pr_headers env) (rq_headers r) ''proxy-authorization'' = hm_get_all (pr_headers env) (rq_headers request) ''proxy-authorization'' \<or>
      (\<exists>addr c. route_kind = HttpForwardProxy addr (Some c) \<and>
         hm_get_all (pr_headers env) (rq_headers r) ''proxy-authorization'' = [str_bytes (basic_auth_header_value env c)])"
    and "rq_uri r = rq_uri request \<and> rq_body r = rq_body request \<and> rq_method r = rq_method request"
  using assms(2)
  by (auto simp: apply_forward_proxy_credentials_def hm_get_all_insert [OF assms(1)] header_value_from_str_def
      split: RouteKind.splits option.splits if_splits)

lemma apply_rfc9218_priority_get:
  assumes "header_map_laws ops"
  shows "n \<noteq> ''priority'' \<Longrightarrow> hm_get_all ops (rq_headers (apply_rfc9218_priority ops request)) n = hm_get_all ops (rq_headers request) n"
    and "rq_uri (apply_rfc9218_priority ops request) = rq_uri request"
  by (auto simp: apply_rfc9218_priority_def Let_def hm_get_all_insert [OF assms] split: option.split)

lemma clear_proxy_authorization_get:
  assumes "header_map_laws ops"
  shows "hm_get_all ops (rq_headers (clear_proxy_authorization_if_proxy_changed ops sp request)) n =
    (if n = ''proxy-authorization'' \<and> ext_selected_proxy (rq_extensions request) \<noteq> None \<and>
        \<not> same_selected_proxy_endpoint (ext_selected_proxy (rq_extensions request)) sp
     then [] else hm_get_all ops (rq_headers request) n)"
  by (auto simp: clear_proxy_authorization_if_proxy_changed_def Let_def hm_get_all_remove [OF assms])

lemma clear_proxy_authorization_uri:
  "rq_uri (clear_proxy_authorization_if_proxy_changed ops sp request) = rq_uri request"
  by (simp add: clear_proxy_authorization_if_proxy_changed_def Let_def)

lemma prepare_http2_headers:
  assumes "header_map_laws (pr_headers env)" and "prepare_request_for_send env sp ConnHttp2 route_kind request = Inr r"
  obtains h where "rq_headers r = strip_http2_connection_specific_headers env h" and "rq_uri r = rq_uri request"
    "\<forall>n. n \<notin> {''proxy-authorization'', ''priority''} \<longrightarrow>
       hm_get_all (pr_headers env) h n = hm_get_all (pr_headers env) (rq_headers request) n"
proof -
  let ?c = "clear_proxy_authorization_if_proxy_changed (pr_headers env) sp request"
  obtain r1 where r1: "apply_forward_proxy_credentials env route_kind ?c = Inr r1"
    and r: "r = (apply_rfc9218_priority (pr_headers env) r1)\<lparr>rq_headers :=
      strip_http2_connection_specific_headers env (rq_headers (apply_rfc9218_priority (pr_headers env) r1))\<rparr>"
    using assms(2) by (auto simp: prepare_request_for_send_def prepare_bound_request_def split: sum.splits)
  note g = apply_forward_proxy_credentials_get [OF assms(1) r1] apply_rfc9218_priority_get [OF assms(1)]
    clear_proxy_authorization_get [OF assms(1)] clear_proxy_authorization_uri
  show thesis by (rule that [of "rq_headers (apply_rfc9218_priority (pr_headers env) r1)"]) (simp_all add: r g)
qed

lemma connection_nominated_cong:
  "hm_get_all (pr_headers env) h ''connection'' = hm_get_all (pr_headers env) h' ''connection'' \<Longrightarrow>
     connection_nominated_headers env h = connection_nominated_headers env h'"
  by (simp add: connection_nominated_headers_def)

section \<open>Properties\<close>

text \<open>
  C36. A request sent on an HTTP/2 connection carries none of the headers that RFC 9113 forbids there: the
  connection-specific ones, those its Connection header nominates, and a TE header other than \<open>trailers\<close>.  Every other
  header of the request goes out unchanged, except for the proxy authorization and the priority.
\<close>

theorem http2_request_clean:
  assumes "header_map_laws (pr_headers env)" and "prepare_request_for_send env sp ConnHttp2 route_kind request = Inr r"
    and "nominated = set (connection_nominated_headers env (rq_headers request))"
  shows "(\<forall>n \<in> set http2_forbidden \<union> nominated. hm_get_all (pr_headers env) (rq_headers r) n = []) \<and>
    hm_get_all (pr_headers env) (rq_headers r) ''te'' \<in> {[], [str_bytes ''trailers'']} \<and>
    (\<forall>n. n \<notin> set http2_forbidden \<union> nominated \<union> {''te'', ''proxy-authorization'', ''priority''} \<longrightarrow>
       hm_get_all (pr_headers env) (rq_headers r) n = hm_get_all (pr_headers env) (rq_headers request) n) \<and>
    rq_uri r = rq_uri request"
proof -
  obtain h where h: "rq_headers r = strip_http2_connection_specific_headers env h" "rq_uri r = rq_uri request"
    and same: "\<forall>n. n \<notin> {''proxy-authorization'', ''priority''} \<longrightarrow>
       hm_get_all (pr_headers env) h n = hm_get_all (pr_headers env) (rq_headers request) n"
    by (rule prepare_http2_headers [OF assms(1,2)]) (rule that; assumption)
  have n: "connection_nominated_headers env h = connection_nominated_headers env (rq_headers request)"
    by (rule connection_nominated_cong) (simp add: same)
  show ?thesis
    unfolding h assms(3) strip_http2_get [OF assms(1) refl] n using same by (auto simp: http2_forbidden_def)
qed

definition px_env :: "(header_name \<times> header_value) list protocol_env" where
  "px_env = \<lparr>pr_headers = assoc_headers, pr_header_name = (\<lambda>b. Some (to_ascii_lowercase (map byte_char b))),
     pr_path_and_query = (\<lambda>_. Some ''/''), pr_parse_uri = (\<lambda>t. Inr \<lparr>uri_scheme_str = None, uri_host = None,
       uri_port_u16 = None, uri_authority = None, uri_text = t\<rparr>), pr_base64 = map byte_char\<rparr>"

definition px_extensions :: "SelectedProxy option \<Rightarrow> unit Extensions" where
  "px_extensions sp = \<lparr>ext_policy_trace = None, ext_request_config = None, ext_call_options = None,
     ext_cached_addresses = None, ext_selected_proxy = sp, ext_dispatcher_queued = False,
     ext_no_coalesced_connections = False, ext_websocket_marker = None, ext_tls_alpn_preference = None,
     ext_route_preference = None, ext_other = ()\<rparr>"

definition px_request ::
  "SelectedProxy option \<Rightarrow> (header_name \<times> header_value) list \<Rightarrow> ((header_name \<times> header_value) list, unit) request" where
  "px_request sp headers = \<lparr>rq_method = GET, rq_uri = \<lparr>uri_scheme_str = Some ''https'', uri_host = Some ''a.t'',
     uri_port_u16 = None, uri_authority = Some ''a.t'', uri_text = ''https://a.t/''\<rparr>, rq_version = HTTP_11,
     rq_headers = headers, rq_extensions = px_extensions sp, rq_body = body_absent\<rparr>"

definition px_headers :: "(header_name \<times> header_value) list" where
  "px_headers = [(''connection'', str_bytes ''X-Hop, close''), (''x-hop'', str_bytes ''1''), (''te'', str_bytes ''gzip, Trailers''),
     (''accept'', str_bytes ''*'')]"

theorem http2_request_clean_witness:
  "\<exists>r. prepare_request_for_send px_env None ConnHttp2 (DirectRoute (SockV4 0 443)) (px_request None px_headers) = Inr r \<and>
     hm_get_all assoc_headers (rq_headers r) ''x-hop'' = [] \<and> hm_get_all assoc_headers (rq_headers r) ''connection'' = [] \<and>
     hm_get_all assoc_headers (rq_headers r) ''accept'' = [str_bytes ''*'']"
proof -
  let ?p = "prepare_request_for_send px_env None ConnHttp2 (DirectRoute (SockV4 0 443)) (px_request None px_headers)"
  have "\<not> isl ?p" by code_simp
  then obtain r where r: "?p = Inr r" by (cases ?p) auto
  have n: "connection_nominated_headers px_env px_headers = [''x-hop'', ''close'']" by code_simp
  have laws: "header_map_laws (pr_headers px_env)" by (simp add: px_env_def assoc_headers_laws)
  have h: "pr_headers px_env = assoc_headers" "rq_headers (px_request None px_headers) = px_headers"
    by (simp_all add: px_env_def px_request_def)
  have "hm_get_all assoc_headers px_headers ''accept'' = [str_bytes ''*'']" by code_simp
  then show ?thesis
    using http2_request_clean [OF laws r refl] r unfolding h n by (intro exI [of _ r]) (simp add: http2_forbidden_def)
qed

text \<open>
  C37. An HTTP/1 connection is offered for another exchange exactly when the request did not ask for it to be closed, the
  response is not HTTP/1.0, and every Connection value of the response is a well-formed list of options without
  \<open>close\<close>.
\<close>

theorem connection_reuse_exact:
  "http1_exchange_allows_reuse ops request_requests_close version headers \<longleftrightarrow>
     \<not> request_requests_close \<and> version \<noteq> HTTP_10 \<and>
     (\<forall>v \<in> set (hm_get_all ops headers ''connection'').
        \<exists>s. to_str v = Some s \<and> list_all keeps_alive (connection_options s))"
proof -
  have "(case connection_header_value_requests_close v of Inl _ \<Rightarrow> True | Inr b \<Rightarrow> b) \<longleftrightarrow>
      \<not> (\<exists>s. to_str v = Some s \<and> list_all keeps_alive (connection_options s))" for v
  proof (cases "to_str v")
    case (Some s)
    have "(case scan_connection_value s of Inl _ \<Rightarrow> True | Inr b \<Rightarrow> b) \<longleftrightarrow> scan_connection_value s \<noteq> Inr False"
      by (cases "scan_connection_value s") auto
    then show ?thesis using Some by (simp add: connection_header_value_requests_close_def scan_connection_value_iff)
  qed (simp add: connection_header_value_requests_close_def)
  then show ?thesis
    by (simp add: http1_exchange_allows_reuse_def connection_header_requests_close_def list_ex_iff)
qed

theorem connection_reuse_exact_witness:
  "http1_exchange_allows_reuse assoc_headers False HTTP_11 [(''connection'', str_bytes ''keep-alive, Upgrade'')] \<and>
   \<not> http1_exchange_allows_reuse assoc_headers False HTTP_11 [(''connection'', str_bytes ''keep-alive,  Close '')]"
proof -
  have a: "\<forall>v \<in> set (hm_get_all assoc_headers [(''connection'', str_bytes ''keep-alive, Upgrade'')] ''connection'').
      \<exists>s. to_str v = Some s \<and> list_all keeps_alive (connection_options s)"
  proof -
    have "hm_get_all assoc_headers [(''connection'', str_bytes ''keep-alive, Upgrade'')] ''connection'' =
        [str_bytes ''keep-alive, Upgrade'']" by code_simp
    moreover have "to_str (str_bytes ''keep-alive, Upgrade'') = Some ''keep-alive, Upgrade''" by code_simp
    moreover have "list_all keeps_alive (connection_options ''keep-alive, Upgrade'')" by code_simp
    ultimately show ?thesis by simp
  qed
  have b: "\<not> list_all keeps_alive (connection_options ''keep-alive,  Close '')" by code_simp
  have c: "to_str (str_bytes ''keep-alive,  Close '') = Some ''keep-alive,  Close ''" by code_simp
  have d: "hm_get_all assoc_headers [(''connection'', str_bytes ''keep-alive,  Close '')] ''connection'' =
      [str_bytes ''keep-alive,  Close '']" by code_simp
  show ?thesis
    using a b c d connection_reuse_exact [of assoc_headers False HTTP_11 "[(''connection'', str_bytes ''keep-alive, Upgrade'')]"]
      connection_reuse_exact [of assoc_headers False HTTP_11 "[(''connection'', str_bytes ''keep-alive,  Close '')]"]
    by auto
qed

text \<open>
  C38. Proxy credentials stay with their proxy.  When a request that was answered through one proxy is sent again through
  another one, or directly, the Proxy-Authorization header it carries is dropped: what goes out has no such header, or
  the credentials that the forward proxy of this route was configured with.
\<close>

theorem proxy_authorization_stays:
  assumes "header_map_laws (pr_headers env)" and "prepare_request_for_send env sp protocol route_kind request = Inr r"
    and "ext_selected_proxy (rq_extensions request) = Some previous" and "\<not> same_selected_proxy_endpoint (Some previous) sp"
  shows "hm_get_all (pr_headers env) (rq_headers r) ''proxy-authorization'' = [] \<or>
    (\<exists>addr c. route_kind = HttpForwardProxy addr (Some c) \<and>
       hm_get_all (pr_headers env) (rq_headers r) ''proxy-authorization'' = [str_bytes (basic_auth_header_value env c)])"
proof -
  let ?c = "clear_proxy_authorization_if_proxy_changed (pr_headers env) sp request"
  obtain r1 where r1: "apply_forward_proxy_credentials env route_kind ?c = Inr r1"
    and r: "prepare_bound_request env protocol route_kind (apply_rfc9218_priority (pr_headers env) r1) = Inr r"
    using assms(2) by (auto simp: prepare_request_for_send_def split: sum.splits)
  let ?h = "rq_headers (apply_rfc9218_priority (pr_headers env) r1)"
  have "rq_headers r = ?h \<or> rq_headers r = strip_http2_connection_specific_headers env ?h"
    using r by (auto simp: prepare_bound_request_def Let_def split: if_splits sum.splits)
  then have "hm_get_all (pr_headers env) (rq_headers r) ''proxy-authorization'' \<in>
      {[], hm_get_all (pr_headers env) ?h ''proxy-authorization''}"
    by (auto simp: strip_http2_get [OF assms(1) refl])
  moreover have "hm_get_all (pr_headers env) ?h ''proxy-authorization'' =
      hm_get_all (pr_headers env) (rq_headers r1) ''proxy-authorization''"
    by (rule apply_rfc9218_priority_get [OF assms(1)]) simp
  moreover have "hm_get_all (pr_headers env) (rq_headers ?c) ''proxy-authorization'' = []"
    using assms(3,4) by (simp add: clear_proxy_authorization_get [OF assms(1)])
  ultimately show ?thesis using apply_forward_proxy_credentials_get(2) [OF assms(1) r1] by auto
qed

definition px_proxy :: "string \<Rightarrow> SelectedProxy" where
  "px_proxy t = \<lparr>sp_target = \<lparr>url_scheme = ''http'', url_host_str = Some t, url_port_or_known_default = Some 8080,
     url_username = [], url_password = None, url_text = t\<rparr>, sp_intercept = InterceptAll, sp_credentials = None\<rparr>"

theorem proxy_authorization_stays_witness:
  "\<exists>r. prepare_request_for_send px_env None ConnHttp1 (DirectRoute (SockV4 0 443))
       (px_request (Some (px_proxy ''p.t'')) [(''proxy-authorization'', str_bytes ''Basic x'')]) = Inr r \<and>
     hm_get_all assoc_headers (rq_headers r) ''proxy-authorization'' = []"
proof -
  let ?q = "px_request (Some (px_proxy ''p.t'')) [(''proxy-authorization'', str_bytes ''Basic x'')]"
  let ?p = "prepare_request_for_send px_env None ConnHttp1 (DirectRoute (SockV4 0 443)) ?q"
  have "\<not> isl ?p" by code_simp
  then obtain r where r: "?p = Inr r" by (cases ?p) auto
  have laws: "header_map_laws (pr_headers px_env)" by (simp add: px_env_def assoc_headers_laws)
  have sp: "ext_selected_proxy (rq_extensions ?q) = Some (px_proxy ''p.t'')" by (simp add: px_request_def px_extensions_def)
  have "\<not> same_selected_proxy_endpoint (Some (px_proxy ''p.t'')) None" by (simp add: same_selected_proxy_endpoint_def)
  then show ?thesis
    using proxy_authorization_stays [OF laws r sp] r by (auto simp: px_env_def)
qed

end
