(* ===== verification/Conn_Limits.thy ===== *)
theory Conn_Limits
  imports Pool "HOL-Library.Multiset"
begin

text \<open>
  The limits on connections, a model of the connection part of \<^verbatim>\<open>openwire/src/connection/limits.rs\<close>.  A semaphore is its
  number of free permits; the semaphore of an address is created on demand, found through a map, shared by reference
  and removed again when nobody else refers to it.  Acquisitions and drops of permits run concurrently: a holder is an
  acquisition or a permit at the point it has reached, a step is one access to a semaphore or one critical section of
  the map.  An address always belongs to the same shard, so the shards of the map together are one map.
\<close>

section \<open>Model\<close>

type_synonym sem_ref = nat

text \<open>
  The points of an acquisition and of a drop.  \<open>Fetched\<close>: has a reference to the semaphore.  \<open>Slotted\<close>: has a slot of
  the address.  \<open>Holding\<close>: a permit in use.  \<open>Reclaiming\<close>: has given back the slot.  \<open>Unreferencing\<close>: has looked after the
  map.  \<open>Releasing\<close>: has still to give back the global permit.
\<close>

datatype holder_phase = Fetched | Slotted | Holding | Reclaiming bool | Unreferencing bool | Releasing

record holder =
  ho_address :: Address
  ho_sem :: "sem_ref option"
  ho_phase :: holder_phase

record ConnectionLimiter =
  cl_max_total :: usize
  cl_max_per_address :: usize
  cl_global :: usize
  cl_semaphores :: "Address \<rightharpoonup> sem_ref"
  cl_available :: "sem_ref \<Rightarrow> usize"
  cl_next :: sem_ref
  cl_holders :: "holder multiset"

definition limit_semaphore :: "usize \<Rightarrow> usize option" where
  "limit_semaphore limit = (if limit \<noteq> USIZE_MAX then Some limit else None)"

definition limited_total :: "ConnectionLimiter \<Rightarrow> bool" where
  "limited_total s \<longleftrightarrow> limit_semaphore (cl_max_total s) \<noteq> None"

definition limited_per_address :: "ConnectionLimiter \<Rightarrow> bool" where
  "limited_per_address s \<longleftrightarrow> limit_semaphore (cl_max_per_address s) \<noteq> None"

definition connection_limiter_new :: "usize \<Rightarrow> usize \<Rightarrow> ConnectionLimiter" where
  "connection_limiter_new max_total max_per_address =
     \<lparr>cl_max_total = max_total, cl_max_per_address = max_per_address, cl_global = max_total,
      cl_semaphores = Map.empty, cl_available = (\<lambda>_. 0), cl_next = 0, cl_holders = {#}\<rparr>"

definition refers :: "sem_ref \<Rightarrow> holder \<Rightarrow> bool" where
  "refers i h \<longleftrightarrow> ho_sem h = Some i \<and> ho_phase h \<noteq> Releasing"

text \<open>\<^verbatim>\<open>Arc::strong_count\<close>: the holders that refer to the semaphore, and the map.\<close>

definition strong_count :: "ConnectionLimiter \<Rightarrow> Address \<Rightarrow> sem_ref \<Rightarrow> nat" where
  "strong_count s a i =
     size (filter_mset (refers i) (cl_holders s)) + (if cl_semaphores s a = Some i then 1 else 0)"

definition semaphore_for :: "Address \<Rightarrow> ConnectionLimiter \<Rightarrow> sem_ref \<times> ConnectionLimiter" where
  "semaphore_for a s =
     (case cl_semaphores s a of
        Some i \<Rightarrow> (i, s)
      | None \<Rightarrow> (cl_next s, s\<lparr>cl_semaphores := (cl_semaphores s)(a \<mapsto> cl_next s),
            cl_available := (cl_available s)(cl_next s := cl_max_per_address s), cl_next := cl_next s + 1\<rparr>))"

definition put_holders :: "holder multiset \<Rightarrow> ConnectionLimiter \<Rightarrow> ConnectionLimiter" where
  "put_holders hs s = s\<lparr>cl_holders := hs\<rparr>"

definition put_available :: "sem_ref \<Rightarrow> usize \<Rightarrow> ConnectionLimiter \<Rightarrow> ConnectionLimiter" where
  "put_available i n s = s\<lparr>cl_available := (cl_available s)(i := n)\<rparr>"

definition fetch_semaphore :: "Address \<Rightarrow> ConnectionLimiter \<Rightarrow> ConnectionLimiter" where
  "fetch_semaphore a s =
     (if limited_per_address s
      then (case semaphore_for a s of (i, s') \<Rightarrow>
        put_holders (add_mset \<lparr>ho_address = a, ho_sem = Some i, ho_phase = Fetched\<rparr> (cl_holders s')) s')
      else put_holders (add_mset \<lparr>ho_address = a, ho_sem = None, ho_phase = Slotted\<rparr> (cl_holders s)) s)"

definition take_slot :: "holder \<Rightarrow> sem_ref \<Rightarrow> holder multiset \<Rightarrow> ConnectionLimiter \<Rightarrow> ConnectionLimiter" where
  "take_slot h i rest s =
     (if cl_available s i > 0
      then put_available i (cl_available s i - 1) (put_holders (add_mset (h\<lparr>ho_phase := Slotted\<rparr>) rest) s)
      else put_holders rest s)"

definition give_slot :: "holder \<Rightarrow> bool \<Rightarrow> holder multiset \<Rightarrow> ConnectionLimiter \<Rightarrow> ConnectionLimiter" where
  "give_slot h g rest s =
     (case ho_sem h of
        Some i \<Rightarrow> put_available i (cl_available s i + 1) (put_holders (add_mset (h\<lparr>ho_phase := Reclaiming g\<rparr>) rest) s)
      | None \<Rightarrow> put_holders (if g then add_mset (h\<lparr>ho_phase := Releasing\<rparr>) rest else rest) s)"

definition take_global :: "holder \<Rightarrow> holder multiset \<Rightarrow> ConnectionLimiter \<Rightarrow> ConnectionLimiter" where
  "take_global h rest s =
     (if \<not> limited_total s then put_holders (add_mset (h\<lparr>ho_phase := Holding\<rparr>) rest) s
      else if cl_global s > 0
        then (put_holders (add_mset (h\<lparr>ho_phase := Holding\<rparr>) rest) s)\<lparr>cl_global := cl_global s - 1\<rparr>
      else give_slot h False rest s)"

text \<open>The drop of an address permit: the test under the lock of the map.\<close>

definition reclaim_entry :: "holder \<Rightarrow> sem_ref \<Rightarrow> bool \<Rightarrow> holder multiset \<Rightarrow> ConnectionLimiter \<Rightarrow> ConnectionLimiter" where
  "reclaim_entry h i g rest s =
     put_holders (add_mset (h\<lparr>ho_phase := Unreferencing g\<rparr>) rest)
       (if cl_semaphores s (ho_address h) = Some i \<and> cl_available s i = cl_max_per_address s \<and> strong_count s (ho_address h) i = 2
        then s\<lparr>cl_semaphores := (cl_semaphores s)(ho_address h := None)\<rparr> else s)"

definition unreference :: "holder \<Rightarrow> bool \<Rightarrow> holder multiset \<Rightarrow> ConnectionLimiter \<Rightarrow> ConnectionLimiter" where
  "unreference h g rest s =
     put_holders (if g \<and> limited_total s then add_mset (h\<lparr>ho_phase := Releasing\<rparr>) rest else rest) s"

definition give_global :: "holder multiset \<Rightarrow> ConnectionLimiter \<Rightarrow> ConnectionLimiter" where
  "give_global rest s =
     (put_holders rest s)\<lparr>cl_global := (if limited_total s then cl_global s + 1 else cl_global s)\<rparr>"

definition limiter_can_acquire :: "Address \<Rightarrow> ConnectionLimiter \<Rightarrow> bool" where
  "limiter_can_acquire a s \<longleftrightarrow>
     (limited_total s \<longrightarrow> cl_global s > 0) \<and>
     (limited_per_address s \<longrightarrow> (case cl_semaphores s a of None \<Rightarrow> True | Some i \<Rightarrow> cl_available s i > 0))"

text \<open>
  A drop first tests without the lock whether it may be the last; the values it reads may be out of date, so that it may
  go either way.
\<close>

inductive limiter_step :: "ConnectionLimiter \<Rightarrow> ConnectionLimiter \<Rightarrow> bool" for s where
  begin_acquire: "limiter_step s (fetch_semaphore a s)"
| acquire_slot: "cl_holders s = add_mset h rest \<Longrightarrow> ho_phase h = Fetched \<Longrightarrow> ho_sem h = Some i \<Longrightarrow>
     limiter_step s (take_slot h i rest s)"
| acquire_global: "cl_holders s = add_mset h rest \<Longrightarrow> ho_phase h = Slotted \<Longrightarrow> limiter_step s (take_global h rest s)"
| drop_permit: "cl_holders s = add_mset h rest \<Longrightarrow> ho_phase h = Holding \<Longrightarrow> limiter_step s (give_slot h True rest s)"
| keep_entry: "cl_holders s = add_mset h rest \<Longrightarrow> ho_phase h = Reclaiming g \<Longrightarrow> ho_sem h = Some i \<Longrightarrow>
     limiter_step s (put_holders (add_mset (h\<lparr>ho_phase := Unreferencing g\<rparr>) rest) s)"
| test_entry: "cl_holders s = add_mset h rest \<Longrightarrow> ho_phase h = Reclaiming g \<Longrightarrow> ho_sem h = Some i \<Longrightarrow>
     limiter_step s (reclaim_entry h i g rest s)"
| drop_reference: "cl_holders s = add_mset h rest \<Longrightarrow> ho_phase h = Unreferencing g \<Longrightarrow>
     limiter_step s (unreference h g rest s)"
| drop_global: "cl_holders s = add_mset h rest \<Longrightarrow> ho_phase h = Releasing \<Longrightarrow> limiter_step s (give_global rest s)"

inductive limiter_reachable :: "usize \<Rightarrow> usize \<Rightarrow> ConnectionLimiter \<Rightarrow> bool" for max_total max_per_address where
  limiter_init: "limiter_reachable max_total max_per_address (connection_limiter_new max_total max_per_address)"
| limiter_next: "limiter_reachable max_total max_per_address s \<Longrightarrow> limiter_step s s' \<Longrightarrow>
     limiter_reachable max_total max_per_address s'"

text \<open>Who is woken when an HTTP/2 connection has a free stream.\<close>

definition coalescing_wait_eligible :: "Address \<Rightarrow> Address \<Rightarrow> string list \<Rightarrow> bool" where
  "coalescing_wait_eligible origin waiting names \<longleftrightarrow>
     ad_scheme origin = SchemeHttps \<and> ad_scheme waiting = SchemeHttps \<and> ad_proxy origin = None \<and>
     ad_proxy waiting = None \<and> ak_port (ad_authority origin) = ak_port (ad_authority waiting) \<and>
     ad_protocol_policy waiting \<noteq> Http1Only \<and>
     list_ex (\<lambda>name. verified_server_name_matches name (ak_host (ad_authority waiting))) names"

text \<open>\<open>entries\<close> are the addresses with a waiter, in the order of the maps; a waiter of \<open>address\<close> itself is woken first.\<close>

definition notify_http2 :: "Address list \<Rightarrow> Address \<Rightarrow> string list \<Rightarrow> Address list" where
  "notify_http2 entries address names =
     (if address \<in> set entries then [address] else []) @
     (if names = [] then []
      else filter (\<lambda>waiting. waiting \<noteq> address \<and> coalescing_wait_eligible address waiting names) entries)"

section \<open>Invariant\<close>

definition in_use :: "sem_ref \<Rightarrow> holder \<Rightarrow> bool" where
  "in_use i h \<longleftrightarrow> ho_sem h = Some i \<and> (ho_phase h = Slotted \<or> ho_phase h = Holding)"

definition owns_global :: "holder \<Rightarrow> bool" where
  "owns_global h \<longleftrightarrow> ho_phase h \<in> {Holding, Reclaiming True, Unreferencing True, Releasing}"

definition anchored :: "holder \<Rightarrow> bool" where
  "anchored h \<longleftrightarrow> ho_sem h \<noteq> None \<and> (ho_phase h \<in> {Fetched, Slotted, Holding} \<or> (\<exists>g. ho_phase h = Reclaiming g))"

definition references_ok :: "ConnectionLimiter \<Rightarrow> bool" where
  "references_ok s \<longleftrightarrow>
     (\<forall>h \<in># cl_holders s. anchored h \<longrightarrow> cl_semaphores s (ho_address h) = ho_sem h) \<and>
     (\<forall>h \<in># cl_holders s. \<forall>i. ho_sem h = Some i \<longrightarrow> i < cl_next s) \<and>
     (\<forall>h \<in># cl_holders s. ho_sem h = None \<longrightarrow> \<not> limited_per_address s) \<and>
     (\<forall>a i. cl_semaphores s a = Some i \<longrightarrow> i < cl_next s) \<and>
     (\<forall>a b i. cl_semaphores s a = Some i \<longrightarrow> cl_semaphores s b = Some i \<longrightarrow> a = b)"

definition slots_ok :: "ConnectionLimiter \<Rightarrow> bool" where
  "slots_ok s \<longleftrightarrow>
     (\<forall>a i. cl_semaphores s a = Some i \<longrightarrow>
        cl_available s i + size (filter_mset (in_use i) (cl_holders s)) = cl_max_per_address s)"

definition global_ok :: "ConnectionLimiter \<Rightarrow> bool" where
  "global_ok s \<longleftrightarrow>
     (limited_total s \<longrightarrow> cl_global s + size (filter_mset owns_global (cl_holders s)) = cl_max_total s)"

lemmas limiter_ops = fetch_semaphore_def semaphore_for_def take_slot_def give_slot_def take_global_def reclaim_entry_def
  unreference_def give_global_def put_holders_def put_available_def

lemmas limiter_views = limited_total_def limited_per_address_def anchored_def in_use_def owns_global_def

lemma limits_fixed: "limiter_step s s' \<Longrightarrow> cl_max_total s' = cl_max_total s \<and> cl_max_per_address s' = cl_max_per_address s"
  by (cases rule: limiter_step.cases) (auto simp: limiter_ops split: option.split)

lemma global_ok_step:
  assumes "limiter_step s s'" and "global_ok s"
  shows "global_ok s'"
  using assms
  by (cases rule: limiter_step.cases)
    (auto simp: global_ok_def limiter_ops limited_total_def owns_global_def split: option.split)

lemma slots_okD: "slots_ok s \<Longrightarrow> cl_semaphores s a = Some i \<Longrightarrow>
    cl_available s i + size (filter_mset (in_use i) (cl_holders s)) = cl_max_per_address s"
  by (simp add: slots_ok_def)

lemma filter_mset_none: "filter_mset P M = {#} \<longleftrightarrow> (\<forall>x \<in># M. \<not> P x)"
  by (induction M) auto

lemma reclaim_alone:
  assumes "cl_holders s = add_mset h rest" and "ho_phase h = Reclaiming g" and "ho_sem h = Some i"
    and "cl_semaphores s a = Some i" and "strong_count s a i = 2"
  shows "\<forall>h' \<in># rest. \<not> refers i h'"
proof -
  have "size (filter_mset (refers i) rest) = 0" using assms by (simp add: strong_count_def refers_def)
  then show ?thesis by (auto simp: filter_mset_none)
qed

lemma references_ok_reclaim:
  assumes "references_ok s" and "cl_holders s = add_mset h rest" and "ho_phase h = Reclaiming g" and "ho_sem h = Some i"
  shows "references_ok (reclaim_entry h i g rest s)"
proof (cases "cl_semaphores s (ho_address h) = Some i \<and> cl_available s i = cl_max_per_address s \<and>
    strong_count s (ho_address h) i = 2")
  case True
  have "\<not> refers i h'" if "h' \<in># rest" for h'
    using reclaim_alone [OF assms(2,3,4)] True that by blast
  then have "ho_address h' \<noteq> ho_address h" if "h' \<in># rest" "anchored h'" for h'
    using that True assms(1,2) by (auto simp: references_ok_def refers_def anchored_def)
  then show ?thesis
    using assms True by (auto simp: references_ok_def reclaim_entry_def put_holders_def limited_per_address_def anchored_def)
next
  case False
  then show ?thesis
    using assms by (auto simp: references_ok_def reclaim_entry_def put_holders_def limited_per_address_def anchored_def)
qed

lemma references_ok_fetch:
  assumes "references_ok s"
  shows "references_ok (fetch_semaphore a s)"
proof (cases "cl_semaphores s a")
  case None
  then have "\<forall>h \<in># cl_holders s. anchored h \<longrightarrow> ho_address h \<noteq> a"
    using assms by (auto simp: references_ok_def anchored_def)
  then show ?thesis
    using assms None by (auto simp: references_ok_def limiter_ops limited_per_address_def anchored_def less_Suc_eq)
qed (use assms in \<open>auto simp: references_ok_def limiter_ops limited_per_address_def anchored_def\<close>)

lemma references_ok_step:
  assumes "limiter_step s s'" and "references_ok s"
  shows "references_ok s'"
  using assms(1)
proof cases
  case (begin_acquire a)
  then show ?thesis using assms(2) references_ok_fetch by simp
next
  case (test_entry h rest g i)
  then show ?thesis using assms(2) references_ok_reclaim by simp
qed (use assms(2) in \<open>auto simp: references_ok_def limiter_ops limited_per_address_def anchored_def split: option.split\<close>)

text \<open>A change of the holders that leaves the uses of a semaphore and its free permits in balance.\<close>

lemma slots_ok_balance:
  assumes "slots_ok s" and "cl_max_per_address s' = cl_max_per_address s"
    and "\<And>a i. cl_semaphores s' a = Some i \<Longrightarrow> cl_semaphores s a = Some i \<and>
      cl_available s' i + size (filter_mset (in_use i) (cl_holders s')) =
      cl_available s i + size (filter_mset (in_use i) (cl_holders s))"
  shows "slots_ok s'"
  unfolding slots_ok_def using assms by (auto dest: slots_okD)

lemma slots_ok_fetch:
  assumes "references_ok s" and "slots_ok s"
  shows "slots_ok (fetch_semaphore a s)"
proof -
  have "filter_mset (in_use (cl_next s)) (cl_holders s) = {#}"
    using assms(1) by (force simp: filter_mset_none references_ok_def in_use_def)
  moreover have "cl_semaphores s b = Some i \<Longrightarrow> i \<noteq> cl_next s" for b i using assms(1) by (auto simp: references_ok_def)
  ultimately show ?thesis
    using assms(2) by (auto simp: slots_ok_def limiter_ops in_use_def split: option.split)
qed

lemma slots_ok_step:
  assumes "limiter_step s s'" and "references_ok s" and "slots_ok s"
  shows "slots_ok s'"
  using assms(1)
proof cases
  case (begin_acquire a)
  then show ?thesis using assms slots_ok_fetch by simp
qed (rule slots_ok_balance [OF assms(3)]; use assms(2) in \<open>auto simp: limiter_ops in_use_def references_ok_def split: option.splits if_splits\<close>)+

lemma limiter_inv:
  assumes "limiter_reachable max_total max_per_address s"
  shows "references_ok s \<and> slots_ok s \<and> global_ok s \<and> cl_max_total s = max_total \<and> cl_max_per_address s = max_per_address"
  using assms
proof (induction rule: limiter_reachable.induct)
  case limiter_init
  then show ?case by (simp add: connection_limiter_new_def references_ok_def slots_ok_def global_ok_def)
next
  case (limiter_next s s')
  then show ?case using references_ok_step slots_ok_step global_ok_step limits_fixed by metis
qed

section \<open>Properties\<close>

definition holding :: "holder \<Rightarrow> bool" where
  "holding h \<longleftrightarrow> ho_phase h = Holding"

lemma size_filter_mono: "(\<And>x. x \<in># M \<Longrightarrow> P x \<Longrightarrow> Q x) \<Longrightarrow> size (filter_mset P M) \<le> size (filter_mset Q M)"
  by (induction M) auto

lemma holding_at_address:
  assumes "references_ok s" and "slots_ok s" and "limited_per_address s"
  shows "size (filter_mset (\<lambda>h. holding h \<and> ho_address h = a) (cl_holders s)) \<le> cl_max_per_address s"
proof (cases "\<exists>h \<in># cl_holders s. holding h \<and> ho_address h = a")
  case True
  have sem: "cl_semaphores s a = ho_sem h \<and> ho_sem h \<noteq> None" if "h \<in># cl_holders s" "holding h" "ho_address h = a" for h
    using that assms(1,3) by (auto simp: references_ok_def anchored_def holding_def)
  then obtain i where i: "cl_semaphores s a = Some i" using True by fastforce
  have "size (filter_mset (\<lambda>h. holding h \<and> ho_address h = a) (cl_holders s)) \<le>
      size (filter_mset (in_use i) (cl_holders s))"
    using sem i by (intro size_filter_mono) (auto simp: in_use_def holding_def)
  then show ?thesis using slots_okD [OF assms(2) i] by simp
next
  case False
  then have e: "filter_mset (\<lambda>h. holding h \<and> ho_address h = a) (cl_holders s) = {#}" by (auto simp: filter_mset_none)
  show ?thesis unfolding e by simp
qed

text \<open>
  C9. Whatever acquisitions and drops run at the same time, the connection permits in use never exceed the limit in total nor,
  for any address, the limit per address, although the semaphore of an address is created and reclaimed while others
  look it up.  When all permits have been dropped, every slot is free again.
\<close>

theorem connection_limits_hold:
  assumes "limiter_reachable max_total max_per_address s"
  shows "(max_total \<noteq> USIZE_MAX \<longrightarrow> size (filter_mset holding (cl_holders s)) \<le> max_total) \<and>
    (max_per_address \<noteq> USIZE_MAX \<longrightarrow>
       size (filter_mset (\<lambda>h. holding h \<and> ho_address h = a) (cl_holders s)) \<le> max_per_address) \<and>
    (cl_holders s = {#} \<and> 0 < max_total \<and> 0 < max_per_address \<longrightarrow> limiter_can_acquire a s)"
proof -
  have inv: "references_ok s" "slots_ok s" "global_ok s" "cl_max_total s = max_total" "cl_max_per_address s = max_per_address"
    using limiter_inv [OF assms] by auto
  have "size (filter_mset holding (cl_holders s)) \<le> size (filter_mset owns_global (cl_holders s))"
    by (rule size_filter_mono) (simp add: holding_def owns_global_def)
  then have "max_total \<noteq> USIZE_MAX \<longrightarrow> size (filter_mset holding (cl_holders s)) \<le> max_total"
    using inv(3,4) by (auto simp: global_ok_def limited_total_def limit_semaphore_def)
  moreover have "max_per_address \<noteq> USIZE_MAX \<longrightarrow>
      size (filter_mset (\<lambda>h. holding h \<and> ho_address h = a) (cl_holders s)) \<le> max_per_address"
    using holding_at_address [OF inv(1,2), of a] inv(5) by (auto simp: limited_per_address_def limit_semaphore_def)
  moreover have "limiter_can_acquire a s" if "cl_holders s = {#}" "0 < max_total" "0 < max_per_address"
    using that inv slots_okD [OF inv(2), of a]
    by (auto simp: limiter_can_acquire_def global_ok_def split: option.split)
  ultimately show ?thesis by blast
qed

definition lx_holder :: "holder_phase \<Rightarrow> holder" where
  "lx_holder phase = \<lparr>ho_address = ex_address ''a.t'', ho_sem = Some 0, ho_phase = phase\<rparr>"

definition lx_state :: ConnectionLimiter where
  "lx_state = take_global (lx_holder Slotted) {#} (take_slot (lx_holder Fetched) 0 {#}
     (fetch_semaphore (ex_address ''a.t'') (connection_limiter_new 1 1)))"

lemma lx_reachable: "limiter_reachable 1 1 lx_state"
proof -
  let ?s1 = "fetch_semaphore (ex_address ''a.t'') (connection_limiter_new 1 1)"
  let ?s2 = "take_slot (lx_holder Fetched) 0 {#} ?s1"
  have 1: "limiter_reachable 1 1 ?s1" by (rule limiter_next [OF limiter_init begin_acquire])
  have h1: "cl_holders ?s1 = {#lx_holder Fetched#}"
    by (simp add: limiter_ops connection_limiter_new_def limited_per_address_def limit_semaphore_def USIZE_MAX_def lx_holder_def)
  have 2: "limiter_reachable 1 1 ?s2"
    by (rule limiter_next [OF 1 acquire_slot [OF h1]]) (simp_all add: lx_holder_def)
  have "cl_available ?s1 0 = 1"
    by (simp add: limiter_ops connection_limiter_new_def limited_per_address_def limit_semaphore_def USIZE_MAX_def)
  then have h2: "cl_holders ?s2 = {#lx_holder Slotted#}"
    by (simp add: take_slot_def put_holders_def put_available_def lx_holder_def)
  show ?thesis unfolding lx_state_def
    by (rule limiter_next [OF 2 acquire_global [OF h2]]) (simp add: lx_holder_def)
qed

theorem connection_limits_hold_witness:
  "limiter_reachable 1 1 lx_state \<and> cl_holders lx_state = {#lx_holder Holding#} \<and>
   size (filter_mset holding (cl_holders lx_state)) \<le> 1"
proof -
  have "cl_holders lx_state = {#lx_holder Holding#}"
    by (simp add: lx_state_def limiter_ops connection_limiter_new_def limited_per_address_def limited_total_def
        limit_semaphore_def USIZE_MAX_def lx_holder_def)
  moreover have "(1 :: usize) \<noteq> USIZE_MAX" by (simp add: USIZE_MAX_def)
  ultimately show ?thesis using connection_limits_hold [OF lx_reachable] lx_reachable by blast
qed

text \<open>
  A freed HTTP/2 stream wakes every waiter that could use it: if a connection can be coalesced for the address a request
  is waiting on, that address is among those that the release notifies.
\<close>

theorem release_wakes_coalescable:
  assumes "can_coalesce c waiting plan" and "waiting \<in> set entries"
  shows "waiting \<in> set (notify_http2 entries (rc_address c) (rc_verified_server_names c))"
  using assms
  by (cases "waiting = rc_address c")
    (auto simp: notify_http2_def can_coalesce_def coalescing_wait_eligible_def request_allows_h2_coalescing_def
      connection_allows_h2_coalescing_def list_ex_iff split: if_splits)

definition lx_connection :: RealConnection where
  "lx_connection = real_connection_with_stream_cap 0 7
     (route_direct (ex_address ''b.t'') (SockV4 1 443)) ConnHttp2 None [''a.t''] 8"

theorem release_wakes_coalescable_witness:
  "ex_address ''a.t'' \<in> set (notify_http2 [ex_address ''c.t'', ex_address ''a.t''] (rc_address lx_connection)
     (rc_verified_server_names lx_connection))"
proof (rule release_wakes_coalescable)
  show "can_coalesce lx_connection (ex_address ''a.t'')
      \<lparr>rp_routes = [route_direct (ex_address ''a.t'') (SockV4 1 443)], rp_fast_fallback_stagger = 0\<rparr>"
    by code_simp
qed simp

end
