(* ===== verification/Transport.thy ===== *)
theory Transport
  imports Protocol_Binding Conn_Limits
begin

text \<open>
  Exchanges on pooled connections, a model of \<^verbatim>\<open>openwire/src/transport/bindings.rs\<close>, of the leases in \<^verbatim>\<open>body.rs\<close> and
  of \<^verbatim>\<open>service.rs\<close>.  A transport has a connection pool, the protocol handles bound to the pooled connections and the
  tasks that drive them.  A protocol handle is hyper's: it is a parameter type, and whether it is closed is an
  argument of the operations that ask.  Waking waiters and the release events are histories.  The eviction hook of
  the pool is the transport's teardown: it runs for every call that the pool model records.
\<close>

section \<open>Bindings\<close>

datatype 's ConnectionBinding =
    BindHttp1 ConnectionInfo "'s option"
  | BindHttp2 ConnectionInfo 's

datatype 's AcquiredBinding =
    AcqHttp1 ConnectionInfo 's
  | AcqHttp2 ConnectionInfo 's

datatype 's BindingAcquireResult = Acquired "'s AcquiredBinding" | Busy | Stale

definition CONNECTION_BINDING_SHARDS :: usize where
  "CONNECTION_BINDING_SHARDS = 32"

datatype wake = WakeAddress Address | WakeHttp2 Address "string list"

record 's transport =
  tr_pool :: ConnectionPool
  tr_bindings :: "(u64 \<rightharpoonup> 's ConnectionBinding) list"
  tr_handles :: "u64 \<rightharpoonup> nat option"
  tr_aborted :: "nat list"
  tr_wakes :: "wake list"
  tr_released :: "u64 list"

definition transport_new :: "ConnectionPool \<Rightarrow> 's transport" where
  "transport_new pool = \<lparr>tr_pool = set_eviction_hook pool,
     tr_bindings = replicate CONNECTION_BINDING_SHARDS Map.empty, tr_handles = Map.empty, tr_aborted = [],
     tr_wakes = [], tr_released = []\<rparr>"

definition binding_shard :: "u64 \<Rightarrow> 's transport \<Rightarrow> usize" where
  "binding_shard cid t = cid mod length (tr_bindings t)"

definition binding_get :: "u64 \<Rightarrow> 's transport \<Rightarrow> 's ConnectionBinding option" where
  "binding_get cid t = (tr_bindings t ! binding_shard cid t) cid"

definition binding_put :: "u64 \<Rightarrow> 's ConnectionBinding option \<Rightarrow> 's transport \<Rightarrow> 's transport" where
  "binding_put cid b t =
     t\<lparr>tr_bindings := (tr_bindings t)[binding_shard cid t := (tr_bindings t ! binding_shard cid t)(cid := b)]\<rparr>"

definition insert_http1 :: "u64 \<Rightarrow> ConnectionInfo \<Rightarrow> 's \<Rightarrow> 's transport \<Rightarrow> 's transport" where
  "insert_http1 cid info sender t = binding_put cid (Some (BindHttp1 info (Some sender))) t"

definition insert_http2 :: "u64 \<Rightarrow> ConnectionInfo \<Rightarrow> 's \<Rightarrow> 's transport \<Rightarrow> 's transport" where
  "insert_http2 cid info sender t = binding_put cid (Some (BindHttp2 info sender)) t"

definition binding_remove :: "u64 \<Rightarrow> 's transport \<Rightarrow> 's transport" where
  "binding_remove cid t = binding_put cid None t"

definition binding_acquire :: "('s \<Rightarrow> bool) \<Rightarrow> u64 \<Rightarrow> 's transport \<Rightarrow> 's transport \<times> 's BindingAcquireResult" where
  "binding_acquire is_closed cid t =
     (case binding_get cid t of
        Some (BindHttp1 info sender) \<Rightarrow>
          (case sender of
             None \<Rightarrow> (t, Busy)
           | Some sender \<Rightarrow>
               if is_closed sender then (binding_remove cid t, Stale)
               else (binding_put cid (Some (BindHttp1 info None)) t, Acquired (AcqHttp1 info sender)))
      | Some (BindHttp2 info sender) \<Rightarrow>
          if is_closed sender then (binding_remove cid t, Stale) else (t, Acquired (AcqHttp2 info sender))
      | None \<Rightarrow> (t, Stale))"

definition release_http1 :: "('s \<Rightarrow> bool) \<Rightarrow> u64 \<Rightarrow> 's \<Rightarrow> 's transport \<Rightarrow> 's transport \<times> bool" where
  "release_http1 is_closed cid sender t =
     (if is_closed sender then (binding_remove cid t, False)
      else case binding_get cid t of
          Some (BindHttp1 info _) \<Rightarrow> (binding_put cid (Some (BindHttp1 info (Some sender))) t, True)
        | _ \<Rightarrow> (t, False))"

section \<open>Connection tasks\<close>

definition attach_connection :: "u64 \<Rightarrow> nat \<Rightarrow> 's transport \<Rightarrow> 's transport" where
  "attach_connection cid handle t =
     t\<lparr>tr_handles := (tr_handles t)(cid \<mapsto> Some handle),
       tr_aborted := tr_aborted t @ (case tr_handles t cid of Some (Some previous) \<Rightarrow> [previous] | _ \<Rightarrow> [])\<rparr>"

definition abort_connection :: "u64 \<Rightarrow> 's transport \<Rightarrow> 's transport" where
  "abort_connection cid t =
     t\<lparr>tr_handles := (tr_handles t)(cid := None),
       tr_aborted := tr_aborted t @ (case tr_handles t cid of Some (Some handle) \<Rightarrow> [handle] | _ \<Rightarrow> [])\<rparr>"

definition complete_connection :: "u64 \<Rightarrow> 's transport \<Rightarrow> 's transport" where
  "complete_connection cid t = t\<lparr>tr_handles := (tr_handles t)(cid := None)\<rparr>"

definition teardown_connection :: "u64 \<Rightarrow> 's transport \<Rightarrow> 's transport" where
  "teardown_connection cid t = abort_connection cid (binding_remove cid t)"

section \<open>Using the pool\<close>

text \<open>A pool operation, and the teardown of the connections it evicts.\<close>

definition with_pool :: "(ConnectionPool \<Rightarrow> ConnectionPool \<times> 'r) \<Rightarrow> 's transport \<Rightarrow> 's transport \<times> 'r" where
  "with_pool operation t =
     (case operation (tr_pool t) of
        (p, r) \<Rightarrow> (fold teardown_connection (drop (length (cpl_hook_calls (tr_pool t))) (cpl_hook_calls p))
          (t\<lparr>tr_pool := p\<rparr>), r))"

definition heap_of :: "'s transport \<Rightarrow> conn_heap" where
  "heap_of t = cpl_heap (tr_pool t)"

definition id_of :: "cref \<Rightarrow> 's transport \<Rightarrow> u64" where
  "id_of c t = rc_id (heap_of t c)"

definition notify_wake :: "wake \<Rightarrow> 's transport \<Rightarrow> 's transport" where
  "notify_wake w t = t\<lparr>tr_wakes := tr_wakes t @ [w]\<rparr>"

definition wake_address :: "cref \<Rightarrow> 's transport \<Rightarrow> 's transport" where
  "wake_address c t = notify_wake (WakeAddress (rc_address (heap_of t c))) t"

definition wake_http2 :: "cref \<Rightarrow> 's transport \<Rightarrow> 's transport" where
  "wake_http2 c t = notify_wake (WakeHttp2 (rc_address (heap_of t c)) (rc_verified_server_names (heap_of t c))) t"

definition report_released :: "cref \<Rightarrow> 's transport \<Rightarrow> 's transport" where
  "report_released c t = t\<lparr>tr_released := tr_released t @ [id_of c t]\<rparr>"

definition set_connection :: "cref \<Rightarrow> RealConnection \<Rightarrow> 's transport \<Rightarrow> 's transport" where
  "set_connection c r t = t\<lparr>tr_pool := (tr_pool t)\<lparr>cpl_heap := (cpl_heap (tr_pool t))(c := r)\<rparr>\<rparr>"

definition exchange_release :: "(Address \<Rightarrow> nat) \<Rightarrow> instant \<Rightarrow> cref \<Rightarrow> 's transport \<Rightarrow> 's transport \<times> bool" where
  "exchange_release fx now c t = with_pool (finder_release fx now c) t"

definition teardown_pooled_connection :: "(Address \<Rightarrow> nat) \<Rightarrow> u64 \<Rightarrow> 's transport \<Rightarrow> 's transport" where
  "teardown_pooled_connection fx cid t = fst (with_pool (remove_without_hook fx cid) (teardown_connection cid t))"

section \<open>Giving back\<close>

definition release_acquired_connection ::
  "(Address \<Rightarrow> nat) \<Rightarrow> ('s \<Rightarrow> bool) \<Rightarrow> instant \<Rightarrow> cref \<Rightarrow> 's AcquiredBinding \<Rightarrow> 's transport \<Rightarrow> 's transport" where
  "release_acquired_connection fx is_closed now c binding t =
     (case binding of
        AcqHttp1 _ sender \<Rightarrow>
          (case release_http1 is_closed (id_of c t) sender t of
             (t1, False) \<Rightarrow> wake_address c (teardown_pooled_connection fx (id_of c t) t1)
           | (t1, True) \<Rightarrow>
               (case exchange_release fx now c t1 of
                  (t2, True) \<Rightarrow> wake_address c t2
                | (t2, False) \<Rightarrow> wake_address c (teardown_pooled_connection fx (id_of c t) t2)))
      | AcqHttp2 _ _ \<Rightarrow>
          (case exchange_release fx now c t of
             (t1, True) \<Rightarrow> wake_http2 c t1
           | (t1, False) \<Rightarrow> wake_http2 c (teardown_pooled_connection fx (id_of c t) t1)))"

datatype 's ResponseLease = LeaseHttp1 cref 's bool | LeaseHttp2 cref

definition release_response_lease ::
  "(Address \<Rightarrow> nat) \<Rightarrow> ('s \<Rightarrow> bool) \<Rightarrow> instant \<Rightarrow> 's ResponseLease \<Rightarrow> 's transport \<Rightarrow> 's transport" where
  "release_response_lease fx is_closed now lease t =
     (case lease of
        LeaseHttp1 c sender reusable \<Rightarrow>
          (let (t1, returned) =
             (if \<not> reusable then (t, False)
              else case release_http1 is_closed (id_of c t) sender t of
                  (t1, False) \<Rightarrow> (t1, False)
                | (t1, True) \<Rightarrow> exchange_release fx now c t1);
             t2 = (if returned then t1 else teardown_pooled_connection fx (id_of c t) t1)
           in report_released c (wake_address c t2))
      | LeaseHttp2 c \<Rightarrow> report_released c (wake_http2 c (fst (exchange_release fx now c t))))"

definition evict_response_lease_state ::
  "(Address \<Rightarrow> nat) \<Rightarrow> instant \<Rightarrow> bool \<Rightarrow> 's ResponseLease \<Rightarrow> 's transport \<Rightarrow> 's transport" where
  "evict_response_lease_state fx now unhealthy lease t =
     (case lease of
        LeaseHttp1 c _ _ \<Rightarrow> report_released c (wake_address c (teardown_pooled_connection fx (id_of c t) t))
      | LeaseHttp2 c \<Rightarrow>
          (let t1 = (if unhealthy then set_connection c (rc_mark_unhealthy (heap_of t c)) t else t)
           in report_released c (wake_http2 c (fst (exchange_release fx now c t1)))))"

definition cleanup_failed_request :: "(Address \<Rightarrow> nat) \<Rightarrow> instant \<Rightarrow> cref \<Rightarrow> 's transport \<Rightarrow> 's transport" where
  "cleanup_failed_request fx now c t =
     report_released c
       (case rc_protocol (heap_of t c) of
          ConnHttp1 \<Rightarrow> wake_address c (teardown_pooled_connection fx (id_of c t) t)
        | ConnHttp2 \<Rightarrow>
            wake_http2 c (fst (exchange_release fx now c (set_connection c (rc_mark_unhealthy (heap_of t c)) t))))"

section \<open>Choosing a connection\<close>

text \<open>
  The binding of a connection that the pool has handed out, in \<^verbatim>\<open>acquire_connection_for_candidate\<close> and in
  \<^verbatim>\<open>try_acquire_coalesced\<close>.  The last result is true when the connection is busy and may be waited for.
\<close>

definition bind_probed ::
  "(Address \<Rightarrow> nat) \<Rightarrow> ('s \<Rightarrow> bool) \<Rightarrow> instant \<Rightarrow> Address \<Rightarrow> cref \<Rightarrow> 's transport \<Rightarrow>
     's transport \<times> 's AcquiredBinding option \<times> bool" where
  "bind_probed fx is_closed now address c t =
     (case binding_acquire is_closed (id_of c t) t of
        (t1, Acquired binding) \<Rightarrow> (t1, Some binding, False)
      | (t1, Busy) \<Rightarrow> (fst (exchange_release fx now c t1), None, True)
      | (t1, Stale) \<Rightarrow> (notify_wake (WakeAddress address) (teardown_pooled_connection fx (id_of c t) t1), None, False))"

definition probe_pool ::
  "(Address \<Rightarrow> nat) \<Rightarrow> ('s \<Rightarrow> bool) \<Rightarrow> instant \<Rightarrow> Address \<Rightarrow> 's transport \<Rightarrow>
     's transport \<times> (cref \<times> 's AcquiredBinding) option \<times> bool" where
  "probe_pool fx is_closed now address t =
     (case with_pool (acquire_with_in_use_hint fx now address) t of
        (t1, None, has_in_use) \<Rightarrow> (t1, None, has_in_use)
      | (t1, Some c, _) \<Rightarrow>
          (case bind_probed fx is_closed now address c t1 of
             (t2, Some binding, _) \<Rightarrow> (t2, Some (c, binding), False)
           | (t2, None, True) \<Rightarrow> (t2, None, True)
           | (t2, None, False) \<Rightarrow>
               (case with_pool (has_in_use_connection fx now address) t2 of
                  (t3, has_in_use) \<Rightarrow> (t3, None, has_in_use))))"

definition try_acquire_coalesced ::
  "(Address \<Rightarrow> nat) \<Rightarrow> (Address list \<Rightarrow> Address list) \<Rightarrow> ('s \<Rightarrow> bool) \<Rightarrow> instant \<Rightarrow> bool \<Rightarrow> Address \<Rightarrow> RoutePlan \<Rightarrow>
     's transport \<Rightarrow> 's transport \<times> (cref \<times> 's AcquiredBinding) option" where
  "try_acquire_coalesced fx hs is_closed now no_coalesced address plan t =
     (if no_coalesced then (t, None)
      else case with_pool (acquire_coalesced fx hs now address plan) t of
          (t1, None) \<Rightarrow> (t1, None)
        | (t1, Some c) \<Rightarrow>
            (case bind_probed fx is_closed now address c t1 of
               (t2, Some binding, _) \<Rightarrow> (t2, Some (c, binding))
             | (t2, None, _) \<Rightarrow> (t2, None)))"

text \<open>
  One turn of the loop of \<^verbatim>\<open>acquire_connection_for_candidate\<close>.  A turn can wait for the resolver: \<open>tn_resolve\<close> is its
  answer together with what the rest of the program does to the transport in the meantime.  \<open>tn_can_acquire\<close> and
  \<open>tn_permit\<close> are the answers of the connection limiter.  \<open>tn_wait\<close> is what the rest of the program does while
  the turn waits for a wake at its end.
\<close>

record 's turn =
  tn_is_closed :: "'s \<Rightarrow> bool"
  tn_probe_at :: instant
  tn_coalesce_at :: instant
  tn_resolve :: "'s transport \<Rightarrow> 's transport \<times> (WireError, RoutePlan) result"
  tn_can_acquire :: bool
  tn_permit :: bool
  tn_wait :: "'s transport \<Rightarrow> 's transport"

datatype 's candidate_outcome =
    Reuse cref "'s AcquiredBinding" bool
  | Connect RoutePlan
  | GiveUp WireError
  | WaitForWake

definition candidate_turn ::
  "(Address \<Rightarrow> nat) \<Rightarrow> (Address list \<Rightarrow> Address list) \<Rightarrow> bool \<Rightarrow> Address \<Rightarrow> 's turn \<Rightarrow> RoutePlan option \<Rightarrow> 's transport \<Rightarrow>
     's transport \<times> RoutePlan option \<times> 's candidate_outcome" where
  "candidate_turn fx hs no_coalesced address turn route_plan t =
     (case probe_pool fx (tn_is_closed turn) (tn_probe_at turn) address t of
        (t1, Some (c, binding), _) \<Rightarrow> (t1, route_plan, Reuse c binding False)
      | (t1, None, waitable) \<Rightarrow>
          (case (case route_plan of Some plan \<Rightarrow> (t1, Inr plan) | None \<Rightarrow> tn_resolve turn t1) of
             (t2, Inl e) \<Rightarrow>
               (t2, None, if we_kind e = KDns \<and> waitable \<and> \<not> tn_can_acquire turn then WaitForWake else GiveUp e)
           | (t2, Inr plan) \<Rightarrow>
               (case try_acquire_coalesced fx hs (tn_is_closed turn) (tn_coalesce_at turn) no_coalesced address plan t2 of
                  (t3, Some (c, binding)) \<Rightarrow> (t3, Some plan, Reuse c binding True)
                | (t3, None) \<Rightarrow> (t3, Some plan, if tn_permit turn then Connect plan else WaitForWake))))"

text \<open>
  The loop over the turns.  The value \<^term>\<open>None\<close> means that the exchange is still waiting after the given turns.
\<close>

fun acquire_for_candidate ::
  "(Address \<Rightarrow> nat) \<Rightarrow> (Address list \<Rightarrow> Address list) \<Rightarrow> bool \<Rightarrow> Address \<Rightarrow> 's turn list \<Rightarrow> RoutePlan option \<Rightarrow> 's transport \<Rightarrow>
     's transport \<times> 's candidate_outcome option" where
  "acquire_for_candidate fx hs no_coalesced address [] route_plan t = (t, None)"
| "acquire_for_candidate fx hs no_coalesced address (turn # turns) route_plan t =
     (case candidate_turn fx hs no_coalesced address turn route_plan t of
        (t1, route_plan1, WaitForWake) \<Rightarrow>
          acquire_for_candidate fx hs no_coalesced address turns route_plan1 (tn_wait turn t1)
      | (t1, _, outcome) \<Rightarrow> (t1, Some outcome))"

text \<open>The loop of \<^verbatim>\<open>acquire_connection\<close> over the candidates; \<open>attempt\<close> is the attempt at one of them.\<close>

fun try_candidates ::
  "('c \<Rightarrow> 't \<Rightarrow> 't \<times> (WireError, 'r) result) \<Rightarrow> 'c list \<Rightarrow> WireError option \<Rightarrow> 't \<Rightarrow> 't \<times> (WireError, 'r) result" where
  "try_candidates attempt [] last_error t =
     (t, Inl (case last_error of Some e \<Rightarrow> e
        | None \<Rightarrow> err_route_exhausted ''proxy selection produced no usable address candidates''))"
| "try_candidates attempt (candidate # candidates) last_error t =
     (case attempt candidate t of
        (t1, Inr selected) \<Rightarrow> (t1, Inr selected)
      | (t1, Inl e) \<Rightarrow> try_candidates attempt candidates (Some e) t1)"

definition acquire_connection ::
  "(Address \<Rightarrow> nat) \<Rightarrow> (ResolvedAddress \<Rightarrow> 's transport \<Rightarrow> 's transport \<times> (WireError, 'r) result) \<Rightarrow>
     ResolvedAddress list \<Rightarrow> 's transport \<Rightarrow> 's transport \<times> (WireError, 'r) result" where
  "acquire_connection fx attempt addresses t =
     (case first_acquirable_index fx (tr_pool t) addresses of
        Some i \<Rightarrow> try_candidates attempt (addresses ! i # take i addresses @ drop (Suc i) addresses) None t
      | None \<Rightarrow> try_candidates attempt addresses None t)"

section \<open>Fresh connections\<close>

definition fresh_connection ::
  "instant \<Rightarrow> u64 \<Rightarrow> Route \<Rightarrow> ConnectionProtocol \<Rightarrow> u64 option \<Rightarrow> string list \<Rightarrow> usize \<Rightarrow> RealConnection" where
  "fresh_connection now cid route protocol permit names max_http2_streams =
     snd (rc_try_acquire (real_connection_with_stream_cap now cid route protocol permit names max_http2_streams))"

definition publish_fresh ::
  "(Address \<Rightarrow> nat) \<Rightarrow> ('s \<Rightarrow> bool) \<Rightarrow> instant \<Rightarrow> cref \<Rightarrow> RealConnection \<Rightarrow> ConnectionInfo \<Rightarrow> 's \<Rightarrow> 's transport \<Rightarrow>
     's transport \<times> (WireError, 's AcquiredBinding) result" where
  "publish_fresh fx is_closed now c connection info sender t =
     (let t1 = set_connection c connection t;
          t2 = (case rc_protocol connection of
                  ConnHttp1 \<Rightarrow> insert_http1 (ci_id info) info sender t1
                | ConnHttp2 \<Rightarrow> insert_http2 (ci_id info) info sender t1)
      in case binding_acquire is_closed (rc_id connection) t2 of
           (t3, Acquired binding) \<Rightarrow> (fst (with_pool (\<lambda>p. (pool_insert fx now c p, ())) t3), Inr binding)
         | (t3, _) \<Rightarrow> (binding_remove (rc_id connection) t3,
             Inl (case rc_protocol connection of
                    ConnHttp1 \<Rightarrow> err_internal ''freshly bound HTTP/1 connection was not available for request execution''
                      ''bound HTTP/1 connection missing immediately after insert''
                  | ConnHttp2 \<Rightarrow> err_internal ''freshly bound HTTP/2 connection was not available for request execution''
                      ''bound HTTP/2 connection missing immediately after insert'')))"

text \<open>The spawning of the task that drives a connection, and what follows when the executor refuses it.\<close>

definition spawn_connection_task ::
  "(Address \<Rightarrow> nat) \<Rightarrow> Address \<Rightarrow> cref \<Rightarrow> (WireError, nat) result \<Rightarrow> 's transport \<Rightarrow> 's transport \<times> (WireError, unit) result" where
  "spawn_connection_task fx address c spawned t =
     (case spawned of
        Inr handle \<Rightarrow> (attach_connection (id_of c t) handle t, Inr ())
      | Inl e \<Rightarrow>
          (notify_wake (WakeAddress address)
             (teardown_pooled_connection fx (id_of c t) (abort_connection (id_of c t) t)), Inl e))"

text \<open>What the task does when hyper's connection future is done.\<close>

definition connection_task_end :: "(Address \<Rightarrow> nat) \<Rightarrow> cref \<Rightarrow> 's transport \<Rightarrow> 's transport" where
  "connection_task_end fx c t =
     wake_address c (complete_connection (id_of c t)
       (fst (with_pool (remove_without_hook fx (id_of c t)) (binding_remove (id_of c t) t))))"

section \<open>Sending\<close>

definition map_try_send_error :: "bool \<Rightarrow> WireError \<Rightarrow> WireError" where
  "map_try_send_error committed e = (if committed then with_request_committed e else e)"

text \<open>
  What hyper answers: the connection is not ready, the request fails (with or without having been handed to the
  connection), or a response arrives.
\<close>

datatype 'h send_outcome = NotReady WireError | SendFailed bool WireError | Responded http_version 'h

definition response_lease :: "'h protocol_env \<Rightarrow> cref \<Rightarrow> 's AcquiredBinding \<Rightarrow> 'h \<Rightarrow> http_version \<Rightarrow> 'h \<Rightarrow> 's ResponseLease" where
  "response_lease env c binding request_headers version response_headers =
     (case binding of
        AcqHttp1 _ sender \<Rightarrow>
          LeaseHttp1 c sender (http1_exchange_allows_reuse (pr_headers env)
            (connection_header_requests_close (pr_headers env) request_headers) version response_headers)
      | AcqHttp2 _ _ \<Rightarrow> LeaseHttp2 c)"

definition prepare_on_connection ::
  "'h protocol_env \<Rightarrow> SelectedProxy option \<Rightarrow> cref \<Rightarrow> ('h, 'x) request \<Rightarrow> 's transport \<Rightarrow> (WireError, ('h, 'x) request) result" where
  "prepare_on_connection env sp c request t =
     prepare_request_for_send env sp (rc_protocol (heap_of t c)) (rt_kind (rc_route (heap_of t c))) request"

definition send_bound_request ::
  "'h protocol_env \<Rightarrow> (Address \<Rightarrow> nat) \<Rightarrow> instant \<Rightarrow> SelectedProxy option \<Rightarrow> cref \<Rightarrow> 's AcquiredBinding \<Rightarrow> ('h, 'x) request \<Rightarrow>
     'h send_outcome \<Rightarrow> 's transport \<Rightarrow> 's transport \<times> (WireError, 's ResponseLease) result" where
  "send_bound_request env fx now sp c binding request outcome t =
     (case prepare_on_connection env sp c request t of
        Inl e \<Rightarrow> (t, Inl e)
      | Inr request' \<Rightarrow>
          (case outcome of
             NotReady e \<Rightarrow> (cleanup_failed_request fx now c t, Inl e)
           | SendFailed committed e \<Rightarrow> (cleanup_failed_request fx now c t, Inl (map_try_send_error committed e))
           | Responded version headers \<Rightarrow>
               (t, Inr (response_lease env c binding (rq_headers request') version headers))))"

datatype lease_use = LeaseReleased | LeaseDiscarded | LeaseAbandoned

fun use_lease ::
  "(Address \<Rightarrow> nat) \<Rightarrow> ('s \<Rightarrow> bool) \<Rightarrow> instant \<Rightarrow> lease_use \<Rightarrow> 's ResponseLease \<Rightarrow> 's transport \<Rightarrow> 's transport" where
  "use_lease fx is_closed now LeaseReleased lease t = release_response_lease fx is_closed now lease t"
| "use_lease fx is_closed now LeaseDiscarded lease t = evict_response_lease_state fx now True lease t"
| "use_lease fx is_closed now LeaseAbandoned lease t = evict_response_lease_state fx now False lease t"

section \<open>Exchanges\<close>

definition pooled_ids :: "(Address \<Rightarrow> nat) \<Rightarrow> 's transport \<Rightarrow> u64 set" where
  "pooled_ids fx t = {rc_id (heap_of t d) |d. \<exists>a. d \<in> set (pool_bucket fx (tr_pool t) a)}"

text \<open>
  The exchanges of a client.  An exchange that holds a connection is, in the order of an exchange: probing (the pool has
  handed out the connection, its handle is not yet taken), spawning (a fresh connection is published, its task is not yet
  started), selected, sending, or streaming the response.  \<open>ex_lost\<close> records the connections of the exchanges that end
  while sending without giving back: \<^verbatim>\<open>send_bound_request\<close> takes the parts out of the guard, and nothing else releases
  them.  An operation that gives back is one step: it takes the lock of the pool once to change the allocations.
\<close>

datatype 's exchange =
    Probing cref
  | Spawning cref "'s AcquiredBinding"
  | Selected cref "'s AcquiredBinding"
  | Sending cref "'s AcquiredBinding"
  | Streaming "'s ResponseLease"

record 's exchanges =
  ex_transport :: "'s transport"
  ex_active :: "'s exchange multiset"
  ex_lost :: "cref multiset"
  ex_next :: cref

fun lease_connection :: "'s ResponseLease \<Rightarrow> cref" where
  "lease_connection (LeaseHttp1 c _ _) = c"
| "lease_connection (LeaseHttp2 c) = c"

fun exchange_connection :: "'s exchange \<Rightarrow> cref" where
  "exchange_connection (Probing c) = c"
| "exchange_connection (Spawning c _) = c"
| "exchange_connection (Selected c _) = c"
| "exchange_connection (Sending c _) = c"
| "exchange_connection (Streaming lease) = lease_connection lease"

definition go_on :: "'s transport \<Rightarrow> 's exchange multiset \<Rightarrow> 's exchanges \<Rightarrow> 's exchanges" where
  "go_on t active s = s\<lparr>ex_transport := t, ex_active := active\<rparr>"

definition lose :: "cref \<Rightarrow> 's exchange multiset \<Rightarrow> 's exchanges \<Rightarrow> 's exchanges" where
  "lose c active s = s\<lparr>ex_active := active, ex_lost := add_mset c (ex_lost s)\<rparr>"

definition pool_probe ::
  "(Address \<Rightarrow> nat) \<Rightarrow> (Address list \<Rightarrow> Address list) \<Rightarrow> instant \<Rightarrow> Address \<Rightarrow> RoutePlan option \<Rightarrow> ConnectionPool \<Rightarrow>
     ConnectionPool \<times> cref option" where
  "pool_probe fx hs now address plan p =
     (case plan of
        None \<Rightarrow> (case acquire_with_in_use_hint fx now address p of (p', c, _) \<Rightarrow> (p', c))
      | Some plan \<Rightarrow> acquire_coalesced fx hs now address plan p)"

inductive exchange_step ::
  "'h protocol_env \<Rightarrow> (Address \<Rightarrow> nat) \<Rightarrow> (Address list \<Rightarrow> Address list) \<Rightarrow> (PoolState \<Rightarrow> Address list) \<Rightarrow>
     's exchanges \<Rightarrow> 's exchanges \<Rightarrow> bool"
  for env fx hs ko s where
  probe_hit: "with_pool (pool_probe fx hs now address plan) (ex_transport s) = (t, Some c) \<Longrightarrow>
     exchange_step env fx hs ko s (go_on t (add_mset (Probing c) (ex_active s)) s)"
| probe_miss: "with_pool (pool_probe fx hs now address plan) (ex_transport s) = (t, None) \<Longrightarrow>
     exchange_step env fx hs ko s (go_on t (ex_active s) s)"
| ask_in_use: "with_pool (has_in_use_connection fx now address) (ex_transport s) = (t, answer) \<Longrightarrow>
     exchange_step env fx hs ko s (go_on t (ex_active s) s)"
| bind_ok: "ex_active s = add_mset (Probing c) rest \<Longrightarrow>
     bind_probed fx is_closed now address c (ex_transport s) = (t, Some binding, w) \<Longrightarrow>
     exchange_step env fx hs ko s (go_on t (add_mset (Selected c binding) rest) s)"
| bind_no: "ex_active s = add_mset (Probing c) rest \<Longrightarrow>
     bind_probed fx is_closed now address c (ex_transport s) = (t, None, w) \<Longrightarrow>
     exchange_step env fx hs ko s (go_on t rest s)"
| publish_ok: "\<forall>d \<in> pooled_ids fx (ex_transport s). d \<noteq> ci_id info \<Longrightarrow>
     connection = fresh_connection now (ci_id info) route protocol permit names streams \<Longrightarrow>
     publish_fresh fx is_closed now' (ex_next s) connection info sender (ex_transport s) = (t, Inr binding) \<Longrightarrow>
     exchange_step env fx hs ko s ((go_on t (add_mset (Spawning (ex_next s) binding) (ex_active s)) s)\<lparr>ex_next := ex_next s + 1\<rparr>)"
| publish_no: "connection = fresh_connection now (ci_id info) route protocol permit names streams \<Longrightarrow>
     publish_fresh fx is_closed now' (ex_next s) connection info sender (ex_transport s) = (t, Inl e) \<Longrightarrow>
     exchange_step env fx hs ko s ((go_on t (ex_active s) s)\<lparr>ex_next := ex_next s + 1\<rparr>)"
| spawn_ok: "ex_active s = add_mset (Spawning c binding) rest \<Longrightarrow>
     spawn_connection_task fx address c (Inr handle) (ex_transport s) = (t, Inr ()) \<Longrightarrow>
     exchange_step env fx hs ko s (go_on t (add_mset (Selected c binding) rest) s)"
| spawn_no: "ex_active s = add_mset (Spawning c binding) rest \<Longrightarrow>
     spawn_connection_task fx address c (Inl e) (ex_transport s) = (t, Inl e) \<Longrightarrow>
     exchange_step env fx hs ko s (go_on t rest s)"
| drop_selected: "ex_active s = add_mset (Selected c binding) rest \<Longrightarrow>
     exchange_step env fx hs ko s (go_on (release_acquired_connection fx is_closed now c binding (ex_transport s)) rest s)"
| start_send: "ex_active s = add_mset (Selected c binding) rest \<Longrightarrow>
     exchange_step env fx hs ko s (go_on (ex_transport s) (add_mset (Sending c binding) rest) s)"
| send_refused: "ex_active s = add_mset (Sending c binding) rest \<Longrightarrow>
     prepare_on_connection env sp c (request :: ('h, unit) request) (ex_transport s) = Inl e \<Longrightarrow>
     exchange_step env fx hs ko s (lose c rest s)"
| send_cancelled: "ex_active s = add_mset (Sending c binding) rest \<Longrightarrow> exchange_step env fx hs ko s (lose c rest s)"
| send_failed: "ex_active s = add_mset (Sending c binding) rest \<Longrightarrow>
     prepare_on_connection env sp c (request :: ('h, unit) request) (ex_transport s) = Inr request' \<Longrightarrow>
     send_bound_request env fx now sp c binding (request :: ('h, unit) request) outcome (ex_transport s) = (t, Inl e) \<Longrightarrow>
     exchange_step env fx hs ko s (go_on t rest s)"
| send_answered: "ex_active s = add_mset (Sending c binding) rest \<Longrightarrow>
     send_bound_request env fx now sp c binding (request :: ('h, unit) request) outcome (ex_transport s) = (t, Inr lease) \<Longrightarrow>
     exchange_step env fx hs ko s (go_on t (add_mset (Streaming lease) rest) s)"
| body_done: "ex_active s = add_mset (Streaming lease) rest \<Longrightarrow>
     exchange_step env fx hs ko s (go_on (use_lease fx is_closed now how lease (ex_transport s)) rest s)"
| task_done: "c < ex_next s \<Longrightarrow>
     exchange_step env fx hs ko s (go_on (connection_task_end fx c (ex_transport s)) (ex_active s) s)"
| reap: "with_pool (\<lambda>p. (prune_all ko now p, ())) (ex_transport s) = (t, u) \<Longrightarrow>
     exchange_step env fx hs ko s (go_on t (ex_active s) s)"

definition exchanges_new :: "PoolSettings \<Rightarrow> conn_heap \<Rightarrow> 's exchanges" where
  "exchanges_new settings heap =
     \<lparr>ex_transport = transport_new (pool_new settings heap), ex_active = {#}, ex_lost = {#}, ex_next = 0\<rparr>"

inductive exchanges_reachable ::
  "'h protocol_env \<Rightarrow> (Address \<Rightarrow> nat) \<Rightarrow> (Address list \<Rightarrow> Address list) \<Rightarrow> (PoolState \<Rightarrow> Address list) \<Rightarrow> PoolSettings \<Rightarrow>
     's exchanges \<Rightarrow> bool"
  for env fx hs ko settings where
  exchanges_init: "exchanges_reachable env fx hs ko settings (exchanges_new settings heap)"
| exchanges_next: "exchanges_reachable env fx hs ko settings s \<Longrightarrow> exchange_step env fx hs ko s s' \<Longrightarrow>
     exchanges_reachable env fx hs ko settings s'"

end
