(* ===== verification/Transport_Inv.thy ===== *)
theory Transport_Inv
  imports Transport Pool_Props
begin

text \<open>
  How the operations of the transport move the allocations of the connections.  \<open>shifts\<close> says that a change of the
  pool changes the allocations of every connection that is open afterwards by a given amount, and \<open>moves\<close> says so of the
  transport and that the invariant of the pool is kept.  They compose by addition, so that an operation is accounted for
  by its parts.
\<close>

section \<open>Shifting the allocations of a pool\<close>

abbreviation allocs :: "RealConnection \<Rightarrow> int" where
  "allocs r \<equiv> int (cs_allocations (rc_state r))"

definition shifts :: "(Address \<Rightarrow> nat) \<Rightarrow> (cref \<Rightarrow> int) \<Rightarrow> ConnectionPool \<Rightarrow> ConnectionPool \<Rightarrow> bool" where
  "shifts fx \<delta> p q \<longleftrightarrow>
     (\<forall>c. rc_fixed (cpl_heap q c) = rc_fixed (cpl_heap p c)) \<and>
     (\<forall>c. rc_is_closed (cpl_heap p c) \<longrightarrow> rc_is_closed (cpl_heap q c)) \<and>
     (\<forall>c. rc_is_closed (cpl_heap q c) \<or> allocs (cpl_heap q c) = allocs (cpl_heap p c) + \<delta> c) \<and>
     (\<forall>c \<in> pooled fx p. rc_is_closed (cpl_heap q c) \<or> c \<in> pooled fx q) \<and> pooled fx q \<subseteq> pooled fx p"

abbreviation none :: "cref \<Rightarrow> int" where
  "none \<equiv> \<lambda>_. 0"

abbreviation at :: "cref \<Rightarrow> int \<Rightarrow> cref \<Rightarrow> int" where
  "at c n \<equiv> (\<lambda>d. if d = c then n else 0)"

lemma shiftsD:
  assumes "shifts fx \<delta> p q"
  shows "rc_fixed (cpl_heap q c) = rc_fixed (cpl_heap p c)" "rc_is_closed (cpl_heap p c) \<Longrightarrow> rc_is_closed (cpl_heap q c)"
    "\<not> rc_is_closed (cpl_heap q c) \<Longrightarrow> allocs (cpl_heap q c) = allocs (cpl_heap p c) + \<delta> c"
    "c \<in> pooled fx p \<Longrightarrow> \<not> rc_is_closed (cpl_heap q c) \<Longrightarrow> c \<in> pooled fx q" "pooled fx q \<subseteq> pooled fx p"
  using assms by (auto simp: shifts_def)

lemma shifts_refl [simp]: "shifts fx none p p"
  by (simp add: shifts_def)

lemma shifts_trans:
  assumes "shifts fx \<delta> p q" and "shifts fx \<epsilon> q r" shows "shifts fx (\<lambda>c. \<delta> c + \<epsilon> c) p r"
  unfolding shifts_def
proof (intro conjI allI ballI impI)
  fix c
  show "rc_is_closed (cpl_heap r c) \<or> allocs (cpl_heap r c) = allocs (cpl_heap p c) + (\<delta> c + \<epsilon> c)"
    using shiftsD(3) [OF assms(1), of c] shiftsD(2,3) [OF assms(2), of c] by linarith
qed (use shiftsD [OF assms(1)] shiftsD [OF assms(2)] in \<open>metis order_trans\<close>)+

lemma shifts_then: "shifts fx \<delta> p q \<Longrightarrow> shifts fx none q r \<Longrightarrow> shifts fx \<delta> p r"
  using shifts_trans [of fx \<delta> p q none r] by simp

lemma shifts_after: "shifts fx none p q \<Longrightarrow> shifts fx \<delta> q r \<Longrightarrow> shifts fx \<delta> p r"
  using shifts_trans [of fx none p q \<delta> r] by simp

text \<open>When a connection is closed afterwards, any amount may be charged to it.\<close>

lemma shifts_closed: "shifts fx none p q \<Longrightarrow> rc_is_closed (cpl_heap q c) \<Longrightarrow> shifts fx (at c n) p q"
  by (auto simp: shifts_def)

lemma shifts_evicts: "evicts fx p R q \<Longrightarrow> shifts fx none p q"
  by (auto simp: shifts_def evicts_pooled) (auto simp: evicts_def close_all_def)

lemma shifts_finish_removals [simp]:
  "shifts fx \<delta> p (finish_removals removed q) \<longleftrightarrow> shifts fx \<delta> p q"
  "shifts fx \<delta> p (drop_indexes removed q) \<longleftrightarrow> shifts fx \<delta> p q"
  by (simp_all add: shifts_def drop_indexes_def)

lemma shifts_index [simp]: "shifts fx \<delta> p (q\<lparr>cpl_coalesced_by_target := x\<rparr>) \<longleftrightarrow> shifts fx \<delta> p q"
  by (simp add: shifts_def)

lemma shifts_heap:
  "rc_fixed r = rc_fixed (cpl_heap p c) \<Longrightarrow> (rc_is_closed (cpl_heap p c) \<Longrightarrow> rc_is_closed r) \<Longrightarrow>
     (\<not> rc_is_closed r \<Longrightarrow> allocs r = allocs (cpl_heap p c) + n) \<Longrightarrow>
     shifts fx (at c n) p (p\<lparr>cpl_heap := (cpl_heap p)(c := r)\<rparr>)"
  by (auto simp: shifts_def)

section \<open>Operations of the pool\<close>

definition acquired :: "cref option \<Rightarrow> cref \<Rightarrow> int" where
  "acquired r = (case r of Some c \<Rightarrow> at c 1 | None \<Rightarrow> none)"

lemma shifts_try_acquire:
  assumes "find_try_acquire (cpl_heap p) cs = (h, r)" shows "shifts fx (acquired r) p (p\<lparr>cpl_heap := h\<rparr>)"
proof -
  from find_try_acquire_cases [OF assms] consider "r = None" "h = cpl_heap p"
    | c where "r = Some c" "rc_can_acquire (cpl_heap p c)" "h = (cpl_heap p)(c := snd (rc_try_acquire (cpl_heap p c)))"
    by blast
  then show ?thesis
  proof cases
    case 1
    then show ?thesis by (simp add: acquired_def)
  next
    case (2 c)
    have "shifts fx (at c 1) p (p\<lparr>cpl_heap := (cpl_heap p)(c := snd (rc_try_acquire (cpl_heap p c)))\<rparr>)"
      using rc_closed_apply [of "cpl_heap p c" EvAcquire] 2(2)
      by (intro shifts_heap) (simp_all add: rc_try_acquire_allocations)
    with 2 show ?thesis by (simp add: acquired_def)
  qed
qed

lemma shifts_pool_acquire:
  assumes "pool_inv fx p" shows "shifts fx (acquired (snd (pool_acquire fx now a p))) p (fst (pool_acquire fx now a p))"
proof -
  obtain p1 removed h r where p: "prune_in_shard fx now a p = (p1, removed)"
      "find_try_acquire (cpl_heap p1) (pool_bucket fx p1 a) = (h, r)" by (meson surj_pair)
  show ?thesis
    using shifts_after [OF shifts_evicts [OF prune_in_shard_evicts(1) [OF assms p(1)]] shifts_try_acquire [OF p(2)]]
    by (simp add: pool_acquire_def p)
qed

lemma shifts_acquire_coalesced:
  assumes "pool_inv fx p" "\<forall>xs. set (hs xs) = set xs"
  shows "shifts fx (acquired (snd (acquire_coalesced fx hs now a plan p))) p (fst (acquire_coalesced fx hs now a plan p))"
proof -
  from acquire_coalesced_shape [OF assms, of now a plan]
  consider "fst (acquire_coalesced fx hs now a plan p) = p" "snd (acquire_coalesced fx hs now a plan p) = None"
    | removed p1 h cands where "evicts fx p (set removed) p1"
        "find_try_acquire (cpl_heap p1) cands = (h, snd (acquire_coalesced fx hs now a plan p))"
        "fst (acquire_coalesced fx hs now a plan p) = (finish_removals removed p1)\<lparr>cpl_heap := h\<rparr>"
    by (elim disjE exE conjE) blast+
  then show ?thesis
  proof cases
    case 1
    then show ?thesis by (simp add: acquired_def)
  next
    case (2 removed p1 h cands)
    have "shifts fx (acquired (snd (acquire_coalesced fx hs now a plan p))) p1 ((finish_removals removed p1)\<lparr>cpl_heap := h\<rparr>)"
      using shifts_try_acquire [OF 2(2), of fx] by (simp add: shifts_def)
    with shifts_after [OF shifts_evicts [OF 2(1)]] show ?thesis unfolding 2(3) by blast
  qed
qed


lemma pool_probe_inv:
  assumes "pool_inv fx p" "\<forall>xs. set (hs xs) = set xs" shows "pool_inv fx (fst (pool_probe fx hs now a plan p))"
  using pool_acquire_inv [OF assms(1)] acquire_coalesced_inv [OF assms]
  by (cases plan) (simp_all add: pool_probe_def acquire_with_in_use_hint_acquire split_beta)

lemma shifts_pool_probe:
  assumes "pool_inv fx p" "\<forall>xs. set (hs xs) = set xs"
  shows "shifts fx (acquired (snd (pool_probe fx hs now a plan p))) p (fst (pool_probe fx hs now a plan p))"
  using shifts_pool_acquire [OF assms(1)] shifts_acquire_coalesced [OF assms]
  by (cases plan) (simp_all add: pool_probe_def acquire_with_in_use_hint_acquire split_beta)

text \<open>The connection that a probe hands out: in the pool, open, for the address or coalescable.\<close>

definition serves :: "RealConnection \<Rightarrow> Address \<Rightarrow> RoutePlan option \<Rightarrow> bool" where
  "serves r a plan \<longleftrightarrow> (case plan of None \<Rightarrow> rc_address r = a | Some pl \<Rightarrow> can_coalesce r a pl)"

lemma serves_fixed: "rc_fixed r = rc_fixed r' \<Longrightarrow> serves r a plan \<longleftrightarrow> serves r' a plan"
  using rc_fixed_eqD [of r r']
  by (auto simp: serves_def can_coalesce_def connection_allows_h2_coalescing_def split: option.split)

lemma try_acquire_open: "rc_can_acquire r \<Longrightarrow> \<not> rc_is_closed (snd (rc_try_acquire r))"
  by (auto simp: rc_can_acquire_def can_acquire_with_def rc_try_acquire_def rc_is_closed_def split: if_splits)

lemma pool_acquire_serves:
  assumes "pool_inv fx p" "pool_acquire fx now a p = (q, Some c)"
  shows "c \<in> pooled fx q \<and> \<not> rc_is_closed (cpl_heap q c) \<and> serves (cpl_heap q c) a None"
proof -
  obtain p1 removed h r where p: "prune_in_shard fx now a p = (p1, removed)"
      "find_try_acquire (cpl_heap p1) (pool_bucket fx p1 a) = (h, r)" by (meson surj_pair)
  have q: "q = finish_removals removed (p1\<lparr>cpl_heap := h\<rparr>)" "r = Some c" using assms(2) p by (auto simp: pool_acquire_def)
  have c: "c \<in> set (pool_bucket fx p1 a)" "rc_can_acquire (cpl_heap p1 c)" "h c = snd (rc_try_acquire (cpl_heap p1 c))"
    using find_try_acquire_cases [OF p(2)] q(2) by auto
  have "buckets_ok fx p1" by (rule evicts_buckets_ok [OF prune_in_shard_evicts(1) [OF assms(1) p(1)] pool_invD(2) [OF assms(1)]])
  then have "rc_address (cpl_heap p1 c) = a" using c(1) by (simp add: buckets_ok_def)
  then show ?thesis
    using c pooledI [OF c(1)] try_acquire_open [OF c(2)] rc_fixed_eqD(2) [OF rc_fixed_ops(1) [of "cpl_heap p1 c"]]
    by (simp add: q serves_def)
qed

lemma acquire_coalesced_serves:
  assumes "pool_inv fx p" "\<forall>xs. set (hs xs) = set xs" "acquire_coalesced fx hs now a plan p = (q, Some c)"
  shows "c \<in> pooled fx q \<and> \<not> rc_is_closed (cpl_heap q c) \<and> serves (cpl_heap q c) a (Some plan)"
  using acquire_coalesced_shape [OF assms(1,2), of now a plan] unfolding assms(3) fst_conv snd_conv
proof (elim disjE exE conjE)
  fix removed p1 h cands
  assume inv1: "pool_inv fx (finish_removals removed p1)"
    and cands: "cands = snd (collect_candidates (cpl_heap p1) a plan (direct_route_targets plan)
                 (cpl_coalesced_by_target (finish_removals removed p1)) {} [])"
    and f: "find_try_acquire (cpl_heap p1) cands = (h, Some c)" and q: "q = (finish_removals removed p1)\<lparr>cpl_heap := h\<rparr>"
  have c: "c \<in> set cands" "rc_can_acquire (cpl_heap p1 c)" "h c = snd (rc_try_acquire (cpl_heap p1 c))"
    using find_try_acquire_cases [OF f] by auto
  obtain t b where t: "can_coalesce (cpl_heap p1 c) a plan" "cpl_coalesced_by_target (finish_removals removed p1) t = Some b"
      "c \<in> set b"
    using collect_candidates_sound [OF c(1) [unfolded cands]] by auto
  have "c \<in> pooled fx p1" using index_invD(4) [OF pool_invD(3) [OF inv1], of t] t(2,3) by (auto simp: index_bucket_def)
  then show ?thesis
    using t(1) c(3) try_acquire_open [OF c(2)] serves_fixed [OF rc_fixed_ops(1) [of "cpl_heap p1 c"], of a "Some plan"]
    by (simp add: q serves_def)
qed simp

lemma pool_probe_serves:
  assumes "pool_inv fx p" "\<forall>xs. set (hs xs) = set xs" "pool_probe fx hs now a plan p = (q, Some c)"
  shows "c \<in> pooled fx q \<and> \<not> rc_is_closed (cpl_heap q c) \<and> serves (cpl_heap q c) a plan"
proof (cases plan)
  case None
  then have "pool_acquire fx now a p = (q, Some c)"
    using assms(3) acquire_with_in_use_hint_acquire [of fx now a p]
    by (auto simp: pool_probe_def split_beta prod_eq_iff)
  from pool_acquire_serves [OF assms(1) this] show ?thesis by (simp add: None)
next
  case (Some pl)
  then show ?thesis using acquire_coalesced_serves [OF assms(1,2)] assms(3) by (simp add: pool_probe_def)
qed

lemma shifts_in_use:
  assumes "pool_inv fx p" shows "shifts fx none p (fst (has_in_use_connection fx now a p))"
proof -
  obtain p1 removed where p: "prune_in_shard fx now a p = (p1, removed)" by (meson surj_pair)
  show ?thesis using shifts_evicts [OF prune_in_shard_evicts(1) [OF assms p]] by (simp add: has_in_use_connection_def p)
qed

lemma shifts_prune_all:
  assumes "pool_inv fx p" "\<forall>st. set (ko st) \<subseteq> dom st" shows "shifts fx none p (prune_all ko now p)"
  by (rule prune_all_shape [OF assms, of now]) (simp add: shifts_evicts)

lemma rc_release_cases:
  obtains "rc_is_closed c" "rc_release now c = (False, c)"
  | "\<not> rc_is_closed c" "cs_allocations (rc_state c) = 0" "rc_release now c = (False, c)"
  | "\<not> rc_is_closed c" "fst (rc_release now c)" "allocs (snd (rc_release now c)) = allocs c - 1"
  by (cases "rc_is_closed c"; cases "cs_allocations (rc_state c) = 0") (auto simp: rc_release_def rc_is_closed_def Let_def)

lemma shifts_pool_release:
  assumes "pool_inv fx p" and "rc_is_closed (cpl_heap p c) \<or> 0 < cs_allocations (rc_state (cpl_heap p c))"
  shows "shifts fx (at c (- 1)) p (fst (pool_release fx now c p))"
proof (cases rule: rc_release_cases [of "cpl_heap p c" now])
  case 1
  then show ?thesis using shifts_closed [OF shifts_refl, of p c] by (simp add: pool_release_def)
next
  case 2
  with assms(2) show ?thesis by simp
next
  case 3
  let ?r = "snd (rc_release now (cpl_heap p c))" and ?q = "p\<lparr>cpl_heap := (cpl_heap p)(c := snd (rc_release now (cpl_heap p c)))\<rparr>"
  obtain p1 removed where p: "prune_in_shard fx now (rc_address ?r) ?q = (p1, removed)" by (meson surj_pair)
  have q: "shifts fx (at c (- 1)) p ?q" using 3 by (intro shifts_heap) auto
  have "pool_inv fx ?q" using assms(1) by (intro pool_inv_heap_upd) simp_all
  from shifts_then [OF q shifts_evicts [OF prune_in_shard_evicts(1) [OF this p]]] show ?thesis
    using 3(2) p by (cases "rc_release now (cpl_heap p c)") (simp add: pool_release_def)
qed

lemma remove_without_hook_shifts:
  assumes "pool_inv fx p" shows "shifts fx none p (fst (remove_without_hook fx cid p))"
proof (cases "cpl_by_id p cid")
  case None
  then show ?thesis by (simp add: remove_without_hook_def)
next
  case (Some a)
  show ?thesis by (rule remove_without_hook_shape [OF assms Some]) (simp add: shifts_evicts)
qed

text \<open>Removing the id of a pooled connection closes it.\<close>

lemma remove_without_hook_closes:
  assumes "pool_inv fx p" and "c \<in> pooled fx p \<or> rc_is_closed (cpl_heap p c)"
  shows "rc_is_closed (cpl_heap (fst (remove_without_hook fx (rc_id (cpl_heap p c)) p)) c)"
proof (cases "c \<in> pooled fx p")
  case True
  then have "cpl_by_id p (rc_id (cpl_heap p c)) = Some (rc_address (cpl_heap p c))"
    using pool_invD(3) [OF assms(1)] by (auto simp: index_inv_def)
  from assms(1) this show ?thesis
  proof (rule remove_without_hook_shape)
    fix d p1
    assume d: "d \<in> set (pool_bucket fx p (rc_address (cpl_heap p c)))" "rc_id (cpl_heap p d) = rc_id (cpl_heap p c)"
      and r: "evicts fx p {d} p1" "remove_without_hook fx (rc_id (cpl_heap p c)) p = (drop_indexes [d] p1, Some d)"
    have "d = c" using pool_invD(3) [OF assms(1)] d True pooledI [OF d(1)] by (auto simp: index_inv_def inj_on_def)
    with r show ?thesis by (simp add: drop_indexes_def evicts_def close_all_def)
  qed
next
  case False
  with assms show ?thesis using shiftsD(2) [OF remove_without_hook_shifts [OF assms(1)]] by blast
qed

lemma shifts_remove:
  assumes "pool_inv fx p" and "c \<in> pooled fx p \<or> rc_is_closed (cpl_heap p c)"
  shows "shifts fx (at c n) p (fst (remove_without_hook fx (rc_id (cpl_heap p c)) p))"
  using remove_without_hook_shifts [OF assms(1)] remove_without_hook_closes [OF assms] by (rule shifts_closed)

lemma shifts_mark_unhealthy: "shifts fx none p (p\<lparr>cpl_heap := (cpl_heap p)(c := rc_mark_unhealthy (cpl_heap p c))\<rparr>)"
  using shifts_heap [of "rc_mark_unhealthy (cpl_heap p c)" p c 0 fx]
  by (simp add: rc_is_closed_def rc_mark_unhealthy_def rc_fixed_ops(3) [unfolded rc_mark_unhealthy_def] cong: if_cong)

lemma pool_insert_effect:
  assumes "pool_inv fx p" "insertable fx p c"
  shows "\<exists>R. pooled fx (pool_insert fx now c p) = insert c (pooled fx p) - R \<and>
    cpl_heap (pool_insert fx now c p) = close_all R (cpl_heap p)"
proof (rule pool_insert_shape [OF assms, of now])
  fix q p1 evicted p2
  assume q: "cpl_heap q = cpl_heap p" "pooled fx q = insert c (pooled fx p)" "evicts fx q (set evicted) p1"
    and p2: "p2 = index_coalescing c (p1\<lparr>cpl_by_id := (cpl_by_id p1)(rc_id (cpl_heap p1 c) \<mapsto> rc_address (cpl_heap p1 c))\<rparr>)"
    and r: "pool_insert fx now c p = finish_removals evicted p2"
  have "pooled fx p1 = insert c (pooled fx p) - set evicted" using evicts_pooled [OF q(3)] q(2) by simp
  moreover have "cpl_heap p1 = close_all (set evicted) (cpl_heap p)" using q by (simp add: evicts_def)
  ultimately show ?thesis unfolding r p2 by (intro exI [of _ "set evicted"]) simp
qed

section \<open>Operations of the transport\<close>

definition moves :: "(Address \<Rightarrow> nat) \<Rightarrow> (cref \<Rightarrow> int) \<Rightarrow> 's transport \<Rightarrow> 's transport \<Rightarrow> bool" where
  "moves fx \<delta> t t' \<longleftrightarrow> pool_inv fx (tr_pool t') \<and> shifts fx \<delta> (tr_pool t) (tr_pool t')"

text \<open>A connection that an exchange may give back: it is in the pool or closed, and open only with an allocation.\<close>

definition held :: "(Address \<Rightarrow> nat) \<Rightarrow> cref \<Rightarrow> 's transport \<Rightarrow> bool" where
  "held fx c t \<longleftrightarrow> pool_inv fx (tr_pool t) \<and>
     (rc_is_closed (heap_of t c) \<or> c \<in> pooled fx (tr_pool t) \<and> 0 < cs_allocations (rc_state (heap_of t c)))"

lemma pool_of_updates [simp]:
  "tr_pool (binding_put cid b t) = tr_pool t" "tr_pool (binding_remove cid t) = tr_pool t"
  "tr_pool (attach_connection cid h t) = tr_pool t" "tr_pool (abort_connection cid t) = tr_pool t"
  "tr_pool (complete_connection cid t) = tr_pool t" "tr_pool (teardown_connection cid t) = tr_pool t"
  "tr_pool (notify_wake w t) = tr_pool t" "tr_pool (wake_address c t) = tr_pool t" "tr_pool (wake_http2 c t) = tr_pool t"
  "tr_pool (report_released c t) = tr_pool t" "tr_pool (insert_http1 cid info sender t) = tr_pool t"
  "tr_pool (insert_http2 cid info sender t) = tr_pool t"
  by (simp_all add: binding_put_def binding_remove_def attach_connection_def abort_connection_def complete_connection_def
      teardown_connection_def notify_wake_def wake_address_def wake_http2_def report_released_def insert_http1_def
      insert_http2_def)

lemma pool_of_binding_acquire: "binding_acquire is_closed cid t = (t', r) \<Longrightarrow> tr_pool t' = tr_pool t"
  by (auto simp: binding_acquire_def split: option.splits ConnectionBinding.splits if_splits)

lemma pool_of_release_http1: "release_http1 is_closed cid sender t = (t', r) \<Longrightarrow> tr_pool t' = tr_pool t"
  by (auto simp: release_http1_def split: option.splits ConnectionBinding.splits if_splits)

lemma pool_of_teardowns [simp]: "tr_pool (fold teardown_connection cids t) = tr_pool t"
  by (induction cids arbitrary: t) simp_all

lemma pool_of_with_pool: "with_pool operation t = (t', r) \<Longrightarrow> operation (tr_pool t) = (tr_pool t', r)"
  by (auto simp: with_pool_def split: prod.splits)

lemma fst_with_pool [simp]: "tr_pool (fst (with_pool operation t)) = fst (operation (tr_pool t))"
  by (simp add: with_pool_def split: prod.splits)

lemma moves_cong:
  "tr_pool t1 = tr_pool t \<Longrightarrow> tr_pool t1' = tr_pool t' \<Longrightarrow> moves fx \<delta> t1 t1' \<longleftrightarrow> moves fx \<delta> t t'"
  by (simp add: moves_def)

lemma moves_refl: "held fx c t \<Longrightarrow> moves fx none t t"
  by (simp add: moves_def held_def)

lemma moves_updates [simp]:
  "moves fx \<delta> t (notify_wake w t') \<longleftrightarrow> moves fx \<delta> t t'" "moves fx \<delta> t (wake_address c t') \<longleftrightarrow> moves fx \<delta> t t'"
  "moves fx \<delta> t (wake_http2 c t') \<longleftrightarrow> moves fx \<delta> t t'" "moves fx \<delta> t (report_released c t') \<longleftrightarrow> moves fx \<delta> t t'"
  "moves fx \<delta> t (complete_connection cid t') \<longleftrightarrow> moves fx \<delta> t t'"
  by (simp_all add: moves_def)

lemma held_cong: "tr_pool t' = tr_pool t \<Longrightarrow> held fx c t' \<longleftrightarrow> held fx c t"
  by (simp add: held_def heap_of_def)

lemma id_of_cong: "tr_pool t' = tr_pool t \<Longrightarrow> id_of c t' = id_of c t"
  by (simp add: id_of_def heap_of_def)

lemma exchange_release_moves:
  "held fx c t \<Longrightarrow> moves fx (at c (- 1)) t (fst (exchange_release fx now c t))"
  using shifts_pool_release [of fx "tr_pool t" c now] pool_release_inv [of fx "tr_pool t" now c]
  by (simp add: moves_def held_def exchange_release_def finder_release_def heap_of_def) blast

lemma exchange_release_refused: "exchange_release fx now c t = (t', False) \<Longrightarrow> tr_pool t' = tr_pool t"
  by (auto simp: exchange_release_def finder_release_def pool_release_def dest!: pool_of_with_pool
      split: prod.splits bool.splits)

lemma teardown_moves:
  assumes "held fx c t" shows "moves fx (at c n) t (teardown_pooled_connection fx (id_of c t) t)"
proof -
  have i: "pool_inv fx (tr_pool t)" and c: "c \<in> pooled fx (tr_pool t) \<or> rc_is_closed (cpl_heap (tr_pool t) c)"
    using assms by (auto simp: held_def heap_of_def)
  show ?thesis
    unfolding moves_def teardown_pooled_connection_def id_of_def heap_of_def fst_with_pool pool_of_updates
    by (intro conjI remove_without_hook_inv [OF i] shifts_remove [OF i c])
qed

lemma teardown_moves_from:
  assumes "held fx c t" "tr_pool t' = tr_pool t"
  shows "moves fx (at c n) t (teardown_pooled_connection fx (id_of c t) t')"
  using teardown_moves [of fx c t' n] assms(1)
  unfolding held_cong [OF assms(2)] id_of_cong [OF assms(2)] moves_def assms(2) by blast

lemma exchange_release_moves_from:
  assumes "held fx c t" "tr_pool t1 = tr_pool t" "exchange_release fx now c t1 = (t', r)"
  shows "moves fx (at c (- 1)) t t'"
  using exchange_release_moves [of fx c t1 now] assms(1,3)
  unfolding held_cong [OF assms(2)] moves_def assms(2) by simp

lemma refused_teardown_moves:
  assumes "held fx c t" "tr_pool t1 = tr_pool t" "exchange_release fx now c t1 = (t2, False)"
  shows "moves fx (at c n) t (teardown_pooled_connection fx (id_of c t) t2)"
  by (rule teardown_moves_from [OF assms(1)]) (simp add: exchange_release_refused [OF assms(3)] assms(2))

lemma release_acquired_moves:
  assumes "held fx c t" shows "moves fx (at c (- 1)) t (release_acquired_connection fx is_closed now c binding t)"
proof (cases binding)
  case (AcqHttp1 info sender)
  obtain t1 r where r: "release_http1 is_closed (id_of c t) sender t = (t1, r)" by (meson surj_pair)
  obtain t2 q where q: "exchange_release fx now c t1 = (t2, q)" by (meson surj_pair)
  have p: "tr_pool t1 = tr_pool t" by (rule pool_of_release_http1 [OF r])
  have "moves fx (at c (- 1)) t (teardown_pooled_connection fx (id_of c t) t1)" by (rule teardown_moves_from [OF assms p])
  moreover have "moves fx (at c (- 1)) t t2" by (rule exchange_release_moves_from [OF assms p q])
  moreover have "\<not> q \<Longrightarrow> moves fx (at c (- 1)) t (teardown_pooled_connection fx (id_of c t) t2)"
    using refused_teardown_moves [OF assms p] q by simp
  ultimately show ?thesis by (simp add: release_acquired_connection_def AcqHttp1 r q split: bool.split)
next
  case (AcqHttp2 info sender)
  obtain t2 q where q: "exchange_release fx now c t = (t2, q)" by (meson surj_pair)
  have "moves fx (at c (- 1)) t t2" by (rule exchange_release_moves_from [OF assms refl q])
  moreover have "\<not> q \<Longrightarrow> moves fx (at c (- 1)) t (teardown_pooled_connection fx (id_of c t) t2)"
    using refused_teardown_moves [OF assms refl] q by simp
  ultimately show ?thesis by (simp add: release_acquired_connection_def AcqHttp2 q split: bool.split)
qed

lemma mark_unhealthy_moves: "pool_inv fx (tr_pool t) \<Longrightarrow> moves fx none t (set_connection c (rc_mark_unhealthy (heap_of t c)) t)"
  unfolding moves_def set_connection_def heap_of_def
  by (simp add: shifts_mark_unhealthy) (rule pool_inv_heap_upd; simp)

text \<open>A connection that may be given back stays so while others change the transport.\<close>

lemma held_moves:
  assumes "held fx c t" "moves fx none t t'" shows "held fx c t'"
proof (cases "rc_is_closed (cpl_heap (tr_pool t') c)")
  case True
  then show ?thesis using assms(2) by (simp add: held_def moves_def heap_of_def)
next
  case False
  have sh: "shifts fx none (tr_pool t) (tr_pool t')" using assms(2) by (simp add: moves_def)
  with False have "\<not> rc_is_closed (cpl_heap (tr_pool t) c)" using shiftsD(2) by blast
  then show ?thesis
    using assms False shiftsD(3,4) [OF sh, of c] by (auto simp: held_def moves_def heap_of_def)
qed

lemma moves_after: "moves fx none t t' \<Longrightarrow> moves fx \<delta> t' t'' \<Longrightarrow> moves fx \<delta> t t''"
  unfolding moves_def by (blast intro: shifts_after)

lemma moves_then: "moves fx \<delta> t t' \<Longrightarrow> moves fx none t' t'' \<Longrightarrow> moves fx \<delta> t t''"
  unfolding moves_def by (blast intro: shifts_then)

lemma unhealthy_release_moves:
  assumes "held fx c t"
  shows "moves fx (at c (- 1)) t (fst (exchange_release fx now c (set_connection c (rc_mark_unhealthy (heap_of t c)) t)))"
proof -
  have m: "moves fx none t (set_connection c (rc_mark_unhealthy (heap_of t c)) t)"
    using assms by (intro mark_unhealthy_moves) (simp add: held_def)
  show ?thesis by (rule moves_after [OF m exchange_release_moves [OF held_moves [OF assms m]]])
qed

lemma cleanup_moves: "held fx c t \<Longrightarrow> moves fx (at c (- 1)) t (cleanup_failed_request fx now c t)"
  by (simp add: cleanup_failed_request_def teardown_moves unhealthy_release_moves split: ConnectionProtocol.split)

lemma release_lease_moves:
  assumes "held fx (lease_connection lease) t"
  shows "moves fx (at (lease_connection lease) (- 1)) t (release_response_lease fx is_closed now lease t)"
proof (cases lease)
  case (LeaseHttp1 c sender reusable)
  obtain t1 r where r: "release_http1 is_closed (id_of c t) sender t = (t1, r)" by (meson surj_pair)
  obtain t2 q where q: "exchange_release fx now c t1 = (t2, q)" by (meson surj_pair)
  have p: "tr_pool t1 = tr_pool t" by (rule pool_of_release_http1 [OF r])
  have h: "held fx c t" using assms by (simp add: LeaseHttp1)
  have "moves fx (at c (- 1)) t (teardown_pooled_connection fx (id_of c t) t')" if "t' = t \<or> t' = t1" for t'
    using teardown_moves_from [OF h] that p by blast
  moreover have "moves fx (at c (- 1)) t t2" by (rule exchange_release_moves_from [OF h p q])
  moreover have "\<not> q \<Longrightarrow> moves fx (at c (- 1)) t (teardown_pooled_connection fx (id_of c t) t2)"
    using refused_teardown_moves [OF h p] q by simp
  ultimately show ?thesis by (simp add: release_response_lease_def LeaseHttp1 r q split: bool.split)
next
  case (LeaseHttp2 c)
  with assms show ?thesis by (simp add: release_response_lease_def exchange_release_moves)
qed

lemma evict_lease_moves:
  assumes "held fx (lease_connection lease) t"
  shows "moves fx (at (lease_connection lease) (- 1)) t (evict_response_lease_state fx now unhealthy lease t)"
  using assms
  by (cases lease) (simp_all add: evict_response_lease_state_def teardown_moves exchange_release_moves unhealthy_release_moves)

lemma use_lease_moves:
  "held fx (lease_connection lease) t \<Longrightarrow>
     moves fx (at (lease_connection lease) (- 1)) t (use_lease fx is_closed now how lease t)"
  by (cases how) (simp_all add: release_lease_moves evict_lease_moves)

lemma bind_probed_moves:
  assumes "held fx c t" and "bind_probed fx is_closed now a c t = (t', r, w)"
  shows "moves fx (case r of Some b \<Rightarrow> none | None \<Rightarrow> at c (- 1)) t t'"
proof -
  obtain t1 q where q: "binding_acquire is_closed (id_of c t) t = (t1, q)" by (meson surj_pair)
  have p: "tr_pool t1 = tr_pool t" by (rule pool_of_binding_acquire [OF q])
  show ?thesis
  proof (cases q)
    case (Acquired b)
    then show ?thesis using assms p q by (auto simp: bind_probed_def moves_def held_def)
  next
    case Busy
    obtain t2 b where b: "exchange_release fx now c t1 = (t2, b)" by (meson surj_pair)
    show ?thesis using exchange_release_moves_from [OF assms(1) p b] assms(2) q Busy b by (auto simp: bind_probed_def)
  next
    case Stale
    then show ?thesis using teardown_moves_from [OF assms(1) p, of "- 1"] assms(2) q by (auto simp: bind_probed_def)
  qed
qed

lemma spawn_refused_moves:
  assumes "held fx c t" and "spawn_connection_task fx a c (Inl e) t = (t', r)" shows "moves fx (at c (- 1)) t t'"
  using teardown_moves_from [OF assms(1), of "abort_connection (id_of c t) t" "- 1"] assms(2)
  by (auto simp: spawn_connection_task_def)

lemma task_end_moves:
  assumes "pool_inv fx (tr_pool t)" shows "moves fx none t (connection_task_end fx c t)"
  using remove_without_hook_shifts [OF assms] remove_without_hook_inv [OF assms]
  by (simp add: connection_task_end_def moves_def)

end
