(* ===== verification/Transport_Props.thy ===== *)
theory Transport_Props
  imports Transport_Inv "HOL-Library.Code_Target_Nat"
begin

text \<open>
  Properties of the exchanges on pooled connections: the allocations that the pool counts are the exchanges in progress, a
  connection is not used beyond its capacity, and the connection that is chosen may carry the request.
\<close>

section \<open>The invariant of the exchanges\<close>

definition used :: "'s exchanges \<Rightarrow> cref \<Rightarrow> nat" where
  "used s c = size (filter_mset (\<lambda>x. exchange_connection x = c) (ex_active s)) + count (ex_lost s) c"

definition exchanges_inv :: "(Address \<Rightarrow> nat) \<Rightarrow> 's exchanges \<Rightarrow> bool" where
  "exchanges_inv fx s \<longleftrightarrow>
     pool_inv fx (tr_pool (ex_transport s)) \<and>
     (\<forall>c \<in> pooled fx (tr_pool (ex_transport s)). c < ex_next s) \<and>
     (\<forall>c. 0 < used s c \<longrightarrow> c < ex_next s \<and>
        (rc_is_closed (heap_of (ex_transport s) c) \<or> c \<in> pooled fx (tr_pool (ex_transport s)))) \<and>
     (\<forall>c \<in> pooled fx (tr_pool (ex_transport s)). rc_is_closed (heap_of (ex_transport s) c) \<or>
        allocs (heap_of (ex_transport s) c) = int (used s c)) \<and>
     (\<forall>c. used s c \<le> rc_capacity (heap_of (ex_transport s) c) \<or> used s c = 0)"

lemma exchanges_invD:
  assumes "exchanges_inv fx s"
  shows "pool_inv fx (tr_pool (ex_transport s))" "c \<in> pooled fx (tr_pool (ex_transport s)) \<Longrightarrow> c < ex_next s"
    "0 < used s c \<Longrightarrow> c < ex_next s"
    "0 < used s c \<Longrightarrow> \<not> rc_is_closed (heap_of (ex_transport s) c) \<Longrightarrow> c \<in> pooled fx (tr_pool (ex_transport s))"
    "c \<in> pooled fx (tr_pool (ex_transport s)) \<Longrightarrow> \<not> rc_is_closed (heap_of (ex_transport s) c) \<Longrightarrow>
       allocs (heap_of (ex_transport s) c) = int (used s c)"
    "0 < used s c \<Longrightarrow> used s c \<le> rc_capacity (heap_of (ex_transport s) c)"
  using assms by (auto simp: exchanges_inv_def)

text \<open>
  The invariant is kept by a change of the transport that moves the allocations by as much as the exchanges change,
  where a connection gains an exchange only if it is open and in the pool afterwards.
\<close>

lemma exchanges_inv_moves:
  assumes inv: "exchanges_inv fx s" and m: "moves fx \<delta> (ex_transport s) (ex_transport s')"
    and u: "\<And>c. int (used s' c) = int (used s c) + \<delta> c" and n: "ex_next s' = ex_next s"
    and new: "\<And>c. 0 < \<delta> c \<Longrightarrow> c \<in> pooled fx (tr_pool (ex_transport s')) \<and> \<not> rc_is_closed (heap_of (ex_transport s') c)"
  shows "exchanges_inv fx s'"
proof -
  let ?p = "tr_pool (ex_transport s)" and ?q = "tr_pool (ex_transport s')"
  have sh: "shifts fx \<delta> ?p ?q" and q: "pool_inv fx ?q" using m by (auto simp: moves_def)
  have was: "0 < used s c" if "0 < used s' c" "\<not> 0 < \<delta> c" for c using u [of c] that by linarith
  have alloc: "allocs (cpl_heap ?q c) = int (used s' c)" if "c \<in> pooled fx ?q" "\<not> rc_is_closed (cpl_heap ?q c)" for c
    using shiftsD(2,3) [OF sh, of c] shiftsD(5) [OF sh] that u [of c] exchanges_invD(5) [OF inv, of c]
    by (auto simp: heap_of_def)
  have fixed: "rc_capacity (cpl_heap ?q c) = rc_capacity (cpl_heap ?p c)" for c
    by (rule rc_capacity_fixed [OF shiftsD(1) [OF sh]])
  have "used s' c \<le> rc_capacity (cpl_heap ?q c)" if "0 < used s' c" for c
  proof (cases "0 < \<delta> c")
    case True
    then have c: "c \<in> pooled fx ?q" "\<not> rc_is_closed (cpl_heap ?q c)" using new by (auto simp: heap_of_def)
    have "rc_inv (cpl_heap ?q c)" by (rule pooled_rc_inv [OF pool_invD(2) [OF q] c(1)])
    then show ?thesis using alloc [OF c] by (simp add: rc_inv_def)
  next
    case False
    then show ?thesis using u [of c] exchanges_invD(6) [OF inv was [OF that False]] by (simp add: fixed heap_of_def)
  qed
  moreover have "c < ex_next s' \<and> (rc_is_closed (cpl_heap ?q c) \<or> c \<in> pooled fx ?q)" if "0 < used s' c" for c
  proof (cases "0 < \<delta> c")
    case True
    then show ?thesis using new [OF True] shiftsD(5) [OF sh] exchanges_invD(2) [OF inv] n by auto
  next
    case False
    from was [OF that this] show ?thesis
      using exchanges_invD(3,4) [OF inv, of c] shiftsD(2,4) [OF sh, of c] n by (auto simp: heap_of_def)
  qed
  ultimately show ?thesis
    using q alloc shiftsD(5) [OF sh] exchanges_invD(2) [OF inv] n
    by (auto simp: exchanges_inv_def heap_of_def)
qed

lemma active_used:
  assumes "ex_active s = add_mset x rest" shows "0 < used s (exchange_connection x)"
  by (simp add: used_def assms)

lemma exchanges_held:
  assumes "exchanges_inv fx s" "ex_active s = add_mset x rest" shows "held fx (exchange_connection x) (ex_transport s)"
  using exchanges_invD(1) [OF assms(1)] exchanges_invD(4,5) [OF assms(1), of "exchange_connection x"] active_used [OF assms(2)]
  by (auto simp: held_def)

lemma go_on_simps [simp]: "ex_transport (go_on t active s) = t" "ex_next (go_on t active s) = ex_next s"
    "ex_active (go_on t active s) = active" "ex_lost (go_on t active s) = ex_lost s"
  by (simp_all add: go_on_def)

text \<open>An exchange changes its state, or gives its connection back.\<close>

lemma exchange_changes:
  assumes "exchanges_inv fx s" "ex_active s = add_mset x rest" "moves fx none (ex_transport s) t"
    "exchange_connection y = exchange_connection x"
  shows "exchanges_inv fx (go_on t (add_mset y rest) s)"
  using assms by (intro exchanges_inv_moves [OF assms(1), of none]) (auto simp: used_def)

lemma exchange_ends:
  assumes "exchanges_inv fx s" "ex_active s = add_mset x rest" "moves fx (at (exchange_connection x) (- 1)) (ex_transport s) t"
  shows "exchanges_inv fx (go_on t rest s)"
  using assms by (intro exchanges_inv_moves [OF assms(1), of "at (exchange_connection x) (- 1)"]) (auto simp: used_def split: if_splits)

lemma others_change:
  assumes "exchanges_inv fx s" "moves fx none (ex_transport s) t" shows "exchanges_inv fx (go_on t (ex_active s) s)"
  using assms by (intro exchanges_inv_moves [OF assms(1), of none]) (auto simp: used_def)

lemma exchange_lost:
  assumes "exchanges_inv fx s" "ex_active s = add_mset x rest" shows "exchanges_inv fx (lose (exchange_connection x) rest s)"
proof -
  have "used (lose (exchange_connection x) rest s) = used s" by (auto simp: used_def lose_def assms(2) fun_eq_iff)
  then show ?thesis using assms(1) by (simp add: exchanges_inv_def lose_def)
qed

section \<open>The contract of giving back\<close>

text \<open>
  Several operations end an exchange.  Each promises to take one allocation from the connection it is about, or to
  leave the connection closed; an exchange that ends with such an operation keeps the account right.
\<close>

locale give_back =
  fixes fx :: "Address \<Rightarrow> nat"
    and connection :: "'x \<Rightarrow> cref"
    and give :: "'x \<Rightarrow> 's transport \<Rightarrow> 's transport"
  assumes back_moves: "held fx (connection x) t \<Longrightarrow> moves fx (at (connection x) (- 1)) t (give x t)"
begin

lemma back_ends:
  assumes "exchanges_inv fx s" "ex_active s = add_mset e rest" "exchange_connection e = connection x"
  shows "exchanges_inv fx (go_on (give x (ex_transport s)) rest s)"
proof -
  have "held fx (connection x) (ex_transport s)" using exchanges_held [OF assms(1,2)] assms(3) by simp
  from back_moves [OF this] show ?thesis using exchange_ends [OF assms(1,2)] assms(3) by simp
qed

lemma back_keeps_pool: "held fx (connection x) t \<Longrightarrow> pool_inv fx (tr_pool (give x t))"
  using back_moves by (simp add: moves_def)

end

interpretation selected_back: give_back fx fst "\<lambda>(c, b). release_acquired_connection fx is_closed now c b" for fx is_closed now
  by unfold_locales (simp add: release_acquired_moves split_beta)

interpretation leased_back: give_back fx lease_connection "use_lease fx is_closed now how" for fx is_closed now how
  by unfold_locales (rule use_lease_moves)

interpretation failed_back: give_back fx "\<lambda>c. c" "cleanup_failed_request fx now" for fx now
  by unfold_locales (rule cleanup_moves)

section \<open>Fresh connections\<close>

lemma fresh_connection_facts:
  "rc_inv (fresh_connection now cid route protocol permit names streams)"
  "rc_id (fresh_connection now cid route protocol permit names streams) = cid"
  "allocs (fresh_connection now cid route protocol permit names streams) = 1"
  "1 \<le> rc_capacity (fresh_connection now cid route protocol permit names streams)"
proof -
  let ?c = "real_connection_with_stream_cap now cid route protocol permit names streams"
  show inv: "rc_inv (fresh_connection now cid route protocol permit names streams)" by (simp add: fresh_connection_def)
  show "rc_id (fresh_connection now cid route protocol permit names streams) = cid"
    using rc_fixed_eqD(1) [OF rc_fixed_ops(1) [of ?c]] by (simp add: fresh_connection_def real_connection_with_stream_cap_def)
  show one: "allocs (fresh_connection now cid route protocol permit names streams) = 1"
    by (simp add: fresh_connection_def rc_try_acquire_allocations rc_can_acquire_iff rc_is_healthy_def rc_capacity_def
        real_connection_with_stream_cap_def less_max_iff_disj split: ConnectionProtocol.split)
  show "1 \<le> rc_capacity (fresh_connection now cid route protocol permit names streams)"
    using inv one by (simp add: rc_inv_def)
qed

lemma publish_fresh_pool:
  assumes "publish_fresh fx is_closed now c connection info sender t = (t', r)"
  shows "tr_pool t' = (let p = (tr_pool t)\<lparr>cpl_heap := (cpl_heap (tr_pool t))(c := connection)\<rparr>
    in case r of Inr b \<Rightarrow> pool_insert fx now c p | Inl e \<Rightarrow> p)"
proof -
  let ?t1 = "set_connection c connection t"
  let ?t2 = "case rc_protocol connection of ConnHttp1 \<Rightarrow> insert_http1 (ci_id info) info sender ?t1
      | ConnHttp2 \<Rightarrow> insert_http2 (ci_id info) info sender ?t1"
  obtain t3 q where q: "binding_acquire is_closed (rc_id connection) ?t2 = (t3, q)" by (meson surj_pair)
  have "tr_pool t3 = tr_pool ?t1" using pool_of_binding_acquire [OF q] by (simp split: ConnectionProtocol.splits)
  then have "tr_pool t3 = (tr_pool t)\<lparr>cpl_heap := (cpl_heap (tr_pool t))(c := connection)\<rparr>"
    by (simp add: set_connection_def)
  then show ?thesis using assms q by (cases q) (auto simp: publish_fresh_def Let_def)
qed

lemma publish_no_inv:
  assumes inv: "exchanges_inv fx s"
    and t: "tr_pool t = (tr_pool (ex_transport s))\<lparr>cpl_heap := (cpl_heap (tr_pool (ex_transport s)))(ex_next s := connection)\<rparr>"
  shows "exchanges_inv fx ((go_on t (ex_active s) s)\<lparr>ex_next := ex_next s + 1\<rparr>)"
proof -
  let ?s' = "(go_on t (ex_active s) s)\<lparr>ex_next := ex_next s + 1\<rparr>"
  have new: "ex_next s \<notin> pooled fx (tr_pool (ex_transport s))" "used s (ex_next s) = 0"
    using exchanges_invD(2,3) [OF inv, of "ex_next s"] by auto
  have same: "pooled fx (tr_pool t) = pooled fx (tr_pool (ex_transport s))" "used ?s' = used s"
    by (simp_all add: t used_def go_on_def fun_eq_iff)
  have p: "pool_inv fx (tr_pool t)" unfolding t by (rule pool_inv_create [OF exchanges_invD(1) [OF inv] new(1)])
  have heap: "heap_of t c = heap_of (ex_transport s) c" if "c \<noteq> ex_next s" for c using that by (simp add: heap_of_def t)
  show ?thesis
    unfolding exchanges_inv_def same using p new heap exchanges_invD(2-6) [OF inv] same(1)
    by (simp add: less_Suc_eq) (metis not_gr_zero)
qed

lemma publish_ok_inv:
  assumes inv: "exchanges_inv fx s" and ids: "\<forall>d \<in> pooled_ids fx (ex_transport s). d \<noteq> ci_id info"
    and connection: "connection = fresh_connection now (ci_id info) route protocol permit names streams"
    and t: "tr_pool t = pool_insert fx now' (ex_next s)
      ((tr_pool (ex_transport s))\<lparr>cpl_heap := (cpl_heap (tr_pool (ex_transport s)))(ex_next s := connection)\<rparr>)"
  shows "exchanges_inv fx ((go_on t (add_mset (Spawning (ex_next s) b) (ex_active s)) s)\<lparr>ex_next := ex_next s + 1\<rparr>)"
proof -
  let ?c = "ex_next s" and ?p = "tr_pool (ex_transport s)"
  let ?s' = "(go_on t (add_mset (Spawning ?c b) (ex_active s)) s)\<lparr>ex_next := ?c + 1\<rparr>"
  let ?fresh = "?p\<lparr>cpl_heap := (cpl_heap ?p)(?c := connection)\<rparr>"
  have new: "?c \<notin> pooled fx ?p" "used s ?c = 0" using exchanges_invD(2,3) [OF inv, of ?c] by auto
  have inv0: "pool_inv fx ?fresh" by (rule pool_inv_create [OF exchanges_invD(1) [OF inv] new(1)])
  have ins: "insertable fx ?fresh ?c"
    using new(1) ids unfolding insertable_def connection
    by (auto simp: fresh_connection_facts pooled_ids_def pooled_def heap_of_def) 
  obtain R where R: "pooled fx (tr_pool t) = insert ?c (pooled fx ?p) - R" "cpl_heap (tr_pool t) = close_all R (cpl_heap ?fresh)"
    unfolding t using pool_insert_effect [OF inv0 ins, of now'] by auto
  have used: "used ?s' d = (if d = ?c then 1 else used s d)" for d using new(2) by (simp add: used_def)
  have heap: "heap_of t d = (if d \<in> R then rc_close else id) (if d = ?c then connection else heap_of (ex_transport s) d)" for d
    by (simp add: heap_of_def R(2) close_all_def)
  have "rc_capacity (rc_close d) = rc_capacity d" for d by (rule rc_capacity_fixed) simp
  then have cap: "rc_capacity (heap_of t d) = (if d = ?c then rc_capacity connection else rc_capacity (heap_of (ex_transport s) d))" for d
    by (simp add: heap)
  have inv': "pool_inv fx (tr_pool t)" unfolding t by (rule pool_insert_inv [OF inv0 ins])
  have one: "allocs connection = 1" "1 \<le> rc_capacity connection" unfolding connection by (rule fresh_connection_facts)+
  have held: "rc_is_closed (heap_of t d) \<or> d \<in> pooled fx (tr_pool t)" if "0 < used s d \<or> d = ?c" for d
    using that exchanges_invD(4) [OF inv, of d] new(2) by (auto simp: heap R(1))
  have alloc: "rc_is_closed (heap_of t d) \<or> allocs (heap_of t d) = int (if d = ?c then 1 else used s d)"
    if "d \<in> pooled fx (tr_pool t)" for d
    using that exchanges_invD(5) [OF inv, of d] one(1) by (auto simp: heap R(1))
  show ?thesis
    unfolding exchanges_inv_def used
    using inv' held alloc one(2) exchanges_invD(2,3,6) [OF inv] by (auto simp: cap R(1) less_Suc_eq)
qed

section \<open>Steps\<close>

lemma probe_inv:
  assumes inv: "exchanges_inv fx s" and hs: "\<forall>xs. set (hs xs) = set xs"
    and w: "with_pool (pool_probe fx hs now a plan) (ex_transport s) = (t, r)"
  shows "exchanges_inv fx (go_on t (case r of Some c \<Rightarrow> add_mset (Probing c) (ex_active s) | None \<Rightarrow> ex_active s) s)"
proof -
  let ?p = "tr_pool (ex_transport s)"
  have p: "pool_inv fx ?p" by (rule exchanges_invD(1) [OF inv])
  have w': "pool_probe fx hs now a plan ?p = (tr_pool t, r)" by (rule pool_of_with_pool [OF w])
  have "moves fx (acquired r) (ex_transport s) t"
    using pool_probe_inv [OF p hs, of now a plan] shifts_pool_probe [OF p hs, of now a plan] by (simp add: w' moves_def)
  then show ?thesis
    using pool_probe_serves [OF p hs] w'
    by (intro exchanges_inv_moves [OF inv, of "acquired r"])
       (auto simp: used_def acquired_def heap_of_def split: option.splits if_splits)
qed

lemma send_failed_cleanup:
  assumes "prepare_on_connection env sp c request t = Inr request'"
    "send_bound_request env fx now sp c b request outcome t = (t', Inl e)"
  shows "t' = cleanup_failed_request fx now c t"
  using assms by (cases outcome) (auto simp: send_bound_request_def)

lemma send_answered_lease:
  assumes "send_bound_request env fx now sp c b request outcome t = (t', Inr lease)"
  shows "t' = t \<and> lease_connection lease = c"
  using assms by (auto simp: send_bound_request_def response_lease_def split: sum.splits send_outcome.splits AcquiredBinding.splits)

lemma exchange_step_inv:
  assumes "exchange_step env fx hs ko s s'" and inv: "exchanges_inv fx s"
    and hs: "\<forall>xs. set (hs xs) = set xs" and ko: "\<forall>st. set (ko st) \<subseteq> dom st"
  shows "exchanges_inv fx s'"
  using assms(1)
proof cases
  case (probe_hit now address plan t c)
  then show ?thesis using probe_inv [OF inv hs probe_hit(2)] by simp
next
  case (probe_miss now address plan t)
  then show ?thesis using probe_inv [OF inv hs probe_miss(2)] by simp
next
  case (ask_in_use now address t answer)
  have "moves fx none (ex_transport s) t"
    using pool_of_with_pool [OF ask_in_use(2)] shifts_in_use [OF exchanges_invD(1) [OF inv], of now address]
      prune_query_inv(1) [OF exchanges_invD(1) [OF inv], of now address] by (simp add: moves_def)
  then show ?thesis unfolding ask_in_use(1) by (rule others_change [OF inv])
next
  case (bind_ok c rest is_closed now address t binding w)
  then show ?thesis
    using exchange_changes [OF inv bind_ok(2)] bind_probed_moves [OF _ bind_ok(3)] exchanges_held [OF inv bind_ok(2)] by simp
next
  case (bind_no c rest is_closed now address t w)
  then show ?thesis
    using exchange_ends [OF inv bind_no(2)] bind_probed_moves [OF _ bind_no(3)] exchanges_held [OF inv bind_no(2)] by simp
next
  case (publish_ok info connection now route protocol permit names streams is_closed now' sender t binding)
  show ?thesis
    unfolding publish_ok(1) using publish_fresh_pool [OF publish_ok(4)] by (intro publish_ok_inv [OF inv publish_ok(2,3)]) simp
next
  case (publish_no connection now info route protocol permit names streams is_closed now' sender t e)
  show ?thesis
    unfolding publish_no(1) using publish_fresh_pool [OF publish_no(3)] by (intro publish_no_inv [OF inv]) simp
next
  case (spawn_ok c binding rest address handle t)
  have "moves fx none (ex_transport s) t"
    using spawn_ok(3) exchanges_invD(1) [OF inv] by (auto simp: spawn_connection_task_def moves_def)
  then show ?thesis unfolding spawn_ok(1) using exchange_changes [OF inv spawn_ok(2)] by simp
next
  case (spawn_no c binding rest address e t)
  then show ?thesis
    using exchange_ends [OF inv spawn_no(2)] spawn_refused_moves [OF _ spawn_no(3)] exchanges_held [OF inv spawn_no(2)] by simp
next
  case (drop_selected c binding rest is_closed now)
  then show ?thesis using selected_back.back_ends [OF inv drop_selected(2), of "(c, binding)"] by simp
next
  case (start_send c binding rest)
  then show ?thesis
    using exchange_changes [OF inv start_send(2)] moves_refl [OF exchanges_held [OF inv start_send(2)]] by simp
next
  case (send_refused c binding rest sp request e)
  then show ?thesis using exchange_lost [OF inv send_refused(2)] by simp
next
  case (send_cancelled c binding rest)
  then show ?thesis using exchange_lost [OF inv send_cancelled(2)] by simp
next
  case (send_failed c binding rest sp request request' now outcome t e)
  have "t = cleanup_failed_request fx now c (ex_transport s)" by (rule send_failed_cleanup [OF send_failed(3,4)])
  then show ?thesis unfolding send_failed(1) using failed_back.back_ends [OF inv send_failed(2), of c] by simp
next
  case (send_answered c binding rest now sp request outcome t lease)
  then show ?thesis
    using exchange_changes [OF inv send_answered(2)] send_answered_lease [OF send_answered(3)] 
      moves_refl [OF exchanges_held [OF inv send_answered(2)]] by simp
next
  case (body_done lease rest is_closed now how)
  then show ?thesis using leased_back.back_ends [OF inv body_done(2), of lease] by simp
next
  case (task_done c)
  then show ?thesis using others_change [OF inv task_end_moves [OF exchanges_invD(1) [OF inv]]] by simp
next
  case (reap now t u)
  have "moves fx none (ex_transport s) t"
    using pool_of_with_pool [OF reap(2)] shifts_prune_all [OF exchanges_invD(1) [OF inv] ko, of now]
      prune_all_inv [OF exchanges_invD(1) [OF inv] ko, of now] by (simp add: moves_def)
  then show ?thesis unfolding reap(1) by (rule others_change [OF inv])
qed

lemma exchanges_inv_new: "exchanges_inv fx (exchanges_new settings heap)"
proof -
  have "pooled fx (set_eviction_hook (pool_new settings heap)) = {}"
    by (simp add: set_eviction_hook_def pooled_def pool_bucket_def pool_shard_def pool_new_def)
  moreover have "pool_inv fx (set_eviction_hook (pool_new settings heap))"
    using pool_inv_new [of fx settings heap]
    by (simp add: set_eviction_hook_def pool_inv_def pre_inv_def index_inv_def index_bucket_def)
  ultimately show ?thesis by (simp add: exchanges_inv_def exchanges_new_def transport_new_def used_def)
qed

lemma exchanges_reachable_inv:
  assumes "exchanges_reachable env fx hs ko settings s" "\<forall>xs. set (hs xs) = set xs" "\<forall>st. set (ko st) \<subseteq> dom st"
  shows "exchanges_inv fx s"
  using assms by (induction rule: exchanges_reachable.induct) (simp_all add: exchanges_inv_new exchange_step_inv)

section \<open>Properties\<close>

text \<open>
  C1. The pool counts the exchanges.  In every state that the exchanges of a client can reach, whatever runs at the same
  time, an open connection in the pool has exactly as many allocations as there are exchanges that hold it, from the
  moment the pool hands it out until its response is used up or dropped, plus those that ended while sending.  No
  connection is ever held by more exchanges than its protocol allows, one on HTTP/1 and the stream limit on HTTP/2, also
  while it is being closed.
\<close>

theorem exchanges_are_counted:
  assumes "exchanges_reachable env fx hs ko settings s" "\<forall>xs. set (hs xs) = set xs" "\<forall>st. set (ko st) \<subseteq> dom st"
  shows "(\<forall>c \<in> pooled fx (tr_pool (ex_transport s)). \<not> rc_is_closed (heap_of (ex_transport s) c) \<longrightarrow>
      cs_allocations (rc_state (heap_of (ex_transport s) c)) =
        size (filter_mset (\<lambda>x. exchange_connection x = c) (ex_active s)) + count (ex_lost s) c) \<and>
    (\<forall>x \<in># ex_active s.
       size (filter_mset (\<lambda>y. exchange_connection y = exchange_connection x) (ex_active s)) + count (ex_lost s) (exchange_connection x)
         \<le> rc_capacity (heap_of (ex_transport s) (exchange_connection x)))"
proof -
  have inv: "exchanges_inv fx s" by (rule exchanges_reachable_inv [OF assms])
  have "0 < used s (exchange_connection x)" if "x \<in># ex_active s" for x
    using active_used multi_member_split [OF that] by blast
  then show ?thesis unfolding used_def [symmetric] using exchanges_invD(5,6) [OF inv] by auto
qed



section \<open>Choosing a connection\<close>

definition keeps_pool :: "(Address \<Rightarrow> nat) \<Rightarrow> 's turn \<Rightarrow> bool" where
  "keeps_pool fx turn \<longleftrightarrow> (\<forall>t. pool_inv fx (tr_pool t) \<longrightarrow>
     pool_inv fx (tr_pool (tn_wait turn t)) \<and> pool_inv fx (tr_pool (fst (tn_resolve turn t))))"

definition resolved_by :: "'s turn set \<Rightarrow> (WireError, RoutePlan) result \<Rightarrow> bool" where
  "resolved_by T answer \<longleftrightarrow> (\<exists>turn \<in> T. \<exists>t. snd (tn_resolve turn t) = answer)"

text \<open>What the outcome for a candidate says.\<close>

fun outcome_ok ::
  "(Address \<Rightarrow> nat) \<Rightarrow> bool \<Rightarrow> Address \<Rightarrow> 's turn set \<Rightarrow> 's transport \<Rightarrow> 's candidate_outcome \<Rightarrow> bool" where
  "outcome_ok fx no_coalesced a T t (Reuse c binding coalesced) \<longleftrightarrow>
     c \<in> pooled fx (tr_pool t) \<and> \<not> rc_is_closed (heap_of t c) \<and>
     (if coalesced then \<not> no_coalesced \<and> (\<exists>plan. resolved_by T (Inr plan) \<and> can_coalesce (heap_of t c) a plan)
      else rc_address (heap_of t c) = a)"
| "outcome_ok fx no_coalesced a T t (Connect plan) \<longleftrightarrow> resolved_by T (Inr plan) \<and> (\<exists>turn \<in> T. tn_permit turn)"
| "outcome_ok fx no_coalesced a T t (GiveUp e) \<longleftrightarrow> resolved_by T (Inl e)"
| "outcome_ok fx no_coalesced a T t WaitForWake \<longleftrightarrow> True"

lemma bind_probed_pool:
  assumes "bind_probed fx is_closed now a c t = (t', Some b, w)" shows "tr_pool t' = tr_pool t"
proof -
  obtain t1 q where q: "binding_acquire is_closed (id_of c t) t = (t1, q)" by (meson surj_pair)
  then show ?thesis using pool_of_binding_acquire [OF q] assms by (cases q) (auto simp: bind_probed_def)
qed

lemma probe_held:
  assumes "pool_inv fx p" "\<forall>xs. set (hs xs) = set xs" "pool_probe fx hs now a plan p = (tr_pool t, Some c)"
  shows "held fx c t \<and> serves (heap_of t c) a plan"
proof -
  have c: "c \<in> pooled fx (tr_pool t)" "\<not> rc_is_closed (heap_of t c)" "serves (heap_of t c) a plan"
    using pool_probe_serves [OF assms] by (auto simp: heap_of_def)
  have "shifts fx (acquired (Some c)) p (tr_pool t)" using shifts_pool_probe [OF assms(1,2), of now a plan] assms(3) by simp
  then have "0 < cs_allocations (rc_state (heap_of t c))"
    using shiftsD(3) [of fx "acquired (Some c)" p "tr_pool t" c] c(2) by (simp add: acquired_def heap_of_def)
  then show ?thesis using c pool_probe_inv [OF assms(1,2), of now a plan] assms(3) by (simp add: held_def)
qed


lemma probe_then_bind:
  assumes "pool_inv fx (tr_pool t)" "\<forall>xs. set (hs xs) = set xs"
    "pool_probe fx hs now a plan (tr_pool t) = (tr_pool t1, Some c)" "bind_probed fx is_closed now' a c t1 = (t2, r, w)"
  shows "pool_inv fx (tr_pool t2) \<and>
    (r \<noteq> None \<longrightarrow> c \<in> pooled fx (tr_pool t2) \<and> \<not> rc_is_closed (heap_of t2 c) \<and> serves (heap_of t2 c) a plan)"
proof -
  have h: "held fx c t1" using probe_held [OF assms(1-3)] by simp
  have "pool_inv fx (tr_pool t2)" using bind_probed_moves [OF h assms(4)] by (simp add: moves_def)
  moreover have "tr_pool t2 = tr_pool t1" if "r \<noteq> None" using bind_probed_pool assms(4) that by fast
  ultimately show ?thesis using pool_probe_serves [OF assms(1-3)] by (auto simp: heap_of_def)
qed

lemma probe_pool_ok:
  assumes inv: "pool_inv fx (tr_pool t)" and hs: "\<forall>xs :: Address list. set (hs xs) = set xs"
    and r: "probe_pool fx is_closed now a t = (t', r, w)"
  shows "pool_inv fx (tr_pool t') \<and>
    (\<forall>c b. r = Some (c, b) \<longrightarrow> c \<in> pooled fx (tr_pool t') \<and> \<not> rc_is_closed (heap_of t' c) \<and> rc_address (heap_of t' c) = a)"
proof -
  obtain t1 q h where q: "with_pool (acquire_with_in_use_hint fx now a) t = (t1, q, h)" by (metis prod_cases3)
  have p: "pool_probe fx hs now a None (tr_pool t) = (tr_pool t1, q)"
    using pool_of_with_pool [OF q] by (simp add: pool_probe_def)
  show ?thesis
  proof (cases q)
    case None
    then show ?thesis using r q pool_probe_inv [OF inv hs, of now a None] p by (auto simp: probe_pool_def)
  next
    case (Some c)
    obtain t2 b w' where b: "bind_probed fx is_closed now a c t1 = (t2, b, w')" by (metis prod_cases3)
    obtain t3 u where u: "with_pool (has_in_use_connection fx now a) t2 = (t3, u)" by (meson surj_pair)
    have ok: "pool_inv fx (tr_pool t2)" "b \<noteq> None \<Longrightarrow>
        c \<in> pooled fx (tr_pool t2) \<and> \<not> rc_is_closed (heap_of t2 c) \<and> rc_address (heap_of t2 c) = a"
      using probe_then_bind [OF inv hs p [unfolded Some] b] by (auto simp: serves_def)
    have "pool_inv fx (tr_pool t3)"
      using prune_query_inv(1) [OF ok(1), of now a] pool_of_with_pool [OF u] by simp
    then show ?thesis using r q Some b u ok by (auto simp: probe_pool_def split: option.splits bool.splits)
  qed
qed

lemma try_acquire_coalesced_ok:
  assumes inv: "pool_inv fx (tr_pool t)" and hs: "\<forall>xs. set (hs xs) = set xs"
    and r: "try_acquire_coalesced fx hs is_closed now no_coalesced a plan t = (t', r)"
  shows "pool_inv fx (tr_pool t') \<and>
    (\<forall>c b. r = Some (c, b) \<longrightarrow> \<not> no_coalesced \<and> c \<in> pooled fx (tr_pool t') \<and> \<not> rc_is_closed (heap_of t' c) \<and>
       can_coalesce (heap_of t' c) a plan)"
proof (cases no_coalesced)
  case True
  then show ?thesis using inv r by (simp add: try_acquire_coalesced_def)
next
  case False
  obtain t1 q where q: "with_pool (acquire_coalesced fx hs now a plan) t = (t1, q)" by (meson surj_pair)
  have p: "pool_probe fx hs now a (Some plan) (tr_pool t) = (tr_pool t1, q)"
    using pool_of_with_pool [OF q] by (simp add: pool_probe_def)
  show ?thesis
  proof (cases q)
    case None
    then show ?thesis
      using r q pool_probe_inv [OF inv hs, of now a "Some plan"] p by (auto simp: try_acquire_coalesced_def False)
  next
    case (Some c)
    obtain t2 b w' where b: "bind_probed fx is_closed now a c t1 = (t2, b, w')" by (metis prod_cases3)
    show ?thesis
      using probe_then_bind [OF inv hs p [unfolded Some] b] Some r q b
      by (auto simp: try_acquire_coalesced_def False serves_def split: option.splits)
  qed
qed

text \<open>One turn keeps the invariant, and its outcome is as it should be.\<close>

lemma candidate_turn_ok:
  assumes inv: "pool_inv fx (tr_pool t)" and hs: "\<forall>xs. set (hs xs) = set xs" and T: "turn \<in> T" "keeps_pool fx turn"
    and plan: "\<forall>pl. plan = Some pl \<longrightarrow> resolved_by T (Inr pl)"
    and r: "candidate_turn fx hs no_coalesced a turn plan t = (t', plan', outcome)"
  shows "pool_inv fx (tr_pool t') \<and> (\<forall>pl. plan' = Some pl \<longrightarrow> resolved_by T (Inr pl)) \<and> outcome_ok fx no_coalesced a T t' outcome"
proof -
  obtain t1 q w where q: "probe_pool fx (tn_is_closed turn) (tn_probe_at turn) a t = (t1, q, w)" by (metis prod_cases3)
  note ok1 = probe_pool_ok [OF inv hs q]
  show ?thesis
  proof (cases q)
    case (Some cb)
    then show ?thesis using r q ok1 plan by (cases cb) (auto simp: candidate_turn_def)
  next
    case None
    obtain t2 ans where ans: "(case plan of Some plan \<Rightarrow> (t1, Inr plan) | None \<Rightarrow> tn_resolve turn t1) = (t2, ans)"
      by (meson surj_pair)
    have ok2: "pool_inv fx (tr_pool t2)" "resolved_by T ans"
      using ans plan T ok1 by (auto simp: keeps_pool_def resolved_by_def split: option.splits) (metis fst_conv snd_conv)+
    show ?thesis
    proof (cases ans)
      case (Inl e)
      then show ?thesis using r q None ans ok2 by (auto simp: candidate_turn_def)
    next
      case (Inr pl)
      obtain t3 x where x: "try_acquire_coalesced fx hs (tn_is_closed turn) (tn_coalesce_at turn) no_coalesced a pl t2 = (t3, x)"
        by (meson surj_pair)
      note ok3 = try_acquire_coalesced_ok [OF ok2(1) hs x]
      show ?thesis using r q None ans Inr x ok2 ok3 T(1)
        by (auto simp: candidate_turn_def split: option.splits prod.splits)
    qed
  qed
qed

lemma acquire_for_candidate_ok:
  assumes "pool_inv fx (tr_pool t)" and hs: "\<forall>xs. set (hs xs) = set xs" and "set turns \<subseteq> T" and "\<forall>turn \<in> T. keeps_pool fx turn"
    and "\<forall>pl. plan = Some pl \<longrightarrow> resolved_by T (Inr pl)"
    and "acquire_for_candidate fx hs no_coalesced a turns plan t = (t', Some outcome)"
  shows "outcome_ok fx no_coalesced a T t' outcome \<and> outcome \<noteq> WaitForWake"
  using assms(1,3-6)
proof (induction turns arbitrary: plan t)
  case (Cons turn turns)
  obtain t1 plan1 o1 where turn: "candidate_turn fx hs no_coalesced a turn plan t = (t1, plan1, o1)" by (metis prod_cases3)
  have T: "turn \<in> T" "keeps_pool fx turn" using Cons.prems(2,3) by auto
  note ok = candidate_turn_ok [OF Cons.prems(1) hs T Cons.prems(4) turn]
  show ?case
  proof (cases "o1 = WaitForWake")
    case True
    have "pool_inv fx (tr_pool (tn_wait turn t1))" using ok T(2) by (simp add: keeps_pool_def)
    then show ?thesis using Cons.IH [OF _ _ Cons.prems(3), of "tn_wait turn t1" plan1] Cons.prems(2,5) ok turn True by simp
  next
    case False
    then show ?thesis using Cons.prems(5) turn ok by (cases o1) auto
  qed
qed simp

text \<open>
  C10. What an exchange gets for a candidate address, however often it waits and whatever the others do to the pool in the
  meantime: an open connection of the pool to that very address; or, unless the request forbids it, an HTTP/2 connection
  that may be coalesced with the addresses the resolver gave for the request; or the leave to connect over these
  addresses, with a permit of the limiter; or an error of the resolver.
\<close>

theorem candidate_gets_suitable_connection:
  assumes "pool_inv fx (tr_pool t)" "\<forall>xs. set (hs xs) = set xs" "\<forall>turn \<in> set turns. keeps_pool fx turn"
    "acquire_for_candidate fx hs no_coalesced a turns None t = (t', Some outcome)"
  shows "outcome_ok fx no_coalesced a (set turns) t' outcome \<and> outcome \<noteq> WaitForWake"
  by (rule acquire_for_candidate_ok [OF assms(1,2) order_refl assms(3) _ assms(4)]) simp

section \<open>A client with one connection\<close>

definition xc_info :: ConnectionInfo where
  "xc_info = \<lparr>ci_id = 7, ci_remote_addr = None, ci_local_addr = None, ci_tls = True\<rparr>"

definition xc_connection :: RealConnection where
  "xc_connection = fresh_connection 0 (ci_id xc_info) (route_direct (ex_address ''a.t'') (SockV4 1 443)) ConnHttp2 None [] 1"

definition xc_settings :: PoolSettings where
  "xc_settings = \<lparr>ps_idle_timeout = None, ps_max_idle_per_address = 5, ps_max_lifetime = None\<rparr>"

definition xc_start :: "unit exchanges" where
  "xc_start = exchanges_new xc_settings (\<lambda>_. ex_conn 0 0)"

definition xc_published :: "unit transport \<times> (WireError, unit AcquiredBinding) result" where
  "xc_published = publish_fresh (\<lambda>_. 0) (\<lambda>_. False) 0 (ex_next xc_start) xc_connection xc_info () (ex_transport xc_start)"

definition xc_spawning :: "unit exchanges" where
  "xc_spawning = (go_on (fst xc_published) (add_mset (Spawning (ex_next xc_start) (AcqHttp2 xc_info ())) (ex_active xc_start)) xc_start)
     \<lparr>ex_next := ex_next xc_start + 1\<rparr>"

definition xc_selected :: "unit exchanges" where
  "xc_selected = go_on (fst (spawn_connection_task (\<lambda>_. 0) (ex_address ''a.t'') 0 (Inr 3) (ex_transport xc_spawning)))
     {#Selected 0 (AcqHttp2 xc_info ())#} xc_spawning"

definition xc_sending :: "unit exchanges" where
  "xc_sending = go_on (ex_transport xc_selected) {#Sending 0 (AcqHttp2 xc_info ())#} xc_selected"

definition xc_cancelled :: "unit exchanges" where
  "xc_cancelled = lose 0 {#} xc_sending"

abbreviation xc_reachable :: "unit exchanges \<Rightarrow> bool" where
  "xc_reachable \<equiv> exchanges_reachable px_env (\<lambda>_. 0) (\<lambda>xs. xs) (\<lambda>_. []) xc_settings"

lemma xc_published_ok: "snd xc_published = Inr (AcqHttp2 xc_info ())"
  by code_simp

lemma xc_spawning_reachable: "xc_reachable xc_spawning"
proof -
  have "exchange_step px_env (\<lambda>_. 0) (\<lambda>xs. xs) (\<lambda>_. []) xc_start xc_spawning"
    unfolding xc_spawning_def
  proof (rule publish_ok)
    show "\<forall>d \<in> pooled_ids (\<lambda>_. 0) (ex_transport xc_start). d \<noteq> ci_id xc_info"
      by (simp add: pooled_ids_def xc_start_def exchanges_new_def transport_new_def set_eviction_hook_def pool_bucket_def
          pool_shard_def pool_new_def)
    show "xc_connection = fresh_connection 0 (ci_id xc_info) (route_direct (ex_address ''a.t'') (SockV4 1 443)) ConnHttp2 None [] 1"
      by (simp add: xc_connection_def)
    show "publish_fresh (\<lambda>_. 0) (\<lambda>_. False) 0 (ex_next xc_start) xc_connection xc_info () (ex_transport xc_start) =
        (fst xc_published, Inr (AcqHttp2 xc_info ()))"
      unfolding xc_published_ok [symmetric] by (simp add: xc_published_def)
  qed
  then show ?thesis unfolding xc_start_def by (rule exchanges_next [OF exchanges_init])
qed

lemma xc_selected_reachable: "xc_reachable xc_selected"
proof (rule exchanges_next [OF xc_spawning_reachable])
  have a: "ex_active xc_spawning = add_mset (Spawning 0 (AcqHttp2 xc_info ())) {#}"
    by (simp add: xc_spawning_def xc_start_def exchanges_new_def)
  have "spawn_connection_task (\<lambda>_. 0) (ex_address ''a.t'') 0 (Inr 3) (ex_transport xc_spawning) =
      (fst (spawn_connection_task (\<lambda>_. 0) (ex_address ''a.t'') 0 (Inr 3) (ex_transport xc_spawning)), Inr ())"
    by (simp add: spawn_connection_task_def)
  from spawn_ok [OF a this] show "exchange_step px_env (\<lambda>_. 0) (\<lambda>xs. xs) (\<lambda>_. []) xc_spawning xc_selected"
    by (simp add: xc_selected_def)
qed


lemma xc_transport:
  "0 \<in> pooled (\<lambda>_. 0) (tr_pool (ex_transport xc_selected))" "\<not> rc_is_closed (heap_of (ex_transport xc_selected) 0)"
  "rc_capacity (heap_of (ex_transport xc_selected) 0) = 1" "ex_transport xc_cancelled = ex_transport xc_selected"
proof -
  have "0 \<in> set (pool_bucket (\<lambda>_. 0) (tr_pool (ex_transport xc_selected)) (ex_address ''a.t''))" by code_simp
  then show "0 \<in> pooled (\<lambda>_. 0) (tr_pool (ex_transport xc_selected))" by (rule pooledI)
  show "\<not> rc_is_closed (heap_of (ex_transport xc_selected) 0)" by code_simp
  show "rc_capacity (heap_of (ex_transport xc_selected) 0) = 1" by code_simp
  show "ex_transport xc_cancelled = ex_transport xc_selected" by (simp add: xc_cancelled_def lose_def xc_sending_def)
qed

theorem exchanges_are_counted_witness:
  "cs_allocations (rc_state (heap_of (ex_transport xc_selected) 0)) = 1 \<and> size (ex_active xc_selected) = 1"
  using exchanges_are_counted [OF xc_selected_reachable] xc_transport(1,2)
  by (simp add: xc_selected_def xc_spawning_def xc_start_def exchanges_new_def)


definition xc_turn :: "unit turn" where
  "xc_turn = \<lparr>tn_is_closed = (\<lambda>_. False), tn_probe_at = 1, tn_coalesce_at = 1,
     tn_resolve = (\<lambda>t. (t, Inl (err_dns ''no such host'' ''nxdomain''))), tn_can_acquire = False, tn_permit = False,
     tn_wait = (\<lambda>t. fst (exchange_release (\<lambda>_. 0) 2 0 t))\<rparr>"

theorem candidate_gets_suitable_connection_witness:
  "\<exists>t. acquire_for_candidate (\<lambda>_. 0) (\<lambda>xs. xs) False (ex_address ''a.t'') [xc_turn, xc_turn] None (ex_transport xc_selected) =
       (t, Some (Reuse 0 (AcqHttp2 xc_info ()) False)) \<and>
     rc_address (heap_of t 0) = ex_address ''a.t''"
proof -
  let ?r = "acquire_for_candidate (\<lambda>_. 0) (\<lambda>xs. xs) False (ex_address ''a.t'') [xc_turn, xc_turn] None (ex_transport xc_selected)"
  have inv: "pool_inv (\<lambda>_. 0) (tr_pool (ex_transport xc_selected))"
    by (rule exchanges_invD(1) [OF exchanges_reachable_inv [OF xc_selected_reachable]]) simp_all
  have turns: "\<forall>turn \<in> set [xc_turn, xc_turn]. keeps_pool (\<lambda>_. 0) turn"
    by (simp add: keeps_pool_def xc_turn_def exchange_release_def finder_release_def pool_release_inv)
  have "snd ?r = Some (Reuse 0 (AcqHttp2 xc_info ()) False)" by code_simp
  then obtain t where t: "?r = (t, Some (Reuse 0 (AcqHttp2 xc_info ()) False))" by (metis prod.collapse)
  show ?thesis using candidate_gets_suitable_connection [OF inv _ turns t] t by simp
qed

end
