(* ===== verification/Transport_Body.thy ===== *)
theory Transport_Body
  imports Transport
begin

text \<open>
  The bodies of an exchange as the transport observes them (\<^verbatim>\<open>openwire/src/transport/body.rs\<close>) and the body that a
  call returns (\<^verbatim>\<open>CallLifecycleBody\<close> of \<^verbatim>\<open>openwire/src/client.rs\<close>).  The body underneath is hyper's or the
  application's: its answers are the input.  The events for the listener are a history; byte counters are taken
  to stay below 2 to the 64.  The bodies in between, for example the decoder, pass the frames on.
\<close>

section \<open>Answers and events\<close>



section \<open>The request body\<close>









definition present_empty_outgoing_body :: "RequestBody \<Rightarrow> bool" where
  "present_empty_outgoing_body body \<longleftrightarrow> \<not> body_is_absent body \<and> body_is_end_stream body"



section \<open>The response body\<close>











section \<open>The body of a call\<close>









section \<open>The events of a response\<close>












section \<open>Properties\<close>













end
