(* ===== verification/Spec2Isabelle.thy ===== *)
theory Spec2Isabelle
  imports Wire_Prelude Wire_Error Http_Types Proxy_Rules Planning Real_Connection Pool Pool_Inv
    Pool_Props WS_Codec WS_Roundtrip WS_Session WS_Engine WS_Sink
    Scheduler Scheduler_Inv Scheduler_Props Request_Body Policy_Defaults Exchange_Finder Call_Types Auth_Challenge
    Follow_Up Follow_Up_Props Cache Cache_Store Cache_Props Proxy_Tunnel Proxy_Tunnel_Props
    Fast_Fallback Fast_Fallback_Props WS_Handshake Compression Bridge WS_Writer WS_Writer_Inv WS_Writer_Props
    Protocol_Binding Conn_Limits Transport Transport_Inv Transport_Props Transport_Body
begin

text \<open>
  A verification development for OpenWire (\<^verbatim>\<open>src/crates\<close>), an HTTP client in Rust with connection pooling, HTTP/2
  coalescing, proxies, retries, redirects, authentication, caching, compression and WebSockets.

  \<^bold>\<open>The program.\<close>  A call passes through a chain.  The follow-up loop answers challenges, retries and redirects; the cache
  may answer; the bridge completes the headers and decodes the response; the transport finds or makes a connection,
  sends the request and streams the response.  To find a connection the transport resolves the proxy candidates to
  addresses, waits for admission, probes the pool, tries to coalesce, and connects along a route plan, racing the
  addresses.  A WebSocket call sends an upgrade request through the same chain and then runs a writer, a reader and a
  heartbeat task on the upgraded connection.

  \<^bold>\<open>Modelling.\<close>  A struct is a record, an enum a datatype, a fallible function returns a sum with the error on the left.
  Byte and port values are words; \<^verbatim>\<open>usize\<close>, \<^verbatim>\<open>u64\<close> and \<^verbatim>\<open>u32\<close> are natural numbers, with the saturation and the bounds
  written out where the code relies on them; instants and durations are nanoseconds.  Shared objects are references
  into a heap.  An operation under one lock is one function; concurrent code is an inductive step relation over such
  functions, so that a property of the reachable states holds for every interleaving.  What comes from other crates (the
  maps of \<^verbatim>\<open>http\<close>, URL parsing, hyper, tokio, codecs, SHA-1, base64, randomness) is a parameter, and what is relied
  on is a named hypothesis, for example \<open>header_map_laws\<close>; a witness instantiates it with a concrete function.

  \<^bold>\<open>Theories and sources\<close> (paths below \<^verbatim>\<open>src/crates\<close>).
  \<^item> \<^emph>\<open>Foundations.\<close>  \<open>Wire_Prelude\<close>: machine types, string functions and collections of the Rust library, shared
    lemmas.  \<open>Wire_Error\<close>: \<^verbatim>\<open>openwire-core/src/error.rs\<close>.  \<open>Http_Types\<close>: what is observed of the \<^verbatim>\<open>http\<close> and \<^verbatim>\<open>url\<close>
    crates.  \<open>Request_Body\<close>: \<^verbatim>\<open>openwire-core/src/body.rs\<close>.  \<open>Call_Types\<close>: requests, extensions and the per-call
    configuration of \<^verbatim>\<open>openwire/src/client.rs\<close>.
  \<^item> \<^emph>\<open>Addresses and proxies.\<close>  \<open>Proxy_Rules\<close>: \<^verbatim>\<open>openwire/src/proxy.rs\<close>.  \<open>Planning\<close>: \<^verbatim>\<open>connection/planning.rs\<close> and
    \<^verbatim>\<open>connection/mod.rs\<close>.  \<open>Exchange_Finder\<close>: \<^verbatim>\<open>connection/exchange_finder.rs\<close>.
  \<^item> \<^emph>\<open>Connections.\<close>  \<open>Real_Connection\<close>: \<^verbatim>\<open>connection/real_connection.rs\<close>, with the locale \<open>bounded_lease\<close> for what is
    handed out up to a capacity.  \<open>Pool\<close>, \<open>Pool_Inv\<close>, \<open>Pool_Props\<close>: \<^verbatim>\<open>connection/pool.rs\<close>; the invariant ties the
    address buckets, the id map and the coalescing index together, and every operation keeps it; acquisition,
    coalescing, pruning and the eviction hook are specified against it.  \<open>Scheduler\<close>, \<open>Scheduler_Inv\<close>,
    \<open>Scheduler_Props\<close>: \<^verbatim>\<open>connection/scheduler.rs\<close> and the request part of \<^verbatim>\<open>limits.rs\<close>; limits, order and absence of
    idle slots.  \<open>Conn_Limits\<close>: the connection part of \<^verbatim>\<open>limits.rs\<close>; the limits hold although semaphores are reclaimed.
  \<^item> \<^emph>\<open>Connecting.\<close>  \<open>Fast_Fallback\<close>, \<open>Fast_Fallback_Props\<close>: \<^verbatim>\<open>connection/fast_fallback.rs\<close>; the outcome of a race and
    that every race ends.  \<open>Proxy_Tunnel\<close>, \<open>Proxy_Tunnel_Props\<close>: SOCKS5 and CONNECT in \<^verbatim>\<open>transport/connect.rs\<close>; what is
    written and read is what the protocols prescribe, and the authentication loop ends.
  \<^item> \<^emph>\<open>Exchanges.\<close>  \<open>Protocol_Binding\<close>: \<^verbatim>\<open>transport/protocol.rs\<close> and the preparation of requests; no forbidden header on
    HTTP/2, reuse of HTTP/1 connections, proxy credentials.  \<open>Transport\<close>, \<open>Transport_Inv\<close>, \<open>Transport_Props\<close>:
    \<^verbatim>\<open>transport/bindings.rs\<close>, \<^verbatim>\<open>transport/service.rs\<close> and the leases of \<^verbatim>\<open>transport/body.rs\<close>; the operations move
    allocations by amounts that add up, the locale \<open>give_back\<close> is the contract of those that end an exchange, and so the
    pool counts exactly the exchanges in progress.  \<open>Transport_Body\<close>: the observed bodies of \<^verbatim>\<open>transport/body.rs\<close> and
    the body of a call; every response is accounted for once.
  \<^item> \<^emph>\<open>Policies and interceptors.\<close>  \<open>Policy_Defaults\<close>: \<^verbatim>\<open>policy/defaults.rs\<close> and \<^verbatim>\<open>openwire-core/src/policy.rs\<close>.
    \<open>Auth_Challenge\<close>: the challenge parser in \<^verbatim>\<open>openwire-core/src/auth.rs\<close> and \<^verbatim>\<open>openwire/src/auth.rs\<close>.
    \<open>Follow_Up\<close>, \<open>Follow_Up_Props\<close>: \<^verbatim>\<open>policy/follow_up.rs\<close>; the loop ends, credentials stay on their origin, bodies are
    replayed unchanged, \<^verbatim>\<open>https\<close> is not downgraded.  \<open>Cache\<close>, \<open>Cache_Store\<close>, \<open>Cache_Props\<close>:
    \<^verbatim>\<open>openwire-cache/src/lib.rs\<close>, with the locale \<open>cache_store\<close> for the contract of a store; the memory store is bounded
    and what is served was stored for a matching request.  \<open>Compression\<close>: \<^verbatim>\<open>openwire/src/compression.rs\<close>.
    \<open>Bridge\<close>: \<^verbatim>\<open>openwire/src/bridge.rs\<close>.
  \<^item> \<^emph>\<open>WebSockets.\<close>  \<open>WS_Codec\<close>, \<open>WS_Roundtrip\<close>, \<open>WS_Session\<close>, \<open>WS_Engine\<close>, \<open>WS_Sink\<close>: the native engine under
    \<^verbatim>\<open>openwire/src/websocket/native\<close>; encoding and decoding are inverse, the result does not depend on how bytes
    arrive in chunks.  \<open>WS_Handshake\<close>: \<^verbatim>\<open>websocket/handshake.rs\<close>.  \<open>WS_Writer\<close>, \<open>WS_Writer_Inv\<close>, \<open>WS_Writer_Props\<close>:
    \<^verbatim>\<open>websocket/writer.rs\<close>, \<^verbatim>\<open>public.rs\<close>, \<^verbatim>\<open>instrumented.rs\<close>; the call ends once, messages keep their order, a close
    frame is last.

  \<^bold>\<open>Loops.\<close>  The follow-up loop and the authentication loop of a tunnel are partial functions: not returning is
  \<^term>\<open>None\<close>, and it is proved that they return.  The loop that waits for a connection runs over a given list of turns, since
  only the others can end the waiting; the value \<^term>\<open>None\<close> is an exchange that still waits.  Readers of streams run over
  the scripts of the answers of the transport.  No other fuel is used.

  \<^bold>\<open>Not modelled.\<close>
  \<^item> The builder and the call futures in \<^verbatim>\<open>openwire/src/client.rs\<close>, and the composition of the layers: they hand values
    on and run the modelled parts on an executor.
  \<^item> In \<^verbatim>\<open>transport/connect.rs\<close> the choice of the route and the TLS hand-over, in \<^verbatim>\<open>transport/protocol.rs\<close> the
    handshakes: they call hyper and the connector traits.
  \<^item> The waiting itself in \<^verbatim>\<open>limits.rs\<close>: a \<^verbatim>\<open>Notify\<close> of tokio.
  \<^item> \<^verbatim>\<open>openwire/src/websocket/transport.rs\<close> apart from its configuration check: it strings the modelled steps together.
  \<^item> \<^verbatim>\<open>openwire/src/logging.rs\<close>, \<^verbatim>\<open>openwire/src/cookie.rs\<close>, and the traits in \<^verbatim>\<open>openwire-core\<close> (events, interceptors,
    runtime, cookies, call context): output, adapters to crates, and interfaces.
  \<^item> The adapters \<^verbatim>\<open>openwire-tokio\<close>, \<^verbatim>\<open>openwire-rustls\<close>, \<^verbatim>\<open>openwire-tungstenite\<close>, \<^verbatim>\<open>openwire-fastwebsockets\<close> and the
    test support \<^verbatim>\<open>openwire-test\<close>: sockets, TLS and other engines.
  \<^item> Poisoned locks, memory exhaustion, tracing, and memory orderings weaker than sequential consistency.
\<close>

end
